(* ===== verification/Nulink_Prelude.thy ===== *)
theory Nulink_Prelude
  imports Main "HOL-Library.AList"
begin

text \<open>
  Shared vocabulary of the development.

  \<^item> Python dictionaries keep insertion order and overwrite in place; they are association lists
    with distinct keys, read with \<open>map_of\<close> and written with \<open>AList.update\<close> and
    \<open>AList.delete\<close>, which behave that way.
  \<^item> Exceptions are the left component of a sum.
  \<^item> Reachability, invariants and maximal runs of a step relation, as a locale with the usual
    induction done once.
  \<^item> The collection \<open>dict_simps\<close> carries the component proofs.
\<close>

named_theorems dict_simps

type_synonym ('k, 'v) dict = "('k \<times> 'v) list"
type_synonym address = string

definition NULL_ADDRESS :: address where
  "NULL_ADDRESS = ''0x'' @ replicate 40 (CHR ''0'')"

definition AVERAGE_BLOCK_TIME_IN_SECONDS :: int where "AVERAGE_BLOCK_TIME_IN_SECONDS = 14"

lemma short_not_NULL_ADDRESS: "length a < 42 \<Longrightarrow> a \<noteq> NULL_ADDRESS"
  by (auto simp: NULL_ADDRESS_def)

abbreviation wf_dict :: "('k, 'v) dict \<Rightarrow> bool" where
  "wf_dict d \<equiv> distinct (map fst d)"

abbreviation dict_get :: "('k, 'v) dict \<Rightarrow> 'k \<Rightarrow> 'v option" where
  "dict_get d k \<equiv> map_of d k"

abbreviation dict_set :: "('k, 'v) dict \<Rightarrow> 'k \<Rightarrow> 'v \<Rightarrow> ('k, 'v) dict" where
  "dict_set d k v \<equiv> AList.update k v d"

abbreviation dict_del :: "('k, 'v) dict \<Rightarrow> 'k \<Rightarrow> ('k, 'v) dict" where
  "dict_del d k \<equiv> AList.delete k d"

abbreviation dict_keys :: "('k, 'v) dict \<Rightarrow> 'k list" where
  "dict_keys d \<equiv> map fst d"

abbreviation dict_values :: "('k, 'v) dict \<Rightarrow> 'v list" where
  "dict_values d \<equiv> map snd d"

text \<open>Python's \<^verbatim>\<open>d.update(e)\<close>: the entries of \<open>e\<close>, in order, over \<open>d\<close>.\<close>

fun dict_update :: "('k, 'v) dict \<Rightarrow> ('k, 'v) dict \<Rightarrow> ('k, 'v) dict" where
  "dict_update d [] = d"
| "dict_update d ((k, v) # e) = dict_update (dict_set d k v) e"

lemma dict_get_set [dict_simps]: "dict_get (dict_set d k v) x = (if x = k then Some v else dict_get d x)"
  by (simp add: update_conv')

lemma dict_get_del [dict_simps]: "dict_get (dict_del d k) x = (if x = k then None else dict_get d x)"
  by (simp add: delete_conv')

lemma wf_dict_set [simp, intro]: "wf_dict d \<Longrightarrow> wf_dict (dict_set d k v)"
  by (rule distinct_update)

lemma wf_dict_del [simp, intro]: "wf_dict d \<Longrightarrow> wf_dict (dict_del d k)"
  by (rule distinct_delete)

lemma set_keys_set [dict_simps]: "set (dict_keys (dict_set d k v)) = insert k (set (dict_keys d))"
  using dom_update [of k v d] by simp

lemma set_keys_del [dict_simps]: "set (dict_keys (dict_del d k)) = set (dict_keys d) - {k}"
  by (simp only: delete_keys set_removeAll)

lemma dom_dict_set: "dom (dict_get (dict_set d k v)) = insert k (dom (dict_get d))"
  by (auto simp: update_conv' split: if_splits)

lemma dom_dict_del: "dom (dict_get (dict_del d k)) = dom (dict_get d) - {k}"
  by (auto simp: delete_conv' split: if_splits)

lemma length_dict_set [dict_simps]:
  "length (dict_set d k v) = (if k \<in> set (dict_keys d) then length d else Suc (length d))"
  by (induction d) auto

lemma set_dict_set_subset: "set (dict_set d k v) \<subseteq> insert (k, v) (set d)"
  by (induction d) auto

lemma in_dict_setD: "p \<in> set (dict_set d k v) \<Longrightarrow> p = (k, v) \<or> p \<in> set d"
  using set_dict_set_subset [of k v d] by blast

lemma dict_get_in_set: "dict_get d k = Some v \<Longrightarrow> (k, v) \<in> set d"
  by (rule map_of_SomeD)

lemma dict_get_None_iff: "dict_get d k = None \<longleftrightarrow> k \<notin> set (dict_keys d)"
  by (simp add: map_of_eq_None_iff)

lemma wf_dict_update [simp, intro]: "wf_dict d \<Longrightarrow> wf_dict (dict_update d e)"
  by (induction d e rule: dict_update.induct) auto

lemma set_keys_update [dict_simps]:
  "set (dict_keys (dict_update d e)) = set (dict_keys d) \<union> set (dict_keys e)"
proof (induction d e rule: dict_update.induct)
  case (2 d k v e)
  then show ?case using dom_update [of k v d] by auto
qed simp

lemma dict_get_update:
  "wf_dict e \<Longrightarrow>
   dict_get (dict_update d e) k = (case dict_get e k of Some v \<Rightarrow> Some v | None \<Rightarrow> dict_get d k)"
proof (induction d e rule: dict_update.induct)
  case (2 d k' v e)
  then have IH: "dict_get (dict_update (dict_set d k' v) e) k =
      (case dict_get e k of Some v \<Rightarrow> Some v | None \<Rightarrow> dict_get (dict_set d k' v) k)"
    by simp
  from 2 have "dict_get e k' = None" by (simp add: map_of_eq_None_iff)
  with IH show ?case by (cases "k = k'") (simp_all add: dict_get_set split: option.splits)
qed simp

lemma length_filter_remove_nth:
  assumes "i < length xs"
  shows "length (take i xs @ drop (Suc i) xs) = length xs - 1"
  using assms by simp

text \<open>Python's \<^verbatim>\<open>xs[i:j]\<close>: negative positions count from the end, all are clipped to the list.\<close>

definition py_index :: "nat \<Rightarrow> int \<Rightarrow> int" where
  "py_index n i = (if i < 0 then max 0 (int n + i) else min (int n) i)"

definition py_slice :: "'a list \<Rightarrow> int \<Rightarrow> int \<Rightarrow> 'a list" where
  "py_slice xs i j =
     (let a = py_index (length xs) i; b = py_index (length xs) j
      in take (nat (b - a)) (drop (nat a) xs))"

subsection \<open>Step relations\<close>

text \<open>The states a step relation reaches from a set of start states.\<close>

inductive reaches :: "('s \<Rightarrow> bool) \<Rightarrow> ('s \<Rightarrow> 's \<Rightarrow> bool) \<Rightarrow> 's \<Rightarrow> bool"
  for start :: "'s \<Rightarrow> bool" and step :: "'s \<Rightarrow> 's \<Rightarrow> bool" where
  reaches_start: "start s \<Longrightarrow> reaches start step s"
| reaches_step: "reaches start step s \<Longrightarrow> step s t \<Longrightarrow> reaches start step t"

text \<open>An interface for invariants: what a component has to show of one step.\<close>

locale step_invariant =
  fixes start :: "'s \<Rightarrow> bool"
    and step :: "'s \<Rightarrow> 's \<Rightarrow> bool"
    and inv :: "'s \<Rightarrow> bool"
  assumes inv_start: "start s \<Longrightarrow> inv s"
    and inv_step: "inv s \<Longrightarrow> step s t \<Longrightarrow> inv t"
begin

lemma reaches_inv: "reaches start step s \<Longrightarrow> inv s"
  by (induction rule: reaches.induct) (auto intro: inv_start inv_step)

lemma steps_inv: "step\<^sup>*\<^sup>* s t \<Longrightarrow> inv s \<Longrightarrow> inv t"
  by (induction rule: rtranclp_induct) (auto intro: inv_step)

lemma reaches_steps: "step\<^sup>*\<^sup>* s t \<Longrightarrow> reaches start step s \<Longrightarrow> reaches start step t"
  by (induction rule: rtranclp_induct) (auto intro: reaches_step)

end

text \<open>
  A step relation whose steps decrease a measure has no infinite run: from every state a run
  leads to a state where nothing can move.
\<close>

locale terminating_steps = step_invariant start step inv
  for start :: "'s \<Rightarrow> bool" and step :: "'s \<Rightarrow> 's \<Rightarrow> bool" and inv :: "'s \<Rightarrow> bool" +
  fixes weight :: "'s \<Rightarrow> nat"
  assumes step_decreases: "inv s \<Longrightarrow> step s t \<Longrightarrow> weight t < weight s"
begin

lemma runs_to_end: "inv s \<Longrightarrow> \<exists>t. step\<^sup>*\<^sup>* s t \<and> inv t \<and> (\<forall>u. \<not> step t u)"
proof (induction "weight s" arbitrary: s rule: less_induct)
  case less
  show ?case
  proof (cases "\<exists>u. step s u")
    case True
    then obtain u where u: "step s u" by blast
    with less.prems have "inv u" and "weight u < weight s"
      by (auto intro: inv_step step_decreases)
    with less.hyps obtain t where "step\<^sup>*\<^sup>* u t" "inv t" "\<forall>v. \<not> step t v" by blast
    with u show ?thesis by (meson converse_rtranclp_into_rtranclp)
  next
    case False
    with less.prems show ?thesis by blast
  qed
qed

lemma run_length_bounded: "inv s \<Longrightarrow> (step ^^ n) s t \<Longrightarrow> n + weight t \<le> weight s"
proof (induction n arbitrary: t)
  case 0
  then show ?case by simp
next
  case (Suc n)
  then obtain u where u: "(step ^^ n) s u" "step u t" by auto
  with Suc.prems have "inv u" by (meson relpowp_imp_rtranclp steps_inv)
  with u have "weight t < weight u" by (blast intro: step_decreases)
  with Suc.IH [OF Suc.prems(1) u(1)] show ?case by simp
qed

end

subsection \<open>Strings\<close>

text \<open>Python's \<^verbatim>\<open>split\<close> at one character.\<close>

fun split_char :: "char \<Rightarrow> string \<Rightarrow> string list" where
  "split_char d [] = [[]]"
| "split_char d (x # xs) =
     (if x = d then [] # split_char d xs else case split_char d xs of p # ps \<Rightarrow> (x # p) # ps | [] \<Rightarrow> [[x]])"

lemma split_char_not_Nil: "split_char d xs \<noteq> []"
  by (induction xs) (auto split: list.splits)

lemma split_char_absent: "d \<notin> set xs \<Longrightarrow> split_char d xs = [xs]"
  by (induction xs) auto

lemma split_char_append: "d \<notin> set xs \<Longrightarrow> split_char d (xs @ d # ys) = xs # split_char d ys"
  by (induction xs) auto

end
