(* ===== verification/Worker_Pool.thy ===== *)
theory Worker_Pool
  imports Nulink_Prelude
begin

text \<open>
  The worker pool of \<^verbatim>\<open>nulink/utilities/concurrency.py\<close>.

  \<^verbatim>\<open>WorkerPool\<close> runs three service threads (the producer, the result processor and the timeout
  guard) beside the worker tasks of a thread pool; they share the queue of results, two
  futures, an event and some counters. The model keeps that shared state in one record and
  gives each thread a program counter. A step is one shared-memory action of one thread: which
  thread moves next is left open, so \<open>pool_step\<close> describes every interleaving. Time is not
  measured: a wait with a timeout may end at any moment.

  The thread pool itself is Twisted's: \<open>callInThread\<close> queues a task and drops it once the pool
  is stopped, and \<open>stop\<close> waits for the tasks in flight. The worker is a relation between
  a value and the outcomes a call may have, the value factory a function on a state of its own.
\<close>

subsection \<open>Futures\<close>

datatype ('a, 'e) future_result = FutValue 'a | FutExc 'e

text \<open>\<open>None\<close> is a future whose event is not set.\<close>

type_synonym ('a, 'e) future = "('a, 'e) future_result option"

definition future_set_result :: "('a, 'e) future_result \<Rightarrow> ('a, 'e) future \<Rightarrow> ('a, 'e) future" where
  "future_set_result r f = (case f of None \<Rightarrow> Some r | Some _ \<Rightarrow> f)"

definition future_set :: "'a \<Rightarrow> ('a, 'e) future \<Rightarrow> ('a, 'e) future" where
  "future_set v = future_set_result (FutValue v)"

definition future_set_exception :: "'e \<Rightarrow> ('a, 'e) future \<Rightarrow> ('a, 'e) future" where
  "future_set_exception e = future_set_result (FutExc e)"

definition future_is_set :: "('a, 'e) future \<Rightarrow> bool" where
  "future_is_set f = (f \<noteq> None)"

text \<open>\<open>get\<close> blocks (outer \<open>None\<close>) until the future is set, then returns or raises.\<close>

definition future_get :: "('a, 'e) future \<Rightarrow> ('e + 'a) option" where
  "future_get f = (case f of None \<Rightarrow> None
     | Some (FutValue v) \<Rightarrow> Some (Inr v)
     | Some (FutExc e) \<Rightarrow> Some (Inl e))"

lemmas future_defs = future_set_def future_set_exception_def future_set_result_def
  future_is_set_def future_get_def

lemma future_write_once: "f \<noteq> None \<Longrightarrow> future_set_result r f = f"
  by (auto simp: future_set_result_def)

lemma future_set_not_None [simp]: "future_set_result r f \<noteq> None"
  by (auto simp: future_set_result_def split: option.splits)

subsection \<open>State\<close>

text \<open>What the queue of results carries.\<close>

datatype ('v, 'r, 'e) pool_msg =
    Success 'v 'r
  | Failure 'v 'e
  | Cancelled
  | ProducerStopped

text \<open>What \<^verbatim>\<open>_target_value\<close> is set to.\<close>

datatype ('v, 'r) target =
    SuccessesReached "('v, 'r) dict"
  | TIMEOUT_TRIGGERED
  | PRODUCER_STOPPED

datatype ('r, 'e) outcome = WorkerReturns 'r | WorkerRaises 'e | WorkerRaisesCancelled

datatype 'v producer_pc = PrIdle | PrDraw | PrLaunch "'v list" | PrSleep | PrFail | PrStop | PrDone

datatype processor_pc =
    PcIdle | PcGet | PcSetTarget | PcCheck | PcCancelReached | PcCancelOut | PcSetOut
  | PcStopPool | PcJoinPool | PcDone

datatype bail_pc = BailIdle | BailWait | BailSet | BailCancel | BailDone

record ('v, 'r, 'e, 'f) worker_pool =
  wp_target_successes :: nat
  wp_successes :: "('v, 'r) dict"
  wp_failures :: "('v, 'e) dict"
  wp_started_tasks :: nat
  wp_finished_tasks :: nat
  wp_cancel_event :: bool
  wp_result_queue :: "('v, 'r, 'e) pool_msg list"
  wp_target_value :: "(('v, 'r) target, 'e) future"
  wp_producer_error :: "(unit, 'e) future"
  wp_threadpool_stopped :: bool
  wp_tp_queue :: "'v list"
  wp_tp_running :: "'v list"
  wp_factory_state :: 'f
  wp_producer_stopped :: bool
  wp_success_event_reached :: bool
  wp_producer :: "'v producer_pc"
  wp_processor :: processor_pc
  wp_bail :: bail_pc

type_synonym ('v, 'e, 'f) value_factory = "nat \<Rightarrow> 'f \<Rightarrow> ('e + 'v list option) \<times> 'f"
type_synonym ('v, 'r, 'e) worker = "'v \<Rightarrow> ('r, 'e) outcome \<Rightarrow> bool"

text \<open>\<^verbatim>\<open>WorkerPool.__init__\<close> and \<^verbatim>\<open>start\<close>.\<close>

definition new_worker_pool :: "nat \<Rightarrow> 'f \<Rightarrow> ('v, 'r, 'e, 'f) worker_pool" where
  "new_worker_pool n f = \<lparr>wp_target_successes = n, wp_successes = [], wp_failures = [],
     wp_started_tasks = 0, wp_finished_tasks = 0, wp_cancel_event = False, wp_result_queue = [],
     wp_target_value = None, wp_producer_error = None, wp_threadpool_stopped = False,
     wp_tp_queue = [], wp_tp_running = [], wp_factory_state = f,
     wp_producer_stopped = False, wp_success_event_reached = False,
     wp_producer = PrIdle, wp_processor = PcIdle, wp_bail = BailIdle\<rparr>"

definition start_pool :: "('v, 'r, 'e, 'f) worker_pool \<Rightarrow> ('v, 'r, 'e, 'f) worker_pool" where
  "start_pool s = s\<lparr>wp_producer := PrDraw, wp_processor := PcGet, wp_bail := BailWait\<rparr>"

subsection \<open>Operations called from outside\<close>

definition cancel_pool :: "('v, 'r, 'e, 'f) worker_pool \<Rightarrow> ('v, 'r, 'e, 'f) worker_pool" where
  "cancel_pool s = s\<lparr>wp_cancel_event := True\<rparr>"

definition stop_threadpool :: "('v, 'r, 'e, 'f) worker_pool \<Rightarrow> ('v, 'r, 'e, 'f) worker_pool" where
  "stop_threadpool s = (if wp_threadpool_stopped s then s else s\<lparr>wp_threadpool_stopped := True\<rparr>)"

text \<open>\<open>Inl\<close>: the exception the producer left behind; it does not block, it is only read when set.\<close>

definition check_for_producer_error :: "('v, 'r, 'e, 'f) worker_pool \<Rightarrow> 'e + unit" where
  "check_for_producer_error s =
     (if future_is_set (wp_producer_error s)
      then (case future_get (wp_producer_error s) of Some r \<Rightarrow> r | None \<Rightarrow> Inr ())
      else Inr ())"

definition get_failures :: "('v, 'r, 'e, 'f) worker_pool \<Rightarrow> ('v, 'e) dict" where
  "get_failures s = wp_failures s"

definition get_successes :: "('v, 'r, 'e, 'f) worker_pool \<Rightarrow> ('v, 'r) dict" where
  "get_successes s = wp_successes s"

definition get_target_successes :: "('v, 'r, 'e, 'f) worker_pool \<Rightarrow> nat" where
  "get_target_successes s = wp_target_successes s"

datatype ('v, 'e) pool_error = TimedOut "('v, 'e) dict" | OutOfValues "('v, 'e) dict" | ProducerError 'e

text \<open>Blocked is the outer \<open>None\<close>.\<close>

definition block_until_target_successes ::
  "('v, 'r, 'e, 'f) worker_pool \<Rightarrow> (('v, 'e) pool_error + ('v, 'r) dict) option" where
  "block_until_target_successes s =
     (case check_for_producer_error s of Inl e \<Rightarrow> Some (Inl (ProducerError e))
      | Inr _ \<Rightarrow>
        (case future_get (wp_target_value s) of
           None \<Rightarrow> None
         | Some (Inl e) \<Rightarrow> Some (Inl (ProducerError e))
         | Some (Inr TIMEOUT_TRIGGERED) \<Rightarrow> Some (Inl (TimedOut (get_failures s)))
         | Some (Inr PRODUCER_STOPPED) \<Rightarrow> Some (Inl (OutOfValues (get_failures s)))
         | Some (Inr (SuccessesReached d)) \<Rightarrow> Some (Inr d)))"

text \<open>\<open>join\<close> returns only when the three service threads are done and the pool has drained.\<close>

definition join_pool ::
  "('v, 'r, 'e, 'f) worker_pool \<Rightarrow> (('e + unit) \<times> ('v, 'r, 'e, 'f) worker_pool) option" where
  "join_pool s =
     (if wp_producer s = PrDone \<and> wp_processor s = PcDone \<and> wp_bail s = BailDone
         \<and> wp_tp_queue s = [] \<and> wp_tp_running s = []
      then let s' = stop_threadpool s in Some (check_for_producer_error s', s')
      else None)"

subsection \<open>The service threads\<close>

text \<open>\<^verbatim>\<open>_bail_on_timeout\<close>: \<open>timed_out\<close> says that the wait ended without the event being set.\<close>

definition bail_on_timeout ::
  "bool \<Rightarrow> ('v, 'r, 'e, 'f) worker_pool \<Rightarrow> ('v, 'r, 'e, 'f) worker_pool option" where
  "bail_on_timeout timed_out s = (case wp_bail s of
       BailWait \<Rightarrow>
         (if wp_cancel_event s then Some (s\<lparr>wp_bail := BailCancel\<rparr>)
          else if timed_out then Some (s\<lparr>wp_bail := BailSet\<rparr>) else None)
     | BailSet \<Rightarrow> Some (s\<lparr>wp_target_value := future_set TIMEOUT_TRIGGERED (wp_target_value s),
                         wp_bail := BailCancel\<rparr>)
     | BailCancel \<Rightarrow> Some ((cancel_pool s)\<lparr>wp_bail := BailDone\<rparr>)
     | _ \<Rightarrow> None)"

text \<open>
  \<^verbatim>\<open>_worker_wrapper\<close> in two actions: the cancellation check when a pool thread picks the task up,
  and the report of the worker's outcome.
\<close>

definition worker_wrapper_begin ::
  "('v, 'r, 'e, 'f) worker_pool \<Rightarrow> ('v, 'r, 'e, 'f) worker_pool option" where
  "worker_wrapper_begin s = (case wp_tp_queue s of
       [] \<Rightarrow> None
     | v # vs \<Rightarrow>
         (if wp_cancel_event s
          then Some (s\<lparr>wp_tp_queue := vs, wp_result_queue := wp_result_queue s @ [Cancelled]\<rparr>)
          else Some (s\<lparr>wp_tp_queue := vs, wp_tp_running := wp_tp_running s @ [v]\<rparr>)))"

fun worker_report :: "'v \<Rightarrow> ('r, 'e) outcome \<Rightarrow> ('v, 'r, 'e) pool_msg" where
  "worker_report v (WorkerReturns r) = Success v r"
| "worker_report v WorkerRaisesCancelled = Cancelled"
| "worker_report v (WorkerRaises e) = Failure v e"

definition worker_wrapper_end ::
  "nat \<Rightarrow> ('r, 'e) outcome \<Rightarrow> ('v, 'r, 'e, 'f) worker_pool \<Rightarrow> ('v, 'r, 'e, 'f) worker_pool option" where
  "worker_wrapper_end i out s =
     (if i < length (wp_tp_running s)
      then Some (s\<lparr>wp_tp_running := take i (wp_tp_running s) @ drop (Suc i) (wp_tp_running s),
                  wp_result_queue := wp_result_queue s @ [worker_report (wp_tp_running s ! i) out]\<rparr>)
      else None)"

text \<open>\<^verbatim>\<open>_process_results\<close>. One result of the queue:\<close>

fun process_result ::
  "('v, 'r, 'e) pool_msg \<Rightarrow> ('v, 'r, 'e, 'f) worker_pool \<Rightarrow> ('v, 'r, 'e, 'f) worker_pool" where
  "process_result ProducerStopped s = s\<lparr>wp_producer_stopped := True, wp_processor := PcCheck\<rparr>"
| "process_result Cancelled s =
     s\<lparr>wp_finished_tasks := Suc (wp_finished_tasks s), wp_processor := PcCheck\<rparr>"
| "process_result (Failure v e) s =
     s\<lparr>wp_finished_tasks := Suc (wp_finished_tasks s),
       wp_failures := dict_set (wp_failures s) v e, wp_processor := PcCheck\<rparr>"
| "process_result (Success v r) s =
     (let succ = dict_set (wp_successes s) v r;
          reached = \<not> wp_success_event_reached s \<and> length succ = wp_target_successes s
      in s\<lparr>wp_finished_tasks := Suc (wp_finished_tasks s), wp_successes := succ,
           wp_success_event_reached := (wp_success_event_reached s \<or> reached),
           wp_processor := (if reached then PcSetTarget else PcCheck)\<rparr>)"

definition process_results ::
  "('v, 'r, 'e, 'f) worker_pool \<Rightarrow> ('v, 'r, 'e, 'f) worker_pool option" where
  "process_results s = (case wp_processor s of
       PcGet \<Rightarrow> (case wp_result_queue s of
            [] \<Rightarrow> None
          | m # q \<Rightarrow> Some (process_result m (s\<lparr>wp_result_queue := q\<rparr>)))
     | PcSetTarget \<Rightarrow>
         Some (s\<lparr>wp_target_value := future_set (SuccessesReached (get_successes s)) (wp_target_value s),
                 wp_processor := PcCheck\<rparr>)
     | PcCheck \<Rightarrow> Some (s\<lparr>wp_processor :=
          (if wp_success_event_reached s then PcCancelReached
           else if wp_producer_stopped s \<and> wp_finished_tasks s = wp_started_tasks s then PcCancelOut
           else PcGet)\<rparr>)
     | PcCancelReached \<Rightarrow> Some ((cancel_pool s)\<lparr>wp_processor := PcStopPool\<rparr>)
     | PcCancelOut \<Rightarrow> Some ((cancel_pool s)\<lparr>wp_processor := PcSetOut\<rparr>)
     | PcSetOut \<Rightarrow> Some (s\<lparr>wp_target_value := future_set PRODUCER_STOPPED (wp_target_value s),
                          wp_processor := PcStopPool\<rparr>)
     | PcStopPool \<Rightarrow> Some ((stop_threadpool s)\<lparr>wp_processor := PcJoinPool\<rparr>)
     | PcJoinPool \<Rightarrow>
         (if wp_tp_queue s = [] \<and> wp_tp_running s = [] then Some (s\<lparr>wp_processor := PcDone\<rparr>) else None)
     | _ \<Rightarrow> None)"

text \<open>
  \<^verbatim>\<open>_produce_values\<close>. \<open>PrDraw\<close> calls the factory and counts the batch; \<open>PrLaunch\<close> hands the
  values over one by one; \<open>PrSleep\<close> ends the stagger wait, by cancellation or by its timeout.
\<close>

definition produce_values ::
  "('v, 'e, 'f) value_factory \<Rightarrow> ('v, 'r, 'e, 'f) worker_pool \<Rightarrow> ('v, 'r, 'e, 'f) worker_pool option" where
  "produce_values factory s = (case wp_producer s of
       PrDraw \<Rightarrow>
         (let (res, f') = factory (length (wp_successes s)) (wp_factory_state s);
              s' = s\<lparr>wp_factory_state := f'\<rparr>
          in case res of
               Inl e \<Rightarrow> Some (s'\<lparr>
                   wp_producer_error := future_set_exception e (wp_producer_error s'),
                   wp_producer := PrFail\<rparr>)
             | Inr None \<Rightarrow> Some (s'\<lparr>wp_producer := PrStop\<rparr>)
             | Inr (Some []) \<Rightarrow> Some (s'\<lparr>wp_producer := PrStop\<rparr>)
             | Inr (Some (b # bs)) \<Rightarrow>
                 Some (s'\<lparr>wp_started_tasks := wp_started_tasks s' + length (b # bs),
                          wp_producer := PrLaunch (b # bs)\<rparr>))
     | PrLaunch [] \<Rightarrow> Some (s\<lparr>wp_producer := PrSleep\<rparr>)
     | PrLaunch (v # vs) \<Rightarrow>
         Some (s\<lparr>wp_tp_queue := (if wp_threadpool_stopped s then wp_tp_queue s else wp_tp_queue s @ [v]),
                 wp_producer := PrLaunch vs\<rparr>)
     | PrSleep \<Rightarrow> Some (s\<lparr>wp_producer := (if wp_cancel_event s then PrStop else PrDraw)\<rparr>)
     | PrFail \<Rightarrow> Some ((cancel_pool s)\<lparr>wp_producer := PrStop\<rparr>)
     | PrStop \<Rightarrow> Some (s\<lparr>wp_result_queue := wp_result_queue s @ [ProducerStopped], wp_producer := PrDone\<rparr>)
     | _ \<Rightarrow> None)"

subsection \<open>All interleavings\<close>

inductive pool_step ::
  "('v, 'e, 'f) value_factory \<Rightarrow> ('v, 'r, 'e) worker
    \<Rightarrow> ('v, 'r, 'e, 'f) worker_pool \<Rightarrow> ('v, 'r, 'e, 'f) worker_pool \<Rightarrow> bool"
  for factory :: "('v, 'e, 'f) value_factory" and worker :: "('v, 'r, 'e) worker" where
  step_produce: "produce_values factory s = Some t \<Longrightarrow> pool_step factory worker s t"
| step_process: "process_results s = Some t \<Longrightarrow> pool_step factory worker s t"
| step_bail: "bail_on_timeout timed_out s = Some t \<Longrightarrow> pool_step factory worker s t"
| step_begin: "worker_wrapper_begin s = Some t \<Longrightarrow> pool_step factory worker s t"
| step_end: "i < length (wp_tp_running s) \<Longrightarrow> worker (wp_tp_running s ! i) out \<Longrightarrow>
     worker_wrapper_end i out s = Some t \<Longrightarrow> pool_step factory worker s t"
| step_cancel: "\<not> wp_cancel_event s \<Longrightarrow> pool_step factory worker s (cancel_pool s)"

text \<open>A pool that has just been started.\<close>

definition pool_started :: "('v, 'r, 'e, 'f) worker_pool \<Rightarrow> bool" where
  "pool_started s \<longleftrightarrow> (\<exists>n f. s = start_pool (new_worker_pool n f))"

abbreviation pool_reachable where
  "pool_reachable factory worker \<equiv> reaches pool_started (pool_step factory worker)"


text \<open>
  A scheduler: it plays a given list of moves and stops with \<open>None\<close> when a move is not possible.
  Every play is a run of \<open>pool_step\<close>; clients of the pool are modelled over any schedule.
\<close>

datatype ('r, 'e) pool_action =
    ActProduce | ActProcess | ActBail bool | ActBegin | ActEnd nat "('r, 'e) outcome" | ActCancel

fun pool_act :: "('v, 'e, 'f) value_factory \<Rightarrow> ('v, 'r, 'e) worker \<Rightarrow> ('r, 'e) pool_action
    \<Rightarrow> ('v, 'r, 'e, 'f) worker_pool \<Rightarrow> ('v, 'r, 'e, 'f) worker_pool option" where
  "pool_act factory worker ActProduce s = produce_values factory s"
| "pool_act factory worker ActProcess s = process_results s"
| "pool_act factory worker (ActBail b) s = bail_on_timeout b s"
| "pool_act factory worker ActBegin s = worker_wrapper_begin s"
| "pool_act factory worker (ActEnd i out) s =
     (if i < length (wp_tp_running s) \<and> worker (wp_tp_running s ! i) out
      then worker_wrapper_end i out s else None)"
| "pool_act factory worker ActCancel s = (if wp_cancel_event s then None else Some (cancel_pool s))"

fun run_pool :: "('v, 'e, 'f) value_factory \<Rightarrow> ('v, 'r, 'e) worker \<Rightarrow> ('r, 'e) pool_action list
    \<Rightarrow> ('v, 'r, 'e, 'f) worker_pool \<Rightarrow> ('v, 'r, 'e, 'f) worker_pool option" where
  "run_pool factory worker [] s = Some s"
| "run_pool factory worker (a # as) s =
     (case pool_act factory worker a s of None \<Rightarrow> None | Some t \<Rightarrow> run_pool factory worker as t)"

lemma pool_act_step: "pool_act factory worker a s = Some t \<Longrightarrow> pool_step factory worker s t"
  by (cases a) (auto intro: pool_step.intros split: if_splits)

lemma run_pool_steps: "run_pool factory worker as s = Some t \<Longrightarrow> (pool_step factory worker)\<^sup>*\<^sup>* s t"
proof (induction as arbitrary: s)
  case (Cons a as)
  then obtain u where "pool_act factory worker a s = Some u" "run_pool factory worker as u = Some t"
    by (auto split: option.splits)
  with Cons.IH show ?case by (meson converse_rtranclp_into_rtranclp pool_act_step)
qed simp

lemma pool_started_start: "pool_started (start_pool (new_worker_pool n f))"
  by (auto simp: pool_started_def)

lemma run_pool_reachable:
  assumes "run_pool factory worker as (start_pool (new_worker_pool n f)) = Some t"
  shows "pool_reachable factory worker t"
  using run_pool_steps [OF assms]
  by (induction rule: rtranclp_induct) (auto intro: reaches_step reaches_start pool_started_start)

subsection \<open>Invariants\<close>

text \<open>Every recorded or queued result is one the worker produced for that value.\<close>

fun msg_ok :: "('v, 'r, 'e) worker \<Rightarrow> ('v, 'r, 'e) pool_msg \<Rightarrow> bool" where
  "msg_ok worker (Success v r) = worker v (WorkerReturns r)"
| "msg_ok worker (Failure v e) = worker v (WorkerRaises e)"
| "msg_ok worker _ = True"

definition inv_results :: "('v, 'r, 'e) worker \<Rightarrow> ('v, 'r, 'e, 'f) worker_pool \<Rightarrow> bool" where
  "inv_results worker s \<longleftrightarrow>
     wf_dict (wp_successes s) \<and> wf_dict (wp_failures s)
     \<and> (\<forall>(v, r) \<in> set (wp_successes s). worker v (WorkerReturns r))
     \<and> (\<forall>(v, e) \<in> set (wp_failures s). worker v (WorkerRaises e))
     \<and> (\<forall>m \<in> set (wp_result_queue s). msg_ok worker m)"

text \<open>Tasks that were counted as started and whose result has not been processed.\<close>

definition launching :: "('v, 'r, 'e, 'f) worker_pool \<Rightarrow> 'v list" where
  "launching s = (case wp_producer s of PrLaunch vs \<Rightarrow> vs | _ \<Rightarrow> [])"

definition in_flight :: "('v, 'r, 'e, 'f) worker_pool \<Rightarrow> nat" where
  "in_flight s = length (launching s) + length (wp_tp_queue s) + length (wp_tp_running s)
     + length (filter (\<lambda>m. m \<noteq> ProducerStopped) (wp_result_queue s))"

definition inv_tasks :: "('v, 'r, 'e, 'f) worker_pool \<Rightarrow> bool" where
  "inv_tasks s \<longleftrightarrow>
     (wp_threadpool_stopped s \<longrightarrow> wp_processor s \<in> {PcJoinPool, PcDone})
     \<and> (\<not> wp_threadpool_stopped s \<longrightarrow> wp_started_tasks s = wp_finished_tasks s + in_flight s)"

definition inv_producer :: "('v, 'r, 'e, 'f) worker_pool \<Rightarrow> bool" where
  "inv_producer s \<longleftrightarrow> wp_producer s \<noteq> PrIdle
     \<and> (wp_producer s = PrDone \<longleftrightarrow> wp_producer_stopped s \<or> ProducerStopped \<in> set (wp_result_queue s))"

definition out_of_values :: "('v, 'r, 'e, 'f) worker_pool \<Rightarrow> bool" where
  "out_of_values s \<longleftrightarrow> wp_producer_stopped s \<and> wp_finished_tasks s = wp_started_tasks s"

text \<open>What holds at each point of the processor's loop.\<close>

fun processor_ok :: "processor_pc \<Rightarrow> bool \<Rightarrow> bool \<Rightarrow> bool \<Rightarrow> bool" where
  "processor_ok PcIdle reached out tset = False"
| "processor_ok PcGet reached out tset = (\<not> reached \<and> \<not> out)"
| "processor_ok PcSetTarget reached out tset = reached"
| "processor_ok PcCheck reached out tset = (reached \<longrightarrow> tset)"
| "processor_ok PcCancelReached reached out tset = (reached \<and> tset)"
| "processor_ok PcCancelOut reached out tset = (\<not> reached \<and> out)"
| "processor_ok PcSetOut reached out tset = (\<not> reached \<and> out)"
| "processor_ok PcStopPool reached out tset = (tset \<and> (reached \<or> out))"
| "processor_ok PcJoinPool reached out tset = (tset \<and> (reached \<or> out))"
| "processor_ok PcDone reached out tset = (tset \<and> (reached \<or> out))"

definition inv_processor :: "('v, 'r, 'e, 'f) worker_pool \<Rightarrow> bool" where
  "inv_processor s \<longleftrightarrow>
     (if wp_success_event_reached s then length (wp_successes s) = wp_target_successes s
      else wp_target_successes s = 0 \<or> length (wp_successes s) < wp_target_successes s)
     \<and> processor_ok (wp_processor s) (wp_success_event_reached s) (out_of_values s)
          (wp_target_value s \<noteq> None)"

text \<open>What the future of the pool can hold, and when.\<close>

fun target_ok :: "(('v, 'r) target, 'e) future \<Rightarrow> bool \<Rightarrow> ('v, 'r) dict \<Rightarrow> processor_pc \<Rightarrow> bail_pc \<Rightarrow> bool" where
  "target_ok None reached succ pc bail = True"
| "target_ok (Some (FutExc e)) reached succ pc bail = False"
| "target_ok (Some (FutValue TIMEOUT_TRIGGERED)) reached succ pc bail = (bail \<in> {BailCancel, BailDone})"
| "target_ok (Some (FutValue (SuccessesReached d))) reached succ pc bail = (reached \<and> d = succ)"
| "target_ok (Some (FutValue PRODUCER_STOPPED)) reached succ pc bail =
     (pc \<in> {PcStopPool, PcJoinPool, PcDone} \<and> \<not> reached)"

definition inv_target :: "('v, 'r, 'e, 'f) worker_pool \<Rightarrow> bool" where
  "inv_target s \<longleftrightarrow> wp_bail s \<noteq> BailIdle \<and>
     target_ok (wp_target_value s) (wp_success_event_reached s) (wp_successes s) (wp_processor s) (wp_bail s)"

definition pool_inv :: "('v, 'r, 'e) worker \<Rightarrow> ('v, 'r, 'e, 'f) worker_pool \<Rightarrow> bool" where
  "pool_inv worker s \<longleftrightarrow> inv_results worker s \<and> inv_tasks s \<and> inv_producer s \<and> inv_processor s \<and> inv_target s"

lemmas pool_inv_defs = pool_inv_def inv_results_def inv_tasks_def inv_producer_def
  inv_processor_def inv_target_def out_of_values_def in_flight_def launching_def

lemmas pool_op_defs = cancel_pool_def stop_threadpool_def get_successes_def future_defs

lemma pool_inv_start: "pool_started s \<Longrightarrow> pool_inv worker s"
  by (auto simp: pool_started_def start_pool_def new_worker_pool_def pool_inv_defs)

subsubsection \<open>The producer\<close>

text \<open>Which part of the state the producer leaves alone, and how its program counter moves.\<close>

lemma produce_values_frame:
  assumes "produce_values factory s = Some t"
  shows "wp_successes t = wp_successes s" "wp_failures t = wp_failures s"
    "wp_processor t = wp_processor s" "wp_target_value t = wp_target_value s"
    "wp_success_event_reached t = wp_success_event_reached s"
    "wp_producer_stopped t = wp_producer_stopped s"
    "wp_finished_tasks t = wp_finished_tasks s" "wp_threadpool_stopped t = wp_threadpool_stopped s"
    "wp_bail t = wp_bail s" "wp_tp_running t = wp_tp_running s"
    "wp_target_successes t = wp_target_successes s"
    "wp_cancel_event s \<Longrightarrow> wp_cancel_event t"
  using assms
  by (auto simp: produce_values_def cancel_pool_def Let_def
    split: producer_pc.splits list.splits prod.splits sum.splits option.splits)

lemma produce_values_cases:
  assumes "produce_values factory s = Some t"
  obtains (draw) b bs where "wp_producer s = PrDraw" "wp_producer t = PrLaunch (b # bs)"
      "factory (length (wp_successes s)) (wp_factory_state s) = (Inr (Some (b # bs)), wp_factory_state t)"
      "wp_started_tasks t = wp_started_tasks s + length (b # bs)"
      "wp_tp_queue t = wp_tp_queue s" "wp_result_queue t = wp_result_queue s"
      "wp_cancel_event t = wp_cancel_event s"
    | (no_values) "wp_producer s \<in> {PrDraw, PrSleep, PrFail}" "wp_producer t \<in> {PrFail, PrStop}"
      "wp_producer s = PrFail \<Longrightarrow> wp_producer t = PrStop"
      "wp_started_tasks t = wp_started_tasks s"
      "wp_tp_queue t = wp_tp_queue s" "wp_result_queue t = wp_result_queue s"
    | (launch) v vs where "wp_producer s = PrLaunch (v # vs)" "wp_producer t = PrLaunch vs"
      "wp_tp_queue t = (if wp_threadpool_stopped s then wp_tp_queue s else wp_tp_queue s @ [v])"
      "wp_started_tasks t = wp_started_tasks s" "wp_result_queue t = wp_result_queue s"
      "wp_factory_state t = wp_factory_state s" "wp_cancel_event t = wp_cancel_event s"
    | (pause) "wp_producer s = PrLaunch [] \<and> wp_producer t = PrSleep
               \<or> wp_producer s = PrSleep \<and> wp_producer t = PrDraw"
      "wp_started_tasks t = wp_started_tasks s" "wp_tp_queue t = wp_tp_queue s"
      "wp_result_queue t = wp_result_queue s" "wp_factory_state t = wp_factory_state s"
      "wp_cancel_event t = wp_cancel_event s"
    | (stop) "wp_producer s = PrStop" "wp_producer t = PrDone"
      "wp_result_queue t = wp_result_queue s @ [ProducerStopped]"
      "wp_started_tasks t = wp_started_tasks s" "wp_tp_queue t = wp_tp_queue s"
      "wp_factory_state t = wp_factory_state s" "wp_cancel_event t = wp_cancel_event s"
  using assms
  by (auto simp: produce_values_def cancel_pool_def Let_def
    split: producer_pc.splits list.splits prod.splits sum.splits option.splits if_splits)

lemma produce_values_inv_results:
  assumes "inv_results worker s" "produce_values factory s = Some t"
  shows "inv_results worker t"
  using assms(2)
proof (cases rule: produce_values_cases)
qed (use assms(1) in \<open>auto simp: inv_results_def produce_values_frame [OF assms(2)]\<close>)

lemma produce_values_inv_tasks:
  assumes "inv_tasks s" "produce_values factory s = Some t"
  shows "inv_tasks t"
  using assms(2)
proof (cases rule: produce_values_cases)
qed (use assms(1) in \<open>auto simp: inv_tasks_def in_flight_def launching_def
    produce_values_frame [OF assms(2)]\<close>)

lemma produce_values_inv_producer:
  assumes "inv_producer s" "produce_values factory s = Some t"
  shows "inv_producer t"
  using assms(2)
proof (cases rule: produce_values_cases)
qed (use assms(1) in \<open>auto simp: inv_producer_def produce_values_frame [OF assms(2)]\<close>)

lemma produce_values_out_of_values:
  assumes "inv_producer s" "produce_values factory s = Some t"
  shows "out_of_values t = out_of_values s"
  using assms(2)
proof (cases rule: produce_values_cases)
qed (use assms(1) in \<open>auto simp: inv_producer_def out_of_values_def produce_values_frame [OF assms(2)]\<close>)

lemma produce_values_inv:
  assumes "pool_inv worker s" "produce_values factory s = Some t"
  shows "pool_inv worker t"
  using assms unfolding pool_inv_def
  by (auto simp: inv_processor_def inv_target_def produce_values_frame [OF assms(2)]
    produce_values_out_of_values [of s factory t]
    intro: produce_values_inv_results produce_values_inv_tasks produce_values_inv_producer)

subsubsection \<open>The timeout guard and the worker tasks\<close>

lemma pool_invE:
  assumes "pool_inv worker s"
  obtains "inv_results worker s" "inv_tasks s" "inv_producer s" "inv_processor s" "inv_target s"
  using assms by (simp add: pool_inv_def)

lemma bail_on_timeout_frame:
  assumes "bail_on_timeout b s = Some t"
  shows "t = s\<lparr>wp_cancel_event := wp_cancel_event t, wp_target_value := wp_target_value t, wp_bail := wp_bail t\<rparr>"
    "wp_bail t \<noteq> BailIdle"
    "wp_bail s \<in> {BailCancel, BailDone} \<Longrightarrow> wp_bail t \<in> {BailCancel, BailDone}"
    "wp_target_value t = wp_target_value s \<or> wp_target_value s = None
        \<and> wp_target_value t = Some (FutValue TIMEOUT_TRIGGERED) \<and> wp_bail t = BailCancel"
    "wp_cancel_event s \<Longrightarrow> wp_cancel_event t"
  using assms
  by (cases s; auto simp: bail_on_timeout_def cancel_pool_def future_defs
    split: if_splits bail_pc.splits option.splits)+

lemma processor_ok_mono: "processor_ok pc r out t \<Longrightarrow> (t \<Longrightarrow> t') \<Longrightarrow> processor_ok pc r out t'"
  by (cases pc) auto

lemma target_ok_bail:
  "target_ok tv r d pc bail \<Longrightarrow> (bail \<in> {BailCancel, BailDone} \<Longrightarrow> bail' \<in> {BailCancel, BailDone})
    \<Longrightarrow> target_ok tv r d pc bail'"
  by (cases "(tv, r, d, pc, bail)" rule: target_ok.cases) auto

lemma bail_on_timeout_inv:
  assumes "pool_inv worker s" "bail_on_timeout b s = Some t"
  shows "pool_inv worker t"
proof -
  define c tv pc where "c = wp_cancel_event t" and tv_eq: "tv = wp_target_value t" and pc_eq: "pc = wp_bail t"
  have t: "t = s\<lparr>wp_cancel_event := c, wp_target_value := tv, wp_bail := pc\<rparr>"
    using bail_on_timeout_frame(1) [OF assms(2)] by (simp add: c_def tv_eq pc_eq)
  note pc = bail_on_timeout_frame(2,3) [OF assms(2), folded pc_eq]
  note tv = bail_on_timeout_frame(4) [OF assms(2), folded tv_eq pc_eq]
  from assms(1) show ?thesis
  proof (rule pool_invE)
    assume a: "inv_results worker s" "inv_tasks s" "inv_producer s" "inv_processor s" "inv_target s"
    have "inv_results worker t" "inv_tasks t" "inv_producer t"
      using a(1-3) by (simp_all add: t inv_results_def inv_tasks_def inv_producer_def in_flight_def
        launching_def)
    moreover have "inv_processor t"
      using a(4) tv by (auto simp: t inv_processor_def out_of_values_def intro: processor_ok_mono)
    moreover have "inv_target t"
      using a(5) tv pc by (auto simp: t inv_target_def intro: target_ok_bail)
    ultimately show ?thesis by (simp add: pool_inv_def)
  qed
qed

text \<open>A step of a worker task moves one task between the queues and touches nothing else.\<close>

lemma task_move_inv:
  assumes "pool_inv worker s"
    and "length tq + length tr + length (filter (\<lambda>m. m \<noteq> ProducerStopped) rq)
         = length (wp_tp_queue s) + length (wp_tp_running s)
           + length (filter (\<lambda>m. m \<noteq> ProducerStopped) (wp_result_queue s))"
    and "\<forall>m \<in> set rq. msg_ok worker m"
    and "ProducerStopped \<in> set rq \<longleftrightarrow> ProducerStopped \<in> set (wp_result_queue s)"
  shows "pool_inv worker (s\<lparr>wp_tp_queue := tq, wp_tp_running := tr, wp_result_queue := rq\<rparr>)"
    (is "pool_inv worker ?t")
  using assms(1)
proof (rule pool_invE)
  assume a: "inv_results worker s" "inv_tasks s" "inv_producer s" "inv_processor s" "inv_target s"
  have "inv_results worker ?t" using a(1) assms(3) by (simp add: inv_results_def)
  moreover have "inv_tasks ?t"
    using a(2) assms(2) by (simp add: inv_tasks_def in_flight_def launching_def add.assoc)
  moreover have "inv_producer ?t" using a(3) assms(4) by (simp add: inv_producer_def)
  moreover have "inv_processor ?t" using a(4) by (simp add: inv_processor_def out_of_values_def)
  moreover have "inv_target ?t" using a(5) by (simp add: inv_target_def)
  ultimately show ?thesis by (simp add: pool_inv_def)
qed

lemma pool_inv_queue_ok: "pool_inv worker s \<Longrightarrow> \<forall>m \<in> set (wp_result_queue s). msg_ok worker m"
  by (simp add: pool_inv_def inv_results_def)

lemma worker_wrapper_begin_inv:
  assumes "pool_inv worker s" "worker_wrapper_begin s = Some t"
  shows "pool_inv worker t"
proof -
  from assms(2) obtain v vs where q: "wp_tp_queue s = v # vs"
    by (auto simp: worker_wrapper_begin_def split: list.splits)
  let ?tr = "if wp_cancel_event s then wp_tp_running s else wp_tp_running s @ [v]"
  let ?rq = "if wp_cancel_event s then wp_result_queue s @ [Cancelled] else wp_result_queue s"
  have t: "t = s\<lparr>wp_tp_queue := vs, wp_tp_running := ?tr, wp_result_queue := ?rq\<rparr>"
    using assms(2) q by (auto simp: worker_wrapper_begin_def)
  show ?thesis unfolding t
    by (rule task_move_inv [OF assms(1)]) (use q pool_inv_queue_ok [OF assms(1)] in auto)
qed

lemma worker_report_ok: "worker v out \<Longrightarrow> msg_ok worker (worker_report v out)"
  by (cases out) auto

lemma worker_report_not_stop [simp]:
  "worker_report v out \<noteq> ProducerStopped" "ProducerStopped \<noteq> worker_report v out"
  by (cases out; simp)+

lemma worker_wrapper_end_inv:
  assumes "pool_inv worker s" "worker_wrapper_end i out s = Some t" "worker (wp_tp_running s ! i) out"
  shows "pool_inv worker t"
proof -
  from assms(2) have i: "i < length (wp_tp_running s)"
    by (simp add: worker_wrapper_end_def split: if_splits)
  have t: "t = s\<lparr>wp_tp_queue := wp_tp_queue s,
      wp_tp_running := take i (wp_tp_running s) @ drop (Suc i) (wp_tp_running s),
      wp_result_queue := wp_result_queue s @ [worker_report (wp_tp_running s ! i) out]\<rparr>"
    using assms(2) i by (simp add: worker_wrapper_end_def)
  show ?thesis unfolding t
    by (rule task_move_inv [OF assms(1)])
      (use i pool_inv_queue_ok [OF assms(1)] assms(3) in \<open>auto intro: worker_report_ok\<close>)
qed

lemma cancel_pool_inv: "pool_inv worker s \<Longrightarrow> pool_inv worker (cancel_pool s)"
  by (auto elim!: pool_invE simp: pool_inv_def inv_results_def inv_tasks_def inv_producer_def
    inv_processor_def inv_target_def out_of_values_def in_flight_def launching_def cancel_pool_def)

subsubsection \<open>The result processor\<close>

text \<open>Taking one message off the queue.\<close>

lemma process_result_inv:
  assumes inv: "pool_inv worker s" and pc: "wp_processor s = PcGet" and q: "wp_result_queue s = m # q"
  shows "pool_inv worker (process_result m (s\<lparr>wp_result_queue := q\<rparr>))" (is "pool_inv worker ?t")
  using inv
proof (rule pool_invE)
  assume a: "inv_results worker s" "inv_tasks s" "inv_producer s" "inv_processor s" "inv_target s"
  have ns: "\<not> wp_threadpool_stopped s" and nr: "\<not> wp_success_event_reached s"
    using a(2,4) pc by (auto simp: inv_tasks_def inv_processor_def)
  have "inv_results worker ?t"
    using a(1) q by (cases m) (auto simp: inv_results_def Let_def dest!: in_dict_setD)
  moreover have "inv_tasks ?t"
    using a(2) q ns by (cases m) (auto simp: inv_tasks_def in_flight_def launching_def Let_def)
  moreover have "inv_producer ?t"
    using a(3) q by (cases m) (auto simp: inv_producer_def Let_def)
  moreover have "inv_processor ?t"
    using a(4) nr q by (cases m) (auto simp: inv_processor_def Let_def length_dict_set split: if_splits)
  moreover have "inv_target ?t"
    using a(5) nr pc by (cases m; cases "(wp_target_value s, False, wp_successes s, PcGet, wp_bail s)" rule: target_ok.cases)
      (auto simp: inv_target_def Let_def)
  ultimately show ?thesis by (simp add: pool_inv_def)
qed

text \<open>The other points of the loop change only the program counter and the target.\<close>

lemma processor_move_inv:
  assumes inv: "pool_inv worker s"
    and pc: "processor_ok pc (wp_success_event_reached s) (out_of_values s) (tv \<noteq> None)"
    and stp: "stp \<longrightarrow> pc \<in> {PcJoinPool, PcDone}" "wp_threadpool_stopped s \<longrightarrow> stp"
    and tv: "target_ok tv (wp_success_event_reached s) (wp_successes s) pc (wp_bail s)"
  shows "pool_inv worker (s\<lparr>wp_cancel_event := c, wp_target_value := tv,
           wp_threadpool_stopped := stp, wp_processor := pc\<rparr>)" (is "pool_inv worker ?t")
  using inv
proof (rule pool_invE)
  assume a: "inv_results worker s" "inv_tasks s" "inv_producer s" "inv_processor s" "inv_target s"
  have "inv_results worker ?t" "inv_producer ?t"
    using a(1,3) by (simp_all add: inv_results_def inv_producer_def)
  moreover have "inv_tasks ?t"
    using a(2) stp by (auto simp: inv_tasks_def in_flight_def launching_def)
  moreover have "inv_processor ?t" using a(4) pc by (simp add: inv_processor_def out_of_values_def)
  moreover have "inv_target ?t" using a(5) tv by (simp add: inv_target_def)
  ultimately show ?thesis by (simp add: pool_inv_def)
qed

lemma target_ok_pc:
  "target_ok tv r d pc bail \<Longrightarrow> pc' \<in> {PcStopPool, PcJoinPool, PcDone} \<or> pc \<notin> {PcStopPool, PcJoinPool, PcDone}
    \<Longrightarrow> target_ok tv r d pc' bail"
  by (cases "(tv, r, d, pc, bail)" rule: target_ok.cases) auto

lemma process_results_inv:
  assumes inv: "pool_inv worker s" and step: "process_results s = Some t"
  shows "pool_inv worker t"
proof (cases "wp_processor s = PcGet")
  case True
  with step obtain m q where "wp_result_queue s = m # q" "t = process_result m (s\<lparr>wp_result_queue := q\<rparr>)"
    by (auto simp: process_results_def split: list.splits)
  with process_result_inv [OF inv True] show ?thesis by simp
next
  case False
  let ?tv = "case wp_processor s of PcSetTarget \<Rightarrow> future_set (SuccessesReached (wp_successes s)) (wp_target_value s)
     | PcSetOut \<Rightarrow> future_set PRODUCER_STOPPED (wp_target_value s) | _ \<Rightarrow> wp_target_value s"
  have t: "t = s\<lparr>wp_cancel_event := wp_cancel_event t, wp_target_value := ?tv,
       wp_threadpool_stopped := wp_threadpool_stopped t, wp_processor := wp_processor t\<rparr>"
    using step False by (cases s) (auto simp: process_results_def pool_op_defs split: processor_pc.splits if_splits)
  have inv_parts: "inv_tasks s" "inv_processor s" "inv_target s"
    using inv by (auto simp: pool_inv_def)
  have pc: "processor_ok (wp_processor t) (wp_success_event_reached s) (out_of_values s) (?tv \<noteq> None)"
    using step False inv_parts(2)
    by (cases "wp_processor s")
       (auto simp: process_results_def inv_processor_def out_of_values_def pool_op_defs
          split: if_splits option.splits)
  have stp: "wp_threadpool_stopped t \<longrightarrow> wp_processor t \<in> {PcJoinPool, PcDone}"
      "wp_threadpool_stopped s \<longrightarrow> wp_threadpool_stopped t"
    using step False inv_parts(1)
    by (cases "wp_processor s"; auto simp: process_results_def inv_tasks_def pool_op_defs split: if_splits)+
  have tv: "target_ok ?tv (wp_success_event_reached s) (wp_successes s) (wp_processor t) (wp_bail s)"
    using step False inv_parts(2,3)
    by (cases "wp_processor s"; cases "wp_target_value s")
       (auto simp: process_results_def inv_target_def inv_processor_def pool_op_defs
          split: if_splits intro: target_ok_pc)
  from processor_move_inv [OF inv pc stp tv] show ?thesis by (subst t)
qed

theorem pool_step_inv: "pool_inv worker s \<Longrightarrow> pool_step factory worker s t \<Longrightarrow> pool_inv worker t"
  by (erule pool_step.cases)
     (auto intro: produce_values_inv process_results_inv bail_on_timeout_inv worker_wrapper_begin_inv
       worker_wrapper_end_inv cancel_pool_inv)

interpretation wp: step_invariant pool_started "pool_step factory worker" "pool_inv worker"
  for factory :: "('v, 'e, 'f) value_factory" and worker :: "('v, 'r, 'e) worker"
  by unfold_locales (auto intro: pool_inv_start pool_step_inv)

subsection \<open>The future is written once\<close>

lemma future_keeps: "f = Some r \<Longrightarrow> future_set v f = Some r"
  by (simp add: future_defs)

lemma pool_step_target_stable:
  assumes "pool_step factory worker s t" "wp_target_value s = Some r"
  shows "wp_target_value t = Some r"
  using assms(1)
proof cases
  case step_produce
  with assms(2) show ?thesis by (simp add: produce_values_frame)
next
  case step_process
  show ?thesis
  proof (cases "wp_processor s = PcGet")
    case True
    with step_process assms(2) obtain m q where "t = process_result m (s\<lparr>wp_result_queue := q\<rparr>)"
      by (auto simp: process_results_def split: list.splits)
    with assms(2) show ?thesis by (cases m) (auto simp: Let_def)
  next
    case False
    with step_process assms(2) show ?thesis
      by (auto simp: process_results_def cancel_pool_def stop_threadpool_def future_keeps
        split: processor_pc.splits if_splits)
  qed
next
  case (step_bail timed_out)
  with assms(2) show ?thesis using bail_on_timeout_frame(4) by fastforce
qed (use assms(2) in \<open>auto simp: worker_wrapper_begin_def worker_wrapper_end_def cancel_pool_def
    split: list.splits if_splits\<close>)

lemma pool_steps_target_stable:
  assumes "(pool_step factory worker)\<^sup>*\<^sup>* s t" "wp_target_value s = Some r"
  shows "wp_target_value t = Some r"
  using assms by (induction rule: rtranclp_induct) (auto intro: pool_step_target_stable)

subsection \<open>Termination\<close>

text \<open>
  A weight that every step decreases, provided that the value factory cannot hand out values for
  ever: \<open>remaining\<close> bounds what it still has.
\<close>

fun producer_weight :: "nat \<Rightarrow> 'v producer_pc \<Rightarrow> nat" where
  "producer_weight n PrIdle = 0"
| "producer_weight n PrDraw = 12 * n + 10"
| "producer_weight n (PrLaunch vs) = 12 * n + 13 + 7 * length vs"
| "producer_weight n PrSleep = 12 * n + 12"
| "producer_weight n PrFail = 9"
| "producer_weight n PrStop = 8"
| "producer_weight n PrDone = 0"

fun processor_weight :: "processor_pc \<Rightarrow> nat" where
  "processor_weight PcIdle = 0"
| "processor_weight PcGet = 10"
| "processor_weight PcSetTarget = 12"
| "processor_weight PcCheck = 11"
| "processor_weight PcCancelReached = 5"
| "processor_weight PcCancelOut = 5"
| "processor_weight PcSetOut = 4"
| "processor_weight PcStopPool = 3"
| "processor_weight PcJoinPool = 2"
| "processor_weight PcDone = 0"

fun bail_weight :: "bail_pc \<Rightarrow> nat" where
  "bail_weight BailIdle = 0"
| "bail_weight BailWait = 3"
| "bail_weight BailSet = 2"
| "bail_weight BailCancel = 1"
| "bail_weight BailDone = 0"

definition pool_weight :: "('f \<Rightarrow> nat) \<Rightarrow> ('v, 'r, 'e, 'f) worker_pool \<Rightarrow> nat" where
  "pool_weight remaining s =
     producer_weight (remaining (wp_factory_state s)) (wp_producer s)
     + 6 * length (wp_tp_queue s) + 5 * length (wp_tp_running s) + 4 * length (wp_result_queue s)
     + processor_weight (wp_processor s) + bail_weight (wp_bail s)
     + (if wp_cancel_event s then 0 else 1)"

text \<open>What the pool asks of a value factory and of a worker.\<close>

locale draining_factory =
  fixes factory :: "('v, 'e, 'f) value_factory"
    and remaining :: "'f \<Rightarrow> nat"
  assumes drains: "factory n f = (Inr (Some (b # bs)), f') \<Longrightarrow> remaining f' + length (b # bs) \<le> remaining f"

locale pool_run = draining_factory factory remaining
  for factory :: "('v, 'e, 'f) value_factory" and remaining :: "'f \<Rightarrow> nat" +
  fixes worker :: "('v, 'r, 'e) worker"
  assumes worker_returns: "\<exists>out. worker v out"
begin

lemma produce_values_weight:
  assumes "produce_values factory s = Some t"
  shows "pool_weight remaining t < pool_weight remaining s"
  using assms
proof (cases rule: produce_values_cases)
  case (draw b bs)
  from drains [OF draw(3)] draw show ?thesis
    by (simp add: pool_weight_def produce_values_frame [OF assms])
next
  case no_values
  then show ?thesis
    using produce_values_frame(12) [OF assms]
    by (auto simp: pool_weight_def produce_values_frame(1-11) [OF assms])
next
  case (launch v vs)
  then show ?thesis by (simp add: pool_weight_def produce_values_frame(1-11) [OF assms])
next
  case pause
  then show ?thesis by (auto simp: pool_weight_def produce_values_frame(1-11) [OF assms])
next
  case stop
  then show ?thesis by (simp add: pool_weight_def produce_values_frame(1-11) [OF assms])
qed

lemma process_results_weight:
  assumes "process_results s = Some t"
  shows "pool_weight remaining t < pool_weight remaining s"
proof (cases "wp_processor s = PcGet")
  case True
  with assms obtain m q where q: "wp_result_queue s = m # q" "t = process_result m (s\<lparr>wp_result_queue := q\<rparr>)"
    by (auto simp: process_results_def split: list.splits)
  with True show ?thesis by (cases m) (auto simp: pool_weight_def Let_def)
next
  case False
  with assms show ?thesis
    by (auto simp: process_results_def pool_weight_def cancel_pool_def stop_threadpool_def
      split: processor_pc.splits if_splits)
qed

lemma bail_on_timeout_weight:
  "bail_on_timeout b s = Some t \<Longrightarrow> pool_weight remaining t < pool_weight remaining s"
  by (auto simp: bail_on_timeout_def pool_weight_def cancel_pool_def split: bail_pc.splits if_splits)

lemma worker_wrapper_begin_weight:
  "worker_wrapper_begin s = Some t \<Longrightarrow> pool_weight remaining t < pool_weight remaining s"
  by (auto simp: worker_wrapper_begin_def pool_weight_def split: list.splits if_splits)

lemma worker_wrapper_end_weight:
  "worker_wrapper_end i out s = Some t \<Longrightarrow> pool_weight remaining t < pool_weight remaining s"
  by (auto simp: worker_wrapper_end_def pool_weight_def split: if_splits)

lemma cancel_pool_weight:
  "\<not> wp_cancel_event s \<Longrightarrow> pool_weight remaining (cancel_pool s) < pool_weight remaining s"
  by (simp add: cancel_pool_def pool_weight_def)

lemma pool_step_weight:
  "pool_step factory worker s t \<Longrightarrow> pool_weight remaining t < pool_weight remaining s"
  by (erule pool_step.cases)
     (auto intro: produce_values_weight process_results_weight bail_on_timeout_weight
       worker_wrapper_begin_weight worker_wrapper_end_weight cancel_pool_weight)

end

sublocale pool_run \<subseteq> ts: terminating_steps pool_started "pool_step factory worker" "pool_inv worker"
    "pool_weight remaining"
  by unfold_locales (auto intro: pool_inv_start pool_step_inv pool_step_weight)

context pool_run
begin

text \<open>A state in which nothing can move is one in which everything has finished.\<close>

lemma stuck_finished:
  assumes inv: "pool_inv worker s" and stuck: "\<forall>t. \<not> pool_step factory worker s t"
  shows "wp_producer s = PrDone" "wp_processor s = PcDone" "wp_bail s = BailDone"
    "wp_tp_queue s = []" "wp_tp_running s = []"
proof -
  have "produce_values factory s = None" "process_results s = None" "worker_wrapper_begin s = None"
      "bail_on_timeout True s = None"
    using stuck pool_step.intros by (metis not_None_eq)+
  note none = this
  show pr: "wp_producer s = PrDone"
    using none(1) inv
    by (auto simp: produce_values_def pool_inv_def inv_producer_def Let_def
      split: producer_pc.splits list.splits prod.splits sum.splits option.splits)
  show tq: "wp_tp_queue s = []"
    using none(3) by (auto simp: worker_wrapper_begin_def split: list.splits if_splits)
  show tr: "wp_tp_running s = []"
  proof (rule ccontr)
    assume "wp_tp_running s \<noteq> []"
    then have "0 < length (wp_tp_running s)" by simp
    moreover obtain out where "worker (wp_tp_running s ! 0) out" using worker_returns by blast
    ultimately show False using stuck step_end [of 0 s worker out] by (auto simp: worker_wrapper_end_def)
  qed
  show "wp_bail s = BailDone"
    using none(4) inv by (auto simp: bail_on_timeout_def pool_inv_def inv_target_def split: bail_pc.splits if_splits)
  show "wp_processor s = PcDone"
  proof (rule ccontr)
    assume nd: "wp_processor s \<noteq> PcDone"
    with none(2) inv tq tr have get: "wp_processor s = PcGet" "wp_result_queue s = []"
      by (auto simp: process_results_def pool_inv_def inv_processor_def split: processor_pc.splits list.splits)
    with pr inv have "wp_producer_stopped s" by (auto simp: pool_inv_def inv_producer_def)
    moreover have "wp_finished_tasks s = wp_started_tasks s"
      using inv get tq tr pr by (auto simp: pool_inv_def inv_tasks_def in_flight_def launching_def)
    ultimately show False using inv get by (auto simp: pool_inv_def inv_processor_def out_of_values_def)
  qed
qed

lemma stuck_returns:
  assumes "pool_inv worker t" and "\<forall>u. \<not> pool_step factory worker t u"
  shows "block_until_target_successes t \<noteq> None \<and> join_pool t \<noteq> None"
proof -
  note fin = stuck_finished [OF assms]
  have "wp_target_value t \<noteq> None"
    using assms(1) fin(2) by (auto simp: pool_inv_def inv_processor_def)
  then have "block_until_target_successes t \<noteq> None"
    by (auto simp: block_until_target_successes_def future_get_def
      split: sum.splits future_result.splits target.splits)
  moreover have "join_pool t \<noteq> None" using fin by (simp add: join_pool_def Let_def)
  ultimately show ?thesis by blast
qed

lemma reaches_end: "pool_inv worker s \<Longrightarrow>
    \<exists>t. (pool_step factory worker)\<^sup>*\<^sup>* s t \<and> (\<forall>u. \<not> pool_step factory worker t u)"
  using ts.runs_to_end by blast

lemma run_bounded: "pool_inv worker s \<Longrightarrow> (pool_step factory worker ^^ n) s t \<Longrightarrow> n \<le> pool_weight remaining s"
  using ts.run_length_bounded by fastforce

end

subsection \<open>Properties\<close>

text \<open>A small factory and worker, for the witnesses.\<close>

definition demo_factory :: "(nat, unit, nat list) value_factory" where
  "demo_factory n f = (case f of [] \<Rightarrow> (Inr None, []) | v # vs \<Rightarrow> (Inr (Some [v]), vs))"

definition demo_worker :: "(nat, nat, unit) worker" where
  "demo_worker v out \<longleftrightarrow> out = WorkerReturns (v + 1)"

lemmas demo_defs = demo_factory_def demo_worker_def start_pool_def new_worker_pool_def
  produce_values_def process_results_def bail_on_timeout_def worker_wrapper_begin_def
  worker_wrapper_end_def cancel_pool_def stop_threadpool_def future_defs get_successes_def
  get_failures_def block_until_target_successes_def check_for_producer_error_def

lemma block_until_reached:
  assumes "block_until_target_successes s = Some (Inr d)"
  shows "wp_target_value s = Some (FutValue (SuccessesReached d))"
  using assms
  by (auto simp: block_until_target_successes_def future_get_def
    split: sum.splits option.splits future_result.splits target.splits)

lemma block_until_out_of_values:
  assumes "block_until_target_successes s = Some (Inl (OutOfValues fs))"
  shows "wp_target_value s = Some (FutValue PRODUCER_STOPPED)" "fs = wp_failures s"
  using assms
  by (auto simp: block_until_target_successes_def future_get_def get_failures_def
    split: sum.splits option.splits future_result.splits target.splits)

text \<open>
  C1. In every interleaving of the producer, the processor, the timeout guard and the worker tasks:
  when \<^verbatim>\<open>block_until_target_successes\<close> returns a dictionary, it has exactly the target number of
  distinct values, each mapped to a result the worker returned for it, and it is the dictionary
  of successes the pool holds.
\<close>

theorem pool_successes_exact:
  assumes "pool_reachable factory worker s"
    and "block_until_target_successes s = Some (Inr d)"
  shows "length d = get_target_successes s \<and> wf_dict d \<and> d = get_successes s
    \<and> (\<forall>(v, r) \<in> set d. worker v (WorkerReturns r))"
proof -
  have inv: "pool_inv worker s" using assms(1) by (rule wp.reaches_inv)
  note tv = block_until_reached [OF assms(2)]
  from inv tv have "wp_success_event_reached s" and d: "d = wp_successes s"
    by (auto simp: pool_inv_def inv_target_def)
  with inv show ?thesis
    by (auto simp: pool_inv_def inv_processor_def inv_results_def get_target_successes_def get_successes_def)
qed

theorem pool_successes_exact_witness:
  "\<exists>s d. pool_reachable demo_factory demo_worker s \<and> block_until_target_successes s = Some (Inr d)
     \<and> d = [(7, 8)] \<and> length d = get_target_successes s \<and> d = get_successes s"
proof -
  let ?s0 = "start_pool (new_worker_pool 1 [7, 9])"
  let ?as = "[ActProduce, ActProduce, ActBegin, ActEnd 0 (WorkerReturns 8), ActProcess, ActProcess]"
  obtain s where s: "run_pool demo_factory demo_worker ?as ?s0 = Some s"
      "block_until_target_successes s = Some (Inr [(7, 8)])"
    by (simp add: demo_defs)
  note r = run_pool_reachable [OF s(1)]
  from pool_successes_exact [OF r s(2)] r s(2) show ?thesis by blast
qed

text \<open>
  C2. \<^verbatim>\<open>OutOfValues\<close> is raised only when it is true: the producer has stopped, every task that was
  started has been accounted for, and fewer values than the target have succeeded (a pool with
  target 0 never reaches it).
\<close>

theorem pool_out_of_values_sound:
  assumes "pool_reachable factory worker s"
    and "block_until_target_successes s = Some (Inl (OutOfValues fs))"
  shows "wp_producer s = PrDone \<and> wp_finished_tasks s = wp_started_tasks s \<and> fs = get_failures s
    \<and> (get_target_successes s = 0 \<or> length (get_successes s) < get_target_successes s)"
proof -
  have inv: "pool_inv worker s" using assms(1) by (rule wp.reaches_inv)
  note tv = block_until_out_of_values [OF assms(2)]
  from inv tv(1) have pc: "wp_processor s \<in> {PcStopPool, PcJoinPool, PcDone}" "\<not> wp_success_event_reached s"
    by (auto simp: pool_inv_def inv_target_def)
  with inv have "out_of_values s" by (auto simp: pool_inv_def inv_processor_def)
  with inv pc(2) tv(2) show ?thesis
    by (auto simp: pool_inv_def inv_producer_def inv_processor_def out_of_values_def
      get_failures_def get_successes_def get_target_successes_def)
qed

theorem pool_out_of_values_sound_witness:
  "\<exists>s. pool_reachable demo_factory demo_worker s
     \<and> block_until_target_successes s = Some (Inl (OutOfValues []))
     \<and> wp_producer s = PrDone \<and> wp_finished_tasks s = 1 \<and> wp_started_tasks s = 1
     \<and> length (get_successes s) < get_target_successes s"
proof -
  let ?s0 = "start_pool (new_worker_pool 2 [7])"
  let ?as = "[ActProduce, ActProduce, ActProduce, ActProduce, ActProduce, ActProduce, ActBegin,
     ActEnd 0 (WorkerReturns 8), ActProcess, ActProcess, ActProcess, ActProcess, ActProcess, ActProcess]"
  obtain s where s: "run_pool demo_factory demo_worker ?as ?s0 = Some s"
      "block_until_target_successes s = Some (Inl (OutOfValues []))"
      "wp_started_tasks s = 1" "wp_target_successes s = 2"
    by (simp add: demo_defs)
  note r = run_pool_reachable [OF s(1)]
  from pool_out_of_values_sound [OF r s(2)] r s show ?thesis
    by (auto simp: get_target_successes_def)
qed

text \<open>
  The pool settles once: whatever its target future holds (the successes, a timeout or the end of
  the values), no later step of any thread replaces it.
\<close>

theorem pool_settles_once:
  assumes "(pool_step factory worker)\<^sup>*\<^sup>* s t" and "wp_target_value s = Some r"
  shows "wp_target_value t = Some r"
  using assms by (rule pool_steps_target_stable)

theorem pool_settles_once_witness:
  "\<exists>s t. (pool_step demo_factory demo_worker)\<^sup>*\<^sup>* s t \<and> s \<noteq> t
     \<and> wp_target_value s = Some (FutValue TIMEOUT_TRIGGERED)
     \<and> wp_target_value t = Some (FutValue TIMEOUT_TRIGGERED)"
proof -
  let ?s0 = "start_pool (new_worker_pool 1 [7])"
  obtain s where s: "run_pool demo_factory demo_worker [ActBail True, ActBail True] ?s0 = Some s"
      "wp_target_value s = Some (FutValue TIMEOUT_TRIGGERED)" "wp_bail s = BailCancel"
    by (simp add: demo_defs)
  obtain t where t: "run_pool demo_factory demo_worker [ActBail True] s = Some t" "wp_bail t = BailDone"
    using s(3) by (simp add: demo_defs)
  have "s \<noteq> t" using s(3) t(2) by auto
  with pool_settles_once [OF run_pool_steps [OF t(1)] s(2)] run_pool_steps [OF t(1)] s(2)
  show ?thesis by blast
qed

text \<open>
  C3. The pool always comes to an end. With a factory whose supply is finite and workers that return or
  raise, no run is longer than \<open>pool_weight\<close> says, and a run that cannot be continued has ended
  properly: the three service threads have stopped, the target future is set, and
  \<^verbatim>\<open>block_until_target_successes\<close> and \<^verbatim>\<open>join\<close> return.
\<close>

theorem pool_always_finishes:
  assumes "draining_factory factory remaining" and "\<And>v. \<exists>out. worker v out"
    and "pool_reachable factory worker s"
  shows "((pool_step factory worker ^^ n) s t \<longrightarrow> n \<le> pool_weight remaining s)
    \<and> ((pool_step factory worker)\<^sup>*\<^sup>* s t \<and> (\<forall>u. \<not> pool_step factory worker t u)
       \<longrightarrow> block_until_target_successes t \<noteq> None \<and> join_pool t \<noteq> None)"
proof -
  from assms(1,2) have run: "pool_run factory remaining worker"
    by (simp add: pool_run_def pool_run_axioms_def)
  have inv: "pool_inv worker s" using assms(3) by (rule wp.reaches_inv)
  have "n \<le> pool_weight remaining s" if "(pool_step factory worker ^^ n) s t"
    using pool_run.run_bounded [OF run inv that] .
  moreover have "block_until_target_successes t \<noteq> None \<and> join_pool t \<noteq> None"
    if "(pool_step factory worker)\<^sup>*\<^sup>* s t" "\<forall>u. \<not> pool_step factory worker t u"
    using pool_run.stuck_returns [OF run wp.steps_inv [OF that(1) inv] that(2)] .
  ultimately show ?thesis by blast
qed

theorem pool_always_finishes_witness:
  "\<exists>s t. pool_reachable demo_factory demo_worker s \<and> (pool_step demo_factory demo_worker)\<^sup>*\<^sup>* s t
     \<and> block_until_target_successes t \<noteq> None \<and> join_pool t \<noteq> None"
proof -
  let ?s0 = "start_pool (new_worker_pool 1 [7])"
  have r: "pool_reachable demo_factory demo_worker ?s0"
    by (intro reaches_start pool_started_start)
  have w: "\<And>v. \<exists>out. demo_worker v out" by (auto simp: demo_worker_def)
  have d: "draining_factory demo_factory length"
    by unfold_locales (auto simp: demo_factory_def split: list.splits)
  from d w have "pool_run demo_factory length demo_worker"
    by (simp add: pool_run_def pool_run_axioms_def)
  then obtain t where t: "(pool_step demo_factory demo_worker)\<^sup>*\<^sup>* ?s0 t"
      "\<forall>u. \<not> pool_step demo_factory demo_worker t u"
    using pool_run.reaches_end [OF _ wp.reaches_inv [OF r]] by blast
  with pool_always_finishes [OF d w r, of 0 t] r show ?thesis by blast
qed

end
