(* ===== verification/Weighted_Sampler.thy ===== *)
theory Weighted_Sampler
  imports Nulink_Prelude
begin

text \<open>
  \<^verbatim>\<open>WeightedSampler\<close> and \<^verbatim>\<open>StakingProvidersReservoir\<close> of
  \<^verbatim>\<open>nulink/blockchain/eth/agents.py\<close>: weighted sampling without replacement by cumulative totals
  and binary search.

  The random generator is a parameter: \<open>rng g n\<close> stands for \<^verbatim>\<open>randint(0, n - 1)\<close> in generator
  state \<open>g\<close>; what is used of it is that the position lies in the range asked for
  (\<open>rng_in_range\<close>). The search is Python's own \<^verbatim>\<open>bisect_right\<close>.
\<close>

datatype sample_error = ValueError | NotEnoughStakingProviders | IndexError

type_synonym 'g rng = "'g \<Rightarrow> int \<Rightarrow> int \<times> 'g"

definition rng_in_range :: "'g rng \<Rightarrow> bool" where
  "rng_in_range rng \<longleftrightarrow> (\<forall>g n. 0 < n \<longrightarrow> 0 \<le> fst (rng g n) \<and> fst (rng g n) < n)"

subsection \<open>Cumulative totals and binary search\<close>

text \<open>\<^verbatim>\<open>itertools.accumulate\<close> with a running total.\<close>

fun accumulate_from :: "int \<Rightarrow> int list \<Rightarrow> int list" where
  "accumulate_from acc [] = []"
| "accumulate_from acc (x # xs) = (acc + x) # accumulate_from (acc + x) xs"

definition accumulate :: "int list \<Rightarrow> int list" where
  "accumulate xs = accumulate_from 0 xs"

function bisect_right_loop :: "int list \<Rightarrow> int \<Rightarrow> nat \<Rightarrow> nat \<Rightarrow> nat" where
  "bisect_right_loop a x lo hi =
     (if lo < hi
      then let mid = (lo + hi) div 2
           in if x < a ! mid then bisect_right_loop a x lo mid else bisect_right_loop a x (Suc mid) hi
      else lo)"
  by pat_completeness auto
termination
  by (relation "measure (\<lambda>(a, x, lo, hi). hi - lo)") auto

declare bisect_right_loop.simps [simp del]

definition bisect_right :: "int list \<Rightarrow> int \<Rightarrow> nat" where
  "bisect_right a x = bisect_right_loop a x 0 (length a)"

lemma length_accumulate_from [simp]: "length (accumulate_from acc xs) = length xs"
  by (induction xs arbitrary: acc) auto

lemma length_accumulate [simp]: "length (accumulate xs) = length xs"
  by (simp add: accumulate_def)

lemma nth_accumulate_from:
  "i < length xs \<Longrightarrow> accumulate_from acc xs ! i = acc + sum_list (take (Suc i) xs)"
proof (induction xs arbitrary: acc i)
  case (Cons x xs)
  then show ?case by (cases i) auto
qed simp

lemma nth_accumulate: "i < length xs \<Longrightarrow> accumulate xs ! i = sum_list (take (Suc i) xs)"
  by (simp add: accumulate_def nth_accumulate_from)

text \<open>The search finds the boundary between the entries up to \<open>x\<close> and those above it.\<close>

lemma bisect_right_loop_boundary:
  assumes "lo \<le> hi" "hi \<le> length a" "sorted a"
    and "\<forall>i < lo. a ! i \<le> x" and "\<forall>i. hi \<le> i \<and> i < length a \<longrightarrow> x < a ! i"
  shows "let k = bisect_right_loop a x lo hi in
     k \<le> hi \<and> (\<forall>i < k. a ! i \<le> x) \<and> (\<forall>i. k \<le> i \<and> i < length a \<longrightarrow> x < a ! i)"
  using assms
proof (induction a x lo hi rule: bisect_right_loop.induct)
  case (1 a x lo hi)
  show ?case
  proof (cases "lo < hi")
    case False
    with "1.prems" show ?thesis by (simp add: bisect_right_loop.simps [of a x hi hi] Let_def)
  next
    case lt: True
    define mid where "mid = (lo + hi) div 2"
    have mid: "lo \<le> mid" "mid < hi" using lt by (auto simp: mid_def)
    have mono: "a ! i \<le> a ! j" if "i \<le> j" "j < length a" for i j
      using "1.prems"(3) that by (rule sorted_nth_mono)
    have unf: "bisect_right_loop a x lo hi =
        (if x < a ! mid then bisect_right_loop a x lo mid else bisect_right_loop a x (Suc mid) hi)"
      using lt by (simp add: bisect_right_loop.simps [of a x lo hi] mid_def Let_def)
    show ?thesis
    proof (cases "x < a ! mid")
      case True
      have "\<forall>i. mid \<le> i \<and> i < length a \<longrightarrow> x < a ! i" using True mono by (meson order_less_le_trans)
      with "1.IH"(1) [OF lt mid_def True] "1.prems" mid True unf show ?thesis
        by (auto simp: Let_def)
    next
      case False
      have "\<forall>i < Suc mid. a ! i \<le> x"
        using False mono mid "1.prems"(2) by (metis le_less_trans less_Suc_eq_le less_le_trans not_le)
      with "1.IH"(2) [OF lt mid_def False] "1.prems" mid False unf show ?thesis
        by (auto simp: Let_def)
    qed
  qed
qed

lemma bisect_right_boundary:
  assumes "sorted a"
  shows "bisect_right a x \<le> length a" "\<And>i. i < bisect_right a x \<Longrightarrow> a ! i \<le> x"
    "\<And>i. bisect_right a x \<le> i \<Longrightarrow> i < length a \<Longrightarrow> x < a ! i"
  using bisect_right_loop_boundary [of 0 "length a" a x] assms
  by (auto simp: bisect_right_def Let_def)

lemma take_sum_mono:
  assumes "\<forall>w \<in> set ws. (0::int) \<le> w" "i \<le> j"
  shows "sum_list (take i ws) \<le> sum_list (take j ws)"
proof -
  have "take j ws = take i ws @ drop i (take j ws)"
    using assms(2) by (metis append_take_drop_id min_absorb1 take_take)
  moreover have "0 \<le> sum_list (drop i (take j ws))"
    using assms(1) by (intro sum_list_nonneg) (meson in_set_dropD in_set_takeD)
  ultimately show ?thesis by (metis sum_list_append le_add_same_cancel1)
qed

lemma sorted_accumulate:
  assumes "\<forall>w \<in> set ws. 0 \<le> w"
  shows "sorted (accumulate ws)"
  using take_sum_mono [OF assms] by (simp add: sorted_iff_nth_mono nth_accumulate)

subsection \<open>The sampler\<close>

record 'a sampler =
  ws_totals :: "int list"
  ws_elements :: "'a list"
  ws_length :: int

definition new_sampler :: "('a, int) dict \<Rightarrow> 'a sampler" where
  "new_sampler d = \<lparr>ws_totals = accumulate (dict_values d), ws_elements = dict_keys d,
     ws_length = int (length (accumulate (dict_values d)))\<rparr>"

text \<open>\<^verbatim>\<open>for j in range(idx, len(totals)): totals[j] -= weight\<close>\<close>

definition adjust_totals :: "int list \<Rightarrow> nat \<Rightarrow> int list" where
  "adjust_totals totals idx =
     (let prev_total = (if idx > 0 then totals ! (idx - 1) else 0);
          weight = totals ! idx - prev_total
      in take idx totals @ map (\<lambda>t. t - weight) (drop idx totals))"

text \<open>
  The drawing loop, mutating the totals as it goes; an exception leaves them as they are then.
  \<^verbatim>\<open>randint(0, n - 1)\<close> raises \<^verbatim>\<open>ValueError\<close> when \<open>n\<close> is not positive.
\<close>

fun sample_loop :: "'g rng \<Rightarrow> 'a list \<Rightarrow> nat \<Rightarrow> 'g \<Rightarrow> int list \<Rightarrow> 'a list
    \<Rightarrow> (sample_error + 'a list) \<times> int list \<times> 'g" where
  "sample_loop rng els 0 g totals samples = (Inr samples, totals, g)"
| "sample_loop rng els (Suc n) g totals samples =
     (if totals = [] then (Inl IndexError, totals, g)
      else if last totals \<le> 0 then (Inl ValueError, totals, g)
      else let (position, g') = rng g (last totals);
               idx = bisect_right totals position
           in if idx < length els
              then sample_loop rng els n g' (adjust_totals totals idx) (samples @ [els ! idx])
              else (Inl IndexError, totals, g'))"

definition sample_no_replacement ::
  "'g rng \<Rightarrow> 'g \<Rightarrow> int \<Rightarrow> 'a sampler \<Rightarrow> (sample_error + 'a list) \<times> 'a sampler \<times> 'g" where
  "sample_no_replacement rng g quantity s =
     (if quantity = 0 then (Inr [], s, g)
      else if quantity > ws_length s then (Inl ValueError, s, g)
      else case sample_loop rng (ws_elements s) (nat quantity) g (ws_totals s) [] of
             (Inl e, totals, g') \<Rightarrow> (Inl e, s\<lparr>ws_totals := totals\<rparr>, g')
           | (Inr samples, totals, g') \<Rightarrow>
               (Inr samples, s\<lparr>ws_totals := totals, ws_length := ws_length s - quantity\<rparr>, g'))"

text \<open>The elements that can still be drawn: those of positive weight.\<close>

definition positive :: "'a list \<Rightarrow> int list \<Rightarrow> 'a set" where
  "positive els ws = {els ! i | i. i < length els \<and> 0 < ws ! i}"

lemma sum_list_int_update:
  "i < length ws \<Longrightarrow> sum_list (ws[i := v]) = sum_list ws - ws ! i + (v :: int)"
proof (induction ws arbitrary: i)
  case (Cons w ws)
  then show ?case by (cases i) auto
qed simp

lemma adjust_totals_accumulate:
  assumes "idx < length ws"
  shows "adjust_totals (accumulate ws) idx = accumulate (ws[idx := 0])"
proof (rule nth_equalityI)
  show "length (adjust_totals (accumulate ws) idx) = length (accumulate (ws[idx := 0]))"
    using assms by (simp add: adjust_totals_def Let_def)
next
  fix j assume "j < length (adjust_totals (accumulate ws) idx)"
  then have j: "j < length ws" using assms by (simp add: adjust_totals_def Let_def)
  have weight: "accumulate ws ! idx - (if idx > 0 then accumulate ws ! (idx - 1) else 0) = ws ! idx"
    using assms by (cases idx) (simp_all add: nth_accumulate take_Suc_conv_app_nth)
  show "adjust_totals (accumulate ws) idx ! j = accumulate (ws[idx := 0]) ! j"
  proof (cases "j < idx")
    case True
    with j assms show ?thesis by (simp add: adjust_totals_def Let_def nth_append nth_accumulate take_update_cancel)
  next
    case False
    have "sum_list (take (Suc j) (ws[idx := 0])) = sum_list (take (Suc j) ws) - ws ! idx"
      using False j by (simp add: take_update_swap sum_list_int_update)
    moreover have "adjust_totals (accumulate ws) idx ! j = accumulate ws ! j - ws ! idx"
      using False j assms weight by (simp add: adjust_totals_def Let_def nth_append)
    ultimately show ?thesis using j by (simp add: nth_accumulate)
  qed
qed

lemma last_accumulate: "ws \<noteq> [] \<Longrightarrow> last (accumulate ws) = sum_list ws"
proof -
  assume "ws \<noteq> []"
  moreover then have "accumulate ws \<noteq> []" using length_accumulate [of ws] by fastforce
  ultimately show ?thesis by (simp add: last_conv_nth nth_accumulate)
qed

text \<open>A position inside the range always selects an element of positive weight.\<close>

lemma bisect_selects_positive:
  fixes p :: int
  assumes nonneg: "\<forall>w \<in> set ws. 0 \<le> w" and pos: "0 \<le> p" "p < sum_list ws"
  shows "bisect_right (accumulate ws) p < length ws" "0 < ws ! bisect_right (accumulate ws) p"
proof -
  let ?a = "accumulate ws" and ?k = "bisect_right (accumulate ws) p"
  note b = bisect_right_boundary [OF sorted_accumulate [OF nonneg], where x = p]
  from pos have "ws \<noteq> []" by auto
  show k: "?k < length ws"
  proof (rule ccontr)
    assume "\<not> ?k < length ws"
    with b(1) have "?k = length ws" by simp
    with b(2) [of "length ws - 1"] \<open>ws \<noteq> []\<close> have "?a ! (length ws - 1) \<le> p" by simp
    with \<open>ws \<noteq> []\<close> pos show False by (simp add: nth_accumulate)
  qed
  have above: "p < sum_list (take (Suc ?k) ws)" using b(3) [of ?k] k by (simp add: nth_accumulate)
  have below: "sum_list (take ?k ws) \<le> p"
  proof (cases ?k)
    case 0
    with pos show ?thesis by simp
  next
    case (Suc j)
    with b(2) [of j] k show ?thesis by (simp add: nth_accumulate)
  qed
  from above below k show "0 < ws ! ?k" by (simp add: take_Suc_conv_app_nth)
qed

lemma positive_update:
  assumes "distinct els" "length ws = length els" "k < length els"
  shows "positive els (ws[k := 0]) = positive els ws - {els ! k}"
  using assms by (auto simp: positive_def nth_list_update nth_eq_iff_index_eq split: if_splits)

lemma positive_sum:
  assumes "\<forall>w \<in> set ws. 0 \<le> w" "length ws = length els" "positive els ws \<noteq> {}"
  shows "0 < sum_list ws" "ws \<noteq> []"
proof -
  from assms(2,3) obtain i where i: "i < length ws" "0 < ws ! i" by (auto simp: positive_def)
  then have "ws ! i \<le> sum_list ws"
    using assms(1) by (metis member_le_sum_list nth_mem)
  with i show "0 < sum_list ws" "ws \<noteq> []" by auto
qed

lemma finite_positive [simp]: "finite (positive els ws)"
  by (simp add: positive_def)

lemma sample_loop_spec:
  assumes "rng_in_range rng" "distinct els" "length ws = length els" "\<forall>w \<in> set ws. 0 \<le> w"
    and "n \<le> card (positive els ws)"
  shows "\<exists>ys ws' g'. sample_loop rng els n g (accumulate ws) samples = (Inr (samples @ ys), accumulate ws', g')
     \<and> length ys = n \<and> distinct ys \<and> set ys \<subseteq> positive els ws
     \<and> positive els ws' = positive els ws - set ys \<and> length ws' = length els \<and> (\<forall>w \<in> set ws'. 0 \<le> w)"
  using assms(3-5)
proof (induction n arbitrary: g ws samples)
  case 0
  then show ?case by auto
next
  case (Suc n)
  then have ne: "positive els ws \<noteq> {}" by auto
  note sum = positive_sum [OF Suc.prems(2,1) ne]
  obtain p g' where rng: "rng g (sum_list ws) = (p, g')" by fastforce
  with assms(1) sum(1) have p: "0 \<le> p" "p < sum_list ws"
    unfolding rng_in_range_def by (metis fst_conv)+
  define k where "k = bisect_right (accumulate ws) p"
  have k: "k < length els" "0 < ws ! k"
    using bisect_selects_positive [OF Suc.prems(2) p] Suc.prems(1) by (simp_all add: k_def)
  have mem: "els ! k \<in> positive els ws" using k by (auto simp: positive_def)
  note upd = positive_update [OF assms(2) Suc.prems(1) k(1)]
  have "n \<le> card (positive els (ws[k := 0]))"
    using Suc.prems(3) mem by (simp add: upd)
  moreover have "\<forall>w \<in> set (ws[k := 0]). 0 \<le> w"
    using Suc.prems(2) by (metis order_refl set_update_memI set_update_subset_insert insert_iff subset_iff)
  ultimately obtain ys ws' g'' where ys:
      "sample_loop rng els n g' (accumulate (ws[k := 0])) (samples @ [els ! k]) = (Inr ((samples @ [els ! k]) @ ys), accumulate ws', g'')"
      "length ys = n" "distinct ys" "set ys \<subseteq> positive els (ws[k := 0])"
      "positive els ws' = positive els (ws[k := 0]) - set ys" "length ws' = length els" "\<forall>w \<in> set ws'. 0 \<le> w"
    using Suc.IH [of "ws[k := 0]" g' "samples @ [els ! k]"] Suc.prems(1) by auto
  have "sample_loop rng els (Suc n) g (accumulate ws) samples
      = sample_loop rng els n g' (accumulate (ws[k := 0])) (samples @ [els ! k])"
    using sum rng k Suc.prems(1)
    by (simp add: last_accumulate k_def [symmetric] adjust_totals_accumulate flip: length_0_conv)
  with ys mem upd show ?case
    by (intro exI [of _ "els ! k # ys"] exI [of _ ws'] exI [of _ g'']) auto
qed

subsection \<open>The reservoir of staking providers\<close>

record ('a, 'g) providers_reservoir =
  pr_sampler :: "'a sampler"
  pr_rng :: 'g

definition new_providers_reservoir :: "('a, int) dict \<Rightarrow> 'g \<Rightarrow> ('a, 'g) providers_reservoir" where
  "new_providers_reservoir d g = \<lparr>pr_sampler = new_sampler d, pr_rng = g\<rparr>"

definition reservoir_len :: "('a, 'g) providers_reservoir \<Rightarrow> int" where
  "reservoir_len r = ws_length (pr_sampler r)"

definition draw :: "'g rng \<Rightarrow> int \<Rightarrow> ('a, 'g) providers_reservoir
    \<Rightarrow> (sample_error + 'a list) \<times> ('a, 'g) providers_reservoir" where
  "draw rng quantity r =
     (if quantity > reservoir_len r then (Inl NotEnoughStakingProviders, r)
      else let (res, s, g) = sample_no_replacement rng (pr_rng r) quantity (pr_sampler r)
           in (res, \<lparr>pr_sampler = s, pr_rng = g\<rparr>))"

definition draw_at_most :: "'g rng \<Rightarrow> int \<Rightarrow> ('a, 'g) providers_reservoir
    \<Rightarrow> (sample_error + 'a list) \<times> ('a, 'g) providers_reservoir" where
  "draw_at_most rng quantity r = draw rng (min quantity (reservoir_len r)) r"

text \<open>
  A reservoir in good order: its totals are the cumulative sums of non-negative weights, and its
  length counts the elements of positive weight. \<open>reservoir_left\<close> are these elements.
\<close>

definition reservoir_weights :: "('a, 'g) providers_reservoir \<Rightarrow> int list" where
  "reservoir_weights r = (let t = ws_totals (pr_sampler r) in map (\<lambda>i. t ! i - (if i = 0 then 0 else t ! (i - 1))) [0..<length t])"

definition reservoir_left :: "('a, 'g) providers_reservoir \<Rightarrow> 'a set" where
  "reservoir_left r = positive (ws_elements (pr_sampler r)) (reservoir_weights r)"

definition reservoir_ok :: "('a, 'g) providers_reservoir \<Rightarrow> bool" where
  "reservoir_ok r \<longleftrightarrow> (let s = pr_sampler r; ws = reservoir_weights r in
     ws_totals s = accumulate ws \<and> length ws = length (ws_elements s) \<and> (\<forall>w \<in> set ws. 0 \<le> w)
     \<and> distinct (ws_elements s) \<and> ws_length s = int (card (reservoir_left r)))"

lemma weights_of_accumulate:
  "map (\<lambda>i. accumulate ws ! i - (if i = 0 then 0 else accumulate ws ! (i - 1))) [0..<length (accumulate ws)] = ws"
proof (rule nth_equalityI, simp)
  fix i assume "i < length (map (\<lambda>i. accumulate ws ! i - (if i = 0 then 0 else accumulate ws ! (i - 1))) [0..<length (accumulate ws)])"
  then show "map (\<lambda>i. accumulate ws ! i - (if i = 0 then 0 else accumulate ws ! (i - 1))) [0..<length (accumulate ws)] ! i = ws ! i"
    by (cases i) (auto simp: nth_accumulate take_Suc_conv_app_nth)
qed

lemma reservoir_weights_eq: "ws_totals (pr_sampler r) = accumulate ws \<Longrightarrow> reservoir_weights r = ws"
  using weights_of_accumulate [of ws] by (simp add: reservoir_weights_def Let_def)

lemma draw_spec:
  assumes "reservoir_ok r" "rng_in_range rng" "0 \<le> q" "q \<le> reservoir_len r"
  shows "\<exists>ys r'. draw rng q r = (Inr ys, r') \<and> reservoir_ok r' \<and> int (length ys) = q \<and> distinct ys
    \<and> set ys \<subseteq> reservoir_left r \<and> reservoir_left r' = reservoir_left r - set ys
    \<and> reservoir_len r' = reservoir_len r - q"
proof (cases "q = 0")
  case True
  moreover have "0 \<le> ws_length (pr_sampler r)"
    using assms(1) by (simp add: reservoir_ok_def Let_def)
  ultimately show ?thesis
    using assms by (cases r) (auto simp: draw_def sample_no_replacement_def reservoir_len_def)
next
  case False
  let ?s = "pr_sampler r" and ?ws = "reservoir_weights r"
  have ok: "ws_totals ?s = accumulate ?ws" "length ?ws = length (ws_elements ?s)" "\<forall>w \<in> set ?ws. 0 \<le> w"
      "distinct (ws_elements ?s)" "ws_length ?s = int (card (positive (ws_elements ?s) ?ws))"
    using assms(1) by (auto simp: reservoir_ok_def reservoir_left_def Let_def)
  have "nat q \<le> card (positive (ws_elements ?s) ?ws)"
    using assms(3,4) ok(5) by (simp add: reservoir_len_def)
  from sample_loop_spec [OF assms(2) ok(4,2,3) this, of "pr_rng r" "[]"] obtain ys ws' g' where ys:
      "sample_loop rng (ws_elements ?s) (nat q) (pr_rng r) (accumulate ?ws) [] = (Inr ys, accumulate ws', g')"
      "length ys = nat q" "distinct ys" "set ys \<subseteq> positive (ws_elements ?s) ?ws"
      "positive (ws_elements ?s) ws' = positive (ws_elements ?s) ?ws - set ys"
      "length ws' = length (ws_elements ?s)" "\<forall>w \<in> set ws'. 0 \<le> w"
    by auto
  let ?r' = "\<lparr>pr_sampler = ?s\<lparr>ws_totals := accumulate ws', ws_length := ws_length ?s - q\<rparr>, pr_rng = g'\<rparr>"
  have d: "draw rng q r = (Inr ys, ?r')"
    using False assms(4) ys(1) ok(1)
    by (simp add: draw_def sample_no_replacement_def reservoir_len_def)
  have w: "reservoir_weights ?r' = ws'" by (rule reservoir_weights_eq) simp
  have left: "reservoir_left ?r' = reservoir_left r - set ys"
    using ys(5) by (simp add: reservoir_left_def w)
  have "card (reservoir_left r - set ys) = card (reservoir_left r) - nat q"
    using ys(2,3,4) by (simp add: card_Diff_subset distinct_card reservoir_left_def)
  then have "int (card (reservoir_left ?r')) = ws_length ?s - q"
    using left ok(5) assms(3,4) by (simp add: reservoir_left_def reservoir_len_def nat_le_iff of_nat_diff)
  then have "reservoir_ok ?r'"
    using ys(6,7) ok(4) by (simp add: reservoir_ok_def w Let_def)
  with d left ys assms(3) show ?thesis
    by (auto simp: reservoir_left_def reservoir_len_def)
qed

lemma reservoir_ok_new:
  assumes "wf_dict d" "\<forall>w \<in> set (dict_values d). 0 < w"
  shows "reservoir_ok (new_providers_reservoir d g)"
    "reservoir_left (new_providers_reservoir d g) = set (dict_keys d)"
proof -
  let ?r = "new_providers_reservoir d g"
  have w: "reservoir_weights ?r = dict_values d"
    by (rule reservoir_weights_eq) (simp add: new_providers_reservoir_def new_sampler_def)
  have pos: "\<And>i. i < length d \<Longrightarrow> 0 < dict_values d ! i"
    using assms(2) by (metis length_map nth_mem)
  show left: "reservoir_left ?r = set (dict_keys d)"
  proof -
    have "ws_elements (pr_sampler ?r) = dict_keys d"
      by (simp add: new_providers_reservoir_def new_sampler_def)
    then have "reservoir_left ?r = {dict_keys d ! i | i. i < length (dict_keys d)}"
      using pos by (auto simp: reservoir_left_def w positive_def simp del: nth_map)
    then show ?thesis by (simp only: set_conv_nth)
  qed
  have "\<forall>w \<in> set (dict_values d). 0 \<le> w" using assms(2) by (meson less_imp_le)
  moreover have "card (set (dict_keys d)) = length d" using assms(1) by (metis distinct_card length_map)
  ultimately show "reservoir_ok ?r"
    using left w assms(1) by (simp add: reservoir_ok_def Let_def new_providers_reservoir_def new_sampler_def)
qed

text \<open>
  The positions that select an element are exactly as many as its weight: the interval between
  two neighbouring cumulative totals.
\<close>

lemma bisect_right_unique:
  assumes "sorted a" "k \<le> length a" "\<And>i. i < k \<Longrightarrow> a ! i \<le> x" "\<And>i. k \<le> i \<Longrightarrow> i < length a \<Longrightarrow> x < a ! i"
  shows "bisect_right a x = k"
proof (rule ccontr)
  assume "bisect_right a x \<noteq> k"
  then consider "bisect_right a x < k" | "k < bisect_right a x" by linarith
  then show False
  proof cases
    case 1
    then show ?thesis using assms(2,3) bisect_right_boundary(3) [OF assms(1)] by (meson leD less_le_trans order_refl)
  next
    case 2
    then show ?thesis using assms(4) bisect_right_boundary(1,2) [OF assms(1)] by (meson leD less_le_trans order_refl)
  qed
qed

lemma bisect_selects_interval:
  assumes nonneg: "\<forall>w \<in> set ws. 0 \<le> w" and i: "i < length ws"
  shows "0 \<le> p \<and> bisect_right (accumulate ws) p = i
    \<longleftrightarrow> sum_list (take i ws) \<le> p \<and> p < sum_list (take (Suc i) ws)"
    (is "?sel \<longleftrightarrow> ?int")
proof
  note b = bisect_right_boundary [OF sorted_accumulate [OF nonneg], where x = p]
  assume sel: ?sel
  have "sum_list (take i ws) \<le> p"
    using b(2) [of "i - 1"] sel i by (cases i) (simp_all add: nth_accumulate)
  moreover have "p < sum_list (take (Suc i) ws)" using b(3) [of i] sel i by (simp add: nth_accumulate)
  ultimately show ?int by simp
next
  assume int: ?int
  have "0 \<le> sum_list (take i ws)" using take_sum_mono [OF nonneg, of 0 i] by simp
  moreover have "bisect_right (accumulate ws) p = i"
  proof (rule bisect_right_unique [OF sorted_accumulate [OF nonneg]])
    show "accumulate ws ! j \<le> p" if "j < i" for j
      using int i that take_sum_mono [OF nonneg, of "Suc j" i] by (simp add: nth_accumulate)
    show "p < accumulate ws ! j" if "i \<le> j" "j < length (accumulate ws)" for j
      using int that take_sum_mono [OF nonneg, of "Suc i" "Suc j"] by (simp add: nth_accumulate)
  qed (use i in simp)
  ultimately show ?sel using int by simp
qed

lemma positions_count:
  assumes nonneg: "\<forall>w \<in> set ws. 0 \<le> w" and i: "i < length ws"
  shows "card {p \<in> {0..<sum_list ws}. bisect_right (accumulate ws) p = i} = nat (ws ! i)"
proof -
  have below: "sum_list (take (Suc i) ws) \<le> sum_list ws"
    using take_sum_mono [OF nonneg, of "Suc i" "length ws"] i by simp
  have "{p \<in> {0..<sum_list ws}. bisect_right (accumulate ws) p = i}
      = {sum_list (take i ws)..<sum_list (take (Suc i) ws)}"
  proof (rule set_eqI)
    fix p
    show "p \<in> {p \<in> {0..<sum_list ws}. bisect_right (accumulate ws) p = i}
        \<longleftrightarrow> p \<in> {sum_list (take i ws)..<sum_list (take (Suc i) ws)}"
      unfolding mem_Collect_eq atLeastLessThan_iff
      using bisect_selects_interval [OF nonneg i, of p] less_le_trans [OF _ below, of p] by blast
  qed
  then show ?thesis using i by (simp only: card_atLeastLessThan_int) (simp add: take_Suc_conv_app_nth)
qed

lemma single_draw:
  assumes "wf_dict d" "\<forall>w \<in> set (dict_values d). 0 < w" "0 \<le> p" "p < sum_list (dict_values d)"
  shows "fst (draw (\<lambda>g n. (p, g)) 1 (new_providers_reservoir d g))
    = Inr [dict_keys d ! bisect_right (accumulate (dict_values d)) p]"
proof -
  have nonneg: "\<forall>w \<in> set (dict_values d). 0 \<le> w" using assms(2) by (meson less_imp_le)
  have d: "d \<noteq> []" using assms(3,4) by auto
  have "bisect_right (accumulate (dict_values d)) p < length d"
    using bisect_selects_positive(1) [OF nonneg assms(3,4)] by simp
  moreover have "accumulate (dict_values d) \<noteq> []" "1 \<le> length d"
    using d length_accumulate [of "dict_values d"] by (auto simp: Suc_le_eq simp del: length_accumulate)
  moreover have "last (accumulate (dict_values d)) = sum_list (dict_values d)"
    using d by (simp add: last_accumulate)
  ultimately show ?thesis using assms(3,4) d
    by (simp add: draw_def sample_no_replacement_def reservoir_len_def new_providers_reservoir_def
        new_sampler_def Let_def)
qed

text \<open>
  C4. Weighted sampling without replacement, one draw. Take a reservoir over providers with
  positive stake. Asking for more providers than it has raises and leaves the reservoir as it is.
  Asking for a quantity between nought and the number of providers succeeds, whatever the
  generator answers inside the range it is asked for, with that many providers, none of them
  twice, all of them from the reservoir. And the choice is proportional to the stake: of the
  positions the generator can answer when one provider is drawn, exactly as many lead to a given
  provider as its stake counts.
\<close>

theorem draw_proportional_distinct:
  assumes "wf_dict d" "\<forall>w \<in> set (dict_values d). 0 < w" "rng_in_range rng"
  shows "(int (length d) < q \<longrightarrow> draw rng q (new_providers_reservoir d g)
        = (Inl NotEnoughStakingProviders, new_providers_reservoir d g))
    \<and> (0 \<le> q \<and> q \<le> int (length d) \<longrightarrow> (\<exists>xs. fst (draw rng q (new_providers_reservoir d g)) = Inr xs
        \<and> int (length xs) = q \<and> distinct xs \<and> set xs \<subseteq> set (dict_keys d)))
    \<and> (\<forall>(x, stake) \<in> set d. card {p \<in> {0..<sum_list (dict_values d)}.
          fst (draw (\<lambda>g n. (p, g)) 1 (new_providers_reservoir d g)) = Inr [x]} = nat stake)"
proof (intro conjI impI ballI, goal_cases)
  case 1
  then show ?case by (simp add: draw_def reservoir_len_def new_providers_reservoir_def new_sampler_def)
next
  case 2
  note new = reservoir_ok_new [OF assms(1,2), of g]
  have "reservoir_len (new_providers_reservoir d g) = int (length d)"
    by (simp add: reservoir_len_def new_providers_reservoir_def new_sampler_def)
  with draw_spec [OF new(1) assms(3), of q] 2 show ?case unfolding new(2) by fastforce
next
  case (3 e)
  then obtain i where i: "i < length d" "e = d ! i" by (metis in_set_conv_nth)
  have nonneg: "\<forall>w \<in> set (dict_values d). 0 \<le> w" using assms(2) by (meson less_imp_le)
  have sel: "dict_keys d ! bisect_right (accumulate (dict_values d)) p = fst e
      \<longleftrightarrow> bisect_right (accumulate (dict_values d)) p = i"
    if "0 \<le> p" "p < sum_list (dict_values d)" for p
    using bisect_selects_positive(1) [OF nonneg that] i assms(1)
    by (metis length_map nth_eq_iff_index_eq nth_map)
  have "{p \<in> {0..<sum_list (dict_values d)}.
        fst (draw (\<lambda>g n. (p, g)) 1 (new_providers_reservoir d g)) = Inr [fst e]}
      = {p \<in> {0..<sum_list (dict_values d)}. bisect_right (accumulate (dict_values d)) p = i}"
    using single_draw [OF assms(1,2), of _ g] sel by auto
  then show ?case using positions_count [OF nonneg, of i] i by (simp add: split_beta)
qed

definition demo_rng :: "nat rng" where
  "demo_rng g n = ((7 * int g + 3) mod (if 0 < n then n else 1), Suc g)"

lemma demo_rng_in_range: "rng_in_range demo_rng"
  by (simp add: rng_in_range_def demo_rng_def)

theorem draw_proportional_distinct_witness:
  "(\<exists>xs. fst (draw demo_rng 2 (new_providers_reservoir [(''a'', 5), (''b'', 1), (''c'', 30)] 0)) = Inr xs
      \<and> length xs = 2 \<and> distinct xs \<and> set xs \<subseteq> {''a'', ''b'', ''c''})
    \<and> card {p \<in> {0..<36}. fst (draw (\<lambda>g n. (p, g)) 1
        (new_providers_reservoir [(''a'', 5), (''b'', 1), (''c'', 30)] (0::nat))) = Inr [''c'']} = 30"
  using draw_proportional_distinct [of "[(''a'', 5), (''b'', 1), (''c'', 30)]" demo_rng 2 0] demo_rng_in_range
  by simp

text \<open>
  Asking for more than is left raises, and takes nothing out; \<^verbatim>\<open>draw_at_most\<close> never raises on a
  reservoir in good order, and hands out everything that is left when asked for more.
\<close>

theorem draw_at_most_total:
  assumes "reservoir_ok r" "rng_in_range rng" "0 \<le> q"
  shows "(reservoir_len r < q \<longrightarrow> draw rng q r = (Inl NotEnoughStakingProviders, r)) \<and>
    (\<exists>ys r'. draw_at_most rng q r = (Inr ys, r') \<and> reservoir_ok r' \<and> distinct ys
       \<and> int (length ys) = min q (reservoir_len r)
       \<and> reservoir_left r' = reservoir_left r - set ys \<and> set ys \<subseteq> reservoir_left r
       \<and> (reservoir_len r \<le> q \<longrightarrow> set ys = reservoir_left r))"
proof -
  have len: "reservoir_len r = int (card (reservoir_left r))" "finite (reservoir_left r)"
    using assms(1) by (simp_all add: reservoir_ok_def Let_def reservoir_len_def reservoir_left_def)
  from draw_spec [OF assms(1,2), of "min q (reservoir_len r)"] assms(3) len obtain ys r' where
    ys: "draw rng (min q (reservoir_len r)) r = (Inr ys, r')" "reservoir_ok r'" "distinct ys"
      "int (length ys) = min q (reservoir_len r)" "reservoir_left r' = reservoir_left r - set ys"
      "set ys \<subseteq> reservoir_left r"
    by auto
  have "set ys = reservoir_left r" if "reservoir_len r \<le> q"
    using ys(3,4,6) len that by (intro card_subset_eq) (simp_all add: distinct_card)
  with ys show ?thesis by (auto simp: draw_at_most_def draw_def)
qed

theorem draw_at_most_total_witness:
  "\<exists>ys r'. draw_at_most demo_rng 9 (new_providers_reservoir [(''a'', 5), (''c'', 30)] 0) = (Inr ys, r')
    \<and> distinct ys \<and> set ys = {''a'', ''c''}"
proof -
  let ?d = "[(''a'', 5), (''c'', 30)]"
  have r: "reservoir_ok (new_providers_reservoir ?d (0::nat))"
      "reservoir_left (new_providers_reservoir ?d (0::nat)) = {''a'', ''c''}"
    using reservoir_ok_new [of ?d "0::nat"] by simp_all
  have "reservoir_len (new_providers_reservoir ?d (0::nat)) = 2"
    by (simp add: reservoir_len_def new_providers_reservoir_def new_sampler_def)
  with draw_at_most_total [OF r(1) demo_rng_in_range, of 9] r(2) show ?thesis by auto
qed

end
