(* ===== verification/Reservoir.thy ===== *)
theory Reservoir
  imports Weighted_Sampler Worker_Pool "HOL-Library.Multiset"
begin

text \<open>
  Where the candidates of a policy come from: the paged query for the active staking providers
  (\<^verbatim>\<open>get_all_active_staking_providers\<close> and \<^verbatim>\<open>get_staking_provider_reservoir\<close> of
  \<^verbatim>\<open>nulink/blockchain/eth/agents.py\<close>) and the reservoirs of \<^verbatim>\<open>nulink/policy/reservoir.py\<close>.

  The staking contract is a parameter: \<open>fetch i start n\<close> is the outcome of the \<open>i\<close>-th call of
  \<^verbatim>\<open>getActiveStakingProviders(start, n)\<close>, and \<open>serves fetch stakers\<close> says what a call that does
  not raise returns. So is \<^verbatim>\<open>to_checksum_address\<close>, an injective function.

  The locale \<open>value_source\<close> is the contract between a reservoir and whoever draws from it; the
  batches of \<^verbatim>\<open>PrefetchStrategy\<close> are specified once in it, and the merged reservoir and the
  worker pool's interface are interpretations on the code's definitions.
\<close>

subsection \<open>Paged query of the staking contract\<close>

text \<open>An exception of the call: whether its text has the word \<^verbatim>\<open>timeout\<close> is all that is looked at.\<close>

datatype chain_error = TimeoutError | OtherChainError string

datatype agent_error = ChainError chain_error | PaginationValueError | AddressOverflow | NoLockedTokens

type_synonym page = "int \<times> (int \<times> int) list"
type_synonym fetch = "nat \<Rightarrow> int \<Rightarrow> int \<Rightarrow> chain_error + page"

text \<open>A dictionary comprehension over a list of pairs.\<close>

abbreviation dict_of :: "('k \<times> 'v) list \<Rightarrow> ('k, 'v) dict" where
  "dict_of ps \<equiv> dict_update [] ps"

partial_function (option) fetch_pages ::
  "fetch \<Rightarrow> int \<Rightarrow> int \<Rightarrow> int \<Rightarrow> nat \<Rightarrow> int \<Rightarrow> (int, int) dict
     \<Rightarrow> (chain_error + int \<times> (int, int) dict) option" where
  "fetch_pages fetch num_providers start_index pagination_size attempts n_tokens staking_providers =
     (if start_index < num_providers then
        (case fetch attempts start_index pagination_size of
           Inl e \<Rightarrow>
             (if e \<noteq> TimeoutError then Some (Inl e)
              else if pagination_size = 1 \<or> Suc attempts \<ge> 3 then Some (Inl e)
              else fetch_pages fetch num_providers start_index (pagination_size div 2) (Suc attempts)
                     n_tokens staking_providers)
         | Inr page \<Rightarrow>
             fetch_pages fetch num_providers (start_index + pagination_size) pagination_size (Suc attempts)
               (n_tokens + fst page) (dict_update staking_providers (dict_of (snd page))))
      else Some (Inr (n_tokens, staking_providers)))"

declare fetch_pages.simps [code]

definition address_bytes_ok :: "int \<Rightarrow> bool" where
  "address_bytes_ok a \<longleftrightarrow> 0 \<le> a \<and> a < 2 ^ 160"

text \<open>
  \<open>default_size\<close> is the class attribute for the kind of node (light or not). The outer
  \<^verbatim>\<open>None\<close> is a query that never returns.
\<close>

definition get_all_active_staking_providers ::
  "(int \<Rightarrow> address) \<Rightarrow> fetch \<Rightarrow> int \<Rightarrow> bool \<Rightarrow> int \<Rightarrow> int \<Rightarrow> int option
     \<Rightarrow> (agent_error + int \<times> (address, int) dict) option" where
  "get_all_active_staking_providers checksum fetch population is_light size_light size_full pagination_size =
     (let size = (case pagination_size of None \<Rightarrow> if is_light then size_light else size_full | Some n \<Rightarrow> n);
          typed = (\<lambda>(n_tokens, ps).
            if \<forall>p \<in> set ps. address_bytes_ok (fst p)
            then Inr (n_tokens, dict_of (map (\<lambda>(a, t). (checksum a, t)) ps)) else Inl AddressOverflow)
      in if pagination_size \<noteq> None \<and> size < 0 then Some (Inl PaginationValueError)
         else if size > 0 then
           (case fetch_pages fetch population 0 size 0 0 [] of
              None \<Rightarrow> None
            | Some (Inl e) \<Rightarrow> Some (Inl (ChainError e))
            | Some (Inr r) \<Rightarrow> Some (typed r))
         else (case fetch 0 0 0 of
                 Inl e \<Rightarrow> Some (Inl (ChainError e))
               | Inr (n_tokens, ps) \<Rightarrow> Some (typed (n_tokens, dict_of ps))))"

text \<open>The loop that takes the unwanted addresses out; \<open>without\<close> is a set in iteration order.\<close>

fun remove_without :: "address list \<Rightarrow> int \<times> (address, int) dict \<Rightarrow> int \<times> (address, int) dict" where
  "remove_without [] (n_tokens, m) = (n_tokens, m)"
| "remove_without (a # without) (n_tokens, m) =
     (case dict_get m a of
        Some t \<Rightarrow> remove_without without (n_tokens - t, dict_del m a)
      | None \<Rightarrow> remove_without without (n_tokens, m))"

definition get_staking_provider_reservoir ::
  "'g \<Rightarrow> address list \<Rightarrow> (agent_error + int \<times> (address, int) dict)
     \<Rightarrow> agent_error + (address, 'g) providers_reservoir" where
  "get_staking_provider_reservoir g without active =
     (case active of
        Inl e \<Rightarrow> Inl e
      | Inr r \<Rightarrow>
          (let (n_tokens, m) = remove_without without r
           in if n_tokens = 0 then Inl NoLockedTokens else Inr (new_providers_reservoir m g)))"

subsection \<open>Merged reservoirs and batches\<close>

record 'g merged_reservoir =
  mr_values :: "address list"
  mr_reservoir :: "(address, 'g) providers_reservoir"

definition merged_call :: "'g rng \<Rightarrow> 'g merged_reservoir
    \<Rightarrow> (sample_error + address option) \<times> 'g merged_reservoir" where
  "merged_call rng m =
     (case mr_values m of
        v # vs \<Rightarrow> (Inr (Some v), m\<lparr>mr_values := vs\<rparr>)
      | [] \<Rightarrow>
          if reservoir_len (mr_reservoir m) > 0
          then (case draw rng 1 (mr_reservoir m) of
                  (Inl e, r) \<Rightarrow> (Inl e, m\<lparr>mr_reservoir := r\<rparr>)
                | (Inr [], r) \<Rightarrow> (Inl IndexError, m\<lparr>mr_reservoir := r\<rparr>)
                | (Inr (x # _), r) \<Rightarrow> (Inr (Some x), m\<lparr>mr_reservoir := r\<rparr>))
          else (Inr None, m))"

abbreviation opt_list :: "'a list option \<Rightarrow> 'a list" where
  "opt_list x \<equiv> (case x of None \<Rightarrow> [] | Some l \<Rightarrow> l)"

definition make_federated_staker_reservoir ::
  "'g \<Rightarrow> address list \<Rightarrow> address list option \<Rightarrow> address list option \<Rightarrow> 'g merged_reservoir" where
  "make_federated_staker_reservoir g known_nodes exclude_addresses include_addresses =
     (let include = opt_list include_addresses;
          exclusion_set = set include \<union> set (opt_list exclude_addresses);
          addresses = dict_of (map (\<lambda>a. (a, 1)) (filter (\<lambda>a. a \<notin> exclusion_set) known_nodes))
      in \<lparr>mr_values = include, mr_reservoir = new_providers_reservoir addresses g\<rparr>)"

definition make_decentralized_staking_provider_reservoir ::
  "'g \<Rightarrow> (agent_error + int \<times> (address, int) dict) \<Rightarrow> address list option \<Rightarrow> address list option
     \<Rightarrow> agent_error + 'g merged_reservoir" where
  "make_decentralized_staking_provider_reservoir g active exclude_addresses include_addresses =
     (let include = opt_list include_addresses;
          without = remdups (include @ opt_list exclude_addresses)
      in case get_staking_provider_reservoir g without active of
           Inr r \<Rightarrow> Inr \<lparr>mr_values = include, mr_reservoir = r\<rparr>
         | Inl NoLockedTokens \<Rightarrow> Inr \<lparr>mr_values = include, mr_reservoir = new_providers_reservoir [] g\<rparr>
         | Inl e \<Rightarrow> Inl e)"

text \<open>The loop of \<^verbatim>\<open>PrefetchStrategy.__call__\<close>, for any source of values.\<close>

fun draw_batch :: "('s \<Rightarrow> ('e + 'v option) \<times> 's) \<Rightarrow> nat \<Rightarrow> 's \<Rightarrow> ('e + 'v list) \<times> 's" where
  "draw_batch call 0 s = (Inr [], s)"
| "draw_batch call (Suc n) s =
     (case call s of
        (Inl e, s') \<Rightarrow> (Inl e, s')
      | (Inr None, s') \<Rightarrow> (Inr [], s')
      | (Inr (Some v), s') \<Rightarrow>
          (case draw_batch call n s' of
             (Inl e, s'') \<Rightarrow> (Inl e, s'')
           | (Inr batch, s'') \<Rightarrow> (Inr (v # batch), s'')))"

definition prefetch_call :: "('s \<Rightarrow> ('e + 'v option) \<times> 's) \<Rightarrow> int \<Rightarrow> ('v, 'e, 's) value_factory" where
  "prefetch_call call need_successes successes s =
     (case draw_batch call (nat (need_successes - int successes)) s of
        (Inl e, s') \<Rightarrow> (Inl e, s')
      | (Inr [], s') \<Rightarrow> (Inr None, s')
      | (Inr (v # vs), s') \<Rightarrow> (Inr (Some (v # vs)), s'))"

subsection \<open>The contract of a source of values\<close>

text \<open>
  While a source is in good order a draw does not raise; it hands out one of the values still in
  it, and \<open>None\<close> only when there is none left.
\<close>

locale value_source =
  fixes call :: "'s \<Rightarrow> ('e + 'v option) \<times> 's"
    and avail :: "'s \<Rightarrow> 'v multiset"
    and ok :: "'s \<Rightarrow> bool"
  assumes call_returns: "ok s \<Longrightarrow> \<exists>r s'. call s = (Inr r, s') \<and> ok s'"
    and call_some: "ok s \<Longrightarrow> call s = (Inr (Some v), s') \<Longrightarrow> avail s = add_mset v (avail s')"
    and call_none: "ok s \<Longrightarrow> call s = (Inr None, s') \<Longrightarrow> s' = s \<and> avail s = {#}"
begin

lemma batch_spec:
  "ok s \<Longrightarrow> \<exists>vs s'. draw_batch call n s = (Inr vs, s') \<and> ok s' \<and> avail s = mset vs + avail s'
     \<and> length vs = min n (size (avail s))"
proof (induction n arbitrary: s)
  case (Suc n)
  from call_returns [OF Suc.prems] obtain r t where t: "call s = (Inr r, t)" "ok t" by blast
  show ?case
  proof (cases r)
    case None
    with t call_none [OF Suc.prems] show ?thesis by auto
  next
    case (Some v)
    with call_some [OF Suc.prems] t have "avail s = add_mset v (avail t)" by blast
    moreover obtain vs s' where "draw_batch call n t = (Inr vs, s')" "ok s'" "avail t = mset vs + avail s'"
        "length vs = min n (size (avail t))"
      using Suc.IH [OF t(2)] by blast
    ultimately show ?thesis using t Some by auto
  qed
qed simp

lemma prefetch_spec:
  assumes "ok s"
  shows "\<exists>s'. ok s' \<and>
    ((need \<le> int k \<or> avail s = {#}) \<and> prefetch_call call need k s = (Inr None, s') \<and> avail s' = avail s
     \<or> (\<exists>vs. vs \<noteq> [] \<and> prefetch_call call need k s = (Inr (Some vs), s')
          \<and> avail s = mset vs + avail s' \<and> length vs = min (nat (need - int k)) (size (avail s))))"
proof -
  from batch_spec [OF assms, of "nat (need - int k)"] obtain vs s' where
    b: "draw_batch call (nat (need - int k)) s = (Inr vs, s')" "ok s'" "avail s = mset vs + avail s'"
      "length vs = min (nat (need - int k)) (size (avail s))" by blast
  show ?thesis
  proof (cases vs)
    case Nil
    with b have "need \<le> int k \<or> avail s = {#}" by (auto simp: min_def split: if_splits)
    with b Nil show ?thesis by (intro exI [of _ s']) (auto simp: prefetch_call_def)
  next
    case (Cons v us)
    with b show ?thesis by (intro exI [of _ s']) (auto simp: prefetch_call_def)
  qed
qed

end

subsection \<open>The merged reservoir keeps the contract\<close>

definition merged_ok :: "'g rng \<Rightarrow> 'g merged_reservoir \<Rightarrow> bool" where
  "merged_ok rng m \<longleftrightarrow> rng_in_range rng \<and> reservoir_ok (mr_reservoir m)"

definition merged_avail :: "'g merged_reservoir \<Rightarrow> address multiset" where
  "merged_avail m = mset (mr_values m) + mset_set (reservoir_left (mr_reservoir m))"

definition merged_remaining :: "'g merged_reservoir \<Rightarrow> nat" where
  "merged_remaining m = length (mr_values m) + nat (reservoir_len (mr_reservoir m))"

lemma reservoir_left_card:
  "reservoir_ok r \<Longrightarrow> reservoir_len r = int (card (reservoir_left r)) \<and> finite (reservoir_left r)"
  by (simp add: reservoir_ok_def Let_def reservoir_len_def reservoir_left_def)

lemma draw_one:
  assumes "reservoir_ok r" "rng_in_range rng" "0 < reservoir_len r"
  shows "\<exists>x r'. draw rng 1 r = (Inr [x], r') \<and> reservoir_ok r' \<and> x \<in> reservoir_left r
    \<and> reservoir_left r' = reservoir_left r - {x}"
proof -
  from draw_spec [OF assms(1,2), of 1] assms(3) obtain ys r' where
    "draw rng 1 r = (Inr ys, r')" "reservoir_ok r'" "int (length ys) = 1" "set ys \<subseteq> reservoir_left r"
    "reservoir_left r' = reservoir_left r - set ys" by auto
  moreover then obtain x where "ys = [x]" by (cases ys) auto
  ultimately show ?thesis by auto
qed

lemma merged_call_cases:
  assumes "merged_ok rng m"
  obtains (listed) v vs where "mr_values m = v # vs" "merged_call rng m = (Inr (Some v), m\<lparr>mr_values := vs\<rparr>)"
  | (drawn) x r where "mr_values m = []" "merged_call rng m = (Inr (Some x), m\<lparr>mr_reservoir := r\<rparr>)"
      "reservoir_ok r" "x \<in> reservoir_left (mr_reservoir m)"
      "reservoir_left r = reservoir_left (mr_reservoir m) - {x}"
  | (empty) "mr_values m = []" "merged_call rng m = (Inr None, m)" "reservoir_left (mr_reservoir m) = {}"
proof (cases "mr_values m")
  case Nil
  have ok: "reservoir_ok (mr_reservoir m)" "rng_in_range rng" using assms by (simp_all add: merged_ok_def)
  show ?thesis
  proof (cases "0 < reservoir_len (mr_reservoir m)")
    case True
    from draw_one [OF ok True] obtain x r where "draw rng 1 (mr_reservoir m) = (Inr [x], r)"
      "reservoir_ok r" "x \<in> reservoir_left (mr_reservoir m)"
      "reservoir_left r = reservoir_left (mr_reservoir m) - {x}" by blast
    with True Nil that(2) show ?thesis by (simp add: merged_call_def)
  next
    case False
    with reservoir_left_card [OF ok(1)] have "reservoir_left (mr_reservoir m) = {}" by simp
    with False Nil that(3) show ?thesis by (simp add: merged_call_def)
  qed
qed (use that(1) in \<open>simp add: merged_call_def\<close>)

interpretation mr: value_source "merged_call rng" merged_avail "merged_ok rng" for rng :: "'g rng"
proof unfold_locales
  fix s :: "'g merged_reservoir" assume ok: "merged_ok rng s"
  from ok show "\<exists>r s'. merged_call rng s = (Inr r, s') \<and> merged_ok rng s'"
    by (cases rule: merged_call_cases) (use ok in \<open>simp_all add: merged_ok_def\<close>)
next
  fix s s' :: "'g merged_reservoir" and v
  assume ok: "merged_ok rng s" and call: "merged_call rng s = (Inr (Some v), s')"
  have fin: "finite (reservoir_left (mr_reservoir s))"
    using ok reservoir_left_card by (auto simp: merged_ok_def)
  from ok show "merged_avail s = add_mset v (merged_avail s')"
  proof (cases rule: merged_call_cases)
    case (drawn x r)
    have "v = x" "s' = s\<lparr>mr_reservoir := r\<rparr>" using call drawn(2) by simp_all
    then show ?thesis using mset_set.remove [OF fin drawn(4)] drawn(1,5) by (simp add: merged_avail_def)
  qed (use call in \<open>auto simp: merged_avail_def\<close>)
next
  fix s s' :: "'g merged_reservoir"
  assume ok: "merged_ok rng s" and call: "merged_call rng s = (Inr None, s')"
  from ok show "s' = s \<and> merged_avail s = {#}"
    by (cases rule: merged_call_cases) (use call in \<open>auto simp: merged_avail_def\<close>)
qed

text \<open>Whatever state the reservoir is in, a batch leaves that much less in it.\<close>

lemma draw_one_len: "draw rng 1 r = (Inr xs, r') \<Longrightarrow> reservoir_len r' = reservoir_len r - 1"
  by (auto simp: draw_def sample_no_replacement_def reservoir_len_def Let_def split: if_splits prod.splits sum.splits)

lemma merged_call_remaining:
  assumes "merged_call rng m = (Inr (Some v), m')"
  shows "Suc (merged_remaining m') = merged_remaining m"
proof (cases "mr_values m")
  case Nil
  with assms obtain xs r where "draw rng 1 (mr_reservoir m) = (Inr xs, r)" "m' = m\<lparr>mr_reservoir := r\<rparr>"
    "0 < reservoir_len (mr_reservoir m)"
    by (auto simp: merged_call_def split: if_splits prod.splits sum.splits list.splits)
  moreover from this(1) have "reservoir_len r = reservoir_len (mr_reservoir m) - 1" by (rule draw_one_len)
  ultimately show ?thesis using Nil by (simp add: merged_remaining_def)
next
  case (Cons v vs)
  with assms show ?thesis by (auto simp: merged_call_def merged_remaining_def)
qed

lemma draw_batch_remaining:
  "draw_batch (merged_call rng) n m = (Inr vs, m') \<Longrightarrow> merged_remaining m' + length vs \<le> merged_remaining m"
proof (induction n arbitrary: m vs)
  case (Suc n)
  show ?case
  proof (cases "merged_call rng m")
    case (Pair r t)
    show ?thesis
    proof (cases r)
      case (Inr o')
      show ?thesis
      proof (cases o')
        case None
        with Inr Pair Suc.prems show ?thesis
          by (auto simp: merged_call_def split: list.splits if_splits prod.splits sum.splits)
      next
        case (Some v)
        with Inr Pair Suc.prems obtain us where "draw_batch (merged_call rng) n t = (Inr us, m')" "vs = v # us"
          by (auto split: prod.splits sum.splits)
        with Suc.IH merged_call_remaining Pair Inr Some show ?thesis by fastforce
      qed
    qed (use Pair Suc.prems in simp)
  qed
qed simp

interpretation pf: draining_factory "prefetch_call (merged_call rng) need" merged_remaining
  for rng :: "'g rng" and need :: int
proof unfold_locales
  fix n f b and bs :: "address list" and f'
  assume "prefetch_call (merged_call rng) need n f = (Inr (Some (b # bs)), f')"
  then have "draw_batch (merged_call rng) (nat (need - int n)) f = (Inr (b # bs), f')"
    by (auto simp: prefetch_call_def split: prod.splits sum.splits list.splits)
  then show "merged_remaining f' + length (b # bs) \<le> merged_remaining f" by (rule draw_batch_remaining)
qed

lemma merged_batch_split:
  "draw_batch (merged_call rng) n m =
     (if n \<le> length (mr_values m)
      then (Inr (take n (mr_values m)), m\<lparr>mr_values := drop n (mr_values m)\<rparr>)
      else case draw_batch (merged_call rng) (n - length (mr_values m)) (m\<lparr>mr_values := []\<rparr>) of
             (Inl e, m') \<Rightarrow> (Inl e, m')
           | (Inr ys, m') \<Rightarrow> (Inr (mr_values m @ ys), m'))"
proof (induction n arbitrary: m)
  case 0
  show ?case by simp
next
  case (Suc n)
  show ?case
  proof (cases "mr_values m")
    case Nil
    then have "m\<lparr>mr_values := []\<rparr> = m" by (cases m) simp
    then show ?thesis unfolding Nil by (simp del: draw_batch.simps split: prod.split sum.split)
  next
    case (Cons v vs)
    then have "merged_call rng m = (Inr (Some v), m\<lparr>mr_values := vs\<rparr>)" by (simp add: merged_call_def)
    with Suc.IH [of "m\<lparr>mr_values := vs\<rparr>"] Cons show ?thesis
      by (simp split: prod.splits sum.splits)
  qed
qed

text \<open>Drawing from a reservoir in good order: the listed values first, then different others.\<close>

lemma merged_draws:
  assumes "merged_ok rng m"
  shows "\<exists>ys m'. draw_batch (merged_call rng) n m = (Inr (take n (mr_values m) @ ys), m') \<and> distinct ys
    \<and> set ys \<subseteq> reservoir_left (mr_reservoir m)
    \<and> length ys = min (n - length (mr_values m)) (card (reservoir_left (mr_reservoir m)))"
proof (cases "n \<le> length (mr_values m)")
  case True
  then show ?thesis by (simp add: merged_batch_split [of rng n m])
next
  case False
  let ?m = "m\<lparr>mr_values := []\<rparr>" and ?L = "reservoir_left (mr_reservoir m)"
  from assms have "merged_ok rng ?m" and fin: "finite ?L"
    using reservoir_left_card by (auto simp: merged_ok_def)
  have am: "merged_avail ?m = mset_set ?L" by (simp add: merged_avail_def)
  from mr.batch_spec [OF \<open>merged_ok rng ?m\<close>, of "n - length (mr_values m)"] obtain ys m' where
    ys: "draw_batch (merged_call rng) (n - length (mr_values m)) ?m = (Inr ys, m')"
      "mset_set ?L = mset ys + merged_avail m'"
      "length ys = min (n - length (mr_values m)) (size (mset_set ?L))"
    unfolding am by blast
  have sub: "mset ys \<subseteq># mset_set ?L" using ys(2) by simp
  then have "set ys \<subseteq> ?L" using fin by (metis finite_set_mset_mset_set set_mset_mono set_mset_mset)
  moreover have "distinct ys"
  proof -
    have "count (mset ys) a = (if a \<in> set ys then 1 else 0)" for a
    proof -
      have "count (mset ys) a \<le> count (mset_set ?L) a" using sub by (rule mset_subset_eq_count)
      also have "\<dots> \<le> 1" by (simp add: count_mset_set')
      finally show ?thesis by (auto simp: le_Suc_eq count_eq_zero_iff)
    qed
    then show ?thesis by (simp add: distinct_count_atmost_1)
  qed
  moreover have "length ys = min (n - length (mr_values m)) (card ?L)" using ys(3) by simp
  ultimately show ?thesis using False ys(1) by (simp add: merged_batch_split [of rng n m])
qed

lemma set_keys_dict_of [dict_simps]: "set (dict_keys (dict_of ps)) = set (map fst ps)"
  using set_keys_update [of "[]" ps] by simp

lemma dict_values_dict_of: "set (dict_values (dict_update d ps)) \<subseteq> set (dict_values d) \<union> set (map snd ps)"
proof (induction d ps rule: dict_update.induct)
  case (2 d k v e)
  moreover have "set (dict_values (dict_set d k v)) \<subseteq> insert v (set (dict_values d))"
    using set_dict_set_subset [of k v d] by auto
  ultimately show ?case by auto
qed simp

text \<open>
  Federated reservoirs. Drawing \<open>n\<close> times yields the included addresses first, in the order
  given, then different known nodes that are neither included nor excluded, as many as there are:
  an excluded address is never drawn unless it was asked for.
\<close>

theorem federated_reservoir_draws:
  assumes "rng_in_range rng"
  shows "\<exists>ys m'. draw_batch (merged_call rng) n (make_federated_staker_reservoir g known exclude incl)
      = (Inr (take n (opt_list incl) @ ys), m') \<and> distinct ys
    \<and> set ys \<subseteq> set known - set (opt_list incl) - set (opt_list exclude)
    \<and> length ys = min (n - length (opt_list incl)) (card (set known - set (opt_list incl) - set (opt_list exclude)))"
proof -
  let ?m = "make_federated_staker_reservoir g known exclude incl"
  let ?out = "set (opt_list incl) \<union> set (opt_list exclude)"
  define d where "d = dict_of (map (\<lambda>a. (a, 1::int)) (filter (\<lambda>a. a \<notin> ?out) known))"
  have m: "mr_values ?m = opt_list incl" "mr_reservoir ?m = new_providers_reservoir d g"
    by (simp_all add: make_federated_staker_reservoir_def d_def)
  have "set (dict_keys d) = set (map fst (map (\<lambda>a. (a, 1::int)) (filter (\<lambda>a. a \<notin> ?out) known)))"
    by (simp only: d_def set_keys_dict_of)
  then have d: "wf_dict d" "set (dict_keys d) = set known - set (opt_list incl) - set (opt_list exclude)"
    by (auto simp: d_def image_iff)
  have "\<forall>w \<in> set (dict_values d). 0 < w"
    using dict_values_dict_of [of "[]" "map (\<lambda>a. (a, 1::int)) (filter (\<lambda>a. a \<notin> ?out) known)"]
    by (auto simp: d_def)
  note new = reservoir_ok_new [OF d(1) this, of g]
  from new assms m have "merged_ok rng ?m" by (simp add: merged_ok_def)
  from merged_draws [OF this, of n] m new(2) d(2) show ?thesis by simp
qed

theorem federated_reservoir_draws_witness:
  "\<exists>ys m'. draw_batch (merged_call demo_rng) 3
      (make_federated_staker_reservoir 0 [''a'', ''b'', ''c'', ''d''] (Some [''b'']) (Some [''z'']))
        = (Inr (''z'' # ys), m') \<and> distinct ys \<and> set ys \<subseteq> {''a'', ''c'', ''d''} \<and> length ys = 2"
proof -
  have "{''a'', ''b'', ''c'', ''d''} - {''z''} - {''b''} = {''a'', ''c'', ''d''}" by auto
  with federated_reservoir_draws [OF demo_rng_in_range, of 3 0 "[''a'', ''b'', ''c'', ''d'']" "Some [''b'']" "Some [''z'']"]
  show ?thesis by (simp add: numeral_2_eq_2)
qed

subsection \<open>Paging\<close>

definition active :: "(int \<times> int) list \<Rightarrow> (int \<times> int) list" where
  "active ps = filter (\<lambda>p. 0 < snd p) ps"

text \<open>
  What the contract returns for a range of its list of providers (\<open>n = 0\<close>: all of the rest): the
  active ones, each with its authorized tokens, and the total.
\<close>

definition active_page :: "(int \<times> int) list \<Rightarrow> int \<Rightarrow> int \<Rightarrow> page" where
  "active_page stakers start n =
     (let ps = active (if n = 0 then drop (nat start) stakers else take (nat n) (drop (nat start) stakers))
      in (sum_list (map snd ps), ps))"

definition serves :: "fetch \<Rightarrow> (int \<times> int) list \<Rightarrow> bool" where
  "serves fetch stakers \<longleftrightarrow>
     (\<forall>i start n p. 0 \<le> start \<and> 0 \<le> n \<and> fetch i start n = Inr p \<longrightarrow> p = active_page stakers start n)"

abbreviation total :: "(int \<times> int) list \<Rightarrow> int" where
  "total ps \<equiv> sum_list (map snd (active ps))"

lemma active_append [simp]: "active (xs @ ys) = active xs @ active ys"
  by (simp add: active_def)

lemma dict_update_distinct: "distinct (map fst (d @ e)) \<Longrightarrow> dict_update d e = d @ e"
proof (induction d e rule: dict_update.induct)
  case (2 d k v e)
  then have "k \<notin> set (dict_keys d)" by auto
  then have "dict_set d k v = d @ [(k, v)]" by (induction d) auto
  with 2 show ?case by simp
qed simp

lemma distinct_active: "distinct (map fst stakers) \<Longrightarrow> distinct (map fst (active stakers))"
  by (simp add: active_def distinct_map_filter)

lemma take_page: "0 \<le> start \<Longrightarrow> 0 < n \<Longrightarrow>
  take (nat (start + n)) xs = take (nat start) xs @ take (nat n) (drop (nat start) xs)"
  by (simp add: nat_add_distrib take_add)

lemma page_extends:
  assumes "distinct (map fst stakers)" "0 \<le> start" "0 < n"
  shows "total (take (nat start) stakers) + fst (active_page stakers start n) = total (take (nat (start + n)) stakers)"
    "dict_update (active (take (nat start) stakers)) (dict_of (snd (active_page stakers start n)))
       = active (take (nat (start + n)) stakers)"
proof -
  let ?new = "active (take (nat n) (drop (nat start) stakers))"
  have "distinct (map fst (active (take (nat (start + n)) stakers)))"
    using assms(1) distinct_active distinct_take by (metis take_map)
  then have d: "distinct (map fst (active (take (nat start) stakers) @ ?new))"
    using assms(2,3) by (simp add: take_page)
  moreover from d have "dict_of ?new = ?new" using dict_update_distinct [of "[]" ?new] by simp
  ultimately show "dict_update (active (take (nat start) stakers)) (dict_of (snd (active_page stakers start n)))
       = active (take (nat (start + n)) stakers)"
    using assms(2,3) dict_update_distinct [OF d] by (simp add: active_page_def Let_def take_page)
  show "total (take (nat start) stakers) + fst (active_page stakers start n) = total (take (nat (start + n)) stakers)"
    using assms(2,3) by (simp add: active_page_def Let_def take_page)
qed

lemma fetch_pages_complete:
  assumes "serves fetch stakers" "distinct (map fst stakers)" "0 \<le> start" "0 < n"
  shows "\<exists>res. fetch_pages fetch (int (length stakers)) start n attempts
        (total (take (nat start) stakers)) (active (take (nat start) stakers)) = Some res
      \<and> (\<forall>x. res = Inr x \<longrightarrow> x = (total stakers, active stakers))
      \<and> ((\<forall>i a b e. fetch i a b = Inl e \<longrightarrow> e = TimeoutError \<and> i < 2) \<and> 4 \<le> n * 2 ^ attempts
          \<longrightarrow> res = Inr (total stakers, active stakers))"
  using assms(3,4)
proof (induction "(nat (int (length stakers) - start), nat n)" arbitrary: start n attempts
    rule: wf_induct_rule [OF wf_lex_prod [OF wf_less_than wf_less_than]])
  case (1 start n attempts)
  note IH = "1.hyps"
  show ?case
  proof (cases "start < int (length stakers)")
    case False
    then have "take (nat start) stakers = stakers" by simp
    with False show ?thesis by (simp add: fetch_pages.simps)
  next
    case True
    show ?thesis
    proof (cases "fetch attempts start n")
      case (Inl e)
      show ?thesis
      proof (cases "e = TimeoutError \<and> n \<noteq> 1 \<and> attempts < 2")
        case False
        then have "\<not> ((\<forall>i a b e. fetch i a b = Inl e \<longrightarrow> e = TimeoutError \<and> i < 2) \<and> 4 \<le> n * 2 ^ attempts)"
          using Inl by (cases "attempts < 2") (auto simp: less_2_cases_iff)
        with False True Inl show ?thesis by (subst fetch_pages.simps) auto
      next
        case retry: True
        then have "4 \<le> n * 2 ^ attempts \<Longrightarrow> 4 \<le> n div 2 * 2 ^ Suc attempts"
          using "1.prems" by (auto simp: less_2_cases_iff)
        moreover have "0 < n div 2" "nat (n div 2) < nat n" using retry "1.prems" by auto
        ultimately show ?thesis
          using IH [of start "n div 2" "Suc attempts"] True retry "1.prems" Inl
          by (subst fetch_pages.simps) auto
      qed
    next
      case (Inr p)
      with assms(1) "1.prems" have p: "p = active_page stakers start n"
        unfolding serves_def by (meson less_imp_le)
      have "4 \<le> n * 2 ^ attempts \<Longrightarrow> 4 \<le> n * 2 ^ Suc attempts" using "1.prems" by simp
      moreover have "0 \<le> start + n" using "1.prems" by simp
      ultimately show ?thesis
        using IH [of "start + n" n "Suc attempts"] True "1.prems" Inr p page_extends [OF assms(2) "1.prems"]
        by (subst fetch_pages.simps) auto
    qed
  qed
qed


text \<open>
  C5. Paging. When every page the contract serves is the active part of the range asked for, the
  paged query always comes to an end. If it returns, the result is exactly the active providers
  with their tokens and the total, whatever the page size and however it shrank after timeouts;
  and it does return when only the first two calls time out and the page size is at least four.
\<close>

theorem paged_query_complete:
  assumes "serves fetch stakers" "distinct (map fst stakers)" "0 < n"
  shows "\<exists>res. fetch_pages fetch (int (length stakers)) 0 n 0 0 [] = Some res
    \<and> (\<forall>x. res = Inr x \<longrightarrow> x = (total stakers, active stakers))
    \<and> ((\<forall>i a b e. fetch i a b = Inl e \<longrightarrow> e = TimeoutError \<and> i < 2) \<and> 4 \<le> n
        \<longrightarrow> res = Inr (total stakers, active stakers))"
  using fetch_pages_complete [OF assms(1,2) order_refl assms(3), of 0] by (simp add: active_def)

definition demo_stakers :: "(int \<times> int) list" where
  "demo_stakers = [(11, 40), (12, 0), (13, 5), (14, 7), (15, 1)]"

definition demo_fetch :: fetch where
  "demo_fetch i start n = (if i = 0 then Inl TimeoutError else Inr (active_page demo_stakers start n))"

lemma demo_serves: "serves demo_fetch demo_stakers" "distinct (map fst demo_stakers)"
  by (simp_all add: serves_def demo_fetch_def demo_stakers_def)

theorem paged_query_complete_witness:
  "fetch_pages demo_fetch (int (length demo_stakers)) 0 4 0 0 [] = Some (Inr (53, [(11, 40), (13, 5), (14, 7), (15, 1)]))"
  using paged_query_complete [OF demo_serves, of 4]
  by (auto simp: demo_fetch_def demo_stakers_def active_def split: if_splits)

lemma remove_without_spec:
  "wf_dict m \<Longrightarrow> n = sum_list (dict_values m) \<Longrightarrow>
   remove_without without (n, m) = (n', m') \<Longrightarrow>
   wf_dict m' \<and> n' = sum_list (dict_values m') \<and> set (dict_keys m') = set (dict_keys m) - set without
     \<and> set m' \<subseteq> set m"
proof (induction without "(n, m)" arbitrary: n m rule: remove_without.induct)
  case (2 a without n m)
  show ?case
  proof (cases "dict_get m a")
    case None
    then have "a \<notin> set (dict_keys m)" by (simp add: dict_get_None_iff)
    with 2 None show ?thesis by auto
  next
    case (Some t)
    have "sum_list (dict_values (dict_del m a)) = sum_list (dict_values m) - t"
      using Some "2.prems"(1)
    proof (induction m)
      case (Cons p m)
      then show ?case
        by (cases "fst p = a") auto
    qed simp
    moreover have "set (dict_del m a) \<subseteq> set m" by (induction m) auto
    ultimately show ?thesis
      using "2.hyps"(2) [OF Some] "2.prems" Some set_keys_del [of a m] by fastforce
  qed
qed simp


lemma wf_typed:
  assumes "distinct (map fst stakers)" "inj_on checksum (fst ` set stakers)"
  shows "wf_dict (map (\<lambda>(a, t). (checksum a, t)) (active stakers))"
proof -
  have "inj_on checksum (set (map fst (active stakers)))"
    using assms(2) by (rule inj_on_subset) (auto simp: active_def)
  then have "distinct (map checksum (map fst (active stakers)))"
    using distinct_active [OF assms(1)] by (subst distinct_map) simp
  then show ?thesis by (simp add: comp_def case_prod_beta)
qed

lemma get_all_active_spec:
  assumes "serves fetch stakers" "distinct (map fst stakers)" "\<forall>p \<in> set stakers. address_bytes_ok (fst p)"
    and "inj_on checksum (fst ` set stakers)"
  shows "\<exists>res. get_all_active_staking_providers checksum fetch (int (length stakers)) light sl sf page_size = Some res
    \<and> res \<noteq> Inl NoLockedTokens
    \<and> (\<forall>x. res = Inr x \<longrightarrow> x = (total stakers, map (\<lambda>(a, t). (checksum a, t)) (active stakers)))"
proof -
  define n where "n = (case page_size of None \<Rightarrow> if light then sl else sf | Some n \<Rightarrow> n)"
  let ?typed = "map (\<lambda>(a, t). (checksum a, t)) (active stakers)"
  have sub: "set (active stakers) \<subseteq> set stakers" by (auto simp: active_def)
  from wf_typed [OF assms(2,4)] have typed: "dict_of ?typed = ?typed" using dict_update_distinct [of "[]" ?typed] by simp
  have ok: "\<forall>p \<in> set (active stakers). address_bytes_ok (fst p)" using assms(3) sub by blast
  have act: "dict_of (active stakers) = active stakers"
    using dict_update_distinct [of "[]" "active stakers"] distinct_active [OF assms(2)] by simp
  show ?thesis
  proof (cases "0 < n")
    case True
    from fetch_pages_complete [OF assms(1,2) order_refl True, of 0] obtain res where
      "fetch_pages fetch (int (length stakers)) 0 n 0 0 [] = Some res"
      "\<forall>x. res = Inr x \<longrightarrow> x = (total stakers, active stakers)"
      by (auto simp: active_def)
    with True typed ok show ?thesis
      by (cases res) (auto simp: get_all_active_staking_providers_def n_def [symmetric] Let_def)
  next
    case False
    have "p = active_page stakers 0 0" if "fetch 0 0 0 = Inr p" for p
      using assms(1) that unfolding serves_def by (metis order_refl)
    with False typed ok act show ?thesis
      by (cases "fetch 0 0 0")
        (auto simp: get_all_active_staking_providers_def n_def [symmetric] Let_def active_page_def)
  qed
qed

text \<open>
  C6. Decentralized reservoirs. The query and the reservoir built from it come to an end. When
  the query raises, the exception is passed on; otherwise drawing \<open>n\<close> times yields the included
  addresses first, then different active staking providers that are neither included nor
  excluded, as many as there are, also when nobody else has tokens locked.
\<close>

theorem decentralized_reservoir_draws:
  assumes "serves fetch stakers" "distinct (map fst stakers)" "\<forall>p \<in> set stakers. address_bytes_ok (fst p)"
    and "inj_on checksum (fst ` set stakers)" "rng_in_range rng"
  shows "\<exists>act. get_all_active_staking_providers checksum fetch (int (length stakers)) light sl sf page_size = Some act \<and>
    (case act of
       Inl e \<Rightarrow> make_decentralized_staking_provider_reservoir g act exclude incl = Inl e
     | Inr _ \<Rightarrow> \<exists>m ys m'. make_decentralized_staking_provider_reservoir g act exclude incl = Inr m
         \<and> draw_batch (merged_call rng) n m = (Inr (take n (opt_list incl) @ ys), m') \<and> distinct ys
         \<and> (let others = checksum ` fst ` set (active stakers) - set (opt_list incl) - set (opt_list exclude)
            in set ys \<subseteq> others \<and> length ys = min (n - length (opt_list incl)) (card others)))"
proof -
  let ?without = "remdups (opt_list incl @ opt_list exclude)"
  let ?typed = "map (\<lambda>(a, t). (checksum a, t)) (active stakers)"
  from get_all_active_spec [OF assms(1-4), of light sl sf page_size] obtain act where
    act: "get_all_active_staking_providers checksum fetch (int (length stakers)) light sl sf page_size = Some act"
      "act \<noteq> Inl NoLockedTokens" "\<forall>x. act = Inr x \<longrightarrow> x = (total stakers, ?typed)"
    by blast
  show ?thesis
  proof (cases act)
    case (Inl e)
    with act show ?thesis
      by (cases e) (auto simp: make_decentralized_staking_provider_reservoir_def get_staking_provider_reservoir_def)
  next
    case (Inr x)
    obtain n' d where rem: "remove_without ?without (total stakers, ?typed) = (n', d)" by fastforce
    have wf: "wf_dict ?typed" using assms(2,4) by (rule wf_typed)
    have "total stakers = sum_list (dict_values ?typed)" by (simp add: comp_def case_prod_beta)
    from remove_without_spec [OF wf this rem] have d: "wf_dict d" "n' = sum_list (dict_values d)"
        "set (dict_keys d) = set (dict_keys ?typed) - set ?without" "set d \<subseteq> set ?typed" by auto
    have "set (dict_keys ?typed) = checksum ` fst ` set (active stakers)" by force
    with d(3) have keys: "set (dict_keys d) = checksum ` fst ` set (active stakers) - set (opt_list incl) - set (opt_list exclude)"
      by (simp add: Diff_eq Int_assoc)
    have pos: "\<forall>w \<in> set (dict_values d). 0 < w" using d(4) by (auto simp: active_def)
    have "n' = 0 \<Longrightarrow> d = []"
    proof (rule ccontr)
      assume "n' = 0" "d \<noteq> []"
      then obtain p d' where "d = p # d'" by (cases d) auto
      moreover have "0 \<le> sum_list (dict_values d')" using pos \<open>d = p # d'\<close> by (intro sum_list_nonneg) auto
      ultimately show False using \<open>n' = 0\<close> d(2) pos by auto
    qed
    then have m: "make_decentralized_staking_provider_reservoir g act exclude incl
        = Inr \<lparr>mr_values = opt_list incl, mr_reservoir = new_providers_reservoir d g\<rparr>" (is "_ = Inr ?m")
      using Inr act(3) rem
      by (simp add: make_decentralized_staking_provider_reservoir_def get_staking_provider_reservoir_def Let_def)
    note new = reservoir_ok_new [OF d(1) pos, of g]
    from new assms(5) have "merged_ok rng ?m" by (simp add: merged_ok_def)
    from merged_draws [OF this, of n] m new(2) keys act(1) Inr show ?thesis
      by (simp add: Let_def)
  qed
qed

definition demo_checksum :: "int \<Rightarrow> address" where
  "demo_checksum a = replicate (nat a) (CHR ''x'')"

lemma demo_addresses: "\<forall>p \<in> set demo_stakers. address_bytes_ok (fst p)" "inj_on demo_checksum (fst ` set demo_stakers)"
  by (simp_all add: demo_stakers_def demo_checksum_def address_bytes_ok_def inj_on_def)

theorem decentralized_reservoir_draws_witness:
  "\<exists>act. get_all_active_staking_providers demo_checksum demo_fetch (int (length demo_stakers)) False 30 1000 (Some 4)
      = Some act \<and>
    (case act of
       Inl e \<Rightarrow> make_decentralized_staking_provider_reservoir (0 :: nat) act None (Some [''z'']) = Inl e
     | Inr _ \<Rightarrow> \<exists>m ys m'. make_decentralized_staking_provider_reservoir 0 act None (Some [''z'']) = Inr m
         \<and> draw_batch (merged_call demo_rng) 3 m = (Inr (take 3 [''z''] @ ys), m') \<and> distinct ys
         \<and> (let others = demo_checksum ` fst ` set (active demo_stakers) - set [''z''] - set []
            in set ys \<subseteq> others \<and> length ys = min (3 - length [''z'']) (card others)))"
  using decentralized_reservoir_draws [OF demo_serves demo_addresses demo_rng_in_range,
      of False 30 1000 "Some 4" 0 None "Some [''z'']" 3]
  by (simp only: option.case)

end
