(* ===== verification/Retrieval.thy ===== *)
theory Retrieval
  imports Reservoir
begin

text \<open>
  Retrieval of capsule fragments: \<^verbatim>\<open>nulink/policy/kits.py\<close> and \<^verbatim>\<open>nulink/network/retrieval.py\<close>.

  Addresses in the treasure map are canonical (bytes), those of the results are checksum addresses;
  the conversion \<^verbatim>\<open>to_checksum_address\<close> is a parameter. So are the shuffle, the order in which a
  Python set is iterated, the answer of each node to a re-encryption request, and the parsing and
  verification of that answer by the cryptographic library. The worker pool is the one of
  \<open>Worker_Pool\<close>, under an arbitrary schedule; a worker that returns updates the plan as the code's
  worker does, at the moment it returns.
\<close>

type_synonym canonical = string

subsection \<open>Kits and results\<close>

type_synonym 'f retrieval_result = "(address, 'f) dict"

definition empty_result :: "'f retrieval_result" where
  "empty_result = []"

definition canonical_addresses :: "(address \<Rightarrow> canonical) \<Rightarrow> 'f retrieval_result \<Rightarrow> canonical set" where
  "canonical_addresses to_canonical r = set (map to_canonical (dict_keys r))"

definition result_with_result :: "'f retrieval_result \<Rightarrow> 'f retrieval_result \<Rightarrow> 'f retrieval_result" where
  "result_with_result self result = dict_update self result"

record ('m, 'k, 'f) policy_message_kit =
  pmk_message_kit :: 'm
  pmk_policy_encrypting_key :: 'k
  pmk_threshold :: nat
  pmk_result :: "'f retrieval_result"

definition from_message_kit :: "'m \<Rightarrow> 'k \<Rightarrow> nat \<Rightarrow> ('m, 'k, 'f) policy_message_kit" where
  "from_message_kit message_kit key threshold =
     \<lparr>pmk_message_kit = message_kit, pmk_policy_encrypting_key = key, pmk_threshold = threshold,
      pmk_result = empty_result\<rparr>"

definition is_decryptable_by_receiver :: "('m, 'k, 'f) policy_message_kit \<Rightarrow> bool" where
  "is_decryptable_by_receiver k \<longleftrightarrow> length (pmk_result k) \<ge> pmk_threshold k"

definition with_result :: "'f retrieval_result \<Rightarrow> ('m, 'k, 'f) policy_message_kit \<Rightarrow> ('m, 'k, 'f) policy_message_kit" where
  "with_result result k = k\<lparr>pmk_result := result_with_result (pmk_result k) result\<rparr>"

text \<open>\<^verbatim>\<open>decrypt\<close> hands the fragments to the library's \<^verbatim>\<open>decrypt_reencrypted\<close>.\<close>

definition decrypt :: "('m \<Rightarrow> 's \<Rightarrow> 'k \<Rightarrow> 'f list \<Rightarrow> 'x) \<Rightarrow> 's \<Rightarrow> ('m, 'k, 'f) policy_message_kit \<Rightarrow> 'x" where
  "decrypt decrypt_reencrypted sk k =
     decrypt_reencrypted (pmk_message_kit k) sk (pmk_policy_encrypting_key k) (dict_values (pmk_result k))"

record 'c retrieval_kit =
  rk_capsule :: 'c
  rk_queried_addresses :: "canonical list"

definition as_retrieval_kit :: "('m \<Rightarrow> 'c) \<Rightarrow> (address \<Rightarrow> canonical) \<Rightarrow> (canonical set \<Rightarrow> canonical list)
    \<Rightarrow> ('m, 'k, 'f) policy_message_kit \<Rightarrow> 'c retrieval_kit" where
  "as_retrieval_kit capsule to_canonical set_order k =
     \<lparr>rk_capsule = capsule (pmk_message_kit k),
      rk_queried_addresses = set_order (canonical_addresses to_canonical (pmk_result k))\<rparr>"

lemma length_dict_update_mono: "length d \<le> length (dict_update d e)"
  by (induction d e rule: dict_update.induct) (auto simp: length_dict_set split: if_splits)

subsection \<open>The plan\<close>

record 'h treasure_map =
  tm_threshold :: nat
  tm_destinations :: "(canonical, 'h) dict"

record ('c, 'f) retrieval_plan =
  rp_capsules :: "'c list"
  rp_threshold :: nat
  rp_results :: "('c, (canonical, 'f) dict) dict"
  rp_queried :: "('c, canonical set) dict"
  rp_processed :: "(canonical, 'c set) dict"
  rp_pick_order :: "canonical list"

record 'c work_order =
  wo_ursula_address :: canonical
  wo_capsules :: "'c list"

datatype retrieval_error =
    RuntimeError | KeyError | AttributeError | UnexpectedResponse | InvalidSignature | VerificationError
  | NotInWorkOrders | NotInKnownNodes | FailedToReencrypt

text \<open>\<^verbatim>\<open>defaultdict(set)\<close>\<close>

definition processed_get :: "(canonical, 'c set) dict \<Rightarrow> canonical \<Rightarrow> 'c set" where
  "processed_get d a = (case dict_get d a of Some s \<Rightarrow> s | None \<Rightarrow> {})"

definition processed_add :: "canonical \<Rightarrow> 'c \<Rightarrow> (canonical, 'c set) dict \<Rightarrow> (canonical, 'c set) dict" where
  "processed_add a c d = dict_set d a (insert c (processed_get d a))"

text \<open>
  \<open>shuffle\<close> is \<^verbatim>\<open>random.shuffle\<close>, \<open>set_order\<close> the iteration order of \<^verbatim>\<open>ursulas_to_contact_last\<close>.
\<close>

definition new_plan :: "(canonical list \<Rightarrow> canonical list) \<Rightarrow> (canonical set \<Rightarrow> canonical list)
    \<Rightarrow> 'h treasure_map \<Rightarrow> 'c retrieval_kit list \<Rightarrow> ('c, 'f) retrieval_plan" where
  "new_plan shuffle set_order tm kits =
     (let queried = dict_of (map (\<lambda>k. (rk_capsule k, set (rk_queried_addresses k))) kits);
          processed = foldl (\<lambda>d k. foldl (\<lambda>d a. processed_add a (rk_capsule k) d) d (rk_queried_addresses k)) [] kits;
          last_ones = \<Union> (set (dict_values queried));
          pick_order = shuffle (dict_keys (tm_destinations tm))
      in \<lparr>rp_capsules = map rk_capsule kits, rp_threshold = tm_threshold tm,
          rp_results = dict_of (map (\<lambda>k. (rk_capsule k, [])) kits),
          rp_queried = queried, rp_processed = processed,
          rp_pick_order = filter (\<lambda>u. u \<notin> last_ones) pick_order @ set_order last_ones\<rparr>)"

text \<open>The capsules worth asking an Ursula for. Every capsule has an entry in \<^verbatim>\<open>_queried_addresses\<close>.\<close>

definition open_capsules :: "('c, 'f) retrieval_plan \<Rightarrow> canonical \<Rightarrow> 'c list" where
  "open_capsules p u = filter (\<lambda>c. c \<notin> processed_get (rp_processed p) u
      \<and> (case dict_get (rp_queried p) c of Some q \<Rightarrow> card q < rp_threshold p | None \<Rightarrow> False)) (rp_capsules p)"

fun work_order_loop :: "('c, 'f) retrieval_plan \<Rightarrow> canonical list
    \<Rightarrow> (retrieval_error + 'c work_order) \<times> ('c, 'f) retrieval_plan" where
  "work_order_loop p [] = (Inl RuntimeError, p\<lparr>rp_pick_order := []\<rparr>)"
| "work_order_loop p (u # us) =
     (if open_capsules p u \<noteq> []
      then (Inr \<lparr>wo_ursula_address = u, wo_capsules = open_capsules p u\<rparr>, p\<lparr>rp_pick_order := us\<rparr>)
      else work_order_loop p us)"

definition get_work_order :: "('c, 'f) retrieval_plan
    \<Rightarrow> (retrieval_error + 'c work_order) \<times> ('c, 'f) retrieval_plan" where
  "get_work_order p = work_order_loop p (rp_pick_order p)"

text \<open>\<^verbatim>\<open>update\<close>; a capsule the plan does not know raises after what was recorded before it.\<close>

fun plan_update :: "canonical \<Rightarrow> ('c, 'f) dict \<Rightarrow> ('c, 'f) retrieval_plan
    \<Rightarrow> (retrieval_error + unit) \<times> ('c, 'f) retrieval_plan" where
  "plan_update u [] p = (Inr (), p)"
| "plan_update u ((c, f) # cfrags) p =
     (case (dict_get (rp_queried p) c, dict_get (rp_results p) c) of
        (Some q, Some r) \<Rightarrow>
          plan_update u cfrags (p\<lparr>rp_queried := dict_set (rp_queried p) c (insert u q),
            rp_processed := processed_add u c (rp_processed p),
            rp_results := dict_set (rp_results p) c (dict_set r u f)\<rparr>)
      | _ \<Rightarrow> (Inl KeyError, p))"

definition is_complete :: "('c, 'f) retrieval_plan \<Rightarrow> bool" where
  "is_complete p \<longleftrightarrow> rp_pick_order p = [] \<or> (\<forall>q \<in> set (dict_values (rp_queried p)). card q \<ge> rp_threshold p)"

definition plan_results :: "(canonical \<Rightarrow> address) \<Rightarrow> ('c, 'f) retrieval_plan \<Rightarrow> 'f retrieval_result list" where
  "plan_results checksum p = map (\<lambda>c. case dict_get (rp_results p) c of
       Some r \<Rightarrow> dict_of (map (\<lambda>(a, f). (checksum a, f)) r) | None \<Rightarrow> []) (rp_capsules p)"

subsection \<open>The client\<close>

text \<open>The batches of \<^verbatim>\<open>RetrievalStrategy\<close>: values are popped from the end of the list.\<close>

definition pop_last :: "'v list \<Rightarrow> (retrieval_error + 'v option) \<times> 'v list" where
  "pop_last vs = (if vs = [] then (Inr None, vs) else (Inr (Some (last vs)), butlast vs))"

definition retrieval_strategy_call :: "nat \<Rightarrow> (address, retrieval_error, address list) value_factory" where
  "retrieval_strategy_call need_successes = prefetch_call pop_last (int need_successes)"

text \<open>What \<^verbatim>\<open>_ensure_ursula_availability\<close> asks of the learner.\<close>

datatype learner_call =
    LearnFromTeacherNode
  | BlockUntilSpecificNodesAreKnown "address set" int

definition ensure_ursula_availability ::
  "(canonical \<Rightarrow> address) \<Rightarrow> bool \<Rightarrow> address set \<Rightarrow> 'h treasure_map \<Rightarrow> learner_call list" where
  "ensure_ursula_availability checksum done_seeding known tm =
     (let in_map = set (map checksum (dict_keys (tm_destinations tm)));
          unknown = in_map - known
      in (if done_seeding then [] else [LearnFromTeacherNode]) @
         (if card (in_map \<inter> known) \<ge> tm_threshold tm then []
          else [BlockUntilSpecificNodesAreKnown unknown (int (length (tm_destinations tm)) - int (tm_threshold tm))]))"

datatype 'b reply = Reply 'b | ReplyDown | ReplyNotFound | ReplyUnexpected

text \<open>\<open>from_bytes\<close> and \<open>verify\<close> are the library's; a failed verification says which exception it was.\<close>

datatype verify_failure = BadSignature | BadFragments | OtherVerifyFailure

definition request_reencryption :: "'b reply \<Rightarrow> ('b \<Rightarrow> 'r option) \<Rightarrow> ('r \<Rightarrow> 'c list \<Rightarrow> verify_failure + 'f list)
    \<Rightarrow> 'c list \<Rightarrow> retrieval_error + ('c, 'f) dict" where
  "request_reencryption reply from_bytes verify capsules =
     (case reply of
        ReplyDown \<Rightarrow> Inl RuntimeError
      | ReplyNotFound \<Rightarrow> Inl RuntimeError
      | ReplyUnexpected \<Rightarrow> Inl UnexpectedResponse
      | Reply b \<Rightarrow>
          (case from_bytes b of
             None \<Rightarrow> Inl RuntimeError
           | Some response \<Rightarrow>
               (case verify response capsules of
                  Inl BadSignature \<Rightarrow> Inl InvalidSignature
                | Inl BadFragments \<Rightarrow> Inl VerificationError
                | Inl OtherVerifyFailure \<Rightarrow> Inl RuntimeError
                | Inr cfrags \<Rightarrow> Inr (dict_of (zip capsules cfrags)))))"

text \<open>
  The orders are drawn from the plan until it raises; each is stored under the checksum address.
  The pick order gets shorter with every order.
\<close>

lemma work_order_loop_shorter:
  "work_order_loop p us = (Inr w, p') \<Longrightarrow> length (rp_pick_order p') < length us"
  by (induction p us rule: work_order_loop.induct) (auto split: if_splits)

function collect_orders :: "(canonical \<Rightarrow> address) \<Rightarrow> ('c, 'f) retrieval_plan \<Rightarrow> (address, 'c work_order) dict
    \<Rightarrow> (address, 'c work_order) dict \<times> ('c, 'f) retrieval_plan" where
  "collect_orders checksum p orders =
     (case get_work_order p of
        (Inl _, p') \<Rightarrow> (orders, p')
      | (Inr w, p') \<Rightarrow> collect_orders checksum p' (dict_set orders (checksum (wo_ursula_address w)) w))"
  by pat_completeness auto
termination
  by (relation "measure (\<lambda>(_, p, _). length (rp_pick_order p))")
    (auto simp: get_work_order_def dest: work_order_loop_shorter sym)

declare collect_orders.simps [simp del]

text \<open>
  The worker of \<^verbatim>\<open>retrieve_cfrags\<close>. \<open>request w\<close> is the outcome of \<^verbatim>\<open>_request_reencryption\<close> for an
  order; looking the encrypted key fragment up in the treasure map can raise as well.
\<close>

definition retrieval_worker :: "(canonical \<Rightarrow> address) \<Rightarrow> address set \<Rightarrow> 'h treasure_map
    \<Rightarrow> ('c work_order \<Rightarrow> retrieval_error + ('c, 'f) dict) \<Rightarrow> (address, 'c work_order) dict
    \<Rightarrow> address \<Rightarrow> (('c, 'f) dict, retrieval_error) outcome" where
  "retrieval_worker checksum known tm request orders a =
     (case dict_get orders a of
        None \<Rightarrow> WorkerRaises NotInWorkOrders
      | Some w \<Rightarrow>
          if checksum (wo_ursula_address w) \<notin> known then WorkerRaises NotInKnownNodes
          else if wo_ursula_address w \<notin> set (dict_keys (tm_destinations tm)) then WorkerRaises KeyError
          else (case request w of Inl _ \<Rightarrow> WorkerRaises FailedToReencrypt | Inr cfrags \<Rightarrow> WorkerReturns cfrags))"

abbreviation always :: "('v \<Rightarrow> ('r, 'e) outcome) \<Rightarrow> ('v, 'r, 'e) worker" where
  "always f \<equiv> \<lambda>v out. out = f v"

text \<open>The pool under a schedule, with the plan that its workers update.\<close>

fun note_update :: "(address, 'c work_order) dict \<Rightarrow> (('c, 'f) dict, 'e) pool_action
    \<Rightarrow> (address, ('c, 'f) dict, 'e, 'q) worker_pool \<Rightarrow> ('c, 'f) retrieval_plan \<Rightarrow> ('c, 'f) retrieval_plan" where
  "note_update orders (ActEnd i (WorkerReturns cfrags)) s p =
     (case dict_get orders (wp_tp_running s ! i) of
        Some w \<Rightarrow> snd (plan_update (wo_ursula_address w) cfrags p) | None \<Rightarrow> p)"
| "note_update orders _ s p = p"

fun retrieval_run :: "(address, 'e, 'q) value_factory \<Rightarrow> (address, ('c, 'f) dict, 'e) worker
    \<Rightarrow> (address, 'c work_order) dict \<Rightarrow> (('c, 'f) dict, 'e) pool_action list
    \<Rightarrow> (address, ('c, 'f) dict, 'e, 'q) worker_pool \<times> ('c, 'f) retrieval_plan
    \<Rightarrow> ((address, ('c, 'f) dict, 'e, 'q) worker_pool \<times> ('c, 'f) retrieval_plan) option" where
  "retrieval_run factory worker orders [] sp = Some sp"
| "retrieval_run factory worker orders (a # as) (s, p) =
     (case pool_act factory worker a s of
        None \<Rightarrow> None
      | Some t \<Rightarrow> retrieval_run factory worker orders as (t, note_update orders a s p))"

text \<open>
  \<^verbatim>\<open>worker_pool_start\<close>: run until \<^verbatim>\<open>block_until_target_successes\<close> returns or raises, cancel, run on
  until \<^verbatim>\<open>join\<close> returns. The outer \<open>None\<close> is a schedule that does not get that far.
\<close>

definition worker_pool_start :: "(address, 'e, 'q) value_factory \<Rightarrow> (address, ('c, 'f) dict, 'e) worker
    \<Rightarrow> (address, 'c work_order) dict \<Rightarrow> nat
    \<Rightarrow> (('c, 'f) dict, 'e) pool_action list \<times> (('c, 'f) dict, 'e) pool_action list
    \<Rightarrow> 'q \<Rightarrow> ('c, 'f) retrieval_plan
    \<Rightarrow> (('e + (address, ('c, 'f) dict) dict) \<times> 'q \<times> ('c, 'f) retrieval_plan) option" where
  "worker_pool_start factory worker orders target_successes schedule q p =
     (case retrieval_run factory worker orders (fst schedule) (start_pool (new_worker_pool target_successes q), p) of
        None \<Rightarrow> None
      | Some (s, p1) \<Rightarrow>
          (case block_until_target_successes s of
             None \<Rightarrow> None
           | Some blocked \<Rightarrow>
               (case retrieval_run factory worker orders (snd schedule) (cancel_pool s, p1) of
                  None \<Rightarrow> None
                | Some (t, p2) \<Rightarrow>
                    (case join_pool t of
                       None \<Rightarrow> None
                     | Some (Inl e, t') \<Rightarrow> Some (Inl e, wp_factory_state t', p2)
                     | Some (Inr _, t') \<Rightarrow>
                         Some (case blocked of
                                 Inr successes \<Rightarrow> Inr successes
                               | Inl (ProducerError e) \<Rightarrow> Inl e
                               | Inl _ \<Rightarrow> Inr (get_successes s), wp_factory_state t', p2)))))"

text \<open>The two attempts of \<^verbatim>\<open>retrieve_cfrags\<close>; the second asks for what the first left short.\<close>

definition retrieve_pools where
  "retrieve_pools shuffle set_order checksum known request tm kits sched1 sched2 =
     (let (orders, p) = collect_orders checksum (new_plan shuffle set_order tm kits) [];
          threshold = tm_threshold tm;
          factory = retrieval_strategy_call threshold;
          worker = always (retrieval_worker checksum known tm request orders)
      in case worker_pool_start factory worker orders threshold sched1 (dict_keys orders) p of
           None \<Rightarrow> None
         | Some (Inl e, _, _) \<Rightarrow> Some (Inl e)
         | Some (Inr successes, q, p1) \<Rightarrow>
             if length successes < threshold
             then (case worker_pool_start factory worker orders (threshold - length successes) sched2 q p1 of
                     None \<Rightarrow> None
                   | Some (Inl e, _, _) \<Rightarrow> Some (Inl e)
                   | Some (Inr new_successes, _, p2) \<Rightarrow> Some (Inr (dict_update successes new_successes, p2)))
             else Some (Inr (successes, p1)))"

text \<open>
  The tail builds a log message; its \<^verbatim>\<open>ursula.checksum_address for ursula in successes.values()\<close>
  reads an attribute that a dictionary of fragments does not have.
\<close>

definition retrieve_cfrags where
  "retrieve_cfrags shuffle set_order checksum known request tm kits sched1 sched2 =
     (case retrieve_pools shuffle set_order checksum known request tm kits sched1 sched2 of
        None \<Rightarrow> None
      | Some (Inl e) \<Rightarrow> Some (Inl e)
      | Some (Inr (successes, p)) \<Rightarrow>
          if length successes < tm_threshold tm \<and> successes \<noteq> [] then Some (Inl AttributeError)
          else Some (Inr (plan_results checksum p)))"

subsection \<open>The strategy is a source of values and drains\<close>

interpretation rs: value_source pop_last mset "\<lambda>_ :: 'v list. True"
proof unfold_locales
  fix s s' :: "'v list" and v
  assume "pop_last s = (Inr (Some v), s')"
  then show "mset s = add_mset v (mset s')"
    by (cases s rule: rev_cases) (auto simp: pop_last_def)
qed (auto simp: pop_last_def split: if_splits)

interpretation rsf: draining_factory "retrieval_strategy_call need" length for need
proof unfold_locales
  fix n and f f' :: "address list" and b bs
  assume c: "retrieval_strategy_call need n f = (Inr (Some (b # bs)), f' )"
  from rs.prefetch_spec [where s = f and need = "int need" and k = n] c have "mset f = mset (b # bs) + mset f'"
    by (auto simp: retrieval_strategy_call_def)
  then have "size (mset f) = size (mset (b # bs) + mset f')" by (rule arg_cong)
  then show "length f' + length (b # bs) \<le> length f" by simp
qed

subsection \<open>What a run of the pool does to the plan\<close>

text \<open>The results a pool has reported or is about to process.\<close>

definition reported :: "('v, 'r, 'e, 'q) worker_pool \<Rightarrow> ('v \<times> 'r) set" where
  "reported s = {(v, r). Success v r \<in> set (wp_result_queue s)} \<union> set (wp_successes s)"

lemma reported_process_result:
  "reported (process_result m (s\<lparr>wp_result_queue := q\<rparr>)) \<subseteq>
     {(v, r). Success v r \<in> set (m # q)} \<union> set (wp_successes s)"
proof (cases m)
  case (Success v r)
  have "set (dict_set (wp_successes s) v r) \<subseteq> insert (v, r) (set (wp_successes s))"
    by (rule set_dict_set_subset)
  with Success show ?thesis by (auto simp: reported_def Let_def)
qed (auto simp: reported_def)

lemma reported_process_results:
  assumes "process_results s = Some t"
  shows "reported t \<subseteq> reported s"
proof (cases "wp_processor s = PcGet")
  case True
  with assms obtain m q where "wp_result_queue s = m # q" "t = process_result m (s\<lparr>wp_result_queue := q\<rparr>)"
    by (auto simp: process_results_def split: list.splits)
  with reported_process_result [where m = m and s = s and q = q] show ?thesis by (auto simp: reported_def)
next
  case False
  with assms show ?thesis
    by (auto simp: process_results_def reported_def cancel_pool_def stop_threadpool_def
        split: processor_pc.splits if_splits)
qed

lemma reported_act:
  assumes "pool_act factory worker a s = Some t"
  shows "reported t \<subseteq> reported s \<union>
    (case a of ActEnd i (WorkerReturns r) \<Rightarrow> {(wp_tp_running s ! i, r)} | _ \<Rightarrow> {})"
proof (cases a)
  case ActProduce
  with assms show ?thesis
    by (auto simp: produce_values_def reported_def Let_def cancel_pool_def
        split: producer_pc.splits prod.splits sum.splits option.splits list.splits)
next
  case ActProcess
  with assms reported_process_results show ?thesis by force
next
  case (ActBail b)
  with assms show ?thesis
    by (auto simp: bail_on_timeout_def reported_def cancel_pool_def split: bail_pc.splits if_splits)
next
  case ActBegin
  with assms show ?thesis
    by (auto simp: worker_wrapper_begin_def reported_def split: list.splits if_splits)
next
  case (ActEnd i out)
  with assms show ?thesis
    by (cases out) (auto simp: worker_wrapper_end_def reported_def split: if_splits)
next
  case ActCancel
  with assms show ?thesis by (auto simp: reported_def cancel_pool_def split: if_splits)
qed

text \<open>What comes back for an order are fragments of exactly its capsules.\<close>

definition fragments_match :: "('c work_order \<Rightarrow> retrieval_error + ('c, 'f) dict) \<Rightarrow> bool" where
  "fragments_match request \<longleftrightarrow>
     (\<forall>w cfrags. request w = Inr cfrags \<longrightarrow> wf_dict cfrags \<and> set (dict_keys cfrags) = set (wo_capsules w))"

text \<open>
  A session: the orders are stored under the checksum address of their Ursula, ask for capsules
  of the plan, and what comes back for an order are fragments of exactly its capsules.
\<close>

definition session_ok :: "(canonical \<Rightarrow> address) \<Rightarrow> 'c list \<Rightarrow> ('c work_order \<Rightarrow> retrieval_error + ('c, 'f) dict)
    \<Rightarrow> (address, 'c work_order) dict \<Rightarrow> bool" where
  "session_ok checksum capsules request orders \<longleftrightarrow>
     (\<forall>a w. dict_get orders a = Some w \<longrightarrow> a = checksum (wo_ursula_address w) \<and> set (wo_capsules w) \<subseteq> set capsules)
     \<and> fragments_match request"

definition plan_keys :: "('c, 'f) retrieval_plan \<Rightarrow> bool" where
  "plan_keys p \<longleftrightarrow> set (dict_keys (rp_results p)) = set (rp_capsules p)
     \<and> set (dict_keys (rp_queried p)) = set (rp_capsules p)"

text \<open>Everything in the results was returned by some worker; everything reported is in the results.\<close>

definition plan_sound where
  "plan_sound checksum known tm request orders p \<longleftrightarrow>
     (\<forall>c r u f. dict_get (rp_results p) c = Some r \<and> (u, f) \<in> set r \<longrightarrow>
        (\<exists>a w cfrags. dict_get orders a = Some w \<and> wo_ursula_address w = u
           \<and> retrieval_worker checksum known tm request orders a = WorkerReturns cfrags
           \<and> dict_get cfrags c = Some f))"

definition recorded :: "(address, 'c work_order) dict \<Rightarrow> ('c, 'f) retrieval_plan \<Rightarrow> address \<Rightarrow> ('c, 'f) dict \<Rightarrow> bool" where
  "recorded orders p a cfrags \<longleftrightarrow> (\<exists>w. dict_get orders a = Some w \<and>
     (\<forall>c f. dict_get cfrags c = Some f \<longrightarrow>
        (\<exists>r. dict_get (rp_results p) c = Some r \<and> dict_get r (wo_ursula_address w) = Some f)))"

lemma plan_update_spec:
  assumes "plan_keys p" "wf_dict cfrags" "set (dict_keys cfrags) \<subseteq> set (rp_capsules p)"
  shows "\<exists>p'. plan_update u cfrags p = (Inr (), p') \<and> plan_keys p' \<and> rp_capsules p' = rp_capsules p
    \<and> (\<forall>c. dict_get (rp_results p') c =
          (case dict_get cfrags c of
             None \<Rightarrow> dict_get (rp_results p) c
           | Some f \<Rightarrow> map_option (\<lambda>r. dict_set r u f) (dict_get (rp_results p) c)))"
  using assms
proof (induction u cfrags p rule: plan_update.induct)
  case (2 u c f cfrags p)
  from "2.prems" have "c \<in> set (dict_keys (rp_results p))" "c \<in> set (dict_keys (rp_queried p))"
    by (auto simp: plan_keys_def)
  then obtain q r where qr: "dict_get (rp_queried p) c = Some q" "dict_get (rp_results p) c = Some r"
    by (metis dict_get_None_iff not_None_eq)
  let ?p = "p\<lparr>rp_queried := dict_set (rp_queried p) c (insert u q),
      rp_processed := processed_add u c (rp_processed p), rp_results := dict_set (rp_results p) c (dict_set r u f)\<rparr>"
  from "2.prems" have "plan_keys ?p" by (auto simp: plan_keys_def set_keys_set simp del: set_map)
  with "2.IH" [OF refl qr] "2.prems" obtain p' where
    p': "plan_update u cfrags ?p = (Inr (), p')" "plan_keys p'" "rp_capsules p' = rp_capsules p"
      "\<forall>c. dict_get (rp_results p') c = (case dict_get cfrags c of None \<Rightarrow> dict_get (rp_results ?p) c
           | Some f \<Rightarrow> map_option (\<lambda>r. dict_set r u f) (dict_get (rp_results ?p) c))"
    by (auto simp del: set_map)
  have "dict_get cfrags c = None" using "2.prems"(2) by (simp add: map_of_eq_None_iff)
  with p' qr show ?case by (auto simp: dict_get_set split: option.splits)
qed simp

definition retr_inv where
  "retr_inv checksum known tm request orders capsules R p \<longleftrightarrow>
     rp_capsules p = capsules \<and> plan_keys p \<and> plan_sound checksum known tm request orders p
     \<and> (\<forall>(a, cfrags) \<in> R. recorded orders p a cfrags)"

lemma retrieval_worker_returns:
  "retrieval_worker checksum known tm request orders a = WorkerReturns cfrags \<longleftrightarrow>
   (\<exists>w. dict_get orders a = Some w \<and> checksum (wo_ursula_address w) \<in> known
      \<and> wo_ursula_address w \<in> set (dict_keys (tm_destinations tm)) \<and> request w = Inr cfrags)"
  by (auto simp: retrieval_worker_def split: option.splits sum.splits)

lemma retr_inv_update:
  assumes ok: "session_ok checksum capsules request orders"
    and inv: "retr_inv checksum known tm request orders capsules R p"
    and ret: "retrieval_worker checksum known tm request orders v = WorkerReturns cfrags"
    and w: "dict_get orders v = Some w"
  shows "retr_inv checksum known tm request orders capsules (insert (v, cfrags) R)
    (snd (plan_update (wo_ursula_address w) cfrags p))"
proof -
  let ?u = "wo_ursula_address w"
  from ret w have req: "request w = Inr cfrags" by (auto simp: retrieval_worker_returns)
  from inv have caps: "rp_capsules p = capsules" "plan_keys p"
    and sound: "plan_sound checksum known tm request orders p" by (auto simp: retr_inv_def)
  from ok req w have "wf_dict cfrags" "set (dict_keys cfrags) \<subseteq> set (rp_capsules p)"
    unfolding session_ok_def fragments_match_def caps(1) by (metis, metis)
  from plan_update_spec [OF caps(2) this, of ?u] obtain p' where
    p': "plan_update ?u cfrags p = (Inr (), p')" "plan_keys p'" "rp_capsules p' = rp_capsules p"
    and res: "\<And>c. dict_get (rp_results p') c = (case dict_get cfrags c of None \<Rightarrow> dict_get (rp_results p) c
        | Some f \<Rightarrow> map_option (\<lambda>r. dict_set r ?u f) (dict_get (rp_results p) c))" by blast
  have sound': "plan_sound checksum known tm request orders p'"
    unfolding plan_sound_def
  proof (intro allI impI, elim conjE)
    fix c r u f assume r: "dict_get (rp_results p') c = Some r" "(u, f) \<in> set r"
    from r res [of c] consider (new) "u = ?u" "dict_get cfrags c = Some f"
      | (old) r0 where "dict_get (rp_results p) c = Some r0" "(u, f) \<in> set r0"
      by (auto split: option.splits dest: in_dict_setD)
    then show "\<exists>a w cfrags. dict_get orders a = Some w \<and> wo_ursula_address w = u
           \<and> retrieval_worker checksum known tm request orders a = WorkerReturns cfrags
           \<and> dict_get cfrags c = Some f"
    proof cases
      case new
      with w ret show ?thesis by blast
    next
      case old
      with sound show ?thesis unfolding plan_sound_def by blast
    qed
  qed
  have keep: "recorded orders p' a cf" if "recorded orders p a cf" for a cf
  proof -
    from that obtain w' where w': "dict_get orders a = Some w'"
      "\<And>c f. dict_get cf c = Some f \<Longrightarrow>
         \<exists>r. dict_get (rp_results p) c = Some r \<and> dict_get r (wo_ursula_address w') = Some f"
      by (auto simp: recorded_def)
    have "\<exists>r. dict_get (rp_results p') c = Some r \<and> dict_get r (wo_ursula_address w') = Some f"
      if "dict_get cf c = Some f" for c f
    proof -
      from w'(2) [OF that] obtain r where r: "dict_get (rp_results p) c = Some r"
        "dict_get r (wo_ursula_address w') = Some f" by blast
      with sound obtain a2 w2 cf2 where 2: "dict_get orders a2 = Some w2"
        "wo_ursula_address w2 = wo_ursula_address w'"
        "retrieval_worker checksum known tm request orders a2 = WorkerReturns cf2" "dict_get cf2 c = Some f"
        unfolding plan_sound_def by (meson dict_get_in_set)
      have "f0 = f" if "wo_ursula_address w' = ?u" "dict_get cfrags c = Some f0" for f0
      proof -
        have "a2 = v" using ok 2(1,2) w that(1) unfolding session_ok_def by metis
        with 2(3,4) ret that(2) show ?thesis by simp
      qed
      with r res [of c] show ?thesis by (auto simp: dict_get_set split: option.splits)
    qed
    with w'(1) show ?thesis by (auto simp: recorded_def)
  qed
  have new: "recorded orders p' v cfrags"
    unfolding recorded_def
  proof (intro exI [of _ w] conjI allI impI)
    fix c f assume f: "dict_get cfrags c = Some f"
    then have "c \<in> set (dict_keys cfrags)" by (metis dict_get_None_iff option.discI)
    with \<open>set (dict_keys cfrags) \<subseteq> set (rp_capsules p)\<close> caps(2) obtain r where
      "dict_get (rp_results p) c = Some r"
      unfolding plan_keys_def by (metis dict_get_None_iff not_None_eq subsetD)
    with f res [of c] show "\<exists>r. dict_get (rp_results p') c = Some r \<and> dict_get r ?u = Some f"
      by (simp add: dict_get_set)
  qed (rule w)
  from inv keep have "\<forall>(a, cf) \<in> insert (v, cfrags) R. recorded orders p' a cf"
    using new by (auto simp: retr_inv_def)
  with p' caps sound' show ?thesis by (simp add: retr_inv_def)
qed

lemma retr_inv_run:
  assumes ok: "session_ok checksum capsules request orders"
    and run: "retrieval_run factory (always (retrieval_worker checksum known tm request orders)) orders as (s, p) = Some (t, p')"
    and inv: "retr_inv checksum known tm request orders capsules (R \<union> reported s) p"
  shows "retr_inv checksum known tm request orders capsules (R \<union> reported t) p'
    \<and> run_pool factory (always (retrieval_worker checksum known tm request orders)) as s = Some t"
  using run inv
proof (induction as arbitrary: s p)
  case (Cons a as)
  let ?worker = "always (retrieval_worker checksum known tm request orders)"
  from Cons.prems(1) obtain u where u: "pool_act factory ?worker a s = Some u"
    and run: "retrieval_run factory ?worker orders as (u, note_update orders a s p) = Some (t, p')"
    by (auto split: option.splits)
  have weaken: "retr_inv checksum known tm request orders capsules A q"
    if "retr_inv checksum known tm request orders capsules B q" "A \<subseteq> B" for A B q
    using that by (auto simp: retr_inv_def)
  have "retr_inv checksum known tm request orders capsules (R \<union> reported u) (note_update orders a s p)"
  proof (cases "\<exists>i cfrags. a = ActEnd i (WorkerReturns cfrags)")
    case True
    then obtain i cfrags where a: "a = ActEnd i (WorkerReturns cfrags)" by blast
    let ?v = "wp_tp_running s ! i"
    from u a have ret: "retrieval_worker checksum known tm request orders ?v = WorkerReturns cfrags"
      by (auto split: if_splits)
    then obtain w where w: "dict_get orders ?v = Some w" by (auto simp: retrieval_worker_returns)
    from retr_inv_update [OF ok Cons.prems(2) ret w]
    have "retr_inv checksum known tm request orders capsules (insert (?v, cfrags) (R \<union> reported s)) (note_update orders a s p)"
      using a w by simp
    then show ?thesis by (rule weaken) (use reported_act [OF u] a in auto)
  next
    case False
    then have "note_update orders a s p = p"
      by (cases "(orders, a, s, p)" rule: note_update.cases) auto
    moreover have "(case a of ActEnd i (WorkerReturns r) \<Rightarrow> {(wp_tp_running s ! i, r)} | _ \<Rightarrow> {}) = {}"
      using False by (auto split: pool_action.splits outcome.splits)
    ultimately show ?thesis
      using weaken [OF Cons.prems(2), of "R \<union> reported u"] reported_act [OF u] by auto
  qed
  from Cons.IH [OF run this] u show ?case by simp
qed simp

lemma reported_started [simp]: "reported (start_pool (new_worker_pool n q)) = {}"
  by (simp add: reported_def start_pool_def new_worker_pool_def)

lemma reported_cancel [simp]: "reported (cancel_pool s) = reported s"
  by (simp add: reported_def cancel_pool_def)

lemma blocked_successes:
  "pool_inv worker s \<Longrightarrow> block_until_target_successes s = Some (Inr d) \<Longrightarrow> d = wp_successes s"
  by (auto dest!: block_until_reached simp: pool_inv_def inv_target_def)

lemma worker_pool_start_spec:
  assumes ok: "session_ok checksum capsules request orders"
    and inv: "retr_inv checksum known tm request orders capsules R p"
    and run: "worker_pool_start factory (always (retrieval_worker checksum known tm request orders)) orders n sched q p
      = Some (res, q', p')"
  shows "retr_inv checksum known tm request orders capsules R p'"
    and "res = Inr successes \<Longrightarrow> wf_dict successes
      \<and> retr_inv checksum known tm request orders capsules (R \<union> set successes) p'
      \<and> (\<forall>(a, cfrags) \<in> set successes. retrieval_worker checksum known tm request orders a = WorkerReturns cfrags)"
proof -
  let ?worker = "always (retrieval_worker checksum known tm request orders)"
  from run obtain s p1 blocked t where
    1: "retrieval_run factory ?worker orders (fst sched) (start_pool (new_worker_pool n q), p) = Some (s, p1)"
      "block_until_target_successes s = Some blocked"
      "retrieval_run factory ?worker orders (snd sched) (cancel_pool s, p1) = Some (t, p')"
    and res: "\<And>d. res = Inr d \<Longrightarrow> blocked = Inr d \<or> d = get_successes s"
    by (auto simp: worker_pool_start_def split: option.splits prod.splits sum.splits pool_error.splits)
  from retr_inv_run [OF ok 1(1), of R] inv have a: "retr_inv checksum known tm request orders capsules (R \<union> reported s) p1"
    and r: "run_pool factory ?worker (fst sched) (start_pool (new_worker_pool n q)) = Some s" by auto
  from retr_inv_run [OF ok 1(3), of "R \<union> reported s"] a
  have b: "retr_inv checksum known tm request orders capsules (R \<union> reported s) p'"
    by (auto simp: retr_inv_def)
  then show "retr_inv checksum known tm request orders capsules R p'" by (auto simp: retr_inv_def)
  have pinv: "pool_inv ?worker s" using wp.reaches_inv [OF run_pool_reachable [OF r]] .
  assume "res = Inr successes"
  with res blocked_successes [OF pinv] 1(2) have succ: "successes = wp_successes s"
    by (auto simp: get_successes_def)
  with pinv b show "wf_dict successes
      \<and> retr_inv checksum known tm request orders capsules (R \<union> set successes) p'
      \<and> (\<forall>(a, cfrags) \<in> set successes. retrieval_worker checksum known tm request orders a = WorkerReturns cfrags)"
    by (auto simp: retr_inv_def pool_inv_def inv_results_def reported_def)
qed

subsection \<open>The orders of a plan\<close>

lemma open_capsules_order [simp]: "open_capsules (p\<lparr>rp_pick_order := us\<rparr>) u = open_capsules p u"
  by (auto simp: open_capsules_def intro!: filter_cong split: option.splits)

lemma work_order_loop_order: "work_order_loop (p\<lparr>rp_pick_order := xs\<rparr>) us = work_order_loop p us"
  by (induction us) auto

definition store_order :: "(canonical \<Rightarrow> address) \<Rightarrow> ('c, 'f) retrieval_plan \<Rightarrow> canonical
    \<Rightarrow> (address, 'c work_order) dict \<Rightarrow> (address, 'c work_order) dict" where
  "store_order checksum p u os = dict_set os (checksum u) \<lparr>wo_ursula_address = u, wo_capsules = open_capsules p u\<rparr>"

lemma collect_orders_fold:
  "collect_orders checksum (p\<lparr>rp_pick_order := us\<rparr>) orders =
     (fold (store_order checksum p) (filter (\<lambda>u. open_capsules p u \<noteq> []) us) orders, p\<lparr>rp_pick_order := []\<rparr>)"
proof (induction us arbitrary: orders)
  case Nil
  show ?case by (simp add: collect_orders.simps get_work_order_def)
next
  case (Cons u us)
  show ?case
  proof (cases "open_capsules p u = []")
    case True
    then have "get_work_order (p\<lparr>rp_pick_order := u # us\<rparr>) = get_work_order (p\<lparr>rp_pick_order := us\<rparr>)"
      by (simp add: get_work_order_def work_order_loop_order)
    then have "collect_orders checksum (p\<lparr>rp_pick_order := u # us\<rparr>) orders = collect_orders checksum (p\<lparr>rp_pick_order := us\<rparr>) orders"
      by (simp add: collect_orders.simps)
    with Cons.IH True show ?thesis by simp
  next
    case False
    then have "collect_orders checksum (p\<lparr>rp_pick_order := u # us\<rparr>) orders
        = collect_orders checksum (p\<lparr>rp_pick_order := us\<rparr>) (store_order checksum p u orders)"
      by (subst collect_orders.simps) (simp add: get_work_order_def store_order_def)
    with Cons.IH False show ?thesis by simp
  qed
qed

lemma collect_orders_eq:
  "collect_orders checksum p [] =
     (fold (store_order checksum p) (filter (\<lambda>u. open_capsules p u \<noteq> []) (rp_pick_order p)) [], p\<lparr>rp_pick_order := []\<rparr>)"
  using collect_orders_fold [where p = p and us = "rp_pick_order p" and orders = "[]"] by simp

lemma store_orders_get:
  "dict_get (fold (store_order checksum p) us orders) a = Some w \<Longrightarrow>
   dict_get orders a = Some w \<or>
   (\<exists>u \<in> set us. a = checksum u \<and> w = \<lparr>wo_ursula_address = u, wo_capsules = open_capsules p u\<rparr>)"
proof (induction us arbitrary: orders)
  case (Cons u us)
  from Cons.IH [of "store_order checksum p u orders"] Cons.prems show ?case
    by (auto simp: store_order_def dict_get_set split: if_splits)
qed simp

lemma store_orders_keep:
  "\<exists>w. dict_get orders a = Some w \<and> wo_ursula_address w = u \<Longrightarrow> inj_on checksum (insert u (set us)) \<Longrightarrow> a = checksum u \<Longrightarrow>
   \<exists>w. dict_get (fold (store_order checksum p) us orders) a = Some w \<and> wo_ursula_address w = u"
proof (induction us arbitrary: orders)
  case (Cons x us)
  have "\<exists>w. dict_get (store_order checksum p x orders) a = Some w \<and> wo_ursula_address w = u"
    using Cons.prems by (auto simp: store_order_def dict_get_set inj_on_def)
  moreover have "inj_on checksum (insert u (set us))" using Cons.prems(2) by (auto simp: inj_on_def)
  ultimately show ?case using Cons.IH Cons.prems(3) by simp
qed simp

lemma dict_get_map_const:
  "dict_get (dict_update d (map (\<lambda>k. (g k, v)) ks)) c = (if c \<in> g ` set ks then Some v else dict_get d c)"
  by (induction ks arbitrary: d) (auto simp: dict_get_set)

lemma plan_keys_new: "plan_keys (new_plan shuffle set_order tm kits)"
  using set_keys_update [of "[]" "map (\<lambda>k. (rk_capsule k, [])) kits"]
    set_keys_update [of "[]" "map (\<lambda>k. (rk_capsule k, set (rk_queried_addresses k))) kits"]
  by (simp add: plan_keys_def new_plan_def Let_def image_image)

lemma plan_new_results:
  "dict_get (rp_results (new_plan shuffle set_order tm kits)) c = Some r \<Longrightarrow> r = []"
  by (auto simp: new_plan_def Let_def dict_get_map_const [where d = "[]"] split: if_splits)

lemma retr_inv_new:
  "retr_inv checksum known tm request orders (map rk_capsule kits) {} ((new_plan shuffle set_order tm kits)\<lparr>rp_pick_order := []\<rparr>)"
  using plan_keys_new [of shuffle set_order tm kits]
  by (auto simp: retr_inv_def plan_keys_def plan_sound_def dest: plan_new_results)
    (simp add: new_plan_def Let_def)

lemma set_dict_update_subset: "set (dict_update d xs) \<subseteq> set d \<union> set xs"
proof (induction d xs rule: dict_update.induct)
  case (2 d k v e)
  with set_dict_set_subset [of k v d] show ?case by auto
qed simp

lemma open_capsules_subset: "set (open_capsules p u) \<subseteq> set (rp_capsules p)"
  by (auto simp: open_capsules_def)

lemma rp_capsules_new [simp]: "rp_capsules (new_plan shuffle set_order tm kits) = map rk_capsule kits"
  by (simp add: new_plan_def Let_def)

lemma request_fragments:
  assumes "request_reencryption reply from_bytes verify capsules = Inr cfrags"
    and "\<And>r fs. verify r capsules = Inr fs \<Longrightarrow> list_all2 valid capsules fs"
  shows "wf_dict cfrags \<and> set (dict_keys cfrags) = set capsules \<and> (\<forall>c f. dict_get cfrags c = Some f \<longrightarrow> valid c f)"
proof -
  from assms obtain fs where fs: "cfrags = dict_of (zip capsules fs)" "list_all2 valid capsules fs"
    by (auto simp: request_reencryption_def split: reply.splits option.splits sum.splits verify_failure.splits)
  have "set (dict_keys cfrags) = set (map fst (zip capsules fs))"
    unfolding fs(1) by (rule set_keys_dict_of)
  then have "set (dict_keys cfrags) = set capsules" using fs(2) by (simp add: list_all2_lengthD)
  moreover have "valid c f" if "dict_get cfrags c = Some f" for c f
  proof -
    have "(c, f) \<in> set (zip capsules fs)"
      using dict_get_in_set [OF that] set_dict_update_subset [of "[]" "zip capsules fs"] unfolding fs(1) by auto
    with fs(2) show ?thesis by (auto simp: list_all2_iff)
  qed
  ultimately show ?thesis using fs(1) by auto
qed

lemma session_ok_collect:
  fixes p :: "('c, 'f) retrieval_plan"
  assumes "fragments_match request"
    and "collect_orders checksum (new_plan shuffle set_order tm kits) [] = (orders, p)"
  shows "session_ok checksum (map rk_capsule kits) request orders"
proof -
  let ?p = "new_plan shuffle set_order tm kits :: ('c, 'f) retrieval_plan"
  have "a = checksum (wo_ursula_address w) \<and> set (wo_capsules w) \<subseteq> set (map rk_capsule kits)"
    if "dict_get orders a = Some w" for a w
  proof -
    from that assms(2) obtain us where "dict_get (fold (store_order checksum ?p) us []) a = Some w"
      by (auto simp: collect_orders_eq)
    from store_orders_get [OF this] obtain u where
      "a = checksum u" "w = \<lparr>wo_ursula_address = u, wo_capsules = open_capsules ?p u\<rparr>" by auto
    with open_capsules_subset [of ?p u] show ?thesis by auto
  qed
  with assms(1) show ?thesis unfolding session_ok_def by blast
qed


text \<open>What the two attempts leave in the plan, and the successes they collect.\<close>

lemma retrieve_pools_spec:
  fixes request :: "'c work_order \<Rightarrow> retrieval_error + ('c, 'f) dict" and p :: "('c, 'f) retrieval_plan"
  assumes req: "fragments_match request"
    and run: "retrieve_pools shuffle set_order checksum known request tm kits sched1 sched2 = Some (Inr (successes, p))"
  obtains orders p0 where "collect_orders checksum (new_plan shuffle set_order tm kits :: ('c, 'f) retrieval_plan) [] = (orders, p0)"
    "wf_dict successes"
    "retr_inv checksum known tm request orders (map rk_capsule kits) (set successes) p"
    "\<And>a cfrags. (a, cfrags) \<in> set successes \<Longrightarrow> retrieval_worker checksum known tm request orders a = WorkerReturns cfrags"
proof -
  let ?p0 = "new_plan shuffle set_order tm kits :: ('c, 'f) retrieval_plan"
  obtain orders p0 where c: "collect_orders checksum ?p0 [] = (orders, p0)" by fastforce
  then have p0: "p0 = ?p0\<lparr>rp_pick_order := []\<rparr>" by (simp add: collect_orders_eq)
  let ?worker = "retrieval_worker checksum known tm request orders"
  let ?start = "worker_pool_start (retrieval_strategy_call (tm_threshold tm)) (always ?worker) orders"
  let ?inv = "retr_inv checksum known tm request orders (map rk_capsule kits)"
  have ok: "session_ok checksum (map rk_capsule kits) request orders" by (rule session_ok_collect [OF req c])
  have inv: "?inv {} p0" unfolding p0 by (rule retr_inv_new)
  from run c obtain s1 q1 p1 where 1: "?start (tm_threshold tm) sched1 (dict_keys orders) p0 = Some (Inr s1, q1, p1)"
    and fin: "successes = s1 \<and> p = p1 \<or> (\<exists>s2 q2. ?start (tm_threshold tm - length s1) sched2 q1 p1 = Some (Inr s2, q2, p)
        \<and> successes = dict_update s1 s2)"
    by (auto simp: retrieve_pools_def Let_def split: option.splits prod.splits sum.splits if_splits)
  note w1 = worker_pool_start_spec(2) [OF ok inv 1 refl]
  from fin have "wf_dict successes \<and> ?inv (set successes) p
    \<and> (\<forall>(a, cfrags) \<in> set successes. ?worker a = WorkerReturns cfrags)"
  proof (elim disjE exE conjE)
    fix s2 q2 assume 2: "?start (tm_threshold tm - length s1) sched2 q1 p1 = Some (Inr s2, q2, p)"
      and s: "successes = dict_update s1 s2"
    from w1 have "?inv (set s1) p1" by simp
    note w2 = worker_pool_start_spec(2) [OF ok this 2 refl]
    have "set successes \<subseteq> set s1 \<union> set s2" unfolding s by (rule set_dict_update_subset)
    with w1 w2 s show ?thesis by (fastforce simp: retr_inv_def)
  qed (use w1 in simp)
  with c that show ?thesis by blast
qed

text \<open>
  What is relied on of the library's verification: it hands back one fragment per capsule, each
  valid for the Ursula and the capsule.
\<close>

definition verifies :: "(canonical \<Rightarrow> 'c \<Rightarrow> 'f \<Rightarrow> bool) \<Rightarrow> ('c work_order \<Rightarrow> 'r \<Rightarrow> 'c list \<Rightarrow> verify_failure + 'f list) \<Rightarrow> bool" where
  "verifies valid verify \<longleftrightarrow> (\<forall>w r fs. verify w r (wo_capsules w) = Inr fs \<longrightarrow>
     list_all2 (valid (wo_ursula_address w)) (wo_capsules w) fs)"

text \<open>
  C7. Whatever is retrieved is genuine. In every schedule of the two worker pools, the results
  are one per kit, in order, and every fragment in the result of a kit was verified for that
  kit's capsule and comes from a known Ursula of the treasure map, under her checksum address.
\<close>

theorem retrieved_cfrags_verified:
  assumes "verifies valid verify"
    and "retrieve_cfrags shuffle set_order checksum known
        (\<lambda>w. request_reencryption (reply w) from_bytes (verify w) (wo_capsules w)) tm kits sched1 sched2 = Some (Inr results)"
  shows "length results = length kits \<and> (\<forall>i < length kits. \<forall>(a, f) \<in> set (results ! i).
    \<exists>u \<in> set (dict_keys (tm_destinations tm)). a = checksum u \<and> a \<in> known \<and> valid u (rk_capsule (kits ! i)) f)"
proof -
  let ?request = "\<lambda>w. request_reencryption (reply w) from_bytes (verify w) (wo_capsules w)"
  have req: "wf_dict cfrags \<and> set (dict_keys cfrags) = set (wo_capsules w)
      \<and> (\<forall>c f. dict_get cfrags c = Some f \<longrightarrow> valid (wo_ursula_address w) c f)" if "?request w = Inr cfrags" for w cfrags
    using request_fragments [OF that, of "valid (wo_ursula_address w)"] assms(1)
    unfolding verifies_def by blast
  from assms(2) obtain successes p where
    pools: "retrieve_pools shuffle set_order checksum known ?request tm kits sched1 sched2 = Some (Inr (successes, p))"
    and results: "results = plan_results checksum p"
    by (auto simp: retrieve_cfrags_def split: option.splits sum.splits if_splits)
  have req': "fragments_match ?request" using req unfolding fragments_match_def by blast
  obtain orders where inv: "retr_inv checksum known tm ?request orders (map rk_capsule kits) (set successes) p"
    by (rule retrieve_pools_spec [OF req' pools]) (erule that)
  then have caps: "rp_capsules p = map rk_capsule kits" and sound: "plan_sound checksum known tm ?request orders p"
    by (auto simp: retr_inv_def)
  have "\<exists>u \<in> set (dict_keys (tm_destinations tm)). a = checksum u \<and> a \<in> known \<and> valid u (rk_capsule (kits ! i)) f"
    if i: "i < length kits" "(a, f) \<in> set (results ! i)" for i a f
  proof -
    let ?c = "rk_capsule (kits ! i)"
    from i caps obtain r where r: "dict_get (rp_results p) ?c = Some r"
      and mem: "(a, f) \<in> set (dict_of (map (\<lambda>(a, f). (checksum a, f)) r))"
      unfolding results plan_results_def by (cases "dict_get (rp_results p) ?c") auto
    from mem set_dict_update_subset [of "[]" "map (\<lambda>(a, f). (checksum a, f)) r"]
    obtain u where u: "a = checksum u" "(u, f) \<in> set r" by auto
    from sound r u(2) obtain a' w cfrags where "dict_get orders a' = Some w" "wo_ursula_address w = u"
      "retrieval_worker checksum known tm ?request orders a' = WorkerReturns cfrags" "dict_get cfrags ?c = Some f"
      unfolding plan_sound_def by blast
    then have "u \<in> set (dict_keys (tm_destinations tm))" "checksum u \<in> known" "?request w = Inr cfrags"
      "wo_ursula_address w = u" "dict_get cfrags ?c = Some f"
      unfolding retrieval_worker_returns by auto
    with req [of w cfrags] u(1) show ?thesis by blast
  qed
  then show ?thesis using caps unfolding results plan_results_def by auto
qed

text \<open>For kits that were never used, every Ursula of the map is asked for all the capsules.\<close>

lemma open_capsules_fresh:
  assumes "\<forall>k \<in> set kits. rk_queried_addresses k = []" "0 < tm_threshold tm"
  shows "open_capsules (new_plan shuffle set_order tm kits) u = map rk_capsule kits"
proof -
  have p: "foldl (\<lambda>d k. foldl (\<lambda>d a. processed_add a (rk_capsule k) d) d (rk_queried_addresses k)) [] kits = []"
    using assms(1) by (induction kits) auto
  have m: "map (\<lambda>k. (rk_capsule k, set (rk_queried_addresses k))) kits = map (\<lambda>k. (rk_capsule k, {})) kits"
    using assms(1) by auto
  have q: "dict_get (dict_of (map (\<lambda>k. (rk_capsule k, set (rk_queried_addresses k))) kits)) c = Some {}"
    if "c \<in> rk_capsule ` set kits" for c
    unfolding m dict_get_map_const using that by (rule if_P)
  have sel: "rp_processed (new_plan shuffle set_order tm kits) = []"
    "rp_queried (new_plan shuffle set_order tm kits)
       = dict_of (map (\<lambda>k. (rk_capsule k, set (rk_queried_addresses k))) kits)"
    "rp_threshold (new_plan shuffle set_order tm kits) = tm_threshold tm"
    by (simp_all add: new_plan_def Let_def p)
  show ?thesis
    unfolding open_capsules_def rp_capsules_new sel
    by (rule filter_True) (simp add: q assms(2) processed_get_def)
qed

lemma verified_fragments_match:
  assumes "verifies (\<lambda>_ _ _. True) verify"
  shows "fragments_match (\<lambda>w. request_reencryption (reply w) from_bytes (verify w) (wo_capsules w))"
  unfolding fragments_match_def
proof (intro allI impI)
  fix w cfrags assume "request_reencryption (reply w) from_bytes (verify w) (wo_capsules w) = Inr cfrags"
  from request_fragments [OF this, of "\<lambda>_ _. True"] assms
  show "wf_dict cfrags \<and> set (dict_keys cfrags) = set (wo_capsules w)" unfolding verifies_def by blast
qed

text \<open>The work orders of kits that were never used are for all of their capsules.\<close>

lemma fresh_order_capsules:
  fixes orders :: "(address, 'c work_order) dict"
  assumes "collect_orders checksum (new_plan shuffle set_order tm kits :: ('c, 'f) retrieval_plan) [] = (orders, p0)"
    and "\<forall>k \<in> set kits. rk_queried_addresses k = []" "0 < tm_threshold tm" "dict_get orders a = Some w"
  shows "wo_capsules w = map rk_capsule kits" "a = checksum (wo_ursula_address w)"
proof -
  let ?p0 = "new_plan shuffle set_order tm kits :: ('c, 'f) retrieval_plan"
  from assms(1,4) obtain us where "dict_get (fold (store_order checksum ?p0) us []) a = Some w"
    by (auto simp: collect_orders_eq)
  from store_orders_get [OF this] show "wo_capsules w = map rk_capsule kits" "a = checksum (wo_ursula_address w)"
    using open_capsules_fresh [OF assms(2,3), of shuffle set_order] by auto
qed

text \<open>Every Ursula that succeeded has a fragment in each of the results.\<close>

lemma successes_in_results:
  fixes p :: "('c, 'f) retrieval_plan"
  assumes req: "fragments_match request"
    and fresh: "\<forall>k \<in> set kits. rk_queried_addresses k = []" "0 < tm_threshold tm"
    and pools: "retrieve_pools shuffle set_order checksum known request tm kits sched1 sched2 = Some (Inr (successes, p))"
    and r: "r \<in> set (plan_results checksum p)"
  shows "set (dict_keys successes) \<subseteq> set (dict_keys r)"
proof
  let ?p0 = "new_plan shuffle set_order tm kits :: ('c, 'f) retrieval_plan"
  obtain orders p0 where c: "collect_orders checksum ?p0 [] = (orders, p0)"
    and inv: "retr_inv checksum known tm request orders (map rk_capsule kits) (set successes) p"
    and ret: "\<And>a cfrags. (a, cfrags) \<in> set successes \<Longrightarrow>
      retrieval_worker checksum known tm request orders a = WorkerReturns cfrags"
    by (rule retrieve_pools_spec [OF req pools]) (rule that)
  from inv have "rp_capsules p = map rk_capsule kits" by (simp add: retr_inv_def)
  with r obtain k where k: "k \<in> set kits" "r = (case dict_get (rp_results p) (rk_capsule k) of
      Some r \<Rightarrow> dict_of (map (\<lambda>(a, f). (checksum a, f)) r) | None \<Rightarrow> [])"
    by (auto simp: plan_results_def)
  fix a assume "a \<in> set (dict_keys successes)"
  then obtain cfrags where a: "(a, cfrags) \<in> set successes" by auto
  from ret [OF a] obtain w where w: "dict_get orders a = Some w" "request w = Inr cfrags"
    by (auto simp: retrieval_worker_returns)
  note order = fresh_order_capsules [OF c fresh w(1)]
  have "set (dict_keys cfrags) = rk_capsule ` set kits"
    using req w(2) order(1) unfolding fragments_match_def by (metis list.set_map)
  with k(1) obtain f where "dict_get cfrags (rk_capsule k) = Some f"
    by (metis dict_get_None_iff image_eqI not_None_eq)
  with inv a w(1) obtain r0 where "dict_get (rp_results p) (rk_capsule k) = Some r0"
    "dict_get r0 (wo_ursula_address w) = Some f"
    by (fastforce simp: retr_inv_def recorded_def)
  with k(2) have "r = dict_of (map (\<lambda>(a, f). (checksum a, f)) r0)" "(wo_ursula_address w, f) \<in> set r0"
    by (auto dest: dict_get_in_set)
  with set_keys_dict_of [of "map (\<lambda>(a, f). (checksum a, f)) r0"] order(2)
  show "a \<in> set (dict_keys r)" by force
qed

text \<open>
  Enough successes are enough fragments. When kits that were never used are retrieved and
  the two pools collect at least the threshold of successes, the retrieval does not raise, and
  every one of the results has at least the threshold of fragments, among them one from each
  Ursula that succeeded: a message kit with this result is decryptable by the receiver.
\<close>

theorem enough_successes_decryptable:
  fixes p :: "('c, 'f) retrieval_plan"
  assumes "verifies (\<lambda>_ _ _. True) verify"
    and "\<forall>k \<in> set kits. rk_queried_addresses k = []" "0 < tm_threshold tm"
    and "retrieve_pools shuffle set_order checksum known
        (\<lambda>w. request_reencryption (reply w) from_bytes (verify w) (wo_capsules w)) tm kits sched1 sched2
        = Some (Inr (successes, p))"
    and "tm_threshold tm \<le> length successes"
  shows "retrieve_cfrags shuffle set_order checksum known
        (\<lambda>w. request_reencryption (reply w) from_bytes (verify w) (wo_capsules w)) tm kits sched1 sched2
        = Some (Inr (plan_results checksum p))
    \<and> (\<forall>r \<in> set (plan_results checksum p). set (dict_keys successes) \<subseteq> set (dict_keys r)
        \<and> is_decryptable_by_receiver (with_result r (from_message_kit m key (tm_threshold tm))))"
proof -
  note req = verified_fragments_match [OF assms(1)]
  note sub = successes_in_results [OF req assms(2-4)]
  have wf: "wf_dict successes" by (rule retrieve_pools_spec [OF req assms(4)])
  have "tm_threshold tm \<le> length (dict_update [] r)" if r: "r \<in> set (plan_results checksum p)" for r
  proof -
    have "length successes = card (set (dict_keys successes))" using wf by (metis distinct_card length_map)
    also have "\<dots> \<le> card (set (dict_keys (dict_of r)))"
      using sub [OF r] set_keys_dict_of [of r] by (intro card_mono) auto
    also have "\<dots> \<le> length (dict_of r)" using card_length [of "dict_keys (dict_of r)"] by simp
    finally show ?thesis using assms(5) by simp
  qed
  with sub assms(4,5) show ?thesis
    by (auto simp: retrieve_cfrags_def is_decryptable_by_receiver_def with_result_def from_message_kit_def
        result_with_result_def empty_result_def)
qed

definition demo_tm :: "unit treasure_map" where
  "demo_tm = \<lparr>tm_threshold = 1, tm_destinations = [(''u'', ()), (''v'', ())]\<rparr>"

definition demo_kits :: "nat retrieval_kit list" where
  "demo_kits = [\<lparr>rk_capsule = 4, rk_queried_addresses = []\<rparr>, \<lparr>rk_capsule = 5, rk_queried_addresses = []\<rparr>]"

definition demo_verify :: "nat work_order \<Rightarrow> unit \<Rightarrow> nat list \<Rightarrow> verify_failure + (nat \<times> canonical) list" where
  "demo_verify w r cs = Inr (map (\<lambda>c. (c, wo_ursula_address w)) cs)"

abbreviation demo_request :: "nat work_order \<Rightarrow> retrieval_error + (nat, nat \<times> canonical) dict" where
  "demo_request \<equiv> \<lambda>w. request_reencryption (Reply ()) Some (demo_verify w) (wo_capsules w)"

text \<open>One worker succeeds; then the pool is cancelled and wound up.\<close>

definition wind_up :: "('r, 'e) pool_action list" where
  "wind_up = [ActProduce, ActProduce, ActProduce, ActProcess, ActProcess, ActProcess, ActProcess, ActBail False, ActBail False]"

definition demo_sched :: "((nat, nat \<times> canonical) dict, retrieval_error) pool_action list \<times> ((nat, nat \<times> canonical) dict, retrieval_error) pool_action list" where
  "demo_sched = ([ActProduce, ActProduce, ActBegin, ActEnd 0 (WorkerReturns [(4, (4, ''v'')), (5, (5, ''v''))]), ActProcess, ActProcess], wind_up)"

lemma demo_retrieve_computed:
  "case retrieve_pools (\<lambda>x. x) (\<lambda>_. []) (\<lambda>x. x) {''u'', ''v''} demo_request demo_tm demo_kits demo_sched demo_sched of
     Some (Inr (successes, p)) \<Rightarrow> successes = [(''v'', [(4, (4, ''v'')), (5, (5, ''v''))])]
       \<and> plan_results (\<lambda>x. x) p = [[(''v'', (4, ''v''))], [(''v'', (5, ''v''))]]
   | _ \<Rightarrow> False"
  by code_simp

lemma demo_retrieve:
  "\<exists>p. retrieve_pools (\<lambda>x. x) (\<lambda>_. []) (\<lambda>x. x) {''u'', ''v''} demo_request demo_tm demo_kits demo_sched demo_sched
     = Some (Inr ([(''v'', [(4, (4, ''v'')), (5, (5, ''v''))])], p))
    \<and> plan_results (\<lambda>x. x) p = [[(''v'', (4, ''v''))], [(''v'', (5, ''v''))]]"
  using demo_retrieve_computed by (auto split: option.splits sum.splits prod.splits)

theorem retrieved_cfrags_verified_witness:
  "\<exists>results. retrieve_cfrags (\<lambda>x. x) (\<lambda>_. []) (\<lambda>x. x) {''u'', ''v''} demo_request demo_tm demo_kits demo_sched demo_sched
      = Some (Inr results) \<and> length results = length demo_kits \<and>
    (\<forall>i < length demo_kits. \<forall>(a, f) \<in> set (results ! i). \<exists>u \<in> set (dict_keys (tm_destinations demo_tm)).
       a = u \<and> a \<in> {''u'', ''v''} \<and> f = (rk_capsule (demo_kits ! i), u))"
proof -
  obtain results where r: "retrieve_cfrags (\<lambda>x. x) (\<lambda>_. []) (\<lambda>x. x) {''u'', ''v''} demo_request demo_tm demo_kits
      demo_sched demo_sched = Some (Inr results)"
    using demo_retrieve by (auto simp: retrieve_cfrags_def demo_tm_def)
  have "verifies (\<lambda>u c f. f = (c, u)) demo_verify"
    by (auto simp: verifies_def demo_verify_def list_all2_conv_all_nth)
  from retrieved_cfrags_verified [OF this r] r show ?thesis by blast
qed

theorem enough_successes_decryptable_witness:
  "\<exists>p :: (nat, nat \<times> canonical) retrieval_plan. retrieve_cfrags (\<lambda>x. x) (\<lambda>_. []) (\<lambda>x. x) {''u'', ''v''} demo_request demo_tm demo_kits demo_sched demo_sched
      = Some (Inr (plan_results (\<lambda>x. x) p))
    \<and> list_all (\<lambda>r. ''v'' \<in> set (dict_keys r) \<and> is_decryptable_by_receiver (with_result r (from_message_kit () () 1)))
        (plan_results (\<lambda>x. x) p)"
proof -
  from demo_retrieve obtain p where p: "retrieve_pools (\<lambda>x. x) (\<lambda>_. []) (\<lambda>x. x) {''u'', ''v''} demo_request demo_tm
      demo_kits demo_sched demo_sched = Some (Inr ([(''v'', [(4, (4, ''v'')), (5, (5, ''v''))])], p))" by blast
  have v: "verifies (\<lambda>_ _ _. True) demo_verify"
    by (auto simp: verifies_def demo_verify_def list_all2_conv_all_nth)
  have k: "\<forall>k \<in> set demo_kits. rk_queried_addresses k = []" "0 < tm_threshold demo_tm" "tm_threshold demo_tm = 1"
    by (simp_all add: demo_kits_def demo_tm_def)
  show ?thesis
    using enough_successes_decryptable [OF v k(1,2) p, of "()" "()"] k(3)
    by - (rule exI [of _ p], simp add: list_all_iff)
qed

text \<open>
  A partial retrieval raises. When the two pools collect some successes but fewer than the
  threshold, \<^verbatim>\<open>retrieve_cfrags\<close> raises \<^verbatim>\<open>AttributeError\<close> instead of returning the results it has,
  although the plan holds a fragment for every capsule an Ursula succeeded with.
\<close>

theorem partial_retrieval_raises:
  fixes p :: "('c, 'f) retrieval_plan"
  assumes "fragments_match request"
    and "retrieve_pools shuffle set_order checksum known request tm kits sched1 sched2 = Some (Inr (successes, p))"
    and "0 < length successes" "length successes < tm_threshold tm"
  shows "retrieve_cfrags shuffle set_order checksum known request tm kits sched1 sched2 = Some (Inl AttributeError)
    \<and> (\<forall>(a, cfrags) \<in> set successes. \<forall>c f. dict_get cfrags c = Some f \<longrightarrow>
         (\<exists>r u. dict_get (rp_results p) c = Some r \<and> dict_get r u = Some f \<and> checksum u = a))"
proof -
  obtain orders p0 where "collect_orders checksum (new_plan shuffle set_order tm kits :: ('c, 'f) retrieval_plan) [] = (orders, p0)"
    and "wf_dict successes" and inv: "retr_inv checksum known tm request orders (map rk_capsule kits) (set successes) p"
    and "\<And>a cfrags. (a, cfrags) \<in> set successes \<Longrightarrow>
      retrieval_worker checksum known tm request orders a = WorkerReturns cfrags"
    by (rule retrieve_pools_spec [OF assms(1,2)]) (rule that)
  from session_ok_collect [OF assms(1) this(1)]
  have key: "a = checksum (wo_ursula_address w)" if "dict_get orders a = Some w" for a w
    using that unfolding session_ok_def by blast
  have "\<exists>r u. dict_get (rp_results p) c = Some r \<and> dict_get r u = Some f \<and> checksum u = a"
    if "(a, cfrags) \<in> set successes" "dict_get cfrags c = Some f" for a cfrags c f
  proof -
    from inv that(1) have "recorded orders p a cfrags" by (auto simp: retr_inv_def)
    with that(2) key show ?thesis by (fastforce simp: recorded_def)
  qed
  with assms(2-4) show ?thesis by (auto simp: retrieve_cfrags_def)
qed

definition demo_tm2 :: "unit treasure_map" where
  "demo_tm2 = \<lparr>tm_threshold = 2, tm_destinations = [(''u'', ()), (''v'', ())]\<rparr>"

text \<open>
  A threshold of two where only one Ursula is known: the first pool finds one success and one
  failure and runs out of values, the second has nothing to ask.
\<close>

definition demo_partial ::
  "(((nat, nat \<times> canonical) dict, retrieval_error) pool_action list \<times> ((nat, nat \<times> canonical) dict, retrieval_error) pool_action list) list" where
  "demo_partial =
     [([ActProduce, ActProduce, ActProduce, ActProduce, ActBegin, ActBegin,
        ActEnd 0 (WorkerReturns [(4, (4, ''v'')), (5, (5, ''v''))]), ActEnd 0 (WorkerRaises NotInKnownNodes),
        ActProduce, ActProduce, ActProduce,
        ActProcess, ActProcess, ActProcess, ActProcess, ActProcess, ActProcess, ActProcess, ActProcess],
       [ActProcess, ActProcess, ActBail False, ActBail False]),
      ([ActProduce, ActProduce, ActProcess, ActProcess, ActProcess, ActProcess],
       [ActProcess, ActProcess, ActBail False, ActBail False])]"

lemma demo_partial_computed:
  "case retrieve_pools (\<lambda>x. x) (\<lambda>_. []) (\<lambda>x. x) {''v''} demo_request demo_tm2 demo_kits (demo_partial ! 0) (demo_partial ! 1) of
     Some (Inr (successes, p)) \<Rightarrow> successes = [(''v'', [(4, (4, ''v'')), (5, (5, ''v''))])] | _ \<Rightarrow> False"
  by code_simp

theorem partial_retrieval_raises_witness:
  "retrieve_cfrags (\<lambda>x. x) (\<lambda>_. []) (\<lambda>x. x) {''v''} demo_request demo_tm2 demo_kits (demo_partial ! 0) (demo_partial ! 1)
     = Some (Inl AttributeError)"
proof -
  from demo_partial_computed obtain p where p: "retrieve_pools (\<lambda>x. x) (\<lambda>_. []) (\<lambda>x. x) {''v''} demo_request demo_tm2
      demo_kits (demo_partial ! 0) (demo_partial ! 1) = Some (Inr ([(''v'', [(4, (4, ''v'')), (5, (5, ''v''))])], p))"
    by (auto split: option.splits sum.splits prod.splits)
  have "fragments_match demo_request"
    unfolding fragments_match_def
  proof (intro allI impI)
    fix w cfrags assume "demo_request w = Inr cfrags"
    then show "wf_dict cfrags \<and> set (dict_keys cfrags) = set (wo_capsules w)"
      using request_fragments [of "Reply ()" Some "demo_verify w" "wo_capsules w" cfrags "\<lambda>_ _. True"]
      by (auto simp: demo_verify_def list_all2_conv_all_nth)
  qed
  from partial_retrieval_raises [OF this p] show ?thesis by (simp add: demo_tm2_def)
qed

text \<open>
  Message kits accumulate results: adding a retrieval result keeps every Ursula that already
  answered, takes over the fragments of the new result where both have one, never makes a kit
  undecryptable, and adding two results one after the other is adding the joined result.
\<close>

theorem kit_accumulates_results:
  assumes "wf_dict r1" "wf_dict r2"
  shows "(is_decryptable_by_receiver k \<longrightarrow> is_decryptable_by_receiver (with_result r1 k))
    \<and> dict_get (pmk_result (with_result r1 k)) a = (case dict_get r1 a of Some f \<Rightarrow> Some f | None \<Rightarrow> dict_get (pmk_result k) a)
    \<and> canonical_addresses can (pmk_result (with_result r1 k))
        = canonical_addresses can (pmk_result k) \<union> canonical_addresses can r1
    \<and> dict_get (pmk_result (with_result r2 (with_result r1 k))) a
        = dict_get (pmk_result (with_result (result_with_result r1 r2) k)) a"
proof -
  have "set (dict_keys (dict_update (pmk_result k) r1)) = set (dict_keys (pmk_result k)) \<union> set (dict_keys r1)"
    by (rule set_keys_update)
  then have "canonical_addresses can (pmk_result (with_result r1 k))
        = canonical_addresses can (pmk_result k) \<union> canonical_addresses can r1"
    by (auto simp: canonical_addresses_def with_result_def result_with_result_def simp flip: image_image image_Un)
  moreover have "wf_dict (dict_update r1 r2)" using assms(1) by (rule wf_dict_update)
  ultimately show ?thesis
    using length_dict_update_mono [of "pmk_result k" r1] assms
    by (auto simp: is_decryptable_by_receiver_def with_result_def result_with_result_def dict_get_update split: option.splits)
qed

theorem kit_accumulates_results_witness:
  "is_decryptable_by_receiver (with_result [(''v'', 1)] (from_message_kit () () 1 :: (unit, unit, nat) policy_message_kit))
   \<and> dict_get (pmk_result (with_result [(''v'', 1 :: nat)] (from_message_kit () () 1 :: (unit, unit, nat) policy_message_kit))) ''v'' = Some 1"
  using kit_accumulates_results [of "[(''v'', 1 :: nat)]" "[]" "from_message_kit () () 1" "''v''"]
  by (simp add: is_decryptable_by_receiver_def with_result_def result_with_result_def from_message_kit_def empty_result_def)

end
