(* ===== verification/Fleet.thy ===== *)
theory Fleet
  imports Nulink_Prelude
begin

text \<open>
  The fleet of nodes as one node perceives it: \<^verbatim>\<open>nulink/acumen/perception.py\<close>.

  A node object is represented by what the fleet reads of it and what does not change for the
  same object: its addresses, metadata bytes and the stamp by which node objects are compared.
  The clock, the metadata of the owner node at the time of a call, the library's
  \<^verbatim>\<open>FleetStateChecksum\<close> and the nickname derived from a checksum are parameters, as is the order in
  which the set of pending nodes is iterated.
\<close>

record node =
  n_checksum_address :: address
  n_stamp :: string
  n_domain :: string
  n_metadata :: string
  n_timestamp :: int

subsection \<open>Fleet states\<close>

record ('k, 'n) archived_state =
  as_checksum :: 'k
  as_nickname :: 'n
  as_timestamp :: int
  as_population :: nat

record state_diff =
  sd_this_node_updated :: bool
  sd_nodes_updated :: "address list"
  sd_nodes_removed :: "address list"

definition diff_empty :: "state_diff \<Rightarrow> bool" where
  "diff_empty d \<longleftrightarrow> \<not> sd_this_node_updated d \<and> sd_nodes_updated d = [] \<and> sd_nodes_removed d = []"

record ('k, 'n) fleet_state =
  fs_checksum :: 'k
  fs_nickname :: 'n
  fs_nodes :: "(address, node) dict"
  fs_timestamp :: int
  fs_this_node_ref :: bool
  fs_this_node_metadata :: "string option"

type_synonym 'k checksum_fn = "string option \<Rightarrow> string list \<Rightarrow> 'k"

text \<open>The constructor of \<^verbatim>\<open>FleetState\<close>, and \<^verbatim>\<open>FleetState.new\<close>.\<close>

definition make_fleet_state :: "'k checksum_fn \<Rightarrow> ('k \<Rightarrow> 'n) \<Rightarrow> int \<Rightarrow> (address, node) dict \<Rightarrow> bool
    \<Rightarrow> string option \<Rightarrow> ('k, 'n) fleet_state" where
  "make_fleet_state cs nick now nodes this_node_ref this_node_metadata =
     (let checksum = cs this_node_metadata (map n_metadata (dict_values nodes))
      in \<lparr>fs_checksum = checksum, fs_nickname = nick checksum, fs_nodes = nodes, fs_timestamp = now,
          fs_this_node_ref = this_node_ref, fs_this_node_metadata = this_node_metadata\<rparr>)"

definition new_fleet_state :: "'k checksum_fn \<Rightarrow> ('k \<Rightarrow> 'n) \<Rightarrow> int \<Rightarrow> bool \<Rightarrow> ('k, 'n) fleet_state" where
  "new_fleet_state cs nick now this_node = make_fleet_state cs nick now [] this_node None"

definition fleet_len :: "('k, 'n) fleet_state \<Rightarrow> nat" where
  "fleet_len s = length (fs_nodes s)"

definition population :: "('k, 'n) fleet_state \<Rightarrow> nat" where
  "population s = fleet_len s + (if fs_this_node_metadata s \<noteq> None then 1 else 0)"

definition archived :: "('k, 'n) fleet_state \<Rightarrow> ('k, 'n) archived_state" where
  "archived s = \<lparr>as_checksum = fs_checksum s, as_nickname = fs_nickname s,
     as_timestamp = fs_timestamp s, as_population = population s\<rparr>"

definition fleet_getitem :: "('k, 'n) fleet_state \<Rightarrow> address \<Rightarrow> node option" where
  "fleet_getitem s a = dict_get (fs_nodes s) a"

definition fleet_addresses :: "('k, 'n) fleet_state \<Rightarrow> address set" where
  "fleet_addresses s = set (dict_keys (fs_nodes s))"

definition fleet_contains :: "('k, 'n) fleet_state \<Rightarrow> address \<Rightarrow> bool" where
  "fleet_contains s a \<longleftrightarrow> a \<in> set (dict_keys (fs_nodes s))"

definition fleet_iter :: "('k, 'n) fleet_state \<Rightarrow> node list" where
  "fleet_iter s = dict_values (fs_nodes s)"

definition fleet_shuffled :: "(node list \<Rightarrow> node list) \<Rightarrow> ('k, 'n) fleet_state \<Rightarrow> node list" where
  "fleet_shuffled shuffle s = shuffle (dict_values (fs_nodes s))"

definition calculate_diff :: "('k, 'n) fleet_state \<Rightarrow> bool \<Rightarrow> node list \<Rightarrow> address list \<Rightarrow> state_diff" where
  "calculate_diff s this_node_updated nodes_to_add nodes_to_remove =
     \<lparr>sd_this_node_updated = this_node_updated,
      sd_nodes_updated = map n_checksum_address (filter (\<lambda>n. n_checksum_address n \<notin> set nodes_to_remove
         \<and> (case dict_get (fs_nodes s) (n_checksum_address n) of
              None \<Rightarrow> True | Some m \<Rightarrow> n_metadata m \<noteq> n_metadata n)) nodes_to_add),
      sd_nodes_removed = filter (\<lambda>a. a \<in> set (dict_keys (fs_nodes s))) nodes_to_remove\<rparr>"

text \<open>The two loops of \<^verbatim>\<open>with_updated_nodes\<close>; every updated address is in the dictionary of new nodes.\<close>

definition put_nodes :: "(address, node) dict \<Rightarrow> address list \<Rightarrow> (address, node) dict \<Rightarrow> (address, node) dict" where
  "put_nodes to_add updated nodes =
     foldl (\<lambda>d a. case dict_get to_add a of Some n \<Rightarrow> dict_set d a n | None \<Rightarrow> d) nodes updated"

definition drop_nodes :: "address list \<Rightarrow> (address, node) dict \<Rightarrow> (address, node) dict" where
  "drop_nodes removed nodes = foldl (\<lambda>d a. dict_del d a) nodes removed"

definition with_updated_nodes :: "'k checksum_fn \<Rightarrow> ('k \<Rightarrow> 'n) \<Rightarrow> int \<Rightarrow> string \<Rightarrow> node list \<Rightarrow> address list \<Rightarrow> bool
    \<Rightarrow> ('k, 'n) fleet_state \<Rightarrow> ('k, 'n) fleet_state \<times> state_diff" where
  "with_updated_nodes cs nick now this_metadata nodes_to_add nodes_to_remove skip_this_node s =
     (let (this_node_metadata, this_node_updated) =
            (if fs_this_node_ref s \<and> \<not> skip_this_node
             then (Some this_metadata, fs_this_node_metadata s \<noteq> Some this_metadata)
             else (fs_this_node_metadata s, False));
          diff = calculate_diff s this_node_updated nodes_to_add nodes_to_remove;
          nodes = (if \<not> diff_empty diff
             then drop_nodes (sd_nodes_removed diff)
               (put_nodes (dict_update [] (map (\<lambda>n. (n_checksum_address n, n)) nodes_to_add))
                  (sd_nodes_updated diff) (fs_nodes s))
             else fs_nodes s)
      in (make_fleet_state cs nick now nodes (fs_this_node_ref s) this_node_metadata, diff))"

subsection \<open>The sensor\<close>

record ('k, 'n) fleet_sensor =
  se_domain :: string
  se_current_state :: "('k, 'n) fleet_state"
  se_archived_states :: "('k, 'n) archived_state list"
  se_remote_states :: "(address, ('k, 'n) archived_state) dict"
  se_remote_last_seen :: "(address, int) dict"
  se_nodes_to_add :: "node list"
  se_nodes_to_remove :: "address list"
  se_auto_update_state :: bool

text \<open>\<^verbatim>\<open>deque(maxlen=5)\<close>: appending to a full deque drops the oldest entry.\<close>

definition archive_append :: "'a list \<Rightarrow> 'a \<Rightarrow> 'a list" where
  "archive_append xs x = (let ys = xs @ [x] in drop (length ys - 5) ys)"

definition new_fleet_sensor :: "'k checksum_fn \<Rightarrow> ('k \<Rightarrow> 'n) \<Rightarrow> int \<Rightarrow> string \<Rightarrow> bool \<Rightarrow> ('k, 'n) fleet_sensor" where
  "new_fleet_sensor cs nick now domain this_node =
     (let s = new_fleet_state cs nick now this_node
      in \<lparr>se_domain = domain, se_current_state = s, se_archived_states = [archived s],
          se_remote_states = [], se_remote_last_seen = [], se_nodes_to_add = [], se_nodes_to_remove = [],
          se_auto_update_state = False\<rparr>)"

definition record_fleet_state :: "'k checksum_fn \<Rightarrow> ('k \<Rightarrow> 'n) \<Rightarrow> (node list \<Rightarrow> node list) \<Rightarrow> int \<Rightarrow> string \<Rightarrow> bool
    \<Rightarrow> ('k, 'n) fleet_sensor \<Rightarrow> state_diff \<times> ('k, 'n) fleet_sensor" where
  "record_fleet_state cs nick set_order now this_metadata skip_this_node se =
     (let (new_state, diff) = with_updated_nodes cs nick now this_metadata
            (set_order (se_nodes_to_add se)) (se_nodes_to_remove se) skip_this_node (se_current_state se);
          se' = se\<lparr>se_nodes_to_add := [], se_nodes_to_remove := [], se_current_state := new_state\<rparr>
      in (diff, if \<not> diff_empty diff
                then se'\<lparr>se_archived_states := archive_append (se_archived_states se') (archived new_state)\<rparr>
                else se'))"

definition record_node :: "'k checksum_fn \<Rightarrow> ('k \<Rightarrow> 'n) \<Rightarrow> (node list \<Rightarrow> node list) \<Rightarrow> int \<Rightarrow> string
    \<Rightarrow> node \<Rightarrow> ('k, 'n) fleet_sensor \<Rightarrow> ('k, 'n) fleet_sensor" where
  "record_node cs nick set_order now this_metadata node se =
     (if n_domain node = se_domain se
      then let se' = se\<lparr>se_nodes_to_add := filter (\<lambda>m. n_stamp m \<noteq> n_stamp node) (se_nodes_to_add se) @ [node]\<rparr>
           in if se_auto_update_state se' then snd (record_fleet_state cs nick set_order now this_metadata False se') else se'
      else se)"

definition mark_as :: "node \<Rightarrow> ('k, 'n) fleet_sensor \<Rightarrow> ('k, 'n) fleet_sensor" where
  "mark_as node se = se\<lparr>se_nodes_to_remove := List.insert (n_checksum_address node) (se_nodes_to_remove se)\<rparr>"

datatype fleet_error = FleetKeyError address

definition record_remote_fleet_state :: "('k \<Rightarrow> 'n) \<Rightarrow> int \<Rightarrow> address \<Rightarrow> 'k \<Rightarrow> int \<Rightarrow> nat
    \<Rightarrow> ('k, 'n) fleet_sensor \<Rightarrow> fleet_error + ('k, 'n) fleet_sensor" where
  "record_remote_fleet_state nick now a state_checksum timestamp pop se =
     (if \<not> fleet_contains (se_current_state se) a then Inl (FleetKeyError a)
      else let state = \<lparr>as_checksum = state_checksum, as_nickname = nick state_checksum,
                 as_timestamp = timestamp, as_population = pop\<rparr>
           in Inr (se\<lparr>se_remote_last_seen := dict_set (se_remote_last_seen se) a now,
                      se_remote_states := dict_set (se_remote_states se) a state\<rparr>))"

definition latest_state :: "('k, 'n) fleet_sensor \<Rightarrow> ('k, 'n) archived_state" where
  "latest_state se = last (se_archived_states se)"

definition previous_states :: "int \<Rightarrow> ('k, 'n) fleet_sensor \<Rightarrow> ('k, 'n) archived_state list" where
  "previous_states quantity se =
     (let xs = se_archived_states se;
          previous_states_num = min (int (length xs) - 1) quantity
      in py_slice xs (- previous_states_num - 1) (- 1))"

text \<open>What \<^verbatim>\<open>status_info\<close> looks up of a node: the recorded remote state and when it was seen.\<close>

definition status_info :: "address \<Rightarrow> ('k, 'n) fleet_sensor
    \<Rightarrow> fleet_error + node \<times> ('k, 'n) archived_state option \<times> int option" where
  "status_info a se =
     (case fleet_getitem (se_current_state se) a of
        None \<Rightarrow> Inl (FleetKeyError a)
      | Some n \<Rightarrow> Inr (n, dict_get (se_remote_states se) (n_checksum_address n),
                         dict_get (se_remote_last_seen se) (n_checksum_address n)))"

subsection \<open>What an update does to the fleet\<close>

text \<open>
  The abstract view of a fleet is a map from addresses to metadata. A batch of changes puts the
  last metadata given for an address and takes out every address to be removed.
\<close>

definition metadata_of :: "('k, 'n) fleet_state \<Rightarrow> address \<Rightarrow> string option" where
  "metadata_of s a = map_option n_metadata (dict_get (fs_nodes s) a)"

definition last_added :: "node list \<Rightarrow> address \<Rightarrow> node option" where
  "last_added ns a = (let xs = filter (\<lambda>n. n_checksum_address n = a) ns in if xs = [] then None else Some (last xs))"

definition apply_changes :: "node list \<Rightarrow> address list \<Rightarrow> (address \<Rightarrow> string option) \<Rightarrow> address \<Rightarrow> string option" where
  "apply_changes adds removes m a =
     (if a \<in> set removes then None
      else case last_added adds a of Some n \<Rightarrow> Some (n_metadata n) | None \<Rightarrow> m a)"

lemma dict_update_append: "dict_update d (e1 @ e2) = dict_update (dict_update d e1) e2"
  by (induction d e1 rule: dict_update.induct) auto

lemma dict_get_added:
  "dict_get (dict_update [] (map (\<lambda>n. (n_checksum_address n, n)) ns)) a = last_added ns a"
  by (induction ns rule: rev_induct) (auto simp: last_added_def dict_update_append dict_get_set Let_def)

lemma dict_get_put_nodes:
  "dict_get (put_nodes to_add updated d) a =
     (if a \<in> set updated \<and> dict_get to_add a \<noteq> None then dict_get to_add a else dict_get d a)"
  unfolding put_nodes_def
  by (induction updated arbitrary: d) (auto simp: dict_get_set split: option.splits)

lemma dict_get_drop_nodes: "dict_get (drop_nodes removed d) a = (if a \<in> set removed then None else dict_get d a)"
  unfolding drop_nodes_def by (induction removed arbitrary: d) (auto simp: dict_get_del)

lemma put_nodes_Nil [simp]: "put_nodes to_add [] d = d"
  by (simp add: put_nodes_def)

lemma drop_nodes_Nil [simp]: "drop_nodes [] d = d"
  by (simp add: drop_nodes_def)

lemma last_added_address: "last_added ns a = Some n \<Longrightarrow> n \<in> set ns \<and> n_checksum_address n = a"
proof -
  let ?xs = "filter (\<lambda>n. n_checksum_address n = a) ns"
  assume "last_added ns a = Some n"
  then have "?xs \<noteq> []" "n = last ?xs" by (auto simp: last_added_def Let_def split: if_splits)
  with last_in_set [of ?xs] show ?thesis by auto
qed

lemma last_added_None: "last_added ns a = None \<longleftrightarrow> (\<forall>n \<in> set ns. n_checksum_address n \<noteq> a)"
  by (auto simp: last_added_def Let_def filter_empty_conv)

text \<open>The new dictionary, whether or not the difference is empty.\<close>

abbreviation updated_nodes :: "node list \<Rightarrow> state_diff \<Rightarrow> (address, node) dict \<Rightarrow> (address, node) dict" where
  "updated_nodes adds d nodes \<equiv> drop_nodes (sd_nodes_removed d)
     (put_nodes (dict_update [] (map (\<lambda>n. (n_checksum_address n, n)) adds)) (sd_nodes_updated d) nodes)"

lemma with_updated_nodes_eq:
  assumes "with_updated_nodes cs nick now this_metadata adds removes skip s = (s', d)"
  shows "fs_nodes s' = updated_nodes adds d (fs_nodes s)"
    "fs_checksum s' = cs (fs_this_node_metadata s') (map n_metadata (dict_values (fs_nodes s')))"
    "fs_nickname s' = nick (fs_checksum s')" "fs_this_node_ref s' = fs_this_node_ref s" "fs_timestamp s' = now"
    "fs_this_node_metadata s' = (if fs_this_node_ref s \<and> \<not> skip then Some this_metadata else fs_this_node_metadata s)"
    "\<exists>u. d = calculate_diff s u adds removes \<and> (\<not> u \<longrightarrow> fs_this_node_metadata s' = fs_this_node_metadata s)"
proof -
  let ?md = "if fs_this_node_ref s \<and> \<not> skip then Some this_metadata else fs_this_node_metadata s"
  let ?u = "fs_this_node_ref s \<and> \<not> skip \<and> fs_this_node_metadata s \<noteq> Some this_metadata"
  have "s' = fst (with_updated_nodes cs nick now this_metadata adds removes skip s)"
    and "d = snd (with_updated_nodes cs nick now this_metadata adds removes skip s)"
    using assms by simp_all
  moreover have md: "(if fs_this_node_ref s \<and> \<not> skip then (Some this_metadata, fs_this_node_metadata s \<noteq> Some this_metadata)
      else (fs_this_node_metadata s, False)) = (?md, ?u)" by simp
  ultimately have d: "d = calculate_diff s ?u adds removes"
    and s': "s' = make_fleet_state cs nick now (if \<not> diff_empty d then updated_nodes adds d (fs_nodes s) else fs_nodes s)
      (fs_this_node_ref s) ?md"
    unfolding with_updated_nodes_def md Let_def prod.case fst_conv snd_conv by blast+
  have nodes: "(if \<not> diff_empty d then updated_nodes adds d (fs_nodes s) else fs_nodes s) = updated_nodes adds d (fs_nodes s)"
    by (simp add: diff_empty_def)
  show "fs_nodes s' = updated_nodes adds d (fs_nodes s)"
    "fs_checksum s' = cs (fs_this_node_metadata s') (map n_metadata (dict_values (fs_nodes s')))"
    "fs_nickname s' = nick (fs_checksum s')" "fs_this_node_ref s' = fs_this_node_ref s" "fs_timestamp s' = now"
    "fs_this_node_metadata s' = ?md"
    unfolding s' nodes by (simp_all add: make_fleet_state_def Let_def)
  then show "\<exists>u. d = calculate_diff s u adds removes \<and> (\<not> u \<longrightarrow> fs_this_node_metadata s' = fs_this_node_metadata s)"
    using d by (intro exI [of _ ?u]) auto
qed

lemma nodes_updated_iff:
  "a \<in> set (sd_nodes_updated (calculate_diff s u adds removes)) \<longleftrightarrow> a \<notin> set removes \<and>
     (\<exists>n \<in> set adds. n_checksum_address n = a \<and> metadata_of s a \<noteq> Some (n_metadata n))"
  unfolding calculate_diff_def metadata_of_def by (auto split: option.splits)

lemma lookup_updated:
  assumes "d = calculate_diff s u adds removes"
  shows "map_option n_metadata (dict_get (updated_nodes adds d (fs_nodes s)) a)
    = apply_changes adds removes (metadata_of s) a"
proof -
  have removed: "a \<in> set (sd_nodes_removed d) \<longleftrightarrow> a \<in> set removes \<and> dict_get (fs_nodes s) a \<noteq> None"
    unfolding assms calculate_diff_def dict_get_None_iff by auto
  have updated: "a \<in> set (sd_nodes_updated d) \<longleftrightarrow> a \<notin> set removes \<and>
      (\<exists>n \<in> set adds. n_checksum_address n = a \<and> metadata_of s a \<noteq> Some (n_metadata n))"
    unfolding assms by (rule nodes_updated_iff)
  show ?thesis
  proof (cases "a \<in> set removes")
    case True
    with removed updated show ?thesis
      by (auto simp: apply_changes_def dict_get_drop_nodes dict_get_put_nodes)
  next
    case False
    show ?thesis
    proof (cases "last_added adds a")
      case None
      with False removed show ?thesis
        by (simp add: apply_changes_def dict_get_drop_nodes dict_get_put_nodes dict_get_added metadata_of_def)
    next
      case (Some n)
      with False removed updated last_added_address [OF Some] show ?thesis
        by (auto simp: apply_changes_def dict_get_drop_nodes dict_get_put_nodes dict_get_added metadata_of_def)
    qed
  qed
qed

text \<open>
  C8. An update of the fleet refines the abstract batch of changes: afterwards the metadata known
  for an address is the last one given in the batch, unless the address was to be removed, which
  wins. The difference names exactly the known nodes that were removed; when the nodes given have
  different addresses it names exactly those whose metadata changed; and when it is empty the
  nodes, the metadata of the owner and so the checksum are what they were.
\<close>

theorem fleet_update_refines:
  assumes "with_updated_nodes cs nick now this_metadata adds removes skip s = (s', d)"
  shows "metadata_of s' = apply_changes adds removes (metadata_of s)
    \<and> set (sd_nodes_removed d) = set removes \<inter> fleet_addresses s
    \<and> (distinct (map n_checksum_address adds) \<longrightarrow>
         set (sd_nodes_updated d) = {a. a \<notin> set removes \<and> metadata_of s' a \<noteq> metadata_of s a})
    \<and> (diff_empty d \<longrightarrow> fs_nodes s' = fs_nodes s \<and> fs_this_node_metadata s' = fs_this_node_metadata s)
    \<and> fs_checksum s' = cs (fs_this_node_metadata s') (map n_metadata (dict_values (fs_nodes s')))"
proof -
  note eq = with_updated_nodes_eq [OF assms]
  from eq(7) obtain u where u: "d = calculate_diff s u adds removes"
    "\<not> u \<Longrightarrow> fs_this_node_metadata s' = fs_this_node_metadata s" by blast
  have meta: "metadata_of s' = apply_changes adds removes (metadata_of s)"
    using lookup_updated [OF u(1)] eq(1) by (auto simp: metadata_of_def)
  have removed: "set (sd_nodes_removed d) = set removes \<inter> fleet_addresses s"
    by (auto simp: u(1) calculate_diff_def fleet_addresses_def)
  have updated: "set (sd_nodes_updated d) = {a. a \<notin> set removes \<and> metadata_of s' a \<noteq> metadata_of s a}"
    if dist: "distinct (map n_checksum_address adds)"
  proof -
    have single: "last_added adds (n_checksum_address n) = Some n" if "n \<in> set adds" for n
    proof (cases "last_added adds (n_checksum_address n)")
      case None
      with that show ?thesis by (auto simp: last_added_None)
    next
      case (Some m)
      with last_added_address that dist show ?thesis by (metis distinct_map inj_onD)
    qed
    have "a \<in> set (sd_nodes_updated d) \<longleftrightarrow> a \<notin> set removes \<and> metadata_of s' a \<noteq> metadata_of s a" for a
    proof (cases "last_added adds a")
      case None
      moreover from None have "\<forall>n \<in> set adds. n_checksum_address n \<noteq> a" by (simp add: last_added_None)
      ultimately show ?thesis unfolding u(1) nodes_updated_iff meta apply_changes_def by auto
    next
      case (Some n)
      have "m = n" if "m \<in> set adds" "n_checksum_address m = a" for m
        using single [OF that(1)] that(2) Some by simp
      then have "(\<exists>m \<in> set adds. n_checksum_address m = a \<and> Q m) \<longleftrightarrow> Q n" for Q
        using last_added_address [OF Some] by blast
      with Some show ?thesis unfolding u(1) nodes_updated_iff meta apply_changes_def by auto
    qed
    then show ?thesis by blast
  qed
  have "fs_nodes s' = fs_nodes s \<and> fs_this_node_metadata s' = fs_this_node_metadata s" if "diff_empty d"
    using that u eq(1) by (auto simp: diff_empty_def calculate_diff_def)
  with meta removed updated eq(2) show ?thesis by blast
qed

definition demo_node :: node where
  "demo_node = \<lparr>n_checksum_address = ''a'', n_stamp = ''sa'', n_domain = ''mainnet'', n_metadata = ''m1'', n_timestamp = 5\<rparr>"

abbreviation demo_cs :: "(string option \<times> string list) checksum_fn" where
  "demo_cs \<equiv> \<lambda>t ms. (t, ms)"

theorem fleet_update_refines_witness:
  "metadata_of (fst (with_updated_nodes demo_cs (\<lambda>_. ()) 1 ''me'' [demo_node] [''b''] False (new_fleet_state demo_cs (\<lambda>_. ()) 0 True)))
     = (\<lambda>a. if a = ''b'' then None else if a = ''a'' then Some ''m1'' else None)"
proof -
  let ?s = "new_fleet_state demo_cs (\<lambda>_. ()) 0 True"
  have m: "apply_changes [demo_node] [''b''] (metadata_of ?s)
      = (\<lambda>a. if a = ''b'' then None else if a = ''a'' then Some ''m1'' else None)"
    by (rule ext) (simp add: apply_changes_def last_added_def metadata_of_def new_fleet_state_def make_fleet_state_def
        demo_node_def Let_def)
  obtain s' d where w: "with_updated_nodes demo_cs (\<lambda>_. ()) 1 ''me'' [demo_node] [''b''] False ?s = (s', d)" by fastforce
  from fleet_update_refines [OF w] m show ?thesis unfolding w by simp
qed

subsection \<open>Invariants of the sensor\<close>

inductive sensor_step :: "'k checksum_fn \<Rightarrow> ('k \<Rightarrow> 'n) \<Rightarrow> (node list \<Rightarrow> node list)
    \<Rightarrow> ('k, 'n) fleet_sensor \<Rightarrow> ('k, 'n) fleet_sensor \<Rightarrow> bool" for cs nick set_order where
  step_record_node: "sensor_step cs nick set_order se (record_node cs nick set_order now this_metadata node se)"
| step_mark_as: "sensor_step cs nick set_order se (mark_as node se)"
| step_record_state: "sensor_step cs nick set_order se (snd (record_fleet_state cs nick set_order now this_metadata skip se))"
| step_record_remote: "record_remote_fleet_state nick now a c timestamp pop se = Inr se' \<Longrightarrow> sensor_step cs nick set_order se se'"
| step_auto_update: "sensor_step cs nick set_order se (se\<lparr>se_auto_update_state := b\<rparr>)"

definition sensor_started :: "'k checksum_fn \<Rightarrow> ('k \<Rightarrow> 'n) \<Rightarrow> (node list \<Rightarrow> node list) \<Rightarrow> ('k, 'n) fleet_sensor \<Rightarrow> bool" where
  "sensor_started cs nick set_order se \<longleftrightarrow> (\<forall>xs. set (set_order xs) = set xs)
     \<and> (\<exists>now domain this_node. se = new_fleet_sensor cs nick now domain this_node)"

definition state_inv :: "'k checksum_fn \<Rightarrow> ('k \<Rightarrow> 'n) \<Rightarrow> string \<Rightarrow> ('k, 'n) fleet_state \<Rightarrow> bool" where
  "state_inv cs nick domain s \<longleftrightarrow> wf_dict (fs_nodes s)
     \<and> (\<forall>(a, n) \<in> set (fs_nodes s). n_checksum_address n = a \<and> n_domain n = domain)
     \<and> fs_checksum s = cs (fs_this_node_metadata s) (map n_metadata (dict_values (fs_nodes s)))
     \<and> fs_nickname s = nick (fs_checksum s)"

definition archive_inv :: "('k, 'n) fleet_sensor \<Rightarrow> bool" where
  "archive_inv se \<longleftrightarrow> se_archived_states se \<noteq> [] \<and> length (se_archived_states se) \<le> 5
     \<and> as_checksum (latest_state se) = fs_checksum (se_current_state se)
     \<and> as_nickname (latest_state se) = fs_nickname (se_current_state se)
     \<and> as_population (latest_state se) = population (se_current_state se)"

definition sensor_inv :: "'k checksum_fn \<Rightarrow> ('k \<Rightarrow> 'n) \<Rightarrow> (node list \<Rightarrow> node list) \<Rightarrow> ('k, 'n) fleet_sensor \<Rightarrow> bool" where
  "sensor_inv cs nick set_order se \<longleftrightarrow> (\<forall>xs. set (set_order xs) = set xs)
     \<and> state_inv cs nick (se_domain se) (se_current_state se)
     \<and> (\<forall>n \<in> set (se_nodes_to_add se). n_domain n = se_domain se)
     \<and> distinct (map n_stamp (se_nodes_to_add se))
     \<and> archive_inv se"

lemmas sensor_inv_defs = sensor_inv_def state_inv_def archive_inv_def latest_state_def

lemma sensor_inv_started: "sensor_started cs nick set_order se \<Longrightarrow> sensor_inv cs nick set_order se"
  by (auto simp: sensor_started_def sensor_inv_defs new_fleet_sensor_def new_fleet_state_def make_fleet_state_def
      archived_def Let_def)

lemma set_put_nodes:
  "set (put_nodes to_add updated d) \<subseteq> set d \<union> {(a, n). dict_get to_add a = Some n}"
  unfolding put_nodes_def
proof (induction updated arbitrary: d)
  case (Cons a updated)
  have "set (case dict_get to_add a of Some n \<Rightarrow> dict_set d a n | None \<Rightarrow> d) \<subseteq> set d \<union> {(a, n). dict_get to_add a = Some n}"
    by (auto split: option.splits dest: in_dict_setD)
  with Cons.IH show ?case by fastforce
qed simp

lemma wf_put_nodes: "wf_dict d \<Longrightarrow> wf_dict (put_nodes to_add updated d)"
  unfolding put_nodes_def by (induction updated arbitrary: d) (auto split: option.splits)

lemma set_drop_nodes: "set (drop_nodes removed d) \<subseteq> set d"
  unfolding drop_nodes_def
proof (induction removed arbitrary: d)
  case (Cons a removed)
  have "set (dict_del d a) \<subseteq> set d" by (induction d) auto
  with Cons.IH [of "dict_del d a"] show ?case by auto
qed simp

lemma wf_drop_nodes: "wf_dict d \<Longrightarrow> wf_dict (drop_nodes removed d)"
  unfolding drop_nodes_def by (induction removed arbitrary: d) auto

lemma state_inv_update:
  assumes inv: "state_inv cs nick domain s" and adds: "\<forall>n \<in> set adds. n_domain n = domain"
    and upd: "with_updated_nodes cs nick now this_metadata adds removes skip s = (s', d)"
  shows "state_inv cs nick domain s'"
proof -
  note eq = with_updated_nodes_eq [OF upd]
  have "n_checksum_address n = a \<and> n_domain n = domain" if "(a, n) \<in> set (fs_nodes s')" for a n
  proof -
    from that have "(a, n) \<in> set (fs_nodes s) \<or> last_added adds a = Some n"
      using set_drop_nodes set_put_nodes unfolding eq(1) dict_get_added [symmetric] by blast
    with inv adds last_added_address show ?thesis by (fastforce simp: state_inv_def)
  qed
  moreover have "wf_dict (fs_nodes s')"
    using inv unfolding eq(1) state_inv_def by (intro wf_drop_nodes wf_put_nodes) simp
  ultimately show ?thesis using eq(2,3) by (auto simp: state_inv_def)
qed

lemma record_fleet_state_inv:
  assumes inv: "sensor_inv cs nick set_order se"
  shows "sensor_inv cs nick set_order (snd (record_fleet_state cs nick set_order now this_metadata skip se))"
proof -
  let ?adds = "set_order (se_nodes_to_add se)" and ?s = "se_current_state se"
  obtain s' d where w: "with_updated_nodes cs nick now this_metadata ?adds (se_nodes_to_remove se) skip ?s = (s', d)"
    by fastforce
  note eq = with_updated_nodes_eq [OF w]
  have st: "state_inv cs nick (se_domain se) s'"
    using inv by (intro state_inv_update [OF _ _ w]) (auto simp: sensor_inv_def)
  have "fs_checksum s' = fs_checksum ?s \<and> fs_nickname s' = fs_nickname ?s \<and> population s' = population ?s"
    if "diff_empty d"
  proof -
    from that eq(7) have "fs_this_node_metadata s' = fs_this_node_metadata ?s"
      by (auto simp: diff_empty_def calculate_diff_def)
    moreover from that eq(1) have "fs_nodes s' = fs_nodes ?s" by (simp add: diff_empty_def)
    ultimately show ?thesis using inv st by (simp add: sensor_inv_def state_inv_def population_def fleet_len_def)
  qed
  with inv st w show ?thesis
    by (auto simp: sensor_inv_def archive_inv_def latest_state_def record_fleet_state_def archive_append_def archived_def Let_def)
qed

lemma record_node_inv:
  assumes "sensor_inv cs nick set_order se"
  shows "sensor_inv cs nick set_order (record_node cs nick set_order now this_metadata node se)"
proof (cases "n_domain node = se_domain se")
  case True
  let ?se = "se\<lparr>se_nodes_to_add := filter (\<lambda>m. n_stamp m \<noteq> n_stamp node) (se_nodes_to_add se) @ [node]\<rparr>"
  from assms True have "sensor_inv cs nick set_order ?se"
    by (auto simp: sensor_inv_def archive_inv_def latest_state_def distinct_map_filter)
  with record_fleet_state_inv [OF this] True show ?thesis by (simp add: record_node_def Let_def)
qed (use assms in \<open>simp add: record_node_def\<close>)

lemma sensor_step_inv:
  assumes inv: "sensor_inv cs nick set_order se" and step: "sensor_step cs nick set_order se se'"
  shows "sensor_inv cs nick set_order se'"
  using step
proof cases
  case (step_record_remote now a c timestamp pop)
  with inv show ?thesis
    by (auto simp: record_remote_fleet_state_def sensor_inv_def archive_inv_def latest_state_def Let_def split: if_splits)
next
  case step_record_node
  with record_node_inv [OF inv] show ?thesis by simp
next
  case step_record_state
  with record_fleet_state_inv [OF inv] show ?thesis by simp
qed (use inv in \<open>auto simp: sensor_inv_def archive_inv_def latest_state_def mark_as_def\<close>)

interpretation fls: step_invariant "sensor_started cs nick set_order" "sensor_step cs nick set_order" "sensor_inv cs nick set_order"
  for cs :: "'k checksum_fn" and nick :: "'k \<Rightarrow> 'n" and set_order :: "node list \<Rightarrow> node list"
  by unfold_locales (auto intro: sensor_inv_started sensor_step_inv)

text \<open>
  C9. In every state a sensor reaches by recording and marking nodes, recording states and remote
  states: each node of the fleet is listed under its own address and belongs to the domain of the
  sensor; the archive has between one and five states; its latest entry has the checksum, the
  nickname and the population of the current state; and a node that is marked is gone after the
  next recorded state.
\<close>

theorem sensor_fleet_consistent:
  assumes "reaches (sensor_started cs nick set_order) (sensor_step cs nick set_order) se"
  shows "(\<forall>(a, n) \<in> set (fs_nodes (se_current_state se)). n_checksum_address n = a \<and> n_domain n = se_domain se)
    \<and> wf_dict (fs_nodes (se_current_state se))
    \<and> 1 \<le> length (se_archived_states se) \<and> length (se_archived_states se) \<le> 5
    \<and> as_checksum (latest_state se) = fs_checksum (se_current_state se)
    \<and> as_nickname (latest_state se) = fs_nickname (se_current_state se)
    \<and> as_population (latest_state se) = population (se_current_state se)
    \<and> \<not> fleet_contains (se_current_state (snd (record_fleet_state cs nick set_order now this_metadata skip (mark_as node se))))
        (n_checksum_address node)"
proof -
  have inv: "sensor_inv cs nick set_order se" using assms by (rule fls.reaches_inv)
  let ?se = "mark_as node se"
  obtain s' d where w: "with_updated_nodes cs nick now this_metadata (set_order (se_nodes_to_add ?se))
      (se_nodes_to_remove ?se) skip (se_current_state ?se) = (s', d)" by fastforce
  have cur: "se_current_state (snd (record_fleet_state cs nick set_order now this_metadata skip ?se)) = s'"
    using w by (simp add: record_fleet_state_def Let_def)
  note eq = with_updated_nodes_eq [OF w]
  from eq(7) obtain u where "d = calculate_diff (se_current_state ?se) u (set_order (se_nodes_to_add ?se)) (se_nodes_to_remove ?se)"
    by blast
  from lookup_updated [OF this, of "n_checksum_address node"] have "metadata_of s' (n_checksum_address node) = None"
    unfolding metadata_of_def eq(1) by (simp add: apply_changes_def mark_as_def)
  then have "\<not> fleet_contains s' (n_checksum_address node)"
    unfolding metadata_of_def fleet_contains_def option.map_disc_iff dict_get_None_iff .
  with inv cur show ?thesis
    unfolding sensor_inv_def state_inv_def archive_inv_def by (simp add: Suc_le_eq)
qed

theorem sensor_fleet_consistent_witness:
  "\<exists>se. se = record_node demo_cs (\<lambda>_. ()) (\<lambda>xs. xs) 1 ''me'' demo_node (new_fleet_sensor demo_cs (\<lambda>_. ()) 0 ''mainnet'' True)
     \<and> as_population (latest_state (snd (record_fleet_state demo_cs (\<lambda>_. ()) (\<lambda>xs. xs) 2 ''me'' False se)))
       = population (se_current_state (snd (record_fleet_state demo_cs (\<lambda>_. ()) (\<lambda>xs. xs) 2 ''me'' False se)))"
proof -
  let ?reaches = "reaches (sensor_started demo_cs (\<lambda>_. ()) (\<lambda>xs. xs)) (sensor_step demo_cs (\<lambda>_. ()) (\<lambda>xs. xs))"
  let ?fresh = "new_fleet_sensor demo_cs (\<lambda>_. ()) 0 ''mainnet'' True"
  let ?se = "record_node demo_cs (\<lambda>_. ()) (\<lambda>xs. xs) 1 ''me'' demo_node ?fresh"
  have "?reaches ?fresh" by (rule reaches_start) (auto simp: sensor_started_def)
  then have "?reaches ?se" by (rule reaches_step) (rule step_record_node)
  then have "?reaches (snd (record_fleet_state demo_cs (\<lambda>_. ()) (\<lambda>xs. xs) 2 ''me'' False ?se))"
    by (rule reaches_step) (rule step_record_state)
  from sensor_fleet_consistent [OF this] show ?thesis by blast
qed

text \<open>
  \<^verbatim>\<open>previous_states\<close> returns the latest archived states before the current one, in
  chronological order, at most as many as asked for and as many as there are.
\<close>

theorem previous_states_chronological:
  assumes "se_archived_states se \<noteq> []" "0 \<le> quantity"
  shows "\<exists>older. se_archived_states se = older @ previous_states quantity se @ [latest_state se]
    \<and> int (length (previous_states quantity se)) = min quantity (int (length (se_archived_states se)) - 1)"
proof -
  let ?xs = "se_archived_states se"
  define k where "k = nat (min (int (length ?xs) - 1) quantity)"
  have len: "0 < length ?xs" using assms(1) by simp
  have k: "int k = min (int (length ?xs) - 1) quantity" "k \<le> length ?xs - 1"
    using assms(2) len by (auto simp: k_def)
  have "int (length ?xs - 1) = int (length ?xs) - 1" "int (length ?xs - 1 - k) = int (length ?xs) - 1 - int k"
    using len k(2) by linarith+
  then have "py_index (length ?xs) (- int k - 1) = int (length ?xs - 1 - k)" "py_index (length ?xs) (- 1) = int (length ?xs - 1)"
    by (simp_all add: py_index_def)
  moreover have "nat (int (length ?xs - 1) - int (length ?xs - 1 - k)) = k" using len k(2) by linarith
  ultimately have prev: "previous_states quantity se = take k (drop (length ?xs - 1 - k) ?xs)"
    using k(2) by (simp add: previous_states_def py_slice_def Let_def k(1) [symmetric])
  have "?xs = butlast ?xs @ [last ?xs]" using assms(1) by simp
  moreover have "butlast ?xs = take (length ?xs - 1 - k) ?xs @ take k (drop (length ?xs - 1 - k) ?xs)"
    using take_add [of "length ?xs - 1 - k" k ?xs] k(2) by (simp add: butlast_conv_take del: diff_diff_left)
  ultimately have "?xs = take (length ?xs - 1 - k) ?xs @ previous_states quantity se @ [latest_state se]"
    by (simp add: prev latest_state_def)
  moreover have "int (length (previous_states quantity se)) = min quantity (int (length ?xs) - 1)"
    using k by (simp add: prev min.commute)
  ultimately show ?thesis by blast
qed

theorem previous_states_chronological_witness:
  "\<exists>older. se_archived_states (new_fleet_sensor demo_cs (\<lambda>_. ()) 0 ''mainnet'' True) = older
      @ previous_states 3 (new_fleet_sensor demo_cs (\<lambda>_. ()) 0 ''mainnet'' True)
      @ [latest_state (new_fleet_sensor demo_cs (\<lambda>_. ()) 0 ''mainnet'' True)]"
  using previous_states_chronological [of "new_fleet_sensor demo_cs (\<lambda>_. ()) 0 ''mainnet'' True" 3]
  by (auto simp: new_fleet_sensor_def Let_def)

end
