(* ===== verification/Node_Verification.thy ===== *)
theory Node_Verification
  imports Nulink_Prelude
begin

text \<open>
  Verification of a stranger node: the class \<^verbatim>\<open>Teacher\<close> of \<^verbatim>\<open>nulink/network/nodes.py\<close>.

  A node object keeps four flags that the checks set. The contract calls, the recovery of the
  operator address from the signature in the metadata, the check of the metadata's signature, the
  node's answer over REST and the parsing of it are parameters. A method that can raise returns
  its result and the object as it is then.
\<close>

datatype node_error =
    InvalidNode | StampNotSigned | InvalidOperatorSignature | NotStaking | UnbondedOperator
  | WrongMode | SSLError | Unreachable | NodeSeemsToBeDown | OtherNodeError string

text \<open>Which of the exceptions an \<^verbatim>\<open>except\<close> clause for a base class catches.\<close>

definition is_InvalidNode :: "node_error \<Rightarrow> bool" where
  "is_InvalidNode e \<longleftrightarrow> e \<in> {InvalidNode, StampNotSigned, InvalidOperatorSignature, NotStaking, UnbondedOperator}"

record teacher =
  t_checksum_address :: address
  t_verifying_key :: string
  t_encrypting_key :: string
  t_operator_signature :: "string option"
  t_operator_address :: "address option"
  t_metadata_verifies :: bool
  t_federated_only :: bool
  t_certificate_saved :: bool
  t_verified_stamp :: bool
  t_verified_operator :: bool
  t_verified_metadata :: bool
  t_verified_node :: bool

text \<open>The staking application contract; a call can raise.\<close>

record application_agent =
  ag_staking_provider_from_operator :: "address \<Rightarrow> node_error + address"
  ag_is_authorized :: "address \<Rightarrow> node_error + bool"

text \<open>A node whose constructor has just finished: \<open>Assume unverified\<close>.\<close>

definition unverified :: "teacher \<Rightarrow> teacher" where
  "unverified t = t\<lparr>t_verified_stamp := False, t_verified_operator := False,
     t_verified_metadata := False, t_verified_node := False\<rparr>"

text \<open>\<open>operator_address\<close> has been derived when this is called.\<close>

definition operator_is_bonded :: "application_agent \<Rightarrow> address \<Rightarrow> teacher \<Rightarrow> node_error + bool" where
  "operator_is_bonded agent operator_address t =
     (case ag_staking_provider_from_operator agent operator_address of
        Inl e \<Rightarrow> Inl e
      | Inr staking_provider_address \<Rightarrow>
          if staking_provider_address = NULL_ADDRESS then Inl UnbondedOperator
          else Inr (staking_provider_address = t_checksum_address t))"

definition staking_provider_is_really_staking :: "application_agent \<Rightarrow> teacher \<Rightarrow> node_error + bool" where
  "staking_provider_is_really_staking agent t = ag_is_authorized agent (t_checksum_address t)"

definition validate_operator :: "application_agent option \<Rightarrow> teacher \<Rightarrow> (node_error + unit) \<times> teacher" where
  "validate_operator registry t =
     (if t_federated_only t then (Inl WrongMode, t)
      else case t_operator_address t of
        None \<Rightarrow> (Inl InvalidOperatorSignature, t)
      | Some operator_address \<Rightarrow>
          (let t = t\<lparr>t_verified_stamp := True\<rparr>
           in case registry of
                None \<Rightarrow> (Inr (), t)
              | Some agent \<Rightarrow>
                  (case operator_is_bonded agent operator_address t of
                     Inl e \<Rightarrow> (Inl e, t)
                   | Inr False \<Rightarrow> (Inl UnbondedOperator, t)
                   | Inr True \<Rightarrow>
                       (case staking_provider_is_really_staking agent t of
                          Inl e \<Rightarrow> (Inl e, t)
                        | Inr True \<Rightarrow> (Inr (), t\<lparr>t_verified_operator := True\<rparr>)
                        | Inr False \<Rightarrow> (Inl NotStaking, t)))))"

definition validate_metadata_signature :: "teacher \<Rightarrow> (node_error + bool) \<times> teacher" where
  "validate_metadata_signature t =
     (let metadata_is_valid = t_metadata_verifies t;
          t = t\<lparr>t_verified_metadata := metadata_is_valid\<rparr>
      in if metadata_is_valid then (Inr True, t) else (Inl InvalidNode, t))"

definition validate_metadata :: "application_agent option \<Rightarrow> teacher \<Rightarrow> (node_error + unit) \<times> teacher" where
  "validate_metadata registry t =
     (case (if \<not> t_verified_metadata t then validate_metadata_signature t else (Inr True, t)) of
        (Inl e, t) \<Rightarrow> (Inl e, t)
      | (Inr _, t) \<Rightarrow>
          if t_verified_stamp t then (Inr (), t)
          else (case validate_operator registry t of
                  (Inl WrongMode, t) \<Rightarrow> if registry \<noteq> None then (Inl WrongMode, t) else (Inr (), t)
                | r \<Rightarrow> r))"

text \<open>What the node says about itself now.\<close>

record sprout =
  sp_checksum_address :: address
  sp_verifying_key :: string
  sp_encrypting_key :: string
  sp_operator_signature :: "string option"

definition sprout_matches :: "sprout \<Rightarrow> teacher \<Rightarrow> bool" where
  "sprout_matches sp t \<longleftrightarrow> sp_encrypting_key sp = t_encrypting_key t \<and> sp_verifying_key sp = t_verifying_key t
     \<and> sp_checksum_address sp = t_checksum_address t \<and> sp_operator_signature sp = t_operator_signature t"

text \<open>
  What verification does with the world outside the object: it stores the node's certificate unless the object has a file for
  it already (no caller passes a file), and asks the node for its information. Both act on a state \<open>'s\<close>, can raise, and the
  request may never come back (\<open>None\<close>).
\<close>

definition ensure_certificate :: "('s \<Rightarrow> (node_error + unit) \<times> 's) \<Rightarrow> teacher \<Rightarrow> 's \<Rightarrow> (node_error + unit) \<times> 's" where
  "ensure_certificate cert_store_function t s = (if t_certificate_saved t then (Inr (), s) else cert_store_function s)"

text \<open>\<open>Some True\<close> for a node that was verified before, \<open>None\<close> (Python's) for one verified now.\<close>

definition verify_node :: "('s \<Rightarrow> (node_error + unit) \<times> 's) \<Rightarrow> ('s \<Rightarrow> ((node_error + 'b) \<times> 's) option) \<Rightarrow> ('b \<Rightarrow> sprout option)
    \<Rightarrow> application_agent option \<Rightarrow> bool \<Rightarrow> teacher \<Rightarrow> 's \<Rightarrow> ((node_error + bool option) \<times> teacher \<times> 's) option" where
  "verify_node cert_store_function node_information from_metadata_bytes registry force t0 s =
     (let t = (if force then unverified t0 else t0)
      in if t_verified_node t then Some (Inr (Some True), t, s)
         else case validate_metadata registry t of
                (Inl e, t) \<Rightarrow> Some (Inl e, t, s)
              | (Inr _, t) \<Rightarrow>
                  (case ensure_certificate cert_store_function t s of
                     (Inl e, s) \<Rightarrow> Some (Inl e, t, s)
                   | (Inr _, s) \<Rightarrow>
                       (let t = t\<lparr>t_certificate_saved := True\<rparr>
                        in case node_information s of
                             None \<Rightarrow> None
                           | Some (Inl e, s) \<Rightarrow> Some (Inl e, t, s)
                           | Some (Inr response_data, s) \<Rightarrow>
                               (case from_metadata_bytes response_data of
                                  None \<Rightarrow> Some (Inl InvalidNode, t, s)
                                | Some sp \<Rightarrow>
                                    if sprout_matches sp t then Some (Inr None, t\<lparr>t_verified_node := True\<rparr>, s)
                                    else Some (Inl InvalidNode, t, s)))))"

lemmas verification_defs = verify_node_def validate_metadata_def validate_metadata_signature_def
  validate_operator_def operator_is_bonded_def staking_provider_is_really_staking_def unverified_def

subsection \<open>What a verification establishes\<close>

text \<open>The facts that a verification against the chain is meant to check.\<close>

definition bonded_and_staking :: "application_agent \<Rightarrow> teacher \<Rightarrow> bool" where
  "bonded_and_staking agent t \<longleftrightarrow> (\<exists>op. t_operator_address t = Some op
     \<and> ag_staking_provider_from_operator agent op = Inr (t_checksum_address t)
     \<and> t_checksum_address t \<noteq> NULL_ADDRESS \<and> ag_is_authorized agent (t_checksum_address t) = Inr True)"

definition answers_as_itself :: "('s \<Rightarrow> ((node_error + 'b) \<times> 's) option) \<Rightarrow> ('b \<Rightarrow> sprout option) \<Rightarrow> teacher \<Rightarrow> 's \<Rightarrow> bool" where
  "answers_as_itself node_information from_metadata_bytes t s \<longleftrightarrow>
     (\<exists>b sp s'. node_information s = Some (Inr b, s') \<and> from_metadata_bytes b = Some sp \<and> sprout_matches sp t)"

lemma validate_operator_chain:
  "\<not> t_federated_only t \<Longrightarrow>
   (\<exists>t'. validate_operator (Some agent) t = (Inr (), t')) \<longleftrightarrow> bonded_and_staking agent t"
  by (auto simp: validate_operator_def operator_is_bonded_def staking_provider_is_really_staking_def
      bonded_and_staking_def Let_def split: option.splits sum.splits bool.splits)

text \<open>The same for the whole check of the metadata on an object with its flags reset; the rest of the object stays.\<close>

lemma validate_metadata_fresh:
  assumes "\<not> t_federated_only t"
  shows "if t_metadata_verifies t \<and> bonded_and_staking agent t
    then validate_metadata (Some agent) (unverified t)
      = (Inr (), (unverified t)\<lparr>t_verified_metadata := True, t_verified_stamp := True, t_verified_operator := True\<rparr>)
    else \<exists>e t'. validate_metadata (Some agent) (unverified t) = (Inl e, t') \<and> \<not> t_verified_node t'"
  using assms
  by (auto simp: verification_defs bonded_and_staking_def Let_def split: option.splits sum.splits bool.splits node_error.splits)

lemma verify_node_returns:
  assumes "\<forall>s. info s \<noteq> None"
  shows "\<exists>res t' s'. verify_node cert_store info parse registry force t s = Some (res, t', s')"
proof -
  let ?t = "if force then unverified t else t"
  obtain r u where r: "validate_metadata registry ?t = (r, u)" by fastforce
  obtain c s1 where c: "ensure_certificate cert_store u s = (c, s1)" by fastforce
  obtain i s2 where i: "info s1 = Some (i, s2)" using assms by (metis option.exhaust surj_pair)
  show ?thesis
    using r c i by (cases r; cases c; cases i) (auto simp: verify_node_def Let_def split: option.split)
qed

lemma verify_node_frame:
  assumes "\<And>s. R s (snd (cert_store s))" "\<And>s r s'. info s = Some (r, s') \<Longrightarrow> R s s'" "\<And>s. R s s"
    and "\<And>s1 s2 s3. R s1 s2 \<Longrightarrow> R s2 s3 \<Longrightarrow> R s1 s3"
    and "verify_node cert_store info parse registry force t s = Some (res, t', s')"
  shows "R s s'"
proof -
  have cert: "R s (snd (ensure_certificate cert_store u s))" for u using assms(1,3) by (simp add: ensure_certificate_def)
  obtain r u where r: "validate_metadata registry (if force then unverified t else t) = (r, u)" by fastforce
  obtain c s1 where c: "ensure_certificate cert_store u s = (c, s1)" by fastforce
  with cert [of u] have s1: "R s s1" by simp
  have "s' \<in> {s, s1} \<or> (\<exists>i. info s1 = Some (i, s'))"
    using assms(5) r c by (auto simp: verify_node_def Let_def split: if_splits sum.splits option.splits prod.splits)
  with s1 assms(2-4) show ?thesis by blast
qed

text \<open>
  C10. A full verification succeeds exactly when it should. For a decentralized node, with the
  flags reset (\<^verbatim>\<open>force\<close>, or a new object) and a registry, and a request for the node's information that
  comes back, \<^verbatim>\<open>verify_node\<close> returns without raising if and only if the metadata signature is valid, the operator is bonded to
  this staking provider and the provider is authorized, the node's certificate has a file already or can be stored, and the node
  then answers with the same keys, address and operator signature. Then all four flags are set; otherwise it raises and the
  node is not marked verified.
\<close>

theorem verify_node_exact:
  assumes "\<not> t_federated_only t" "\<forall>s. info s \<noteq> None" "ensure_certificate cert_store t s = (stored, s1)"
  shows "\<exists>res t' s'. verify_node cert_store info parse (Some agent) True t s = Some (res, t', s')
    \<and> ((\<exists>x. res = Inr x) \<longleftrightarrow> t_metadata_verifies t \<and> bonded_and_staking agent t \<and> stored = Inr () \<and> answers_as_itself info parse t s1)
    \<and> ((\<exists>x. res = Inr x) \<longrightarrow> t_verified_node t' \<and> t_verified_metadata t' \<and> t_verified_stamp t' \<and> t_verified_operator t')
    \<and> (\<forall>e. res = Inl e \<longrightarrow> \<not> t_verified_node t')"
proof (cases "t_metadata_verifies t \<and> bonded_and_staking agent t")
  case True
  let ?t = "(unverified t)\<lparr>t_verified_metadata := True, t_verified_stamp := True, t_verified_operator := True\<rparr>"
  have vm: "validate_metadata (Some agent) (unverified t) = (Inr (), ?t)"
    using validate_metadata_fresh [OF assms(1), of agent] True by simp
  have cert: "ensure_certificate cert_store ?t s = (stored, s1)" using assms(3) by (simp add: ensure_certificate_def unverified_def)
  have off: "\<not> t_verified_node (unverified t)" by (simp add: unverified_def)
  obtain i s2 where i: "info s1 = Some (i, s2)" using assms(2) by (metis option.exhaust surj_pair)
  have same: "sprout_matches sp (?t\<lparr>t_certificate_saved := True\<rparr>) = sprout_matches sp t" for sp
    by (simp add: sprout_matches_def unverified_def)
  show ?thesis
  proof (cases stored)
    case (Inl e)
    with vm cert off show ?thesis by (simp add: verify_node_def unverified_def)
  next
    case (Inr u)
    show ?thesis
    proof (cases "\<exists>b sp. i = Inr b \<and> parse b = Some sp \<and> sprout_matches sp t")
      case True
      with vm cert off Inr i same \<open>t_metadata_verifies t \<and> bonded_and_staking agent t\<close> show ?thesis
        by (auto simp: verify_node_def answers_as_itself_def)
    next
      case False
      with vm cert off Inr i same show ?thesis
        by (cases i) (auto simp: verify_node_def answers_as_itself_def unverified_def Let_def split: option.splits)
    qed
  qed
next
  case False
  with validate_metadata_fresh [OF assms(1), of agent] obtain e t' where
    "validate_metadata (Some agent) (unverified t) = (Inl e, t')" "\<not> t_verified_node t'" by auto
  with False show ?thesis by (auto simp: verify_node_def unverified_def)
qed

definition demo_teacher :: teacher where
  "demo_teacher = \<lparr>t_checksum_address = ''0xS'', t_verifying_key = ''vk'', t_encrypting_key = ''ek'',
     t_operator_signature = Some ''sig'', t_operator_address = Some ''0xO'', t_metadata_verifies = True,
     t_federated_only = False, t_certificate_saved = False, t_verified_stamp = False,
     t_verified_operator = False, t_verified_metadata = False, t_verified_node = False\<rparr>"

definition demo_sprout :: sprout where
  "demo_sprout = \<lparr>sp_checksum_address = ''0xS'', sp_verifying_key = ''vk'', sp_encrypting_key = ''ek'',
     sp_operator_signature = Some ''sig''\<rparr>"

definition demo_agent :: "bool \<Rightarrow> application_agent" where
  "demo_agent staking = \<lparr>ag_staking_provider_from_operator = (\<lambda>_. Inr ''0xS''), ag_is_authorized = (\<lambda>_. Inr staking)\<rparr>"

text \<open>The state counts the certificates that were stored; the node answers when there is one.\<close>

definition demo_store_function :: "nat \<Rightarrow> (node_error + unit) \<times> nat" where
  "demo_store_function n = (Inr (), Suc n)"

definition demo_information :: "nat \<Rightarrow> ((node_error + unit) \<times> nat) option" where
  "demo_information n = Some (if n = 0 then Inl SSLError else Inr (), n)"

lemma demo_teacher_facts:
  "\<not> t_federated_only demo_teacher" "t_metadata_verifies demo_teacher"
  "bonded_and_staking (demo_agent staking) demo_teacher \<longleftrightarrow> staking"
  "answers_as_itself demo_information (\<lambda>_. Some demo_sprout) demo_teacher (Suc n)"
  by (auto simp: demo_teacher_def demo_sprout_def demo_agent_def bonded_and_staking_def answers_as_itself_def
      sprout_matches_def short_not_NULL_ADDRESS demo_information_def)

theorem verify_node_exact_witness:
  "\<exists>x t' s'. verify_node demo_store_function demo_information (\<lambda>_. Some demo_sprout) (Some (demo_agent True)) True demo_teacher 0 = Some (Inr x, t', s')
     \<and> t_verified_node t' \<and> t_verified_operator t'"
proof -
  have "\<forall>s. demo_information s \<noteq> None" by (simp add: demo_information_def)
  moreover have "ensure_certificate demo_store_function demo_teacher 0 = (Inr (), Suc 0)"
    by (simp add: ensure_certificate_def demo_teacher_def demo_store_function_def)
  ultimately show ?thesis
    using verify_node_exact [OF demo_teacher_facts(1), of demo_information demo_store_function 0 "Inr ()" "Suc 0" "\<lambda>_. Some demo_sprout" "demo_agent True"]
      demo_teacher_facts by auto
qed

text \<open>
  A failed staking check does not stick. When the operator of a new decentralized node is not
  bonded, or its provider not staking, the first \<^verbatim>\<open>verify_node\<close> raises; but it has already set
  \<^verbatim>\<open>verified_stamp\<close>, so a second call on the same object, without \<^verbatim>\<open>force\<close>, skips the check of
  the operator and marks the node verified as soon as it answers as itself.
\<close>

theorem second_verification_skips_staking:
  assumes "\<not> t_federated_only t" "t_metadata_verifies t" "t_operator_address t = Some operator"
    and "\<not> bonded_and_staking agent t" "ensure_certificate cert_store t s = (Inr (), s1)" "answers_as_itself info parse t s1"
    and "verify_node cert_store info parse (Some agent) False (unverified t) s = Some (res, t', s')"
  shows "(\<exists>e. res = Inl e) \<and> \<not> t_verified_node t' \<and> s' = s
    \<and> (\<exists>t'' s''. verify_node cert_store info parse (Some agent) False t' s = Some (Inr None, t'', s'') \<and> t_verified_node t'' \<and> \<not> t_verified_operator t'')"
proof -
  let ?u = "(unverified t)\<lparr>t_verified_metadata := True\<rparr>"
  from assms(1,4) have fails: "\<nexists>t'. validate_operator (Some agent) ?u = (Inr (), t')"
    by (subst validate_operator_chain) (auto simp: unverified_def bonded_and_staking_def)
  obtain r v where v: "validate_operator (Some agent) ?u = (r, v)" by fastforce
  with fails obtain e where r: "r = Inl e" by (cases r) auto
  from v r assms(1,3) have e: "v = ?u\<lparr>t_verified_stamp := True\<rparr>"
    by (auto simp: validate_operator_def unverified_def Let_def split: sum.splits bool.splits)
  have vm: "validate_metadata (Some agent) (unverified t) = (Inl e, v)"
    using assms(2) v r
    by (cases e) (simp_all add: validate_metadata_def validate_metadata_signature_def unverified_def)
  then have 1: "res = Inl e" "t' = v" "s' = s" using assms(7) by (simp_all add: verify_node_def unverified_def)
  have cert: "ensure_certificate cert_store t' s = (Inr (), s1)"
    using assms(5) by (simp add: 1(2) e ensure_certificate_def unverified_def)
  from assms(6) have "answers_as_itself info parse t' s1"
    by (simp add: 1(2) e answers_as_itself_def sprout_matches_def unverified_def)
  then have "\<exists>t'' s''. verify_node cert_store info parse (Some agent) False t' s = Some (Inr None, t'', s'') \<and> t_verified_node t'' \<and> \<not> t_verified_operator t''"
    using cert by (auto simp: 1(2) e answers_as_itself_def sprout_matches_def verify_node_def validate_metadata_def unverified_def)
  with 1 e show ?thesis by (simp add: unverified_def)
qed

theorem second_verification_skips_staking_witness:
  "\<exists>e t' t'' s' s''. verify_node demo_store_function demo_information (\<lambda>_. Some demo_sprout) (Some (demo_agent False)) False (unverified demo_teacher) 0 = Some (Inl e, t', s')
     \<and> verify_node demo_store_function demo_information (\<lambda>_. Some demo_sprout) (Some (demo_agent False)) False t' 0 = Some (Inr None, t'', s'') \<and> t_verified_node t''"
proof -
  have "\<exists>res t' s'. verify_node demo_store_function demo_information (\<lambda>_. Some demo_sprout) (Some (demo_agent False)) False (unverified demo_teacher) 0 = Some (res, t', s')"
    by (rule verify_node_returns) (simp add: demo_information_def)
  then obtain res t' s' where v: "verify_node demo_store_function demo_information (\<lambda>_. Some demo_sprout) (Some (demo_agent False)) False (unverified demo_teacher) 0 = Some (res, t', s')"
    by blast
  have "t_operator_address demo_teacher = Some ''0xO''" "\<not> bonded_and_staking (demo_agent False) demo_teacher"
    "ensure_certificate demo_store_function demo_teacher 0 = (Inr (), Suc 0)"
    using demo_teacher_facts(3) [of False] by (simp_all add: demo_teacher_def ensure_certificate_def demo_store_function_def)
  from second_verification_skips_staking [OF demo_teacher_facts(1,2) this demo_teacher_facts(4) v] v
  show ?thesis by blast
qed

end
