(* ===== verification/Learner.thy ===== *)
theory Learner
  imports Fleet Node_Verification
begin

text \<open>
  The learning loop: the class \<^verbatim>\<open>Learner\<close> of \<^verbatim>\<open>nulink/network/nodes.py\<close>, over the fleet sensor and
  the verification of nodes.

  The environment of a call is a record: the clock, the owner's metadata, the orders of a shuffle
  and of a set, and the outcome of \<^verbatim>\<open>verify_node\<close> for a node (\<open>None\<close>: it did not raise). What a
  teacher answers, and which seed nodes could be instantiated, are arguments. The storage keeps
  the nodes whose metadata was stored. The reactor's looping call is two fields, whether it runs
  and its interval.
\<close>

record ('k, 'n) env =
  e_cs :: "'k checksum_fn"
  e_nick :: "'k \<Rightarrow> 'n"
  e_set_order :: "node list \<Rightarrow> node list"
  e_shuffle :: "node list \<Rightarrow> node list"
  e_now :: int
  e_this_metadata :: string
  e_verify :: "node \<Rightarrow> node_error option"

record ('k, 'n) learner =
  l_stamp :: string
  l_domain :: string
  l_known_nodes :: "('k, 'n) fleet_sensor"
  l_done_seeding :: bool
  l_save_metadata :: bool
  l_storage :: "node list"
  l_certificates :: "node list"
  l_teacher_nodes :: "node list"
  l_current_teacher :: "node option"
  l_learning_round :: nat
  l_rounds_without_new_nodes :: nat
  l_task_running :: bool
  l_task_interval :: nat
  l_abort_on_learning_error :: bool
  l_crashed :: bool

datatype learner_error =
    NotEnoughTeachers | NotEnoughNodes | AlreadySeeded | LoopNotRunning | ReactorNotRunning
  | VerificationRaised node_error | RemoteStateKeyError | TeacherRuntimeError | TeacherException

subsection \<open>Remembering nodes\<close>

abbreviation sensor_record :: "('k, 'n) env \<Rightarrow> bool \<Rightarrow> ('k, 'n) learner \<Rightarrow> ('k, 'n) learner" where
  "sensor_record env skip l \<equiv> l\<lparr>l_known_nodes :=
     snd (record_fleet_state (e_cs env) (e_nick env) (e_set_order env) (e_now env) (e_this_metadata env) skip (l_known_nodes l))\<rparr>"

abbreviation known_node :: "('k, 'n) learner \<Rightarrow> address \<Rightarrow> node option" where
  "known_node l a \<equiv> fleet_getitem (se_current_state (l_known_nodes l)) a"

text \<open>\<open>Inr None\<close> is Python's \<^verbatim>\<open>False\<close>: nothing to remember, or a verification that failed quietly.\<close>

definition remember_node :: "('k, 'n) env \<Rightarrow> bool \<Rightarrow> bool \<Rightarrow> node \<Rightarrow> ('k, 'n) learner
    \<Rightarrow> (learner_error + node option) \<times> ('k, 'n) learner" where
  "remember_node env rec_state eager node l =
     (if n_stamp node = l_stamp l then (Inr None, l)
      else if (case known_node l (n_checksum_address node) of
                 Some already_known \<Rightarrow> \<not> n_timestamp node > n_timestamp already_known | None \<Rightarrow> False)
      then (Inr None, l)
      else let l = l\<lparr>l_known_nodes := record_node (e_cs env) (e_nick env) (e_set_order env) (e_now env)
                       (e_this_metadata env) node (l_known_nodes l)\<rparr>;
               l = (if l_save_metadata l then l\<lparr>l_storage := l_storage l @ [node]\<rparr> else l);
               finish = (\<lambda>l. (Inr (Some node), if rec_state then sensor_record env False l else l))
           in if eager
              then let l = l\<lparr>l_certificates := l_certificates l @ [node]\<rparr>
                   in case e_verify env node of
                        None \<Rightarrow> finish l
                      | Some SSLError \<Rightarrow> (Inr None, l)
                      | Some Unreachable \<Rightarrow> (Inr None, l)
                      | Some NotStaking \<Rightarrow> (Inr None, l)
                      | Some e \<Rightarrow> (Inl (VerificationRaised e), l)
              else finish l)"

fun remember_nodes :: "('k, 'n) env \<Rightarrow> node list \<Rightarrow> ('k, 'n) learner
    \<Rightarrow> (learner_error + node option list) \<times> ('k, 'n) learner" where
  "remember_nodes env [] l = (Inr [], l)"
| "remember_nodes env (n # ns) l =
     (case remember_node env False False n l of
        (Inl e, l') \<Rightarrow> (Inl e, l')
      | (Inr r, l') \<Rightarrow>
          (case remember_nodes env ns l' of
             (Inl e, l'') \<Rightarrow> (Inl e, l'')
           | (Inr rs, l'') \<Rightarrow> (Inr (r # rs), l'')))"

definition read_nodes_from_storage :: "('k, 'n) env \<Rightarrow> node list \<Rightarrow> ('k, 'n) learner
    \<Rightarrow> (learner_error + node option list) \<times> ('k, 'n) learner" where
  "read_nodes_from_storage env stored_nodes l =
     remember_nodes env (filter (\<lambda>n. n_domain n = l_domain l) stored_nodes) l"

text \<open>
  \<open>sages\<close> and \<open>seeds\<close>: for each teacher URI of the domain and each configured seed node, the node
  that was instantiated, or \<open>None\<close> where that raised (which is logged).
\<close>

definition load_seednodes :: "('k, 'n) env \<Rightarrow> node option list \<Rightarrow> node option list \<Rightarrow> node list \<Rightarrow> bool \<Rightarrow> bool
    \<Rightarrow> ('k, 'n) learner \<Rightarrow> (learner_error + node option list) \<times> ('k, 'n) learner" where
  "load_seednodes env sages seeds stored_nodes read_storage rec_state l =
     (if l_done_seeding l then (Inl AlreadySeeded, l)
      else case remember_nodes env (List.map_filter (\<lambda>x. x) ((if l_domain l \<noteq> '''' then sages else []) @ seeds)) l of
             (Inl e, l) \<Rightarrow> (Inl e, l)
           | (Inr discovered, l) \<Rightarrow>
               (let l = l\<lparr>l_done_seeding := True\<rparr>
                in case (if read_storage then read_nodes_from_storage env stored_nodes l else (Inr [], l)) of
                     (Inl e, l) \<Rightarrow> (Inl e, l)
                   | (Inr restored, l) \<Rightarrow>
                       (let discovered = discovered @ restored
                        in (Inr discovered, if discovered \<noteq> [] \<and> rec_state then sensor_record env False l else l))))"

text \<open>
  The constructor: the nodes it is given are verified eagerly; an exception of that leaves it.
  (With \<^verbatim>\<open>start_learning_now\<close> the looping call is started afterwards.)
\<close>

fun remember_known :: "('k, 'n) env \<Rightarrow> node list \<Rightarrow> ('k, 'n) learner \<Rightarrow> (learner_error + unit) \<times> ('k, 'n) learner" where
  "remember_known env [] l = (Inr (), l)"
| "remember_known env (n # ns) l =
     (case remember_node env False True n l of
        (Inl e, l') \<Rightarrow> (Inl e, l')
      | (Inr _, l') \<Rightarrow> remember_known env ns l')"

definition new_learner :: "('k, 'n) env \<Rightarrow> string \<Rightarrow> string \<Rightarrow> bool \<Rightarrow> bool \<Rightarrow> bool \<Rightarrow> node list
    \<Rightarrow> learner_error + ('k, 'n) learner" where
  "new_learner env stamp domain include_self_in_the_state save_metadata abort_on_learning_error known_nodes =
     (let l = \<lparr>l_stamp = stamp, l_domain = domain,
            l_known_nodes = new_fleet_sensor (e_cs env) (e_nick env) (e_now env) domain include_self_in_the_state,
            l_done_seeding = False, l_save_metadata = save_metadata, l_storage = [], l_certificates = [],
            l_teacher_nodes = [], l_current_teacher = None, l_learning_round = 0, l_rounds_without_new_nodes = 0,
            l_task_running = False, l_task_interval = 0, l_abort_on_learning_error = abort_on_learning_error,
            l_crashed = False\<rparr>
      in case remember_known env known_nodes l of
           (Inl e, _) \<Rightarrow> Inl e
         | (Inr _, l) \<Rightarrow> Inr (sensor_record env True l))"

subsection \<open>Teachers\<close>

definition select_teacher_nodes :: "('k, 'n) env \<Rightarrow> ('k, 'n) learner \<Rightarrow> (learner_error + unit) \<times> ('k, 'n) learner" where
  "select_teacher_nodes env l =
     (let nodes_we_know_about = fleet_shuffled (e_shuffle env) (se_current_state (l_known_nodes l))
      in if nodes_we_know_about = [] then (Inl NotEnoughTeachers, l)
         else (Inr (), l\<lparr>l_teacher_nodes := l_teacher_nodes l @ nodes_we_know_about\<rparr>))"

definition cycle_teacher_node :: "('k, 'n) env \<Rightarrow> ('k, 'n) learner \<Rightarrow> (learner_error + unit) \<times> ('k, 'n) learner" where
  "cycle_teacher_node env l =
     (case (if l_teacher_nodes l = [] then select_teacher_nodes env l else (Inr (), l)) of
        (Inl e, l) \<Rightarrow> (Inl e, l)
      | (Inr _, l) \<Rightarrow>
          if l_teacher_nodes l = [] then (Inl NotEnoughTeachers, l)
          else (Inr (), l\<lparr>l_current_teacher := Some (last (l_teacher_nodes l)), l_teacher_nodes := butlast (l_teacher_nodes l)\<rparr>))"

definition current_teacher_node :: "('k, 'n) env \<Rightarrow> bool \<Rightarrow> ('k, 'n) learner \<Rightarrow> (learner_error + node) \<times> ('k, 'n) learner" where
  "current_teacher_node env cycle l =
     (case (if cycle then cycle_teacher_node env l else (Inr (), l)) of
        (Inl e, l) \<Rightarrow> (Inl e, l)
      | (Inr _, l) \<Rightarrow>
          (case (if l_current_teacher l = None then cycle_teacher_node env l else (Inr (), l)) of
             (Inl e, l) \<Rightarrow> (Inl e, l)
           | (Inr _, l) \<Rightarrow>
               (case l_current_teacher l of Some t \<Rightarrow> (Inr t, l) | None \<Rightarrow> (Inl NotEnoughTeachers, l))))"

definition SHORT_LEARNING_DELAY :: nat where "SHORT_LEARNING_DELAY = 5"
definition LONG_LEARNING_DELAY :: nat where "LONG_LEARNING_DELAY = 90"
definition ROUNDS_WITHOUT_NODES_AFTER_WHICH_TO_SLOW_DOWN :: nat where
  "ROUNDS_WITHOUT_NODES_AFTER_WHICH_TO_SLOW_DOWN = 10"

definition adjust_learning :: "node list \<Rightarrow> ('k, 'n) learner \<Rightarrow> ('k, 'n) learner" where
  "adjust_learning node_list l =
     (if node_list \<noteq> [] then l\<lparr>l_rounds_without_new_nodes := 0, l_task_interval := SHORT_LEARNING_DELAY\<rparr>
      else let l = l\<lparr>l_rounds_without_new_nodes := Suc (l_rounds_without_new_nodes l)\<rparr>
           in if l_rounds_without_new_nodes l > ROUNDS_WITHOUT_NODES_AFTER_WHICH_TO_SLOW_DOWN
              then l\<lparr>l_task_interval := LONG_LEARNING_DELAY\<rparr> else l)"

text \<open>\<^verbatim>\<open>handle_learning_errors\<close>: crash when told to, else make sure that the loop runs.\<close>

definition start_learning_loop :: "('k, 'n) learner \<Rightarrow> bool \<times> ('k, 'n) learner" where
  "start_learning_loop l =
     (if l_task_running l then (False, l)
      else (True, l\<lparr>l_task_running := True, l_task_interval := SHORT_LEARNING_DELAY\<rparr>))"

definition stop_learning_loop :: "('k, 'n) learner \<Rightarrow> ('k, 'n) learner" where
  "stop_learning_loop l = (if l_task_running l then l\<lparr>l_task_running := False\<rparr> else l)"

definition handle_learning_errors :: "bool \<Rightarrow> ('k, 'n) learner \<Rightarrow> ('k, 'n) learner" where
  "handle_learning_errors crash_right_now l =
     (if l_abort_on_learning_error l \<or> crash_right_now then l\<lparr>l_crashed := True\<rparr>
      else if \<not> l_task_running l then snd (start_learning_loop l) else l)"

subsection \<open>A round of learning\<close>

text \<open>
  What comes of asking the teacher: exceptions of the request, a status other than 200, content
  that cannot be parsed or verified, or a verified list of nodes with its time.
\<close>

datatype teacher_reply =
    ReplyDown | ReplyInvalidNode | ReplyRuntimeError | ReplyException
  | ReplyBadStatus | ReplyUnparsable | ReplyUnverified | ReplyNodes int "node list"

datatype learn_result = LearnNone | RELAX | FLEET_STATES_MATCH | LearnedSprouts "node list"

text \<open>The loop over the sprouts; these exceptions are logged, others leave the method.\<close>

definition caught_sprout_error :: "learner_error \<Rightarrow> bool" where
  "caught_sprout_error e \<longleftrightarrow> (case e of VerificationRaised v \<Rightarrow> is_InvalidNode v \<or> v = NodeSeemsToBeDown | _ \<Rightarrow> False)"

fun learn_sprouts :: "('k, 'n) env \<Rightarrow> bool \<Rightarrow> node list \<Rightarrow> ('k, 'n) learner
    \<Rightarrow> (learner_error + node list) \<times> ('k, 'n) learner" where
  "learn_sprouts env eager [] l = (Inr [], l)"
| "learn_sprouts env eager (n # ns) l =
     (case remember_node env False eager n l of
        (Inl e, l') \<Rightarrow> if caught_sprout_error e then learn_sprouts env eager ns l' else (Inl e, l')
      | (Inr None, l') \<Rightarrow> learn_sprouts env eager ns l'
      | (Inr (Some m), l') \<Rightarrow>
          (case learn_sprouts env eager ns l' of
             (Inl e, l'') \<Rightarrow> (Inl e, l'')
           | (Inr ms, l'') \<Rightarrow> (Inr (m # ms), l'')))"

definition note_remote_state :: "('k, 'n) env \<Rightarrow> node \<Rightarrow> int \<Rightarrow> nat \<Rightarrow> learn_result \<Rightarrow> ('k, 'n) learner
    \<Rightarrow> (learner_error + learn_result) \<times> ('k, 'n) learner" where
  "note_remote_state env teacher timestamp pop result l =
     (case record_remote_fleet_state (e_nick env) (e_now env) (n_checksum_address teacher)
             (fs_checksum (se_current_state (l_known_nodes l))) timestamp pop (l_known_nodes l) of
        Inl _ \<Rightarrow> (Inl RemoteStateKeyError, l)
      | Inr se \<Rightarrow> (Inr result, l\<lparr>l_known_nodes := se\<rparr>))"

text \<open>What follows a request that did not raise; \<open>remembered\<close> is what seeding remembered.\<close>

definition digest_reply :: "('k, 'n) env \<Rightarrow> bool \<Rightarrow> node \<Rightarrow> teacher_reply \<Rightarrow> node option list \<Rightarrow> ('k, 'n) learner
    \<Rightarrow> (learner_error + learn_result) \<times> ('k, 'n) learner" where
  "digest_reply env eager teacher reply remembered l =
     (case reply of
        ReplyNodes timestamp announced \<Rightarrow>
          (if l_domain l \<noteq> n_domain teacher then (Inr LearnNone, l)
           else if announced = []
           then note_remote_state env teacher timestamp (population (se_current_state (l_known_nodes l))) FLEET_STATES_MATCH l
           else case learn_sprouts env eager announced l of
                  (Inl e, l) \<Rightarrow> (Inl e, l)
                | (Inr new, l) \<Rightarrow>
                    note_remote_state env teacher timestamp (length announced) (LearnedSprouts announced)
                      (if remembered \<noteq> [] \<or> new \<noteq> [] then sensor_record env False l else l))
      | _ \<Rightarrow> (Inr LearnNone, l))"

text \<open>
  \<open>stop1\<close> and \<open>stop2\<close>: whether the canceller says stop before the request and after it raised.
  The \<^verbatim>\<open>finally\<close> clause cycles the teacher; if that raises, its exception is the one that leaves.
\<close>

definition learn_from_teacher_node :: "('k, 'n) env \<Rightarrow> bool \<Rightarrow> node option list \<Rightarrow> node option list \<Rightarrow> node list
    \<Rightarrow> bool \<Rightarrow> bool \<Rightarrow> (node \<Rightarrow> teacher_reply) \<Rightarrow> ('k, 'n) learner
    \<Rightarrow> (learner_error + learn_result) \<times> ('k, 'n) learner" where
  "learn_from_teacher_node env eager sages seeds stored stop1 stop2 ask l =
     (case (if \<not> l_done_seeding l then load_seednodes env sages seeds stored True True l else (Inr [], l)) of
        (Inl e, l) \<Rightarrow> (Inl e, l)
      | (Inr remembered, l) \<Rightarrow>
          (case current_teacher_node env False (l\<lparr>l_learning_round := Suc (l_learning_round l)\<rparr>) of
             (Inl e, l) \<Rightarrow> (Inl e, l)
           | (Inr teacher, l) \<Rightarrow>
               if stop1 then (Inr RELAX, l)
               else let reply = ask teacher;
                        l = (if reply = ReplyInvalidNode then l\<lparr>l_known_nodes := mark_as teacher (l_known_nodes l)\<rparr> else l)
                    in case cycle_teacher_node env l of
                         (Inl e, l) \<Rightarrow> (Inl e, l)
                       | (Inr _, l) \<Rightarrow>
                           (case reply of
                              ReplyRuntimeError \<Rightarrow> if stop2 then (Inr RELAX, l) else (Inl TeacherRuntimeError, l)
                            | ReplyException \<Rightarrow> (Inl TeacherException, l)
                            | _ \<Rightarrow> digest_reply env eager teacher reply remembered l)))"

subsection \<open>Blocking until nodes are known\<close>

text \<open>
  What one turn of a waiting loop sees: the known addresses at its start and when the time is
  checked, whether the learner crashed, an exception of learning on this thread, the time that
  has passed, and whether the learning task and the reactor run.
\<close>

record turn =
  tu_known :: "address set"
  tu_crashed :: bool
  tu_learning_raised :: "learner_error option"
  tu_learning_timed_out :: bool
  tu_known_late :: "address set"
  tu_elapsed :: int
  tu_task_running :: bool
  tu_reactor_running :: bool

datatype block_result = Crashed | AllKnown bool

partial_function (option) block_until_specific_nodes_are_known ::
  "(nat \<Rightarrow> turn) \<Rightarrow> address set \<Rightarrow> int \<Rightarrow> int \<Rightarrow> bool \<Rightarrow> nat \<Rightarrow> (learner_error + block_result) option" where
  "block_until_specific_nodes_are_known turns addresses timeout allow_missing learn_on_this_thread i =
     (if tu_crashed (turns i) then Some (Inr Crashed)
      else if addresses \<subseteq> tu_known (turns i) then Some (Inr (AllKnown True))
      else if learn_on_this_thread \<and> tu_learning_raised (turns i) \<noteq> None
      then Some (Inl (the (tu_learning_raised (turns i))))
      else if \<not> learn_on_this_thread \<and> \<not> tu_task_running (turns i) then Some (Inl LoopNotRunning)
      else if tu_elapsed (turns i) > timeout
      then (if int (card (addresses - tu_known_late (turns i))) \<le> allow_missing then Some (Inr (AllKnown False))
            else Some (Inl NotEnoughTeachers))
      else block_until_specific_nodes_are_known turns addresses timeout allow_missing learn_on_this_thread (Suc i))"

partial_function (option) block_until_number_of_known_nodes_is ::
  "(nat \<Rightarrow> turn) \<Rightarrow> int \<Rightarrow> int \<Rightarrow> bool \<Rightarrow> nat \<Rightarrow> (learner_error + bool) option" where
  "block_until_number_of_known_nodes_is turns number timeout learn_on_this_thread i =
     (if int (card (tu_known (turns i))) \<ge> number then Some (Inr True)
      else if learn_on_this_thread \<and> tu_learning_raised (turns i) \<noteq> None \<and> \<not> tu_learning_timed_out (turns i)
      then Some (Inl (the (tu_learning_raised (turns i))))
      else if tu_elapsed (turns i) > timeout
      then (if int (card (tu_known_late (turns i))) \<ge> number then Some (Inr True)
            else if \<not> tu_task_running (turns i) then Some (Inl LoopNotRunning)
            else if \<not> tu_reactor_running (turns i) \<and> \<not> learn_on_this_thread then Some (Inl ReactorNotRunning)
            else Some (Inl NotEnoughNodes))
      else block_until_number_of_known_nodes_is turns number timeout learn_on_this_thread (Suc i))"

declare block_until_specific_nodes_are_known.simps [code]
declare block_until_number_of_known_nodes_is.simps [code]

text \<open>
  C11. Waiting for specific nodes ends and tells the truth. If the clock passes the timeout at
  some turn, the call returns by then: with \<^verbatim>\<open>True\<close> only when all the addresses are known, with
  \<^verbatim>\<open>False\<close> only when at most \<^verbatim>\<open>allow_missing\<close> of them are unknown after the timeout, and it raises
  \<^verbatim>\<open>NotEnoughTeachers\<close> of its own only when more are.
\<close>

theorem block_until_specific_returns:
  assumes "i \<le> n" "timeout < tu_elapsed (turns n)"
  shows "\<exists>k r. i \<le> k \<and> k \<le> n
    \<and> block_until_specific_nodes_are_known turns addresses timeout allow_missing learn_here i = Some r
    \<and> (r = Inr (AllKnown True) \<longrightarrow> addresses \<subseteq> tu_known (turns k))
    \<and> (r = Inr (AllKnown False) \<longrightarrow> timeout < tu_elapsed (turns k)
         \<and> int (card (addresses - tu_known_late (turns k))) \<le> allow_missing)
    \<and> (r = Inl NotEnoughTeachers \<and> tu_learning_raised (turns k) = None \<longrightarrow> timeout < tu_elapsed (turns k)
         \<and> int (card (addresses - tu_known_late (turns k))) > allow_missing)"
  using assms(1)
proof (induction "n - i" arbitrary: i)
  case 0
  then have "i = n" by simp
  with assms(2) show ?case
    by (intro exI [of _ n]) (subst block_until_specific_nodes_are_known.simps, auto)
next
  case (Suc d)
  then have IH: "\<exists>k r. Suc i \<le> k \<and> k \<le> n
    \<and> block_until_specific_nodes_are_known turns addresses timeout allow_missing learn_here (Suc i) = Some r
    \<and> (r = Inr (AllKnown True) \<longrightarrow> addresses \<subseteq> tu_known (turns k))
    \<and> (r = Inr (AllKnown False) \<longrightarrow> timeout < tu_elapsed (turns k)
         \<and> int (card (addresses - tu_known_late (turns k))) \<le> allow_missing)
    \<and> (r = Inl NotEnoughTeachers \<and> tu_learning_raised (turns k) = None \<longrightarrow> timeout < tu_elapsed (turns k)
         \<and> int (card (addresses - tu_known_late (turns k))) > allow_missing)"
    by simp
  show ?case
  proof (cases "block_until_specific_nodes_are_known turns addresses timeout allow_missing learn_here i
      = block_until_specific_nodes_are_known turns addresses timeout allow_missing learn_here (Suc i)")
    case True
    with IH show ?thesis by (metis Suc_leD)
  next
    case False
    then show ?thesis using Suc.prems
      by (intro exI [of _ i]) (subst (asm) block_until_specific_nodes_are_known.simps,
          subst block_until_specific_nodes_are_known.simps, auto split: if_splits)
  qed
qed

definition demo_turn :: turn where
  "demo_turn = \<lparr>tu_known = {''a''}, tu_crashed = False, tu_learning_raised = None, tu_learning_timed_out = False,
     tu_known_late = {''a''}, tu_elapsed = 12, tu_task_running = True, tu_reactor_running = True\<rparr>"

theorem block_until_specific_returns_witness:
  "\<exists>r. block_until_specific_nodes_are_known (\<lambda>_. demo_turn) {''a'', ''b''} 10 1 True 0 = Some r"
  using block_until_specific_returns [of 0 3 10 "\<lambda>_. demo_turn" "{''a'', ''b''}" 1 True]
  by (auto simp: demo_turn_def)

subsection \<open>No node is replaced by an older one\<close>

text \<open>Every pending node is newer than the node known under its address.\<close>

definition newer_inv :: "('k, 'n) fleet_sensor \<Rightarrow> bool" where
  "newer_inv se \<longleftrightarrow> \<not> se_auto_update_state se
     \<and> (\<forall>n \<in> set (se_nodes_to_add se). \<forall>m. fleet_getitem (se_current_state se) (n_checksum_address n) = Some m
          \<longrightarrow> n_timestamp m < n_timestamp n)"

lemma newer_inv_record_state: "newer_inv se \<Longrightarrow> newer_inv (snd (record_fleet_state cs nick so now md skip se))"
  by (simp add: newer_inv_def record_fleet_state_def Let_def split: prod.splits)

lemma newer_inv_mark_as: "newer_inv se \<Longrightarrow> newer_inv (mark_as n se)"
  by (simp add: newer_inv_def mark_as_def)

lemma newer_inv_remote: "record_remote_fleet_state nick now a c ts pop se = Inr se' \<Longrightarrow> newer_inv se \<Longrightarrow> newer_inv se'"
  by (auto simp: newer_inv_def record_remote_fleet_state_def Let_def split: if_splits)

lemma newer_inv_record_node:
  assumes "newer_inv se" "\<And>m. fleet_getitem (se_current_state se) (n_checksum_address n) = Some m \<Longrightarrow> n_timestamp m < n_timestamp n"
  shows "newer_inv (record_node cs nick so now md n se)"
  using assms by (auto simp: newer_inv_def record_node_def Let_def)

lemma remember_node_refused:
  "n_stamp n = l_stamp l \<or> (\<exists>m. known_node l (n_checksum_address n) = Some m \<and> \<not> n_timestamp n > n_timestamp m)
   \<Longrightarrow> remember_node env rs eager n l = (Inr None, l)"
  by (cases "n_stamp n = l_stamp l") (auto simp: remember_node_def)

lemma remember_node_newer:
  assumes "remember_node env rs eager n l = (r, l')" "newer_inv (l_known_nodes l)"
  shows "newer_inv (l_known_nodes l')"
proof (cases "n_stamp n = l_stamp l \<or> (\<exists>m. known_node l (n_checksum_address n) = Some m \<and> \<not> n_timestamp n > n_timestamp m)")
  case True
  from remember_node_refused [OF this] assms show ?thesis by simp
next
  case False
  then have "newer_inv (record_node (e_cs env) (e_nick env) (e_set_order env) (e_now env) (e_this_metadata env) n (l_known_nodes l))"
    using assms(2) by (intro newer_inv_record_node) auto
  with False assms(1) newer_inv_record_state show ?thesis
    by (auto simp: remember_node_def Let_def split: option.splits if_splits node_error.splits)
qed

lemma remember_nodes_newer:
  "remember_nodes env ns l = (r, l') \<Longrightarrow> newer_inv (l_known_nodes l) \<Longrightarrow> newer_inv (l_known_nodes l')"
proof (induction ns arbitrary: l r)
  case (Cons n ns)
  obtain x u where u: "remember_node env False False n l = (x, u)" by fastforce
  note inv = remember_node_newer [OF u Cons.prems(2)]
  from Cons.prems(1) u inv Cons.IH show ?case
    by (auto split: sum.splits prod.splits)
qed simp

lemma remember_known_newer:
  "remember_known env ns l = (r, l') \<Longrightarrow> newer_inv (l_known_nodes l) \<Longrightarrow> newer_inv (l_known_nodes l')"
proof (induction ns arbitrary: l)
  case (Cons n ns)
  obtain x u where u: "remember_node env False True n l = (x, u)" by fastforce
  note inv = remember_node_newer [OF u Cons.prems(2)]
  from Cons.prems(1) u inv Cons.IH show ?case by (auto split: sum.splits)
qed simp

lemma new_learner_newer:
  assumes "new_learner env stamp domain self save abort known = Inr l"
  shows "newer_inv (l_known_nodes l)"
proof -
  let ?se = "new_fleet_sensor (e_cs env) (e_nick env) (e_now env) domain self"
  have "newer_inv ?se" by (simp add: newer_inv_def new_fleet_sensor_def Let_def)
  with assms remember_known_newer show ?thesis
    by (fastforce simp: new_learner_def Let_def newer_inv_record_state split: sum.splits prod.splits)
qed

lemma load_seednodes_newer:
  assumes "load_seednodes env sages seeds stored rs rec_state l = (r, l')" "newer_inv (l_known_nodes l)"
  shows "newer_inv (l_known_nodes l')"
proof (cases "l_done_seeding l")
  case False
  let ?nodes = "List.map_filter (\<lambda>x. x) ((if l_domain l \<noteq> '''' then sages else []) @ seeds)"
  obtain x u where u: "remember_nodes env ?nodes l = (x, u)" by fastforce
  note inv1 = remember_nodes_newer [OF u assms(2)]
  obtain y v where v: "(if rs then read_nodes_from_storage env stored (u\<lparr>l_done_seeding := True\<rparr>)
      else (Inr [], u\<lparr>l_done_seeding := True\<rparr>)) = (y, v)" by fastforce
  have inv2: "newer_inv (l_known_nodes v)"
    using v inv1 remember_nodes_newer by (fastforce simp: read_nodes_from_storage_def split: if_splits)
  from assms(1) False u v inv1 inv2 newer_inv_record_state show ?thesis
    by (cases x; cases y) (auto simp: load_seednodes_def Let_def split: if_splits)
qed (use assms in \<open>auto simp: load_seednodes_def\<close>)

lemma cycle_teacher_known: "cycle_teacher_node env l = (r, l') \<Longrightarrow> l_known_nodes l' = l_known_nodes l \<and> l_domain l' = l_domain l \<and> l_stamp l' = l_stamp l"
  by (auto simp: cycle_teacher_node_def select_teacher_nodes_def Let_def split: if_splits sum.splits)

lemma current_teacher_known: "current_teacher_node env c l = (r, l') \<Longrightarrow> l_known_nodes l' = l_known_nodes l"
  by (auto simp: current_teacher_node_def split: if_splits sum.splits prod.splits option.splits dest!: cycle_teacher_known)

lemma learn_sprouts_newer:
  "learn_sprouts env eager ns l = (r, l') \<Longrightarrow> newer_inv (l_known_nodes l) \<Longrightarrow> newer_inv (l_known_nodes l')"
proof (induction ns arbitrary: l r)
  case (Cons n ns)
  obtain x u where u: "remember_node env False eager n l = (x, u)" by fastforce
  note inv = remember_node_newer [OF u Cons.prems(2)]
  from Cons.prems(1) u inv Cons.IH show ?case
    by (auto split: sum.splits prod.splits option.splits if_splits)
qed simp

lemma digest_reply_newer:
  assumes "digest_reply env eager t reply rem l = (r, l')" "newer_inv (l_known_nodes l)"
  shows "newer_inv (l_known_nodes l')"
proof -
  have note_remote: "newer_inv (l_known_nodes b)"
    if "note_remote_state env t ts pop res a = (x, b)" "newer_inv (l_known_nodes a)" for ts pop res a x b
    using that by (auto simp: note_remote_state_def split: sum.splits dest: newer_inv_remote)
  show ?thesis
  proof (cases reply)
    case (ReplyNodes ts ns)
    obtain x u where u: "learn_sprouts env eager ns l = (x, u)" by fastforce
    have inv: "newer_inv (l_known_nodes u)" using learn_sprouts_newer [OF u assms(2)] .
    then have "newer_inv (l_known_nodes (sensor_record env False u))" by (simp add: newer_inv_record_state)
    with assms ReplyNodes u inv show ?thesis
      by (auto simp: digest_reply_def split: if_splits sum.splits intro: note_remote)
  qed (use assms in \<open>auto simp: digest_reply_def\<close>)
qed

lemma learn_newer:
  assumes "learn_from_teacher_node env eager sages seeds stored stop1 stop2 ask l = (r, l')" "newer_inv (l_known_nodes l)"
  shows "newer_inv (l_known_nodes l')"
proof -
  obtain x u where u: "(if \<not> l_done_seeding l then load_seednodes env sages seeds stored True True l else (Inr [], l)) = (x, u)"
    by fastforce
  have inv1: "newer_inv (l_known_nodes u)"
    using u assms(2) load_seednodes_newer by (fastforce split: if_splits)
  obtain y v where v: "current_teacher_node env False (u\<lparr>l_learning_round := Suc (l_learning_round u)\<rparr>) = (y, v)"
    by fastforce
  have inv2: "newer_inv (l_known_nodes v)" using current_teacher_known [OF v] inv1 by simp
  define v' where "v' t = (if ask t = ReplyInvalidNode then v\<lparr>l_known_nodes := mark_as t (l_known_nodes v)\<rparr> else v)" for t
  have inv3: "newer_inv (l_known_nodes w)" if "cycle_teacher_node env (v' t) = (z, w)" for t z w
    using cycle_teacher_known [OF that] inv2 by (simp add: v'_def newer_inv_mark_as)
  show ?thesis
  proof (cases x)
    case (Inl e)
    with assms(1) u inv1 show ?thesis by (simp add: learn_from_teacher_node_def)
  next
    case (Inr rem)
    show ?thesis
    proof (cases y)
      case (Inl e)
      with assms(1) u v Inr inv2 show ?thesis by (simp add: learn_from_teacher_node_def)
    next
      case t: (Inr t)
      obtain z w where w: "cycle_teacher_node env (v' t) = (z, w)" by fastforce
      from assms(1) u v Inr t w inv2 inv3 [OF w] show ?thesis
        by (cases z; cases "ask t") (auto simp: learn_from_teacher_node_def Let_def v'_def split: if_splits intro: digest_reply_newer)
    qed
  qed
qed

inductive learner_step :: "('k, 'n) learner \<Rightarrow> ('k, 'n) learner \<Rightarrow> bool" where
  step_remember: "remember_node env rs eager n l = (r, l') \<Longrightarrow> learner_step l l'"
| step_seed: "load_seednodes env sages seeds stored rst rs l = (r, l') \<Longrightarrow> learner_step l l'"
| step_learn: "learn_from_teacher_node env eager sages seeds stored stop1 stop2 ask l = (r, l') \<Longrightarrow> learner_step l l'"
| step_cycle: "cycle_teacher_node env l = (r, l') \<Longrightarrow> learner_step l l'"
| step_sensor: "learner_step l (sensor_record env skip l)"
| step_adjust: "learner_step l (adjust_learning ns l)"
| step_handle_error: "learner_step l (handle_learning_errors b l)"
| step_start: "start_learning_loop l = (b, l') \<Longrightarrow> learner_step l l'"
| step_stop: "learner_step l (stop_learning_loop l)"

definition learner_started :: "('k, 'n) learner \<Rightarrow> bool" where
  "learner_started l \<longleftrightarrow>
     (\<exists>env stamp domain self save abort known. new_learner env stamp domain self save abort known = Inr l)"

lemma learner_step_newer: "newer_inv (l_known_nodes l) \<Longrightarrow> learner_step l l' \<Longrightarrow> newer_inv (l_known_nodes l')"
proof (erule learner_step.cases, goal_cases)
  case (7 l b)
  then show ?case by (simp add: handle_learning_errors_def start_learning_loop_def)
next
  case (6 l ns)
  then show ?case by (simp add: adjust_learning_def Let_def)
next
  case (4 env l r l')
  then show ?case using cycle_teacher_known by metis
qed (auto intro: remember_node_newer load_seednodes_newer learn_newer newer_inv_record_state
    simp: start_learning_loop_def stop_learning_loop_def split: if_splits)

interpretation lrn: step_invariant learner_started learner_step "\<lambda>l. newer_inv (l_known_nodes l)"
proof unfold_locales
  fix l :: "('k, 'n) learner" assume "learner_started l"
  then obtain env :: "('k, 'n) env" and stamp domain self save abort known
    where "new_learner env stamp domain self save abort known = Inr l" by (auto simp: learner_started_def)
  then show "newer_inv (l_known_nodes l)" by (rule new_learner_newer)
qed (rule learner_step_newer)

lemma updated_nodes_cases:
  "dict_get (updated_nodes adds d nodes) a = Some m \<Longrightarrow> dict_get nodes a = Some m \<or> last_added adds a = Some m"
  by (auto simp: dict_get_drop_nodes dict_get_put_nodes dict_get_added split: if_splits)

lemma current_after_record:
  assumes "with_updated_nodes cs nick now md (so (se_nodes_to_add se)) (se_nodes_to_remove se) skip (se_current_state se) = (s', d)"
  shows "se_current_state (snd (record_fleet_state cs nick so now md skip se)) = s'"
  using assms by (simp add: record_fleet_state_def Let_def)

text \<open>
  C12. Learning never goes backwards. In every state a learner reaches by remembering nodes,
  seeding, learning from teachers and recording its fleet state: a representation of a known node
  that is not newer than the known one is refused and changes nothing; and recording the fleet
  state leaves a known node as it is, replaces it by a strictly newer representation, or removes it.
\<close>

theorem learner_keeps_newest:
  assumes "reaches learner_started learner_step l" "\<forall>xs. set (e_set_order env xs) = set xs"
  shows "(known_node l (n_checksum_address n) = Some m \<and> n_timestamp n \<le> n_timestamp m
        \<longrightarrow> remember_node env rs eager n l = (Inr None, l))
    \<and> (known_node l a = Some old \<and> known_node (sensor_record env skip l) a = Some new
        \<longrightarrow> new = old \<or> n_timestamp old < n_timestamp new)"
proof -
  have inv: "newer_inv (l_known_nodes l)" using assms(1) by (rule lrn.reaches_inv)
  let ?se = "l_known_nodes l"
  obtain s' d where w: "with_updated_nodes (e_cs env) (e_nick env) (e_now env) (e_this_metadata env)
      (e_set_order env (se_nodes_to_add ?se)) (se_nodes_to_remove ?se) skip (se_current_state ?se) = (s', d)" by fastforce
  have "new = old \<or> n_timestamp old < n_timestamp new"
    if known: "known_node l a = Some old" and new: "known_node (sensor_record env skip l) a = Some new"
  proof -
    from new have "dict_get (fs_nodes s') a = Some new"
      by (simp add: current_after_record [where so = "e_set_order env", OF w] fleet_getitem_def)
    with updated_nodes_cases known have "new = old \<or> last_added (e_set_order env (se_nodes_to_add ?se)) a = Some new"
      unfolding with_updated_nodes_eq(1) [OF w] fleet_getitem_def by force
    then show ?thesis
    proof
      assume "last_added (e_set_order env (se_nodes_to_add ?se)) a = Some new"
      from last_added_address [OF this] assms(2) have "new \<in> set (se_nodes_to_add ?se)" "n_checksum_address new = a" by auto
      with inv known show ?thesis by (auto simp: newer_inv_def)
    qed simp
  qed
  moreover have "remember_node env rs eager n l = (Inr None, l)"
    if "known_node l (n_checksum_address n) = Some m" "n_timestamp n \<le> n_timestamp m"
    using that by (intro remember_node_refused) auto
  ultimately show ?thesis by blast
qed

definition demo_env :: "(string option \<times> string list, unit) env" where
  "demo_env = \<lparr>e_cs = demo_cs, e_nick = (\<lambda>_. ()), e_set_order = (\<lambda>xs. xs), e_shuffle = (\<lambda>xs. xs), e_now = 3,
     e_this_metadata = ''me'', e_verify = (\<lambda>_. None)\<rparr>"

definition demo_learner :: "(string option \<times> string list, unit) learner" where
  "demo_learner = (case new_learner demo_env ''self'' ''mainnet'' False False False [] of Inr l \<Rightarrow> l)"

lemma demo_learner_started: "reaches learner_started learner_step demo_learner"
proof (rule reaches_start)
  have "new_learner demo_env ''self'' ''mainnet'' False False False [] = Inr demo_learner"
    by (simp add: demo_learner_def new_learner_def Let_def)
  then show "learner_started demo_learner" unfolding learner_started_def by blast
qed

text \<open>A learner that has seeded with the node of the demonstration.\<close>

definition demo_learned :: "(string option \<times> string list, unit) learner" where
  "demo_learned = snd (load_seednodes demo_env [Some demo_node] [None] [] True True demo_learner)"

lemma demo_learned_reached: "reaches learner_started learner_step demo_learned"
  unfolding demo_learned_def
  by (rule reaches_step [OF demo_learner_started], rule step_seed) (rule prod.collapse [symmetric])

theorem learner_keeps_newest_witness:
  "known_node demo_learned ''a'' = Some demo_node
   \<and> remember_node demo_env True False (demo_node\<lparr>n_metadata := ''old'', n_timestamp := 4\<rparr>) demo_learned = (Inr None, demo_learned)"
proof -
  have k: "known_node demo_learned ''a'' = Some demo_node" by code_simp
  let ?n = "demo_node\<lparr>n_metadata := ''old'', n_timestamp := 4\<rparr>"
  have "n_checksum_address ?n = ''a''" "n_timestamp ?n \<le> n_timestamp demo_node" by (simp_all add: demo_node_def)
  with k learner_keeps_newest [OF demo_learned_reached, of demo_env ?n demo_node True False]
  show ?thesis by (simp add: demo_env_def)
qed

subsection \<open>What a round of learning achieves\<close>

definition accepted :: "('k, 'n) learner \<Rightarrow> node \<Rightarrow> bool" where
  "accepted l n \<longleftrightarrow> n_stamp n \<noteq> l_stamp l
     \<and> (case known_node l (n_checksum_address n) of Some m \<Rightarrow> n_timestamp m < n_timestamp n | None \<Rightarrow> True)"

abbreviation pending :: "('k, 'n) learner \<Rightarrow> node list" where
  "pending l \<equiv> se_nodes_to_add (l_known_nodes l)"

text \<open>What remembering a node leaves as it was.\<close>

definition same_fleet :: "('k, 'n) learner \<Rightarrow> ('k, 'n) learner \<Rightarrow> bool" where
  "same_fleet l l' \<longleftrightarrow> se_current_state (l_known_nodes l') = se_current_state (l_known_nodes l)
     \<and> se_nodes_to_remove (l_known_nodes l') = se_nodes_to_remove (l_known_nodes l)
     \<and> se_domain (l_known_nodes l') = se_domain (l_known_nodes l)
     \<and> se_auto_update_state (l_known_nodes l') = se_auto_update_state (l_known_nodes l)
     \<and> l_stamp l' = l_stamp l \<and> l_domain l' = l_domain l"

lemma same_fleet_trans: "same_fleet a b \<Longrightarrow> same_fleet b c \<Longrightarrow> same_fleet a c"
  by (simp add: same_fleet_def)

lemma same_fleet_accepted: "same_fleet l l' \<Longrightarrow> accepted l' n = accepted l n"
  by (simp add: same_fleet_def accepted_def)

lemma remember_lazily:
  assumes "\<not> se_auto_update_state (l_known_nodes l)"
  shows "\<exists>l'. remember_node env False False n l = (Inr (if accepted l n then Some n else None), l') \<and> same_fleet l l'
    \<and> pending l' = (if accepted l n \<and> n_domain n = se_domain (l_known_nodes l)
        then filter (\<lambda>m. n_stamp m \<noteq> n_stamp n) (pending l) @ [n] else pending l)"
proof (cases "accepted l n")
  case False
  then have "remember_node env False False n l = (Inr None, l)"
    by (intro remember_node_refused) (auto simp: accepted_def split: option.splits)
  with False show ?thesis by (simp add: same_fleet_def)
next
  case True
  then show ?thesis
    using assms by (auto simp: accepted_def remember_node_def record_node_def same_fleet_def Let_def split: option.splits)
qed

lemma learn_sprouts_lazily:
  assumes "\<not> se_auto_update_state (l_known_nodes l)"
  shows "\<exists>l'. learn_sprouts env False ns l = (Inr (filter (accepted l) ns), l') \<and> same_fleet l l'
    \<and> set (pending l') \<subseteq> set (pending l) \<union> set ns
    \<and> (\<forall>n \<in> set (pending l). n_stamp n \<notin> n_stamp ` set ns \<longrightarrow> n \<in> set (pending l'))
    \<and> (distinct (map n_stamp ns) \<longrightarrow>
        (\<forall>n \<in> set ns. accepted l n \<and> n_domain n = se_domain (l_known_nodes l) \<longrightarrow> n \<in> set (pending l')))"
  using assms
proof (induction ns arbitrary: l)
  case Nil
  then show ?case by (simp add: same_fleet_def)
next
  case (Cons n ns)
  from remember_lazily [OF Cons.prems, of env n] obtain u where
    u: "remember_node env False False n l = (Inr (if accepted l n then Some n else None), u)" "same_fleet l u"
      "pending u = (if accepted l n \<and> n_domain n = se_domain (l_known_nodes l)
        then filter (\<lambda>m. n_stamp m \<noteq> n_stamp n) (pending l) @ [n] else pending l)" by blast
  from u(2) Cons.prems have auto: "\<not> se_auto_update_state (l_known_nodes u)" by (simp add: same_fleet_def)
  have acc: "accepted u = accepted l" "se_domain (l_known_nodes u) = se_domain (l_known_nodes l)"
    using u(2) same_fleet_accepted by (auto simp: same_fleet_def)
  from Cons.IH [OF auto] obtain l' where l':
      "learn_sprouts env False ns u = (Inr (filter (accepted l) ns), l')" "same_fleet u l'"
      "set (pending l') \<subseteq> set (pending u) \<union> set ns"
      "\<And>n. n \<in> set (pending u) \<Longrightarrow> n_stamp n \<notin> n_stamp ` set ns \<Longrightarrow> n \<in> set (pending l')"
      "\<And>n. distinct (map n_stamp ns) \<Longrightarrow> n \<in> set ns \<Longrightarrow> accepted l n \<Longrightarrow> n_domain n = se_domain (l_known_nodes l)
        \<Longrightarrow> n \<in> set (pending l')"
    unfolding acc by blast
  have "learn_sprouts env False (n # ns) l = (Inr (filter (accepted l) (n # ns)), l')"
    using u(1) l'(1) by simp
  moreover have "set (pending l') \<subseteq> set (pending l) \<union> set (n # ns)"
    using l'(3) u(3) by (auto split: if_splits)
  moreover have "m \<in> set (pending l')" if "m \<in> set (pending l)" "n_stamp m \<notin> n_stamp ` set (n # ns)" for m
    using that l'(4) [of m] u(3) by auto
  moreover have "m \<in> set (pending l')" if "distinct (map n_stamp (n # ns))" "m \<in> set (n # ns)" "accepted l m"
    "n_domain m = se_domain (l_known_nodes l)" for m
    using that l'(4) [of m] l'(5) [of m] u(3) by auto
  ultimately show ?case using same_fleet_trans [OF u(2) l'(2)] by blast
qed

text \<open>The fleet after the pending nodes of a lazy round are recorded.\<close>

lemma metadata_after_record:
  assumes "\<forall>xs. set (e_set_order env xs) = set xs"
    and "n \<in> set (pending l)" "distinct (map n_checksum_address (remdups (pending l)))"
    and "n_checksum_address n \<notin> set (se_nodes_to_remove (l_known_nodes l))"
  shows "metadata_of (se_current_state (l_known_nodes (sensor_record env skip l))) (n_checksum_address n) = Some (n_metadata n)"
proof -
  let ?se = "l_known_nodes l" and ?adds = "e_set_order env (pending l)"
  obtain s' d where w: "with_updated_nodes (e_cs env) (e_nick env) (e_now env) (e_this_metadata env)
      ?adds (se_nodes_to_remove ?se) skip (se_current_state ?se) = (s', d)" by fastforce
  note eq = with_updated_nodes_eq [OF w]
  from eq(7) obtain u where "d = calculate_diff (se_current_state ?se) u ?adds (se_nodes_to_remove ?se)" by blast
  from lookup_updated [OF this, of "n_checksum_address n"]
  have m: "metadata_of s' (n_checksum_address n) = apply_changes ?adds (se_nodes_to_remove ?se) (metadata_of (se_current_state ?se)) (n_checksum_address n)"
    by (simp add: metadata_of_def eq(1))
  have "last_added ?adds (n_checksum_address n) \<noteq> None" using assms(1,2) by (auto simp: last_added_None)
  then obtain k where k: "last_added ?adds (n_checksum_address n) = Some k" by blast
  from last_added_address [OF k] assms(1) have "k \<in> set (pending l)" "n_checksum_address k = n_checksum_address n" by auto
  moreover have "inj_on n_checksum_address (set (pending l))" using assms(3) by (simp add: distinct_map)
  ultimately have "k = n" using assms(2) by (meson inj_onD)
  with m k assms(4) show ?thesis
    by (simp add: apply_changes_def current_after_record [where so = "e_set_order env", OF w])
qed

text \<open>
  A round of learning passes on what the teacher knows. When a teacher of our own domain
  announces nodes with different stamps and addresses to a learner with nothing pending, and the
  call returns, then each announced node of our domain that is not ourselves and not about to be
  removed is in the fleet with the announced metadata, unless we knew a representation that is
  at least as new.
\<close>

lemma learning_round_complete:
  assumes "digest_reply env False teacher (ReplyNodes ts ns) remembered l = (Inr result, l')"
    and "ns \<noteq> []" "n_domain teacher = l_domain l" "pending l = []" "\<not> se_auto_update_state (l_known_nodes l)"
    and "distinct (map n_stamp ns)" "distinct (map n_checksum_address ns)" "\<forall>xs. set (e_set_order env xs) = set xs"
    and "n \<in> set ns" "n_domain n = se_domain (l_known_nodes l)" "n_stamp n \<noteq> l_stamp l"
    and "n_checksum_address n \<notin> set (se_nodes_to_remove (l_known_nodes l))"
  shows "result = LearnedSprouts ns
    \<and> ((\<exists>m. known_node l (n_checksum_address n) = Some m \<and> n_timestamp n \<le> n_timestamp m)
       \<or> metadata_of (se_current_state (l_known_nodes l')) (n_checksum_address n) = Some (n_metadata n))"
proof -
  from learn_sprouts_lazily [OF assms(5), of env ns] obtain u where
    u: "learn_sprouts env False ns l = (Inr (filter (accepted l) ns), u)" "same_fleet l u"
      "set (pending u) \<subseteq> set (pending l) \<union> set ns"
      "distinct (map n_stamp ns) \<longrightarrow>
        (\<forall>n \<in> set ns. accepted l n \<and> n_domain n = se_domain (l_known_nodes l) \<longrightarrow> n \<in> set (pending u))" by blast
  let ?v = "if remembered \<noteq> [] \<or> filter (accepted l) ns \<noteq> [] then sensor_record env False u else u"
  from assms(1-3) u(1) have note_: "note_remote_state env teacher ts (length ns) (LearnedSprouts ns) ?v = (Inr result, l')"
    by (simp add: digest_reply_def)
  then have res: "result = LearnedSprouts ns" "se_current_state (l_known_nodes l') = se_current_state (l_known_nodes ?v)"
    by (auto simp: note_remote_state_def record_remote_fleet_state_def Let_def split: sum.splits if_splits)
  show ?thesis
  proof (cases "accepted l n")
    case False
    with assms(11) have "\<exists>m. known_node l (n_checksum_address n) = Some m \<and> n_timestamp n \<le> n_timestamp m"
      by (auto simp: accepted_def split: option.splits)
    with res(1) show ?thesis by blast
  next
    case True
    with u(4) assms(6,9,10) have mem: "n \<in> set (pending u)" by blast
    have "set (remdups (pending u)) \<subseteq> set ns" using u(3) assms(4) by simp
    then have dist: "distinct (map n_checksum_address (remdups (pending u)))"
      using assms(7) by (auto simp: distinct_map intro: inj_on_subset)
    have "n_checksum_address n \<notin> set (se_nodes_to_remove (l_known_nodes u))"
      using assms(12) u(2) by (simp add: same_fleet_def)
    note rec_md = metadata_after_record [OF assms(8) mem dist this, of False]
    have "filter (accepted l) ns \<noteq> []" using True assms(9) by (auto simp: filter_empty_conv)
    with rec_md res show ?thesis by simp
  qed
qed

definition demo_node2 :: node where
  "demo_node2 = \<lparr>n_checksum_address = ''b'', n_stamp = ''sb'', n_domain = ''mainnet'', n_metadata = ''m2'', n_timestamp = 7\<rparr>"

text \<open>
  A teacher that was marked invalid and is asked again before the next recorded state breaks
  the round: when it answers with something new to us, the fleet state is recorded, which removes
  the teacher, and noting its remote state then raises \<^verbatim>\<open>KeyError\<close>.
\<close>

theorem marked_teacher_breaks_round:
  assumes "l_done_seeding l" "l_current_teacher l = Some teacher" "l_teacher_nodes l \<noteq> []"
    and "n_checksum_address teacher \<in> set (se_nodes_to_remove (l_known_nodes l))"
    and "n_domain teacher = l_domain l" "\<not> se_auto_update_state (l_known_nodes l)"
    and "ask teacher = ReplyNodes ts ns" "n \<in> set ns" "accepted l n"
  shows "fst (learn_from_teacher_node env False sages seeds stored False stop2 ask l) = Inl RemoteStateKeyError"
proof -
  let ?l0 = "l\<lparr>l_learning_round := Suc (l_learning_round l)\<rparr>"
  let ?l1 = "?l0\<lparr>l_current_teacher := Some (last (l_teacher_nodes l)), l_teacher_nodes := butlast (l_teacher_nodes l)\<rparr>"
  have cyc: "cycle_teacher_node env ?l0 = (Inr (), ?l1)"
    using assms(3) by (simp add: cycle_teacher_node_def)
  have learn: "learn_from_teacher_node env False sages seeds stored False stop2 ask l
      = digest_reply env False teacher (ReplyNodes ts ns) [] ?l1"
    using assms(1,2,7) cyc by (simp add: learn_from_teacher_node_def current_teacher_node_def Let_def)
  have auto: "\<not> se_auto_update_state (l_known_nodes ?l1)" using assms(6) by simp
  have acc: "accepted ?l1 = accepted l" by (rule ext) (simp add: accepted_def)
  from learn_sprouts_lazily [OF auto, of env ns] obtain u where
    u: "learn_sprouts env False ns ?l1 = (Inr (filter (accepted l) ns), u)" "same_fleet ?l1 u" unfolding acc by blast
  have new: "filter (accepted l) ns \<noteq> []" "ns \<noteq> []" using assms(8,9) by (auto simp: filter_empty_conv)
  let ?se = "l_known_nodes u" and ?a = "n_checksum_address teacher"
  obtain s' d where w: "with_updated_nodes (e_cs env) (e_nick env) (e_now env) (e_this_metadata env)
      (e_set_order env (pending u)) (se_nodes_to_remove ?se) False (se_current_state ?se) = (s', d)" by fastforce
  note eq = with_updated_nodes_eq [OF w]
  from eq(7) obtain b where "d = calculate_diff (se_current_state ?se) b (e_set_order env (pending u)) (se_nodes_to_remove ?se)" by blast
  from lookup_updated [OF this, of ?a] u(2) assms(4) have "metadata_of s' ?a = None"
    by (simp add: metadata_of_def eq(1) apply_changes_def same_fleet_def)
  then have "\<not> fleet_contains s' ?a"
    unfolding metadata_of_def fleet_contains_def option.map_disc_iff dict_get_None_iff .
  then have "\<not> fleet_contains (se_current_state (l_known_nodes (sensor_record env False u))) ?a"
    by (simp add: current_after_record [where so = "e_set_order env", OF w])
  with new assms(5) u(1) learn show ?thesis
    by (simp add: digest_reply_def note_remote_state_def record_remote_fleet_state_def)
qed

definition demo_marked :: "(string option \<times> string list, unit) learner" where
  "demo_marked = demo_learned\<lparr>l_known_nodes := mark_as demo_node (l_known_nodes demo_learned),
     l_current_teacher := Some demo_node, l_teacher_nodes := [demo_node]\<rparr>"

theorem marked_teacher_breaks_round_witness:
  "fst (learn_from_teacher_node demo_env False [] [] [] False False (\<lambda>_. ReplyNodes 9 [demo_node2]) demo_marked) = Inl RemoteStateKeyError"
proof -
  have "l_done_seeding demo_marked" "l_current_teacher demo_marked = Some demo_node" "l_teacher_nodes demo_marked \<noteq> []"
      "n_checksum_address demo_node \<in> set (se_nodes_to_remove (l_known_nodes demo_marked))"
      "n_domain demo_node = l_domain demo_marked" "\<not> se_auto_update_state (l_known_nodes demo_marked)"
      "accepted demo_marked demo_node2"
    by code_simp+
  from marked_teacher_breaks_round [OF this(1-6), of "\<lambda>_. ReplyNodes 9 [demo_node2]" 9 "[demo_node2]" demo_node2 demo_env] this(7)
  show ?thesis by simp
qed

end
