(* ===== verification/Payment.thy ===== *)
theory Payment
  imports Nulink_Prelude
begin

text \<open>
  Payment methods: \<^verbatim>\<open>nulink/policy/payment.py\<close>.

  An optional number is tested by Python for truth, so that zero counts as not given
  (\<open>truthy\<close>). The contract is a parameter: its fee rate, whether a policy is active, and the
  receipt of the transaction that creates one, or its exception. Timestamps and Wei are integers.

  The locale \<open>payment_method\<close> is the interface that policies rely on; both methods interpret it.
\<close>

datatype payment_error = PriceValueError | PriceTypeError | PayError string

definition truthy :: "int option \<Rightarrow> bool" where
  "truthy x \<longleftrightarrow> x \<noteq> None \<and> x \<noteq> Some 0"

text \<open>Python's \<^verbatim>\<open>a or b\<close>\<close>

definition py_or :: "int option \<Rightarrow> int option \<Rightarrow> int option" where
  "py_or a b = (if truthy a then a else b)"

record quote =
  q_rate :: int
  q_value :: int
  q_commencement :: "int option"
  q_expiration :: "int option"
  q_duration :: "int option"
  q_shares :: int

record quote_request =
  qr_shares :: int
  qr_commencement :: "int option"
  qr_expiration :: "int option"
  qr_duration :: "int option"
  qr_value :: "int option"
  qr_rate :: "int option"

subsection \<open>Free re-encryptions\<close>

definition free_quote :: "quote_request \<Rightarrow> payment_error + quote" where
  "free_quote r = Inr \<lparr>q_rate = 0, q_value = 0, q_commencement = qr_commencement r,
     q_expiration = qr_expiration r, q_duration = qr_duration r, q_shares = qr_shares r\<rparr>"

definition free_validate_price :: "int \<Rightarrow> int \<Rightarrow> int option \<Rightarrow> payment_error + bool" where
  "free_validate_price shares value duration = Inr True"

definition free_verify :: "string \<Rightarrow> bool" where
  "free_verify hrac = True"

text \<open>A policy that is paid for: what \<^verbatim>\<open>pay\<close> reads of it.\<close>

record payable =
  pa_value :: int
  pa_hrac :: string
  pa_size :: nat
  pa_commencement :: "int option"
  pa_expiration :: "int option"

text \<open>
  Paying returns a receipt or raises. An exception comes with the knowledge whether the payment had gone out before it: the
  transaction is broadcast first, and waiting for its receipt can raise afterwards.
\<close>

definition free_pay :: "payable \<Rightarrow> payment_error \<times> bool + string" where
  "free_pay policy = Inr (''Receipt for free policy '' @ pa_hrac policy @ ''.'')"

subsection \<open>Payment by the subscription manager contract\<close>

record subscription_manager =
  sm_fee_rate :: int
  sm_is_policy_active :: "string \<Rightarrow> bool"
  sm_create_policy :: "payable \<Rightarrow> payment_error \<times> bool + string"

definition sm_rate :: "subscription_manager \<Rightarrow> int" where
  "sm_rate agent = sm_fee_rate agent"

definition sm_verify :: "subscription_manager \<Rightarrow> string \<Rightarrow> bool" where
  "sm_verify agent hrac = sm_is_policy_active agent hrac"

definition sm_pay :: "subscription_manager \<Rightarrow> payable \<Rightarrow> payment_error \<times> bool + string" where
  "sm_pay agent policy = sm_create_policy agent policy"

definition negative :: "int option \<Rightarrow> bool" where
  "negative x \<longleftrightarrow> (case x of Some n \<Rightarrow> n < 0 | None \<Rightarrow> False)"

text \<open>\<open>now\<close> is \<^verbatim>\<open>maya.now().epoch\<close>; multiplying by a duration that is \<^verbatim>\<open>None\<close> is a \<^verbatim>\<open>TypeError\<close>.\<close>

definition sm_quote :: "subscription_manager \<Rightarrow> int \<Rightarrow> quote_request \<Rightarrow> payment_error + quote" where
  "sm_quote agent now r =
     (if truthy (qr_rate r) then Inl PriceValueError
      else if \<not> (truthy (qr_duration r) \<or> truthy (qr_expiration r) \<or> truthy (qr_value r)) then Inl PriceValueError
      else if negative (qr_commencement r) \<or> negative (qr_expiration r) \<or> negative (qr_duration r)
              \<or> negative (qr_value r) \<or> negative (qr_rate r) then Inl PriceValueError
      else let commencement =
                 (if truthy (qr_commencement r) then the (qr_commencement r)
                  else if truthy (qr_expiration r) \<and> truthy (qr_duration r)
                  then the (qr_expiration r) - the (qr_duration r) else now);
               duration =
                 (if truthy (qr_duration r) then qr_duration r
                  else if truthy (qr_expiration r) \<and> commencement \<noteq> 0
                  then Some (the (qr_expiration r) - commencement) else qr_duration r)
           in case duration of
                None \<Rightarrow> Inl PriceTypeError
              | Some d \<Rightarrow> Inr \<lparr>q_rate = sm_rate agent, q_value = sm_rate agent * d * qr_shares r,
                  q_commencement = Some commencement, q_expiration = qr_expiration r,
                  q_duration = Some d, q_shares = qr_shares r\<rparr>)"

definition sm_validate_price :: "subscription_manager \<Rightarrow> int \<Rightarrow> int \<Rightarrow> int option \<Rightarrow> payment_error + bool" where
  "sm_validate_price agent shares value duration =
     (case duration of
        None \<Rightarrow> Inl PriceTypeError
      | Some d \<Rightarrow> if value \<noteq> shares * d * sm_rate agent then Inl PriceValueError else Inr True)"

subsection \<open>The interface\<close>

text \<open>What a method quotes is for the shares asked for, and passes its own check of the price.\<close>

locale payment_method =
  fixes quote :: "quote_request \<Rightarrow> payment_error + quote"
    and validate_price :: "int \<Rightarrow> int \<Rightarrow> int option \<Rightarrow> payment_error + bool"
  assumes quote_shares: "quote r = Inr q \<Longrightarrow> q_shares q = qr_shares r"
    and quote_validates: "quote r = Inr q \<Longrightarrow> validate_price (q_shares q) (q_value q) (q_duration q) = Inr True"
begin

lemma quoted_price_accepted:
  "quote r = Inr q \<Longrightarrow> validate_price (qr_shares r) (q_value q) (q_duration q) = Inr True"
  using quote_shares quote_validates by fastforce

end

interpretation free: payment_method free_quote free_validate_price
  by unfold_locales (auto simp: free_quote_def free_validate_price_def)

interpretation sub: payment_method "sm_quote agent now" "sm_validate_price agent" for agent now
  by unfold_locales
    (auto simp: sm_quote_def sm_validate_price_def sm_rate_def Let_def mult.commute split: if_splits option.splits)

text \<open>
  What the subscription manager quotes. A request that leaves the rate to the contract, without
  negative numbers and with a duration or an expiration, gets a quote. It costs the fee rate for
  every second and share, is for the shares asked for, and is accepted by the price check; and
  when an expiration is given with at most one of commencement and duration, the quoted times agree.
\<close>

theorem subscription_quote_consistent:
  assumes "\<not> truthy (qr_rate r)" "truthy (qr_duration r) \<or> truthy (qr_expiration r)"
    and "\<not> (negative (qr_commencement r) \<or> negative (qr_expiration r) \<or> negative (qr_duration r)
          \<or> negative (qr_value r) \<or> negative (qr_rate r))"
    and "0 < now"
  shows "\<exists>q d c. sm_quote agent now r = Inr q \<and> q_duration q = Some d \<and> q_commencement q = Some c
    \<and> q_value q = sm_rate agent * d * qr_shares r \<and> q_shares q = qr_shares r
    \<and> sm_validate_price agent (qr_shares r) (q_value q) (q_duration q) = Inr True
    \<and> (truthy (qr_expiration r) \<and> \<not> (truthy (qr_commencement r) \<and> truthy (qr_duration r))
        \<longrightarrow> q_expiration q = Some (c + d))"
proof -
  define c where "c = (if truthy (qr_commencement r) then the (qr_commencement r)
    else if truthy (qr_expiration r) \<and> truthy (qr_duration r) then the (qr_expiration r) - the (qr_duration r) else now)"
  define D where "D = (if truthy (qr_duration r) then qr_duration r
    else if truthy (qr_expiration r) \<and> c \<noteq> 0 then Some (the (qr_expiration r) - c) else qr_duration r)"
  have start: "\<not> truthy (qr_duration r) \<Longrightarrow> c \<noteq> 0" using assms(4) by (auto simp: c_def truthy_def)
  have "D \<noteq> None"
  proof (cases "truthy (qr_duration r)")
    case True
    then show ?thesis by (simp add: D_def truthy_def)
  next
    case False
    with start assms(2) show ?thesis by (simp add: D_def)
  qed
  then obtain d where d: "D = Some d" by blast
  let ?q = "\<lparr>q_rate = sm_rate agent, q_value = sm_rate agent * d * qr_shares r, q_commencement = Some c,
    q_expiration = qr_expiration r, q_duration = Some d, q_shares = qr_shares r\<rparr>"
  have q: "sm_quote agent now r = Inr ?q"
    using assms(1-3) d unfolding sm_quote_def c_def [symmetric] Let_def D_def [symmetric] by auto
  have "qr_expiration r = Some (c + d)"
    if "truthy (qr_expiration r)" "\<not> (truthy (qr_commencement r) \<and> truthy (qr_duration r))"
    using that d start by (auto simp: c_def D_def truthy_def split: if_splits)
  with q sub.quoted_price_accepted [OF q] show ?thesis by auto
qed

theorem subscription_quote_consistent_witness:
  "\<exists>q d c. sm_quote \<lparr>sm_fee_rate = 3, sm_is_policy_active = (\<lambda>_. True), sm_create_policy = (\<lambda>_. Inr '''')\<rparr> 100
       \<lparr>qr_shares = 2, qr_commencement = None, qr_expiration = Some 160, qr_duration = None, qr_value = None, qr_rate = None\<rparr> = Inr q
     \<and> q_duration q = Some d \<and> q_commencement q = Some c \<and> q_expiration q = Some (c + d)"
proof -
  let ?r = "\<lparr>qr_shares = 2, qr_commencement = None, qr_expiration = Some 160, qr_duration = None, qr_value = None, qr_rate = None\<rparr>"
  from subscription_quote_consistent [of ?r 100 "\<lparr>sm_fee_rate = 3, sm_is_policy_active = (\<lambda>_. True), sm_create_policy = (\<lambda>_. Inr '''')\<rparr>"]
  show ?thesis by (auto simp: truthy_def negative_def)
qed

text \<open>
  A value alone is not enough. The error message for a missing end time offers
  \<^verbatim>\<open>'expiration', 'duration' or 'value'\<close>; a request with only a value passes that test and then
  raises \<^verbatim>\<open>TypeError\<close>, for every positive value.
\<close>

theorem quote_by_value_raises:
  assumes "0 < v" "qr_rate r = None" "qr_duration r = None" "qr_expiration r = None" "qr_value r = Some v"
    and "\<not> negative (qr_commencement r)"
  shows "sm_quote agent now r = Inl PriceTypeError"
  using assms by (simp add: sm_quote_def truthy_def negative_def)

theorem quote_by_value_raises_witness:
  "sm_quote \<lparr>sm_fee_rate = 3, sm_is_policy_active = (\<lambda>_. True), sm_create_policy = (\<lambda>_. Inr '''')\<rparr> 100
     \<lparr>qr_shares = 2, qr_commencement = None, qr_expiration = None, qr_duration = None, qr_value = Some 50, qr_rate = None\<rparr>
   = Inl PriceTypeError"
  by (rule quote_by_value_raises [of 50]) (simp_all add: negative_def)

end
