(* ===== verification/Policy.thy ===== *)
theory Policy
  imports Reservoir Learner Payment
begin

text \<open>
  Granting, enacting and revoking policies: \<^verbatim>\<open>nulink/policy/policies.py\<close>,
  \<^verbatim>\<open>nulink/policy/revocation.py\<close> and the policy methods of \<^verbatim>\<open>Alice\<close> in
  \<^verbatim>\<open>nulink/characters/lawful.py\<close>.

  Nodes are pinged by a worker pool under an arbitrary schedule that draws from a reservoir. The
  cryptographic library (addresses, key fragments, their encryption in a treasure map, revocation
  orders) is a record of parameters, as is a payment method; so is what sampling meets: the turns of
  the wait for nodes and what is learned meanwhile, the registered providers, the answers to pings,
  the addresses of the NuLink workers and the schedule. Payments go to a ledger, the list of those
  that were made.
\<close>

type_synonym canonical_address = string
type_synonym known_nodes = "(address, node) dict"

datatype policy_error =
    NotEnoughUrsulas | NotAKnownPeer | NotAvailable | PingRaised | PriceRejected payment_error | PaymentFailed payment_error
  | SamplingRaised sample_error | ReservoirRaised agent_error | LearningRaised learner_error
  | MissingEndTime | NotGoodToGo | PolicyKeyError | ActorError | NothingToRevoke | TreasureMapRaised string | RequestRaised string

record ('f, 'k, 'r) crypto =
  cr_canonical :: "address \<Rightarrow> canonical_address"
  cr_checksum :: "canonical_address \<Rightarrow> address"
  cr_kfrags :: "nat \<Rightarrow> nat \<Rightarrow> 'f list"
  cr_encrypt :: "node \<Rightarrow> 'f \<Rightarrow> 'k"
  cr_order :: "canonical_address \<Rightarrow> 'k \<Rightarrow> 'r"
  cr_map_error :: "(canonical_address, node \<times> 'f) dict \<Rightarrow> string option"

record pay_method =
  pm_quote :: "quote_request \<Rightarrow> payment_error + quote"
  pm_validate_price :: "int \<Rightarrow> int \<Rightarrow> int option \<Rightarrow> payment_error + bool"
  pm_pay :: "payable \<Rightarrow> payment_error \<times> bool + string"

definition free_method :: pay_method where
  "free_method = \<lparr>pm_quote = free_quote, pm_validate_price = free_validate_price, pm_pay = free_pay\<rparr>"

definition subscription_method :: "subscription_manager \<Rightarrow> int \<Rightarrow> pay_method" where
  "subscription_method agent now =
     \<lparr>pm_quote = sm_quote agent now, pm_validate_price = sm_validate_price agent, pm_pay = sm_pay agent\<rparr>"

record 'f policy =
  po_federated :: bool
  po_threshold :: nat
  po_label :: string
  po_hrac :: string
  po_kfrags :: "'f list"
  po_commencement :: "int option"
  po_expiration :: "int option"
  po_duration :: "int option"
  po_value :: int
  po_rate :: int
  po_nodes :: "address list option"
  po_payment_method :: pay_method

definition po_shares :: "'f policy \<Rightarrow> nat" where
  "po_shares p = length (po_kfrags p)"

text \<open>The constructor checks the price with the payment method it is given.\<close>

definition new_policy :: "bool \<Rightarrow> string \<Rightarrow> string \<Rightarrow> 'f list \<Rightarrow> nat \<Rightarrow> quote \<Rightarrow> pay_method \<Rightarrow> policy_error + 'f policy" where
  "new_policy federated label hrac kfrags threshold q pm =
     (let p = \<lparr>po_federated = federated, po_threshold = threshold, po_label = label, po_hrac = hrac, po_kfrags = kfrags,
            po_commencement = q_commencement q, po_expiration = q_expiration q, po_duration = q_duration q,
            po_value = q_value q, po_rate = q_rate q, po_nodes = None, po_payment_method = pm\<rparr>
      in case pm_validate_price pm (int (po_shares p)) (po_value p) (po_duration p) of
           Inl e \<Rightarrow> Inl (PriceRejected e)
         | Inr _ \<Rightarrow> Inr p)"

subsection \<open>Choosing nodes\<close>

record ('g, 'c, 'n) sampling =
  sa_rng :: "'g rng"
  sa_seed :: 'g
  sa_turns :: "nat \<Rightarrow> turn"
  sa_learned :: "('c, 'n) learner \<Rightarrow> ('c, 'n) learner"
  sa_active :: "agent_error + int \<times> (address, int) dict"
  sa_ping :: "node \<Rightarrow> policy_error + nat"
  sa_nulink_workers :: "address list"
  sa_blocking :: "(node, policy_error) pool_action list"
  sa_returning :: "(node, policy_error) pool_action list"
  sa_joining :: "(node, policy_error) pool_action list"

text \<open>A ping gives the status code of the answer, or an exception.\<close>

definition ping_node :: "known_nodes \<Rightarrow> (node \<Rightarrow> policy_error + nat) \<Rightarrow> address \<Rightarrow> (node, policy_error) outcome" where
  "ping_node known ping a =
     (case dict_get known a of
        None \<Rightarrow> WorkerRaises NotAKnownPeer
      | Some ursula \<Rightarrow>
          (case ping ursula of
             Inl e \<Rightarrow> WorkerRaises e
           | Inr status_code \<Rightarrow> if status_code = 200 then WorkerReturns ursula else WorkerRaises NotAvailable))"

fun add_nulink_workers :: "known_nodes \<Rightarrow> address list \<Rightarrow> int \<Rightarrow> (address, node) dict \<Rightarrow> (address, node) dict" where
  "add_nulink_workers known [] need_to_successes successes = successes"
| "add_nulink_workers known (a # workers) need_to_successes successes =
     (if need_to_successes \<le> 0 then successes
      else if a \<in> set (dict_keys successes) then add_nulink_workers known workers need_to_successes successes
      else case dict_get known a of
             None \<Rightarrow> add_nulink_workers known workers need_to_successes successes
           | Some ursula \<Rightarrow> add_nulink_workers known workers (need_to_successes - 1) (dict_set successes a ursula))"

definition get_enough_ursulas :: "known_nodes \<Rightarrow> address list \<Rightarrow> (address, node, policy_error, 'q) worker_pool \<Rightarrow> (address, node) dict" where
  "get_enough_ursulas known nulink_workers pool =
     add_nulink_workers known nulink_workers
       (int (get_target_successes pool) - int (length (get_successes pool))) (get_successes pool)"

text \<open>The exceptions of the reservoir are those of the pool's producer.\<close>

definition sampling_factory :: "'g rng \<Rightarrow> nat \<Rightarrow> (address, policy_error, 'g merged_reservoir) value_factory" where
  "sampling_factory rng shares k m =
     (case prefetch_call (merged_call rng) (int shares) k m of
        (Inl e, m') \<Rightarrow> (Inl (SamplingRaised e), m')
      | (Inr batch, m') \<Rightarrow> (Inr batch, m'))"

text \<open>
  The pool of \<^verbatim>\<open>_sample\<close>: the schedules are what it does until the blocking call returns, from
  then until the successes are read and the pool is cancelled, and from then until \<^verbatim>\<open>join\<close>
  returns; schedules that do not get there give \<open>None\<close>.
\<close>

definition sample_pool :: "('g, 'c, 'n) sampling \<Rightarrow> known_nodes \<Rightarrow> nat \<Rightarrow> 'g merged_reservoir
    \<Rightarrow> (policy_error + node list) option" where
  "sample_pool sa known shares reservoir =
     (let factory = sampling_factory (sa_rng sa) shares; worker = (\<lambda>a out. out = ping_node known (sa_ping sa) a) in
      case run_pool factory worker (sa_blocking sa) (start_pool (new_worker_pool shares reservoir)) of
        None \<Rightarrow> None
      | Some s \<Rightarrow>
          (case (block_until_target_successes s, run_pool factory worker (sa_returning sa) s) of
             (Some blocked, Some t) \<Rightarrow>
               (case run_pool factory worker (sa_joining sa) (cancel_pool t) of
                  None \<Rightarrow> None
                | Some u \<Rightarrow>
                    (case join_pool u of
                       None \<Rightarrow> None
                     | Some (Inl e, _) \<Rightarrow> Some (Inl e)
                     | Some (Inr _, _) \<Rightarrow>
                         (case blocked of
                            Inl (ProducerError e) \<Rightarrow> Some (Inl e)
                          | _ \<Rightarrow>
                              let successes = (case blocked of
                                    Inr d \<Rightarrow> d | Inl _ \<Rightarrow> get_enough_ursulas known (sa_nulink_workers sa) t)
                              in if length successes < shares then Some (Inl NotEnoughUrsulas)
                                 else Some (Inr (dict_values successes)))))
           | _ \<Rightarrow> None))"

text \<open>The \<^verbatim>\<open>_make_reservoir\<close> of \<^verbatim>\<open>FederatedPolicy\<close> and of \<^verbatim>\<open>BlockchainPolicy\<close>.\<close>

definition make_reservoir :: "('g, 'c, 'n) sampling \<Rightarrow> bool \<Rightarrow> known_nodes \<Rightarrow> address list \<Rightarrow> agent_error + 'g merged_reservoir" where
  "make_reservoir sa federated known handpicked_addresses =
     (if federated
      then Inr (make_federated_staker_reservoir (sa_seed sa) (map n_checksum_address (dict_values known)) None (Some handpicked_addresses))
      else make_decentralized_staking_provider_reservoir (sa_seed sa) (sa_active sa) None (Some handpicked_addresses))"

abbreviation learner_nodes :: "('c, 'n) learner \<Rightarrow> known_nodes" where
  "learner_nodes l \<equiv> fs_nodes (se_current_state (l_known_nodes l))"

definition sample :: "('g, 'c, 'n) sampling \<Rightarrow> node list \<Rightarrow> 'f policy \<Rightarrow> ('c, 'n) learner
    \<Rightarrow> ((policy_error + node list) \<times> ('c, 'n) learner) option" where
  "sample sa ursulas p l =
     (case block_until_number_of_known_nodes_is (sa_turns sa) (int (po_shares p)) 10 True 0 of
        None \<Rightarrow> None
      | Some (Inl e) \<Rightarrow> Some (Inl (LearningRaised e), sa_learned sa l)
      | Some (Inr _) \<Rightarrow>
          (let l = sa_learned sa l
           in case make_reservoir sa (po_federated p) (learner_nodes l) (map n_checksum_address ursulas) of
                Inl e \<Rightarrow> Some (Inl (ReservoirRaised e), l)
              | Inr reservoir \<Rightarrow>
                  (case sample_pool sa (learner_nodes l) (po_shares p) reservoir of
                     None \<Rightarrow> None
                   | Some r \<Rightarrow> Some (r, l))))"

subsection \<open>Enacting\<close>

definition revocation_kit :: "('f, 'k, 'r) crypto \<Rightarrow> (canonical_address, 'k) dict \<Rightarrow> (canonical_address, 'r) dict" where
  "revocation_kit cr destinations = dict_of (map (\<lambda>(a, k). (a, cr_order cr a k)) destinations)"

definition revokable_addresses :: "('f, 'k, 'r) crypto \<Rightarrow> (canonical_address, 'r) dict \<Rightarrow> address set" where
  "revokable_addresses cr kit = set (map (cr_checksum cr) (dict_keys kit))"

definition kit_getitem :: "('f, 'k, 'r) crypto \<Rightarrow> (canonical_address, 'r) dict \<Rightarrow> address \<Rightarrow> 'r option" where
  "kit_getitem cr kit ursula_address = dict_get kit (cr_canonical cr ursula_address)"

record ('k, 'r) enacted_policy =
  ep_hrac :: string
  ep_label :: string
  ep_threshold :: nat
  ep_destinations :: "(canonical_address, 'k) dict"
  ep_revocation_kit :: "(canonical_address, 'r) dict"

definition ep_shares :: "('k, 'r) enacted_policy \<Rightarrow> nat" where
  "ep_shares ep = length (ep_revocation_kit ep)"

definition publish :: "node list \<Rightarrow> payable list \<Rightarrow> 'f policy \<Rightarrow> (policy_error + string) \<times> payable list \<times> 'f policy" where
  "publish ursulas ledger p =
     (let p = p\<lparr>po_nodes := Some (map n_checksum_address ursulas)\<rparr>;
          payment = \<lparr>pa_value = po_value p, pa_hrac = po_hrac p, pa_size = length (po_kfrags p),
            pa_commencement = po_commencement p, pa_expiration = po_expiration p\<rparr>
      in case pm_pay (po_payment_method p) payment of
           Inl (e, sent) \<Rightarrow> (Inl (PaymentFailed e), if sent then ledger @ [payment] else ledger, p)
         | Inr receipt \<Rightarrow> (Inr receipt, ledger @ [payment], p))"

text \<open>
  The treasure map holds, per provider, the key fragment encrypted for it. Making and encrypting it and making the revocation
  kit, all after the payment, can raise (\<open>cr_map_error\<close>).
\<close>

definition enact :: "('f, 'k, 'r) crypto \<Rightarrow> ('g, 'c, 'n) sampling \<Rightarrow> node list \<Rightarrow> payable list \<Rightarrow> 'f policy \<Rightarrow> ('c, 'n) learner
    \<Rightarrow> ((policy_error + ('k, 'r) enacted_policy) \<times> payable list \<times> 'f policy \<times> ('c, 'n) learner) option" where
  "enact cr sa handpicked ledger p l =
     (case sample sa handpicked p l of
        None \<Rightarrow> None
      | Some (Inl e, l) \<Rightarrow> Some (Inl e, ledger, p, l)
      | Some (Inr ursulas, l) \<Rightarrow>
          (case publish ursulas ledger p of
             (Inl e, ledger, p) \<Rightarrow> Some (Inl e, ledger, p, l)
           | (Inr _, ledger, p) \<Rightarrow>
               (let assigned_kfrags = dict_of (map (\<lambda>(u, f). (cr_canonical cr (n_checksum_address u), (u, f))) (zip ursulas (po_kfrags p)));
                    destinations = map (\<lambda>(a, (u, f)). (a, cr_encrypt cr u f)) assigned_kfrags
                in case cr_map_error cr assigned_kfrags of
                     Some e \<Rightarrow> Some (Inl (TreasureMapRaised e), ledger, p, l)
                   | None \<Rightarrow> Some (Inr \<lparr>ep_hrac = po_hrac p, ep_label = po_label p, ep_threshold = po_threshold p,
                       ep_destinations = destinations, ep_revocation_kit = revocation_kit cr destinations\<rparr>, ledger, p, l))))"

subsection \<open>Alice\<close>

record ('k, 'r, 'c, 'n) alice =
  al_threshold :: nat
  al_shares :: nat
  al_duration :: "int option"
  al_rate :: "int option"
  al_timeout :: int
  al_payment_method :: pay_method
  al_federated_only :: bool
  al_active_policies :: "(string, ('k, 'r) enacted_policy) dict"
  al_learner :: "('c, 'n) learner"

definition add_active_policy :: "('k, 'r) enacted_policy \<Rightarrow> ('k, 'r, 'c, 'n) alice \<Rightarrow> policy_error + ('k, 'r, 'c, 'n) alice" where
  "add_active_policy ep al =
     (if ep_hrac ep \<in> set (dict_keys (al_active_policies al)) then Inl PolicyKeyError
      else Inr (al\<lparr>al_active_policies := dict_set (al_active_policies al) (ep_hrac ep) ep\<rparr>))"

record policy_params =
  pp_threshold :: "nat option"
  pp_shares :: "nat option"
  pp_duration :: "int option"
  pp_commencement :: "int option"
  pp_expiration :: "int option"
  pp_value :: "int option"
  pp_rate :: "int option"
  pp_payment_method :: "pay_method option"

abbreviation nat_or :: "nat option \<Rightarrow> nat \<Rightarrow> nat" where
  "nat_or x d \<equiv> (case x of Some n \<Rightarrow> if n = 0 then d else n | None \<Rightarrow> d)"

definition generate_kfrags :: "('f, 'k, 'r) crypto \<Rightarrow> nat option \<Rightarrow> nat option \<Rightarrow> ('k, 'r, 'c, 'n) alice \<Rightarrow> 'f list" where
  "generate_kfrags cr threshold shares al = cr_kfrags cr (nat_or threshold (al_threshold al)) (nat_or shares (al_shares al))"

text \<open>The quote is asked of Alice's own payment method, whichever the policy is to use.\<close>

definition generate_policy_parameters :: "policy_params \<Rightarrow> ('k, 'r, 'c, 'n) alice \<Rightarrow> policy_error + nat \<times> nat \<times> quote \<times> pay_method" where
  "generate_policy_parameters pp al =
     (if \<not> truthy (pp_duration pp) \<and> pp_expiration pp = None then Inl MissingEndTime
      else let threshold = nat_or (pp_threshold pp) (al_threshold al);
               shares = nat_or (pp_shares pp) (al_shares al);
               pm = (case pp_payment_method pp of Some m \<Rightarrow> m | None \<Rightarrow> al_payment_method al);
               request = \<lparr>qr_shares = int shares, qr_commencement = pp_commencement pp,
                 qr_expiration = pp_expiration pp, qr_duration = py_or (pp_duration pp) (al_duration al),
                 qr_value = pp_value pp, qr_rate = (case pp_rate pp of Some r \<Rightarrow> Some r | None \<Rightarrow> al_rate al)\<rparr>
           in case pm_quote (al_payment_method al) request of
                Inl e \<Rightarrow> Inl (PriceRejected e)
              | Inr q \<Rightarrow> Inr (threshold, shares, q, pm))"

definition create_policy :: "('f, 'k, 'r) crypto \<Rightarrow> string \<Rightarrow> string \<Rightarrow> policy_params \<Rightarrow> ('k, 'r, 'c, 'n) alice \<Rightarrow> policy_error + 'f policy" where
  "create_policy cr label hrac pp al =
     (case generate_policy_parameters pp al of
        Inl e \<Rightarrow> Inl e
      | Inr (threshold, shares, q, pm) \<Rightarrow>
          new_policy (al_federated_only al) label hrac (generate_kfrags cr (Some threshold) (Some shares) al)
            threshold q pm)"

fun remember_handpicked :: "('c, 'n) env \<Rightarrow> node list \<Rightarrow> ('c, 'n) learner \<Rightarrow> ('c, 'n) learner" where
  "remember_handpicked env [] l = l"
| "remember_handpicked env (u # ursulas) l = remember_handpicked env ursulas (snd (remember_node env True False u l))"

text \<open>The end of \<^verbatim>\<open>grant\<close>: enact the policy, then register it.\<close>

definition grant_enacted :: "('f, 'k, 'r) crypto \<Rightarrow> ('g, 'c, 'n) sampling \<Rightarrow> node list \<Rightarrow> 'f policy \<Rightarrow> payable list
    \<Rightarrow> ('k, 'r, 'c, 'n) alice
    \<Rightarrow> ((policy_error + ('k, 'r) enacted_policy) \<times> payable list \<times> ('k, 'r, 'c, 'n) alice) option" where
  "grant_enacted cr sa ursulas p ledger al =
     (case enact cr sa ursulas ledger p (al_learner al) of
        None \<Rightarrow> None
      | Some (Inl e, ledger, _, l) \<Rightarrow> Some (Inl e, ledger, al\<lparr>al_learner := l\<rparr>)
      | Some (Inr ep, ledger, _, l) \<Rightarrow>
          (case add_active_policy ep (al\<lparr>al_learner := l\<rparr>) of
             Inl e \<Rightarrow> Some (Inl e, ledger, al\<lparr>al_learner := l\<rparr>)
           | Inr al \<Rightarrow> Some (Inr ep, ledger, al)))"

text \<open>
  In federated mode Alice waits for enough nodes: \<open>turns\<close> is what that wait sees, \<open>learned\<close> what is
  learned meanwhile. (Remembering a node without verifying it does not raise.)
\<close>

definition grant :: "('f, 'k, 'r) crypto \<Rightarrow> ('c, 'n) env \<Rightarrow> (nat \<Rightarrow> turn) \<Rightarrow> (('c, 'n) learner \<Rightarrow> ('c, 'n) learner)
    \<Rightarrow> ('g, 'c, 'n) sampling \<Rightarrow> string \<Rightarrow> string \<Rightarrow> node list \<Rightarrow> int option \<Rightarrow> policy_params \<Rightarrow> payable list
    \<Rightarrow> ('k, 'r, 'c, 'n) alice
    \<Rightarrow> ((policy_error + ('k, 'r) enacted_policy) \<times> payable list \<times> ('k, 'r, 'c, 'n) alice) option" where
  "grant cr env turns learned sa label hrac ursulas timeout pp ledger al =
     (let timeout = (if truthy timeout then the timeout else al_timeout al);
          al = al\<lparr>al_learner := remember_handpicked env ursulas (al_learner al)\<rparr>
      in case create_policy cr label hrac pp al of
           Inl e \<Rightarrow> Some (Inl e, ledger, al)
         | Inr p \<Rightarrow>
             if al_federated_only al \<and> fleet_len (se_current_state (l_known_nodes (al_learner al))) < po_shares p
             then (case block_until_number_of_known_nodes_is turns (int (po_shares p)) timeout True 0 of
                     None \<Rightarrow> None
                   | Some (Inl e) \<Rightarrow> Some (Inl (LearningRaised e), ledger, al\<lparr>al_learner := learned (al_learner al)\<rparr>)
                   | Some (Inr good_to_go) \<Rightarrow>
                       let al = al\<lparr>al_learner := learned (al_learner al)\<rparr>
                       in if \<not> good_to_go then Some (Inl NotGoodToGo, ledger, al) else grant_enacted cr sa ursulas p ledger al)
             else grant_enacted cr sa ursulas p ledger al)"

text \<open>
  The loop of \<^verbatim>\<open>revoke\<close> over the revokable addresses, in the order of iteration. The nodes that
  could not revoke are collected; a reply with another status raises, and so does any exception of the request but the two
  that are handled.
\<close>

datatype revocation_reply = RevocationStatus nat | RevocationNotFound | RevocationUnexpected | RevocationRaised string

fun revoke_loop :: "('f, 'k, 'r) crypto \<Rightarrow> (canonical_address, 'r) dict \<Rightarrow> known_nodes
    \<Rightarrow> (node \<Rightarrow> 'r \<Rightarrow> revocation_reply) \<Rightarrow> address list \<Rightarrow> (address, 'r \<times> revocation_reply) dict
    \<Rightarrow> policy_error + (address, 'r \<times> revocation_reply) dict" where
  "revoke_loop cr kit known request [] failed = Inr failed"
| "revoke_loop cr kit known request (a # addresses) failed =
     (case (dict_get known a, kit_getitem cr kit a) of
        (Some ursula, Some revocation) \<Rightarrow>
          (case request ursula revocation of
             RevocationStatus code \<Rightarrow>
               if code \<noteq> 200 then Inl ActorError else revoke_loop cr kit known request addresses failed
           | RevocationRaised e \<Rightarrow> Inl (RequestRaised e)
           | reply \<Rightarrow> revoke_loop cr kit known request addresses (dict_set failed a (revocation, reply)))
      | _ \<Rightarrow> Inl PolicyKeyError)"

definition LEARNING_TIMEOUT :: int where "LEARNING_TIMEOUT = 10"

text \<open>\<open>turns\<close> is what the wait for the nodes sees, \<open>known\<close> the nodes that are known after it.\<close>

definition revoke :: "('f, 'k, 'r) crypto \<Rightarrow> (address set \<Rightarrow> address list) \<Rightarrow> (nat \<Rightarrow> turn) \<Rightarrow> known_nodes
    \<Rightarrow> (node \<Rightarrow> 'r \<Rightarrow> revocation_reply) \<Rightarrow> bool \<Rightarrow> bool \<Rightarrow> ('k, 'r) enacted_policy
    \<Rightarrow> (policy_error + (address, 'r \<times> revocation_reply) dict) option" where
  "revoke cr set_order turns known request onchain offchain ep =
     (if \<not> (offchain \<or> onchain) then Some (Inl NothingToRevoke)
      else if \<not> offchain then Some (Inr [])
      else let addresses = revokable_addresses cr (ep_revocation_kit ep);
               revocation_threshold = int (ep_shares ep) - int (ep_threshold ep) + 1
           in case block_until_specific_nodes_are_known turns addresses LEARNING_TIMEOUT
                     (int (ep_shares ep) - revocation_threshold) False 0 of
                None \<Rightarrow> None
              | Some (Inl e) \<Rightarrow> Some (Inl (LearningRaised e))
              | Some (Inr _) \<Rightarrow> Some (revoke_loop cr (ep_revocation_kit ep) known request (set_order addresses) []))"

subsection \<open>What sampling guarantees\<close>

lemma process_result_target: "wp_target_successes (process_result m u) = wp_target_successes u"
  by (cases m) (simp_all add: Let_def)

lemma pool_step_target_successes: "pool_step factory worker s t \<Longrightarrow> wp_target_successes t = wp_target_successes s"
proof (erule pool_step.cases, goal_cases)
  case (1 s' t')
  then show ?case
    by (auto simp: produce_values_def cancel_pool_def Let_def
        split: producer_pc.splits prod.splits sum.splits option.splits list.splits)
next
  case (2 s' t')
  then show ?case
    by (auto simp: process_results_def cancel_pool_def stop_threadpool_def process_result_target
        split: processor_pc.splits list.splits if_splits)
next
  case (3 timed_out s' t')
  then show ?case by (auto simp: bail_on_timeout_def cancel_pool_def split: bail_pc.splits if_splits)
qed (auto simp: worker_wrapper_begin_def worker_wrapper_end_def cancel_pool_def split: list.splits if_splits)

lemma run_pool_target:
  assumes "run_pool factory worker as (start_pool (new_worker_pool n f)) = Some t"
  shows "get_target_successes t = n"
proof -
  have "(pool_step factory worker)\<^sup>*\<^sup>* s u \<Longrightarrow> wp_target_successes u = wp_target_successes s" for s u
    by (induction rule: rtranclp_induct) (auto dest: pool_step_target_successes)
  from this [OF run_pool_steps [OF assms]] show ?thesis
    by (simp add: get_target_successes_def start_pool_def new_worker_pool_def)
qed

text \<open>What the pool holds when the blocking call returns.\<close>

lemma pool_successes_bounded:
  assumes "pool_inv worker s" "0 < get_target_successes s"
  shows "wf_dict (get_successes s)" "length (get_successes s) \<le> get_target_successes s"
    "(a, r) \<in> set (get_successes s) \<Longrightarrow> worker a (WorkerReturns r)"
    "block_until_target_successes s = Some (Inr d) \<Longrightarrow> d = get_successes s"
proof -
  from assms show "wf_dict (get_successes s)" "length (get_successes s) \<le> get_target_successes s"
    "(a, r) \<in> set (get_successes s) \<Longrightarrow> worker a (WorkerReturns r)"
    by (auto simp: pool_inv_def inv_results_def inv_processor_def get_successes_def get_target_successes_def split: if_splits)
  show "block_until_target_successes s = Some (Inr d) \<Longrightarrow> d = get_successes s"
    using assms(1) by (auto dest!: block_until_reached simp: pool_inv_def inv_target_def get_successes_def)
qed

lemma add_nulink_workers_spec:
  "wf_dict d \<Longrightarrow> add_nulink_workers known workers need d = r \<Longrightarrow>
   wf_dict r \<and> int (length r) \<le> int (length d) + max 0 need
   \<and> (\<forall>(a, n) \<in> set r. (a, n) \<in> set d \<or> a \<in> set workers \<and> dict_get known a = Some n)"
proof (induction workers arbitrary: need d)
  case (Cons a workers)
  show ?case
  proof (cases "need \<le> 0 \<or> a \<in> set (dict_keys d) \<or> dict_get known a = None")
    case True
    then have "r = d \<or> add_nulink_workers known workers need d = r" using Cons.prems(2) by (auto split: if_splits)
    with Cons.IH [OF Cons.prems(1)] Cons.prems(1) show ?thesis by fastforce
  next
    case False
    then obtain n where n: "dict_get known a = Some n" "0 < need" "a \<notin> set (dict_keys d)" by auto
    with Cons.prems have "add_nulink_workers known workers (need - 1) (dict_set d a n) = r" by simp
    from Cons.IH [OF wf_dict_set [OF Cons.prems(1)] this]
    have IH: "wf_dict r" "int (length r) \<le> int (length (dict_set d a n)) + max 0 (need - 1)"
      "\<And>b m. (b, m) \<in> set r \<Longrightarrow> (b, m) \<in> set (dict_set d a n) \<or> b \<in> set workers \<and> dict_get known b = Some m" by auto
    have "length (dict_set d a n) = Suc (length d)" using n(3) by (simp add: length_dict_set del: set_map)
    with IH(2) n(2) have "int (length r) \<le> int (length d) + max 0 need" by simp
    with IH(1,3) n(1) show ?thesis by (fastforce dest: in_dict_setD)
  qed
qed auto

lemma ping_node_returns:
  "ping_node known ping a = WorkerReturns n \<longleftrightarrow> dict_get known a = Some n \<and> ping n = Inr 200"
  by (auto simp: ping_node_def split: option.splits sum.splits)

lemma run_pool_append:
  "run_pool factory worker (as @ bs) s = (case run_pool factory worker as s of None \<Rightarrow> None | Some t \<Rightarrow> run_pool factory worker bs t)"
  by (induction as arbitrary: s) (auto split: option.splits)

text \<open>What the pool holds in every state of a sampling run, and when the blocking call returns.\<close>

lemma pool_sampled:
  assumes "run_pool factory (\<lambda>a out. out = ping_node known ping a) as (start_pool (new_worker_pool shares f)) = Some s"
    and "0 < shares"
  shows "get_target_successes s = shares \<and> wf_dict (get_successes s) \<and> length (get_successes s) \<le> shares
    \<and> (\<forall>(a, n) \<in> set (get_successes s). dict_get known a = Some n \<and> ping n = Inr 200)
    \<and> (\<forall>d. block_until_target_successes s = Some (Inr d) \<longrightarrow> d = get_successes s)"
proof -
  have inv: "pool_inv (\<lambda>a out. out = ping_node known ping a) s" using wp.reaches_inv [OF run_pool_reachable [OF assms(1)]] .
  note target = run_pool_target [OF assms(1)]
  then have pos: "0 < get_target_successes s" using assms(2) by simp
  note succ = pool_successes_bounded [OF inv pos]
  have "dict_get known a = Some n \<and> ping n = Inr 200" if "(a, n) \<in> set (get_successes s)" for a n
    using succ(3) [OF that] by (metis ping_node_returns)
  with succ(1,2,4) target show ?thesis by auto
qed

lemma sample_pool_spec:
  assumes "sample_pool sa known shares reservoir = Some (Inr us)" "0 < shares"
    and keyed: "\<forall>(a, n) \<in> set known. n_checksum_address n = a"
  shows "length us = shares \<and> distinct (map n_checksum_address us)
    \<and> (\<forall>u \<in> set us. dict_get known (n_checksum_address u) = Some u
        \<and> (sa_ping sa u = Inr 200 \<or> n_checksum_address u \<in> set (sa_nulink_workers sa)))"
proof -
  let ?worker = "\<lambda>a out. out = ping_node known (sa_ping sa) a"
  from assms(1) obtain s blocked t d where
    s: "run_pool (sampling_factory (sa_rng sa) shares) ?worker (sa_blocking sa) (start_pool (new_worker_pool shares reservoir)) = Some s"
      "block_until_target_successes s = Some blocked"
    and t: "run_pool (sampling_factory (sa_rng sa) shares) ?worker (sa_returning sa) s = Some t"
    and d: "d = (case blocked of Inr d \<Rightarrow> d | Inl _ \<Rightarrow> get_enough_ursulas known (sa_nulink_workers sa) t)"
      "us = dict_values d" "shares \<le> length d"
    by (auto simp: sample_pool_def Let_def split: option.splits prod.splits sum.splits pool_error.splits if_splits)
  from pool_sampled [OF s(1) assms(2)] have s': "get_target_successes s = shares" "wf_dict (get_successes s)"
      "length (get_successes s) \<le> shares" "\<forall>(a, n) \<in> set (get_successes s). dict_get known a = Some n \<and> sa_ping sa n = Inr 200"
      "\<And>d. block_until_target_successes s = Some (Inr d) \<Longrightarrow> d = get_successes s" by auto
  have "run_pool (sampling_factory (sa_rng sa) shares) ?worker (sa_blocking sa @ sa_returning sa) (start_pool (new_worker_pool shares reservoir)) = Some t"
    using s(1) t by (simp add: run_pool_append)
  from pool_sampled [OF this assms(2)] have t': "get_target_successes t = shares" "wf_dict (get_successes t)"
      "length (get_successes t) \<le> shares" "\<forall>(a, n) \<in> set (get_successes t). dict_get known a = Some n \<and> sa_ping sa n = Inr 200"
    by auto
  have "wf_dict d \<and> length d \<le> shares
      \<and> (\<forall>(a, n) \<in> set d. dict_get known a = Some n \<and> (sa_ping sa n = Inr 200 \<or> a \<in> set (sa_nulink_workers sa)))"
  proof (cases blocked)
    case (Inr x)
    with d(1) s(2) s'(5) have "d = get_successes s" by simp
    with s' show ?thesis by auto
  next
    case (Inl e)
    with d(1) have "add_nulink_workers known (sa_nulink_workers sa) (int (get_target_successes t) - int (length (get_successes t)))
        (get_successes t) = d" by (simp add: get_enough_ursulas_def)
    from add_nulink_workers_spec [OF t'(2) this] t' show ?thesis by fastforce
  qed
  then have d': "wf_dict d" "length d = shares" "\<And>a n. (a, n) \<in> set d \<Longrightarrow> dict_get known a = Some n"
      "\<And>a n. (a, n) \<in> set d \<Longrightarrow> sa_ping sa n = Inr 200 \<or> a \<in> set (sa_nulink_workers sa)"
    using d(3) by auto
  have addr: "n_checksum_address n = a" if "(a, n) \<in> set d" for a n
    using keyed dict_get_in_set [OF d'(3) [OF that]] by blast
  then have keys: "map n_checksum_address us = dict_keys d" unfolding d(2) by (auto simp: case_prod_beta)
  then have "distinct (map n_checksum_address us)" using d'(1) by simp
  moreover have "dict_get known (n_checksum_address u) = Some u \<and> (sa_ping sa u = Inr 200 \<or> n_checksum_address u \<in> set (sa_nulink_workers sa))"
    if "u \<in> set us" for u
  proof -
    from that d(2) obtain a where "(a, u) \<in> set d" by auto
    with addr d'(3,4) show ?thesis by blast
  qed
  ultimately show ?thesis using d(2) d'(2) by simp
qed


subsection \<open>What enacting guarantees\<close>

lemma dict_of_distinct: "wf_dict ps \<Longrightarrow> dict_of ps = ps"
  using dict_update_distinct [of "[]" ps] by simp

lemma sample_spec:
  assumes "sample sa handpicked p l = Some (Inr us, l')" "po_kfrags p \<noteq> []"
    and "\<forall>(a, n) \<in> set (learner_nodes l'). n_checksum_address n = a"
  shows "length us = po_shares p \<and> distinct (map n_checksum_address us)
    \<and> (\<forall>u \<in> set us. dict_get (learner_nodes l') (n_checksum_address u) = Some u
        \<and> (sa_ping sa u = Inr 200 \<or> n_checksum_address u \<in> set (sa_nulink_workers sa)))"
proof -
  from assms(1) obtain reservoir where "sample_pool sa (learner_nodes l') (po_shares p) reservoir = Some (Inr us)"
    by (auto simp: sample_def Let_def split: option.splits sum.splits)
  from sample_pool_spec [OF this _ assms(3)] assms(2) show ?thesis by (simp add: po_shares_def)
qed

lemma enact_result:
  assumes "enact cr sa handpicked ledger p l = Some (Inr ep, ledger', p', l')"
  obtains us receipt where "sample sa handpicked p l = Some (Inr us, l')"
    "publish us ledger p = (Inr receipt, ledger', p')"
    "ep_hrac ep = po_hrac p" "ep_threshold ep = po_threshold p"
    "ep_destinations ep = map (\<lambda>(a, (u, f)). (a, cr_encrypt cr u f))
       (dict_of (map (\<lambda>(u, f). (cr_canonical cr (n_checksum_address u), (u, f))) (zip us (po_kfrags p))))"
    "ep_revocation_kit ep = revocation_kit cr (ep_destinations ep)"
proof -
  from assms obtain us where us: "sample sa handpicked p l = Some (Inr us, l')"
    by (auto simp: enact_def Let_def split: option.splits sum.splits prod.splits)
  with assms obtain receipt where r: "publish us ledger p = (Inr receipt, ledger', p')"
    by (auto simp: enact_def Let_def split: option.splits sum.splits prod.splits)
  then have "po_hrac p' = po_hrac p" "po_threshold p' = po_threshold p" "po_kfrags p' = po_kfrags p"
    by (auto simp: publish_def Let_def split: sum.splits)
  with that [OF us r] assms us r show ?thesis by (auto simp: enact_def Let_def split: option.splits)
qed

text \<open>
  C13. What an enacted policy is. Every key fragment is assigned, in order, to one of as many
  different known nodes as the policy has shares; each of them answered the ping or is one of the
  NuLink workers. The treasure map and the revocation kit have exactly these providers, the nodes
  are noted in the policy, and exactly one payment was made, of the policy's value and for its size.
\<close>

theorem enacted_policy_assigns_kfrags:
  assumes "enact cr sa handpicked ledger p l = Some (Inr ep, ledger', p', l')" "po_kfrags p \<noteq> []"
    and "inj (cr_canonical cr)"
    and "\<forall>(a, n) \<in> set (learner_nodes l'). n_checksum_address n = a"
  shows "\<exists>us. length us = po_shares p \<and> distinct (map n_checksum_address us)
    \<and> (\<forall>u \<in> set us. dict_get (learner_nodes l') (n_checksum_address u) = Some u
        \<and> (sa_ping sa u = Inr 200 \<or> n_checksum_address u \<in> set (sa_nulink_workers sa)))
    \<and> po_nodes p' = Some (map n_checksum_address us)
    \<and> ep_destinations ep = map2 (\<lambda>u f. (cr_canonical cr (n_checksum_address u), cr_encrypt cr u f)) us (po_kfrags p)
    \<and> ep_shares ep = po_shares p
    \<and> dict_keys (ep_revocation_kit ep) = map (cr_canonical cr \<circ> n_checksum_address) us
    \<and> ledger' = ledger @ [\<lparr>pa_value = po_value p, pa_hrac = po_hrac p, pa_size = po_shares p,
                          pa_commencement = po_commencement p, pa_expiration = po_expiration p\<rparr>]"
proof -
  from assms(1) obtain us receipt where us: "sample sa handpicked p l = Some (Inr us, l')"
    and pub: "publish us ledger p = (Inr receipt, ledger', p')"
    and dest: "ep_destinations ep = map (\<lambda>(a, (u, f)). (a, cr_encrypt cr u f))
       (dict_of (map (\<lambda>(u, f). (cr_canonical cr (n_checksum_address u), (u, f))) (zip us (po_kfrags p))))"
    and kit: "ep_revocation_kit ep = revocation_kit cr (ep_destinations ep)"
    by (rule enact_result)
  note s = sample_spec [OF us assms(2,4)]
  let ?keys = "map (cr_canonical cr \<circ> n_checksum_address) us"
  have keys: "map fst (map (\<lambda>(u, f). (cr_canonical cr (n_checksum_address u), (u, f))) (zip us (po_kfrags p))) = ?keys"
    using s by (simp add: po_shares_def case_prod_beta comp_def)
      (simp add: map_map [symmetric, of "\<lambda>x. cr_canonical cr (n_checksum_address x)" fst, unfolded comp_def] del: map_map)
  moreover have "distinct ?keys"
    using s assms(3) by (metis distinct_map inj_on_subset map_map subset_UNIV)
  ultimately have "ep_destinations ep = map2 (\<lambda>u f. (cr_canonical cr (n_checksum_address u), cr_encrypt cr u f)) us (po_kfrags p)"
    unfolding dest by (subst dict_of_distinct) (simp_all add: case_prod_beta)
  moreover have "map fst (map (\<lambda>(a, k). (a, cr_order cr a k)) (ep_destinations ep)) = ?keys"
    using keys unfolding calculation by (simp add: case_prod_beta comp_def)
  then have "dict_keys (ep_revocation_kit ep) = ?keys"
    using \<open>distinct ?keys\<close> unfolding kit revocation_kit_def by (subst dict_of_distinct) simp_all
  moreover from this have "ep_shares ep = po_shares p"
    using s unfolding ep_shares_def by (metis length_map)
  ultimately show ?thesis
    using s pub by (intro exI [of _ us]) (auto simp: publish_def Let_def po_shares_def split: sum.splits)
qed


definition demo_crypto :: "(nat, nat, nat) crypto" where
  "demo_crypto = \<lparr>cr_canonical = (\<lambda>a. a), cr_checksum = (\<lambda>a. a), cr_kfrags = (\<lambda>t n. [0..<n]), cr_encrypt = (\<lambda>u f. f),
     cr_order = (\<lambda>a k. k), cr_map_error = (\<lambda>_. None)\<rparr>"

definition demo_sampling :: "(nat, string option \<times> string list, unit) sampling" where
  "demo_sampling = \<lparr>sa_rng = demo_rng, sa_seed = 0, sa_turns = (\<lambda>_. demo_turn), sa_learned = (\<lambda>l. l),
     sa_active = Inr (0, []), sa_ping = (\<lambda>_. Inr 200), sa_nulink_workers = [],
     sa_blocking = [ActProduce, ActProduce, ActBegin, ActEnd 0 (WorkerReturns demo_node), ActProcess, ActProcess],
     sa_returning = [],
     sa_joining = [ActProduce, ActProduce, ActProduce, ActProcess, ActProcess, ActProcess, ActProcess, ActBail True, ActBail True]\<rparr>"

definition demo_policy :: "nat policy" where
  "demo_policy = \<lparr>po_federated = True, po_threshold = 1, po_label = ''label'', po_hrac = ''hrac'', po_kfrags = [7],
     po_commencement = None, po_expiration = Some 9, po_duration = None, po_value = 0, po_rate = 0, po_nodes = None,
     po_payment_method = free_method\<rparr>"

definition demo_enacted :: "(nat, nat) enacted_policy" where
  "demo_enacted = \<lparr>ep_hrac = ''hrac'', ep_label = ''label'', ep_threshold = 1, ep_destinations = [(''a'', 7)],
     ep_revocation_kit = [(''a'', 7)]\<rparr>"

definition demo_payment :: payable where
  "demo_payment = \<lparr>pa_value = 0, pa_hrac = ''hrac'', pa_size = 1, pa_commencement = None, pa_expiration = Some 9\<rparr>"

lemma demo_enact: "map_option (\<lambda>(r, ledger, p, l). (r, ledger, po_nodes p, l))
   (enact demo_crypto demo_sampling [demo_node] [] demo_policy demo_learned)
   = Some (Inr demo_enacted, [demo_payment], Some [''a''], demo_learned)"
  by code_simp


theorem enacted_policy_assigns_kfrags_witness:
  "\<exists>p' (us :: node list). enact demo_crypto demo_sampling [demo_node] [] demo_policy demo_learned
      = Some (Inr demo_enacted, [demo_payment], p', demo_learned)
    \<and> po_nodes p' = Some [''a''] \<and> length us = po_shares demo_policy \<and> po_nodes p' = Some (map n_checksum_address us)"
proof -
  from demo_enact obtain p' where e: "enact demo_crypto demo_sampling [demo_node] [] demo_policy demo_learned
      = Some (Inr demo_enacted, [demo_payment], p', demo_learned)" and p': "po_nodes p' = Some [''a'']" by auto
  have inj: "inj (cr_canonical demo_crypto)" by (simp add: demo_crypto_def)
  have ne: "po_kfrags demo_policy \<noteq> []" by (simp add: demo_policy_def)
  have keyed: "\<forall>(a, n) \<in> set (learner_nodes demo_learned). n_checksum_address n = a" by code_simp
  from enacted_policy_assigns_kfrags [OF e ne inj keyed] obtain us :: "node list"
    where us: "length us = po_shares demo_policy" "po_nodes p' = Some (map n_checksum_address us)"
    by (elim exE conjE) (rule that)
  show ?thesis by (intro exI [of _ p'] exI [of _ us] conjI) (fact e p' us)+
qed

subsection \<open>What granting does\<close>

text \<open>The payment that an exception of \<^verbatim>\<open>enact\<close> may leave behind.\<close>

definition late_payment :: "pay_method \<Rightarrow> policy_error \<Rightarrow> string \<Rightarrow> payable list \<Rightarrow> payable list \<Rightarrow> bool" where
  "late_payment pm e hrac ledger ledger' \<longleftrightarrow> ledger' = ledger
     \<or> (\<exists>pay. ledger' = ledger @ [pay] \<and> pa_hrac pay = hrac
          \<and> ((\<exists>x. e = TreasureMapRaised x) \<or> (\<exists>x. e = PaymentFailed x \<and> pm_pay pm pay = Inl (x, True))))"

lemma enact_error_ledger:
  assumes "enact cr sa us ledger p l = Some (Inl e, ledger', p', l')"
  shows "late_payment (po_payment_method p) e (po_hrac p) ledger ledger'"
proof (cases "\<exists>err l1. sample sa us p l = Some (Inl err, l1)")
  case True
  with assms show ?thesis by (auto simp: enact_def late_payment_def)
next
  case False
  with assms obtain ursulas l1 where s: "sample sa us p l = Some (Inr ursulas, l1)"
    by (auto simp: enact_def split: option.splits sum.splits)
  let ?pay = "\<lparr>pa_value = po_value p, pa_hrac = po_hrac p, pa_size = length (po_kfrags p),
            pa_commencement = po_commencement p, pa_expiration = po_expiration p\<rparr>"
  show ?thesis
  proof (cases "pm_pay (po_payment_method p) ?pay")
    case (Inl x)
    with assms s show ?thesis by (cases x) (auto simp: enact_def publish_def late_payment_def Let_def split: if_splits)
  next
    case (Inr receipt)
    with assms s show ?thesis by (auto simp: enact_def publish_def late_payment_def Let_def split: option.splits)
  qed
qed

lemma enact_ledger:
  assumes "enact cr sa us ledger p l = Some (Inr ep, ledger', p', l')"
  shows "\<exists>pay. ledger' = ledger @ [pay] \<and> pa_hrac pay = po_hrac p \<and> pa_value pay = po_value p" "ep_hrac ep = po_hrac p"
proof -
  from assms obtain us receipt where "publish us ledger p = (Inr receipt, ledger', p')" "ep_hrac ep = po_hrac p"
    by (rule enact_result)
  then show "\<exists>pay. ledger' = ledger @ [pay] \<and> pa_hrac pay = po_hrac p \<and> pa_value pay = po_value p" "ep_hrac ep = po_hrac p"
    by (auto simp: publish_def Let_def split: sum.splits)
qed

abbreviation method_for :: "policy_params \<Rightarrow> ('k, 'r, 'c, 'n) alice \<Rightarrow> pay_method" where
  "method_for pp al \<equiv> (case pp_payment_method pp of Some m \<Rightarrow> m | None \<Rightarrow> al_payment_method al)"

lemma create_policy_hrac:
  assumes "create_policy cr label hrac pp al = Inr p"
  shows "po_hrac p = hrac" "po_payment_method p = method_for pp al"
  using assms
  by (auto simp: create_policy_def generate_policy_parameters_def new_policy_def Let_def split: sum.splits if_splits)

lemma grant_enacted_cases:
  assumes "grant_enacted cr sa ursulas p ledger al = Some (r, ledger', al')"
  obtains (failed) e where "r = Inl e" "late_payment (po_payment_method p) e (po_hrac p) ledger ledger'" "al_active_policies al' = al_active_policies al"
  | (enacted) l ep p' l' where "enact cr sa ursulas ledger p l = Some (Inr ep, ledger', p', l')"
      "r = (if po_hrac p \<in> set (dict_keys (al_active_policies al)) then Inl PolicyKeyError else Inr ep)"
      "al_active_policies al' = (if po_hrac p \<in> set (dict_keys (al_active_policies al)) then al_active_policies al
         else dict_set (al_active_policies al) (po_hrac p) ep)"
proof -
  from assms obtain x ledger1 p1 l1 where e: "enact cr sa ursulas ledger p (al_learner al) = Some (x, ledger1, p1, l1)"
    by (auto simp: grant_enacted_def split: option.splits)
  show thesis
  proof (cases x)
    case (Inl err)
    with e assms have "r = Inl err" "ledger' = ledger1" "al' = al\<lparr>al_learner := l1\<rparr>"
      by (auto simp: grant_enacted_def)
    with enact_error_ledger e Inl show thesis by (intro failed) auto
  next
    case (Inr ep)
    with e have "ep_hrac ep = po_hrac p" using enact_ledger(2) by blast
    with e assms Inr show thesis
      by (intro enacted [of "al_learner al" ep p1 l1]) (auto simp: grant_enacted_def add_active_policy_def split: if_splits)
  qed
qed

lemma grant_cases:
  assumes "grant cr env turns learned sa label hrac ursulas timeout pp ledger al = Some (r, ledger', al')"
  obtains (failed) e where "r = Inl e" "ledger' = ledger" "al_active_policies al' = al_active_policies al"
  | (proceeded) p x where "po_hrac p = hrac" "po_payment_method p = method_for pp al" "al_active_policies x = al_active_policies al"
      "grant_enacted cr sa ursulas p ledger x = Some (r, ledger', al')"
proof -
  define x where "x = al\<lparr>al_learner := remember_handpicked env ursulas (al_learner al)\<rparr>"
  define y where "y = x\<lparr>al_learner := learned (al_learner x)\<rparr>"
  note g = assms [unfolded grant_def Let_def, folded x_def, folded y_def]
  have xy: "al_active_policies x = al_active_policies al" "al_active_policies y = al_active_policies al"
    "al_payment_method x = al_payment_method al"
    by (simp_all add: x_def y_def)
  show thesis
  proof (cases "create_policy cr label hrac pp x")
    case (Inl e)
    with g xy show thesis by (intro failed) auto
  next
    case (Inr p)
    from g have "grant_enacted cr sa ursulas p ledger x = Some (r, ledger', al')
        \<or> grant_enacted cr sa ursulas p ledger y = Some (r, ledger', al')
        \<or> (\<exists>e. r = Inl e) \<and> ledger' = ledger \<and> al' = y"
      unfolding Inr by (auto split: option.splits sum.splits if_splits)
    moreover have "po_payment_method p = method_for pp al" using create_policy_hrac(2) [OF Inr] xy(3) by (simp split: option.split)
    ultimately show thesis using proceeded [OF create_policy_hrac(1) [OF Inr]] failed xy(1,2) by blast
  qed
qed

text \<open>
  C14. The outcomes of \<^verbatim>\<open>grant\<close>. A granted policy is registered under its hrac, which had no active policy, and was paid exactly
  once. A grant that raises leaves the active policies alone. It pays nothing unless the exception comes after the
  payment went out, and then one payment for this hrac is made: the payment method of the policy itself raised after sending it (while waiting for
  the transaction, say), building the treasure map or the revocation kit raised, or a policy with the same hrac is already
  active, which is noticed only after the new one is enacted.
\<close>

theorem grant_outcomes:
  assumes "grant cr env turns learned sa label hrac ursulas timeout pp ledger al = Some (r, ledger', al')"
  shows "case r of
      Inr ep \<Rightarrow> ep_hrac ep = hrac \<and> hrac \<notin> set (dict_keys (al_active_policies al))
        \<and> al_active_policies al' = dict_set (al_active_policies al) hrac ep
        \<and> (\<exists>pay. ledger' = ledger @ [pay] \<and> pa_hrac pay = hrac)
    | Inl e \<Rightarrow> al_active_policies al' = al_active_policies al
        \<and> (ledger' = ledger
           \<or> (\<exists>pay. ledger' = ledger @ [pay] \<and> pa_hrac pay = hrac
                \<and> (e = PolicyKeyError \<and> hrac \<in> set (dict_keys (al_active_policies al))
                   \<or> (\<exists>x. e = TreasureMapRaised x)
                   \<or> (\<exists>x. e = PaymentFailed x
                      \<and> pm_pay (case pp_payment_method pp of Some m \<Rightarrow> m | None \<Rightarrow> al_payment_method al) pay = Inl (x, True)))))"
  using assms
proof (cases rule: grant_cases)
  case (proceeded p x)
  from proceeded(4) show ?thesis
  proof (cases rule: grant_enacted_cases)
    case (failed e)
    then show ?thesis using proceeded(1-3) by (auto simp: late_payment_def)
  next
    case (enacted l ep p' l')
    with enact_ledger [OF enacted(1)] proceeded(1,3) show ?thesis
      by (cases "hrac \<in> set (dict_keys (al_active_policies al))") auto
  qed
qed auto


definition demo_alice :: "(nat, nat, string option \<times> string list, unit) alice" where
  "demo_alice = \<lparr>al_threshold = 1, al_shares = 1, al_duration = None, al_rate = None, al_timeout = 10,
     al_payment_method = free_method, al_federated_only = True, al_active_policies = [], al_learner = demo_learned\<rparr>"

definition demo_params :: policy_params where
  "demo_params = \<lparr>pp_threshold = None, pp_shares = None, pp_duration = None, pp_commencement = None,
     pp_expiration = Some 9, pp_value = None, pp_rate = None, pp_payment_method = None\<rparr>"

abbreviation demo_grant :: "payable list \<Rightarrow> (nat, nat, string option \<times> string list, unit) alice
    \<Rightarrow> ((policy_error + (nat, nat) enacted_policy) \<times> payable list \<times> (nat, nat, string option \<times> string list, unit) alice) option" where
  "demo_grant ledger al \<equiv> grant demo_crypto demo_env (\<lambda>_. demo_turn) (\<lambda>l. l) demo_sampling ''label'' ''hrac''
     [demo_node] None demo_params ledger al"

definition demo_granted :: "(nat, nat, string option \<times> string list, unit) alice" where
  "demo_granted = (case demo_grant [] demo_alice of Some (_, _, al) \<Rightarrow> al | None \<Rightarrow> demo_alice)"

lemma demo_grant_again: "map_option (\<lambda>(r, ledger, al). (r, length ledger)) (demo_grant [demo_payment] demo_granted)
   = Some (Inl PolicyKeyError, 2)"
  by code_simp

theorem grant_outcomes_witness:
  "\<exists>al' pay. demo_grant [demo_payment] demo_granted = Some (Inl PolicyKeyError, [demo_payment, pay], al')
     \<and> pa_hrac pay = ''hrac'' \<and> al_active_policies al' = al_active_policies demo_granted"
proof -
  from demo_grant_again obtain ledger al' where g: "demo_grant [demo_payment] demo_granted = Some (Inl PolicyKeyError, ledger, al')"
    and two: "length ledger = 2" unfolding map_option_eq_Some by auto
  from two have "ledger \<noteq> [demo_payment]" by auto
  with grant_outcomes [OF g] obtain pay where "ledger = [demo_payment, pay]" "pa_hrac pay = ''hrac''"
    "al_active_policies al' = al_active_policies demo_granted" by auto
  with g show ?thesis by blast
qed

subsection \<open>Prices\<close>

lemma generate_policy_parameters_result:
  assumes "generate_policy_parameters pp al = Inr (threshold, shares, q, pm)"
  obtains r where "pm_quote (al_payment_method al) r = Inr q" "qr_shares r = int shares"
    "pm = (case pp_payment_method pp of Some m \<Rightarrow> m | None \<Rightarrow> al_payment_method al)"
    "shares = nat_or (pp_shares pp) (al_shares al)"
proof -
  let ?r = "\<lparr>qr_shares = int (nat_or (pp_shares pp) (al_shares al)), qr_commencement = pp_commencement pp,
    qr_expiration = pp_expiration pp, qr_duration = py_or (pp_duration pp) (al_duration al),
    qr_value = pp_value pp, qr_rate = (case pp_rate pp of Some r \<Rightarrow> Some r | None \<Rightarrow> al_rate al)\<rparr>"
  from assms show thesis unfolding generate_policy_parameters_def Let_def
    by (intro that [of ?r]) (simp_all split: if_split_asm sum.split_asm)
qed

text \<open>What granting relies on of the library: as many key fragments as were asked for.\<close>

definition kfrags_complete :: "('f, 'k, 'r) crypto \<Rightarrow> bool" where
  "kfrags_complete cr \<longleftrightarrow> (\<forall>t n. length (cr_kfrags cr t n) = n)"

lemma create_policy_shares:
  assumes "kfrags_complete cr" "generate_policy_parameters pp al = Inr (threshold, shares, q, pm)"
  shows "length (generate_kfrags cr (Some threshold) (Some shares) al) = shares"
  using assms(2) by (rule generate_policy_parameters_result)
    (use assms(1) in \<open>auto simp: generate_kfrags_def kfrags_complete_def split: option.splits if_splits\<close>)

text \<open>
  Prices agree. When a policy is to be paid by Alice's own payment method, free or by the
  subscription manager, a policy is created from every accepted set of parameters: its own price
  check never rejects the quoted price, and it has the quoted value and shares.
\<close>

theorem own_quote_accepted:
  assumes "kfrags_complete cr" "pp_payment_method pp = None"
    and "al_payment_method al = free_method \<or> (\<exists>agent now. al_payment_method al = subscription_method agent now)"
    and "generate_policy_parameters pp al = Inr (threshold, shares, q, pm)"
  shows "\<exists>p. create_policy cr label hrac pp al = Inr p \<and> po_shares p = shares \<and> po_value p = q_value q
    \<and> po_threshold p = threshold \<and> po_expiration p = q_expiration q"
proof -
  from assms(4) obtain r where r: "pm_quote (al_payment_method al) r = Inr q" "qr_shares r = int shares"
    and pm: "pm = al_payment_method al"
    by (rule generate_policy_parameters_result) (use assms(2) in auto)
  have "pm_validate_price pm (int shares) (q_value q) (q_duration q) = Inr True"
    using assms(3) r pm free.quoted_price_accepted [of r q] sub.quoted_price_accepted [of _ _ r q]
    by (auto simp: free_method_def subscription_method_def)
  with create_policy_shares [OF assms(1,4)] assms(4) show ?thesis
    by (auto simp: create_policy_def new_policy_def po_shares_def Let_def)
qed

theorem own_quote_accepted_witness:
  "\<exists>p. create_policy demo_crypto ''label'' ''hrac'' demo_params demo_alice = Inr p \<and> po_shares p = 1 \<and> po_expiration p = Some 9"
proof -
  have "generate_policy_parameters demo_params demo_alice
      = Inr (1, 1, \<lparr>q_rate = 0, q_value = 0, q_commencement = None, q_expiration = Some 9, q_duration = None, q_shares = 1\<rparr>, free_method)"
    by (simp add: generate_policy_parameters_def demo_params_def demo_alice_def truthy_def py_or_def free_method_def free_quote_def)
  from own_quote_accepted [OF _ _ _ this, of demo_crypto "''label''" "''hrac''"] show ?thesis
    by (auto simp: kfrags_complete_def demo_crypto_def demo_params_def demo_alice_def)
qed

text \<open>
  A payment method passed to \<^verbatim>\<open>grant\<close> is not the one that is asked for the quote. When Alice's
  own method is free and the policy is to be paid through the subscription manager, the quoted value
  is zero, and the policy is refused whenever the contract wants anything for its duration.
\<close>

theorem other_method_rejected:
  assumes "kfrags_complete cr" "al_payment_method al = free_method"
    and "pp_payment_method pp = Some (subscription_method agent now)"
    and "generate_policy_parameters pp al = Inr (threshold, shares, q, pm)"
    and "q_duration q = Some d" "int shares * d * sm_fee_rate agent \<noteq> 0"
  shows "create_policy cr label hrac pp al = Inl (PriceRejected PriceValueError)"
proof -
  from assms(4) obtain r where r: "pm_quote (al_payment_method al) r = Inr q" and pm: "pm = subscription_method agent now"
    by (rule generate_policy_parameters_result) (use assms(3) in auto)
  from r assms(2) have "q_value q = 0" by (auto simp: free_method_def free_quote_def)
  with pm assms(4-6) create_policy_shares [OF assms(1,4)] show ?thesis
    by (auto simp: create_policy_def new_policy_def po_shares_def Let_def subscription_method_def sm_validate_price_def sm_rate_def)
qed

definition demo_subscription :: subscription_manager where
  "demo_subscription = \<lparr>sm_fee_rate = 3, sm_is_policy_active = (\<lambda>_. True), sm_create_policy = (\<lambda>_. Inr '''')\<rparr>"

theorem other_method_rejected_witness:
  "create_policy demo_crypto ''label'' ''hrac''
     (demo_params\<lparr>pp_duration := Some 60, pp_payment_method := Some (subscription_method demo_subscription 100)\<rparr>) demo_alice
   = Inl (PriceRejected PriceValueError)"
  by (rule other_method_rejected [where agent = demo_subscription and now = 100 and d = 60 and threshold = 1 and shares = 1
        and pm = "subscription_method demo_subscription 100"
        and q = "\<lparr>q_rate = 0, q_value = 0, q_commencement = None, q_expiration = Some 9, q_duration = Some 60, q_shares = 1\<rparr>"])
    (simp_all add: kfrags_complete_def demo_crypto_def demo_alice_def demo_params_def demo_subscription_def
      generate_policy_parameters_def truthy_def py_or_def free_method_def free_quote_def)


subsection \<open>What revoking does\<close>

text \<open>
  What the loop makes of one address: the exception that ends it (a node or an order that is not there, an answer with another status than
  success, an exception of the request that is not handled), or else the failure that is noted.
\<close>

definition revocation_stop :: "('f, 'k, 'r) crypto \<Rightarrow> (canonical_address, 'r) dict \<Rightarrow> known_nodes
    \<Rightarrow> (node \<Rightarrow> 'r \<Rightarrow> revocation_reply) \<Rightarrow> address \<Rightarrow> policy_error option" where
  "revocation_stop cr kit known request a =
     (case (dict_get known a, kit_getitem cr kit a) of
        (Some u, Some r) \<Rightarrow>
          (case request u r of
             RevocationStatus code \<Rightarrow> if code = 200 then None else Some ActorError
           | RevocationRaised e \<Rightarrow> Some (RequestRaised e)
           | _ \<Rightarrow> None)
      | _ \<Rightarrow> Some PolicyKeyError)"

definition revocation_failure :: "('f, 'k, 'r) crypto \<Rightarrow> (canonical_address, 'r) dict \<Rightarrow> known_nodes
    \<Rightarrow> (node \<Rightarrow> 'r \<Rightarrow> revocation_reply) \<Rightarrow> address \<Rightarrow> ('r \<times> revocation_reply) option" where
  "revocation_failure cr kit known request a =
     (case (dict_get known a, kit_getitem cr kit a) of
        (Some u, Some r) \<Rightarrow> if request u r \<in> {RevocationNotFound, RevocationUnexpected} then Some (r, request u r) else None
      | _ \<Rightarrow> None)"

lemma revoke_loop_step:
  "revoke_loop cr kit known request (a # addresses) failed =
    (case revocation_stop cr kit known request a of
       Some e \<Rightarrow> Inl e
     | None \<Rightarrow> revoke_loop cr kit known request addresses
         (case revocation_failure cr kit known request a of None \<Rightarrow> failed | Some x \<Rightarrow> dict_set failed a x))"
  by (auto simp: revocation_stop_def revocation_failure_def split: option.split revocation_reply.split)

lemma revoke_loop_spec:
  assumes "distinct addresses" "\<forall>a \<in> set addresses. dict_get failed a = None"
  shows "case List.find (\<lambda>a. revocation_stop cr kit known request a \<noteq> None) addresses of
      Some a \<Rightarrow> revoke_loop cr kit known request addresses failed = Inl (the (revocation_stop cr kit known request a))
    | None \<Rightarrow> \<exists>failed'. revoke_loop cr kit known request addresses failed = Inr failed'
      \<and> (\<forall>a. dict_get failed' a = (if a \<in> set addresses then revocation_failure cr kit known request a else dict_get failed a))"
  using assms
proof (induction addresses arbitrary: failed)
  case (Cons b addresses)
  define next_failed where
    "next_failed = (case revocation_failure cr kit known request b of None \<Rightarrow> failed | Some x \<Rightarrow> dict_set failed b x)"
  show ?case
  proof (cases "revocation_stop cr kit known request b")
    case None
    have get: "dict_get next_failed a = (if a = b then revocation_failure cr kit known request b else dict_get failed a)" for a
      using Cons.prems(2) by (simp add: next_failed_def dict_get_set split: option.split)
    have "\<forall>a \<in> set addresses. dict_get next_failed a = None" using Cons.prems by (auto simp: get)
    with Cons.IH [of next_failed] Cons.prems(1) None show ?thesis
      by (auto simp: revoke_loop_step next_failed_def [symmetric] get split: option.splits simp del: revoke_loop.simps)
  qed (simp add: revoke_loop_step del: revoke_loop.simps)
qed simp

text \<open>
  C15. What \<^verbatim>\<open>revoke\<close> does, offchain, once the wait for the nodes is over, when the iteration over the
  revokable addresses visits each once and canonical addresses survive the round trip through checksum addresses. The
  addresses are gone through in the order of iteration up to the first one that ends the call with an exception: \<^verbatim>\<open>KeyError\<close> when
  the node is not known (the wait allows that), \<^verbatim>\<open>ActorError\<close> when the node answers with another status than 200, and any exception of
  the request other than the two that are handled, such as a failing connection, as it is. When no address does, the result
  has exactly the nodes that could not be found or answered unexpectedly, each with its revocation order and the exception.
\<close>

theorem revoke_outcome:
  assumes "block_until_specific_nodes_are_known turns (revokable_addresses cr (ep_revocation_kit ep)) LEARNING_TIMEOUT
      (int (ep_threshold ep) - 1) False 0 = Some (Inr waited)"
    and "\<forall>a. cr_canonical cr (cr_checksum cr a) = a"
    and "set (set_order (revokable_addresses cr (ep_revocation_kit ep))) = revokable_addresses cr (ep_revocation_kit ep)"
    and "distinct (set_order (revokable_addresses cr (ep_revocation_kit ep)))"
  shows "case List.find (\<lambda>a. revocation_stop cr (ep_revocation_kit ep) known request a \<noteq> None)
        (set_order (revokable_addresses cr (ep_revocation_kit ep))) of
      Some a \<Rightarrow> revoke cr set_order turns known request onchain True ep
          = Some (Inl (the (revocation_stop cr (ep_revocation_kit ep) known request a)))
        \<and> (the (revocation_stop cr (ep_revocation_kit ep) known request a) = PolicyKeyError \<longleftrightarrow> dict_get known a = None)
    | None \<Rightarrow> \<exists>failed. revoke cr set_order turns known request onchain True ep = Some (Inr failed)
        \<and> (\<forall>a. dict_get failed a = (if a \<in> revokable_addresses cr (ep_revocation_kit ep)
              then revocation_failure cr (ep_revocation_kit ep) known request a else None))"
proof -
  let ?as = "revokable_addresses cr (ep_revocation_kit ep)"
  let ?stop = "revocation_stop cr (ep_revocation_kit ep) known request"
  have "kit_getitem cr (ep_revocation_kit ep) a \<noteq> None" if "a \<in> ?as" for a
    using assms(2) that by (auto simp: revokable_addresses_def kit_getitem_def map_of_eq_None_iff)
  then have key: "the (?stop a) = PolicyKeyError \<longleftrightarrow> dict_get known a = None" if "a \<in> ?as" "?stop a \<noteq> None" for a
    using that by (fastforce simp: revocation_stop_def split: option.splits revocation_reply.splits if_splits)
  have found: "a \<in> ?as \<and> ?stop a \<noteq> None" if "List.find (\<lambda>a. ?stop a \<noteq> None) (set_order ?as) = Some a" for a
    using that assms(3) by (metis (mono_tags, lifting) find_Some_iff nth_mem)
  have "revoke cr set_order turns known request onchain True ep
      = Some (revoke_loop cr (ep_revocation_kit ep) known request (set_order ?as) [])"
    using assms(1) by (simp add: revoke_def Let_def)
  with revoke_loop_spec [OF assms(4), of "[]" cr "ep_revocation_kit ep" known request] key found show ?thesis
    by (auto simp: assms(3) split: option.splits)
qed

definition late_turn :: turn where
  "late_turn = demo_turn\<lparr>tu_known := {}, tu_known_late := {}, tu_elapsed := 11\<rparr>"

text \<open>A policy with one share and threshold two: one node may be missing after the wait; and a node that is not found.\<close>

theorem revoke_outcome_witness:
  "revoke demo_crypto (\<lambda>A. if A = {''a''} then [''a''] else []) (\<lambda>_. late_turn) [] (\<lambda>_ _. RevocationStatus 200) True True
     (demo_enacted\<lparr>ep_threshold := 2\<rparr>) = Some (Inl PolicyKeyError)
   \<and> (\<exists>failed. revoke demo_crypto (\<lambda>A. if A = {''a''} then [''a''] else []) (\<lambda>_. late_turn) [(''a'', demo_node)] (\<lambda>_ _. RevocationNotFound) True True
     (demo_enacted\<lparr>ep_threshold := 2\<rparr>) = Some (Inr failed) \<and> dict_get failed ''a'' = Some (7, RevocationNotFound))"
proof -
  let ?ep = "demo_enacted\<lparr>ep_threshold := 2\<rparr>" and ?order = "\<lambda>A. if A = {''a''} then [''a''] else []"
  have kit: "revokable_addresses demo_crypto (ep_revocation_kit ?ep) = {''a''}"
    by (simp add: revokable_addresses_def demo_crypto_def demo_enacted_def)
  have "block_until_specific_nodes_are_known (\<lambda>_. late_turn) {''a''} LEARNING_TIMEOUT 1 False 0 = Some (Inr (AllKnown False))"
    by (subst block_until_specific_nodes_are_known.simps) (simp add: late_turn_def demo_turn_def LEARNING_TIMEOUT_def)
  then show ?thesis
    using revoke_outcome [of "\<lambda>_. late_turn" demo_crypto ?ep "AllKnown False" ?order "[]" "\<lambda>_ _. RevocationStatus 200" True]
      revoke_outcome [of "\<lambda>_. late_turn" demo_crypto ?ep "AllKnown False" ?order "[(''a'', demo_node)]" "\<lambda>_ _. RevocationNotFound" True]
    unfolding kit by (auto simp: demo_crypto_def demo_enacted_def revocation_stop_def revocation_failure_def kit_getitem_def)
qed

end
