(* ===== verification/Cards.thy ===== *)
theory Cards
  imports Nulink_Prelude "HOL-Library.Word"
begin

text \<open>
  Character cards: the class \<^verbatim>\<open>Card\<close> of \<^verbatim>\<open>nulink/policy/identity.py\<close>.

  Bytes are 8-bit words; text enters by its UTF-8 encoding. The libraries are a record of
  parameters: the flags of the characters, public keys and their serialization, the splitting of byte strings with the size
  of the header of a field of variable length, the hash, the lower-casing of text and whether bytes decode as text. The directory of cards is a dictionary from file names to
  contents. The hexadecimal form is Python's: white space between the digits of two bytes is
  skipped. Not modelled: the base64 form, the QR code and \<^verbatim>\<open>__repr__\<close>.
\<close>

type_synonym byte = "8 word"
type_synonym bytes = "8 word list"

datatype card_error =
    InvalidCard | UnknownCard | UnsupportedCardType | UnknownHeader | SplittingError | BadKey | NotBytes
  | NicknameTooLong | NicknameNotText | CardExists | AmbiguousNickname | BothGiven | NotHex | NoNickname | CardNotFound

datatype character = AliceCard | BobCard

record 'k card_lib =
  cl_alice :: bytes
  cl_bob :: bytes
  cl_key_size :: nat
  cl_key_bytes :: "'k \<Rightarrow> bytes"
  cl_key_from_bytes :: "bytes \<Rightarrow> 'k option"
  cl_header :: nat
  cl_vlb :: "bytes \<Rightarrow> bytes"
  cl_split :: "nat option list \<Rightarrow> bytes \<Rightarrow> bytes list option"
  cl_digest :: "bytes \<Rightarrow> bytes"
  cl_lower :: "bytes \<Rightarrow> bytes"
  cl_decodes :: "bytes \<Rightarrow> bool"

record 'k card =
  cd_flag :: bytes
  cd_verifying_key :: 'k
  cd_encrypting_key :: "'k option"
  cd_nickname :: "bytes option"

definition MAX_NICKNAME_SIZE :: nat where "MAX_NICKNAME_SIZE = 32"
definition ID_LENGTH :: nat where "ID_LENGTH = 10"

text \<open>The fields of a specification are of a fixed size, or of variable length (\<open>None\<close>).\<close>

definition alice_specification :: "'k card_lib \<Rightarrow> nat option list" where
  "alice_specification lib = [Some 8, Some (cl_key_size lib), None]"

definition bob_specification :: "'k card_lib \<Rightarrow> nat option list" where
  "bob_specification lib = [Some 8, Some (cl_key_size lib), Some (cl_key_size lib), None]"

definition MAX_CARD_LENGTH :: "'k card_lib \<Rightarrow> nat" where
  "MAX_CARD_LENGTH lib = sum_list (map the (filter (\<lambda>x. x \<noteq> None) (bob_specification lib))) + MAX_NICKNAME_SIZE + 2"

definition card_types :: "'k card_lib \<Rightarrow> bytes \<Rightarrow> character option" where
  "card_types lib flag = (if flag = cl_bob lib then Some BobCard else if flag = cl_alice lib then Some AliceCard else None)"

subsection \<open>Construction\<close>

datatype 'k key_arg = KeyObject 'k | KeyBytes bytes

fun to_key :: "'k card_lib \<Rightarrow> 'k key_arg \<Rightarrow> card_error + 'k" where
  "to_key lib (KeyObject k) = Inr k"
| "to_key lib (KeyBytes bs) = (case cl_key_from_bytes lib bs of None \<Rightarrow> Inl BadKey | Some k \<Rightarrow> Inr k)"

definition validate_card :: "'k card \<Rightarrow> card_error + bool" where
  "validate_card c = (case cd_nickname c of
       Some n \<Rightarrow> if n \<noteq> [] \<and> length n > MAX_NICKNAME_SIZE then Inl InvalidCard else Inr True
     | None \<Rightarrow> Inr True)"

definition new_card :: "'k card_lib \<Rightarrow> bytes \<Rightarrow> 'k key_arg \<Rightarrow> 'k key_arg option \<Rightarrow> bytes option \<Rightarrow> card_error + 'k card" where
  "new_card lib flag verifying_key encrypting_key nickname =
     (case card_types lib flag of
        None \<Rightarrow> Inl UnsupportedCardType
      | Some _ \<Rightarrow>
          (case to_key lib verifying_key of
             Inl e \<Rightarrow> Inl e
           | Inr vk \<Rightarrow>
               (case (case encrypting_key of None \<Rightarrow> Inr None | Some k \<Rightarrow> map_sum id Some (to_key lib k)) of
                  Inl e \<Rightarrow> Inl e
                | Inr ek \<Rightarrow>
                    (let c = \<lparr>cd_flag = flag, cd_verifying_key = vk, cd_encrypting_key = ek,
                           cd_nickname = (if nickname = Some [] then None else nickname)\<rparr>
                     in case validate_card c of Inl e \<Rightarrow> Inl e | Inr _ \<Rightarrow> Inr c))))"

subsection \<open>Serialization\<close>

text \<open>A card of Bob without an encrypting key cannot be serialized: \<^verbatim>\<open>bytes(None)\<close> raises.\<close>

definition card_payload :: "'k card_lib \<Rightarrow> 'k card \<Rightarrow> card_error + bytes" where
  "card_payload lib c =
     (let start = cd_flag c @ cl_key_bytes lib (cd_verifying_key c)
      in if card_types lib (cd_flag c) = Some BobCard
         then (case cd_encrypting_key c of None \<Rightarrow> Inl NotBytes | Some k \<Rightarrow> Inr (start @ cl_key_bytes lib k))
         else Inr start)"

text \<open>The property \<^verbatim>\<open>nickname\<close>, which decodes a nickname that is not empty and raises when it is not UTF-8.\<close>

definition card_nickname :: "'k card_lib \<Rightarrow> 'k card \<Rightarrow> card_error + bytes option" where
  "card_nickname lib c =
     (case cd_nickname c of
        None \<Rightarrow> Inr None
      | Some n \<Rightarrow> if n = [] then Inr None else if cl_decodes lib n then Inr (Some n) else Inl NicknameNotText)"

definition card_bytes :: "'k card_lib \<Rightarrow> 'k card \<Rightarrow> card_error + bytes" where
  "card_bytes lib c =
     (case validate_card c of
        Inl e \<Rightarrow> Inl e
      | Inr _ \<Rightarrow>
          (case card_payload lib c of
             Inl e \<Rightarrow> Inl e
           | Inr payload \<Rightarrow>
               (case card_nickname lib c of
                  Inl e \<Rightarrow> Inl e
                | Inr (Some n) \<Rightarrow> Inr (payload @ cl_vlb lib n)
                | Inr None \<Rightarrow> Inr (payload @ cl_vlb lib []))))"

text \<open>The splitter turns the fields that are public keys into keys before it calls the constructor.\<close>

definition from_bytes :: "'k card_lib \<Rightarrow> bytes \<Rightarrow> card_error + 'k card" where
  "from_bytes lib bs =
     (if length bs > MAX_CARD_LENGTH lib then Inl InvalidCard
      else let character_flag = take 8 bs
           in if character_flag = cl_alice lib
              then (case cl_split lib (alice_specification lib) bs of
                      Some [flag, vk, nickname] \<Rightarrow> new_card lib flag (KeyBytes vk) None (Some nickname)
                    | _ \<Rightarrow> Inl SplittingError)
              else if character_flag = cl_bob lib
              then (case cl_split lib (bob_specification lib) bs of
                      Some [flag, vk, ek, nickname] \<Rightarrow> new_card lib flag (KeyBytes vk) (Some (KeyBytes ek)) (Some nickname)
                    | _ \<Rightarrow> Inl SplittingError)
              else Inl UnknownHeader)"

definition hex_digit :: "nat \<Rightarrow> byte" where
  "hex_digit n = (if n < 10 then of_nat (48 + n) else of_nat (87 + n))"

definition hex_text :: "bytes \<Rightarrow> bytes" where
  "hex_text bs = concat (map (\<lambda>b. [hex_digit (unat b div 16), hex_digit (unat b mod 16)]) bs)"

definition byte_hex_value :: "byte \<Rightarrow> nat option" where
  "byte_hex_value b = (let n = unat b in
     if 48 \<le> n \<and> n \<le> 57 then Some (n - 48)
     else if 97 \<le> n \<and> n \<le> 102 then Some (n - 87)
     else if 65 \<le> n \<and> n \<le> 70 then Some (n - 55) else None)"

definition is_space :: "byte \<Rightarrow> bool" where
  "is_space b \<longleftrightarrow> b = 32 \<or> 9 \<le> unat b \<and> unat b \<le> 13"

fun fromhex_text :: "bytes \<Rightarrow> bytes option" where
  "fromhex_text [] = Some []"
| "fromhex_text [b] = (if is_space b then Some [] else None)"
| "fromhex_text (b # c # cs) =
     (if is_space b then fromhex_text (c # cs)
      else case (byte_hex_value b, byte_hex_value c) of
             (Some x, Some y) \<Rightarrow> map_option (Cons (of_nat (16 * x + y))) (fromhex_text cs)
           | _ \<Rightarrow> None)"

definition to_hex :: "'k card_lib \<Rightarrow> 'k card \<Rightarrow> card_error + bytes" where
  "to_hex lib c = map_sum id hex_text (card_bytes lib c)"

definition from_hex :: "'k card_lib \<Rightarrow> bytes \<Rightarrow> card_error + 'k card" where
  "from_hex lib hexdata = (case fromhex_text hexdata of None \<Rightarrow> Inl NotHex | Some bs \<Rightarrow> from_bytes lib bs)"

record 'k card_dict =
  di_nickname :: "bytes option"
  di_verifying_key :: 'k
  di_encrypting_key :: "'k option"
  di_character :: bytes

definition to_dict :: "'k card \<Rightarrow> 'k card_dict" where
  "to_dict c = \<lparr>di_nickname = cd_nickname c, di_verifying_key = cd_verifying_key c,
     di_encrypting_key = cd_encrypting_key c, di_character = cd_flag c\<rparr>"

definition from_dict :: "'k card_lib \<Rightarrow> 'k card_dict \<Rightarrow> card_error + 'k card" where
  "from_dict lib d = new_card lib (di_character d) (KeyObject (di_verifying_key d))
     (map_option KeyObject (di_encrypting_key d)) (di_nickname d)"

text \<open>The identifier: as many hexadecimal digits of the hash of the payload, as bytes.\<close>

definition card_id :: "'k card_lib \<Rightarrow> 'k card \<Rightarrow> card_error + bytes" where
  "card_id lib c = (case card_payload lib c of
       Inl e \<Rightarrow> Inl e
     | Inr payload \<Rightarrow> (case fromhex_text (take ID_LENGTH (hex_text (cl_digest lib payload))) of None \<Rightarrow> Inl NotHex | Some i \<Rightarrow> Inr i))"

definition card_eq :: "'k card_lib \<Rightarrow> 'k card \<Rightarrow> 'k card \<Rightarrow> card_error + bool" where
  "card_eq lib c d = (case (card_id lib c, card_id lib d) of
       (Inr i, Inr j) \<Rightarrow> Inr (i = j) | (Inl e, _) \<Rightarrow> Inl e | (_, Inl e) \<Rightarrow> Inl e)"

text \<open>\<^verbatim>\<open>to_json\<close> decodes the nickname and serializes both keys, which raises when one is not there.\<close>

definition to_json :: "'k card_lib \<Rightarrow> 'k card \<Rightarrow> card_error + (bytes \<times> bytes \<times> bytes \<times> character option)" where
  "to_json lib c =
     (case cd_nickname c of
        None \<Rightarrow> Inl NoNickname
      | Some n \<Rightarrow>
          if \<not> cl_decodes lib n then Inl NicknameNotText
          else (case cd_encrypting_key c of
             None \<Rightarrow> Inl NotBytes
           | Some k \<Rightarrow> Inr (n, hex_text (cl_key_bytes lib (cd_verifying_key c)), hex_text (cl_key_bytes lib k), card_types lib (cd_flag c))))"

definition from_character :: "'k card_lib \<Rightarrow> character \<Rightarrow> 'k \<Rightarrow> 'k \<Rightarrow> bytes option \<Rightarrow> card_error + 'k card" where
  "from_character lib ch verifying_key encrypting_key nickname =
     new_card lib (case ch of AliceCard \<Rightarrow> cl_alice lib | BobCard \<Rightarrow> cl_bob lib)
       (KeyObject verifying_key) (Some (KeyObject encrypting_key)) nickname"

record description =
  de_nickname :: "bytes option"
  de_id :: bytes
  de_verifying_key :: bytes
  de_encrypting_key :: "bytes option"
  de_character :: "character option"

definition describe :: "'k card_lib \<Rightarrow> nat \<Rightarrow> 'k card \<Rightarrow> card_error + description" where
  "describe lib n c =
     (case card_id lib c of
        Inl e \<Rightarrow> Inl e
      | Inr i \<Rightarrow>
          (let d = \<lparr>de_nickname = cd_nickname c, de_id = hex_text i,
                 de_verifying_key = take n (hex_text (cl_key_bytes lib (cd_verifying_key c))), de_encrypting_key = None,
                 de_character = card_types lib (cd_flag c)\<rparr>
           in if de_character d = Some BobCard
              then (case cd_encrypting_key c of
                      None \<Rightarrow> Inl NotBytes
                    | Some k \<Rightarrow> Inr (d\<lparr>de_encrypting_key := Some (take n (hex_text (cl_key_bytes lib k)))\<rparr>))
              else Inr d))"

definition set_nickname :: "bytes \<Rightarrow> 'k card \<Rightarrow> card_error + 'k card" where
  "set_nickname nickname c =
     (let nickname = map (\<lambda>b. if b = 32 then 95 else b) nickname
      in if length nickname > MAX_NICKNAME_SIZE then Inl NicknameTooLong
         else Inr (c\<lparr>cd_nickname := Some nickname\<rparr>))"

subsection \<open>Storage\<close>

type_synonym card_dir = "(bytes, bytes) dict"

abbreviation DELIMITER :: byte where "DELIMITER \<equiv> 46"

text \<open>\<^verbatim>\<open>.card\<close>\<close>

definition FILE_EXTENSION :: bytes where
  "FILE_EXTENSION = [46, 99, 97, 114, 100]"

definition card_filename :: "'k card_lib \<Rightarrow> 'k card \<Rightarrow> card_error + bytes" where
  "card_filename lib c =
     (case card_nickname lib c of
        Inl e \<Rightarrow> Inl e
      | Inr nickname \<Rightarrow>
          (case card_id lib c of
             Inl e \<Rightarrow> Inl e
           | Inr i \<Rightarrow> Inr ((case nickname of Some n \<Rightarrow> n @ DELIMITER # hex_text i | None \<Rightarrow> hex_text i) @ FILE_EXTENSION)))"

text \<open>The directory is made when it is not there: \<open>None\<close> is a directory that does not exist.\<close>

definition save_card :: "'k card_lib \<Rightarrow> (bytes \<Rightarrow> bytes) \<Rightarrow> bool \<Rightarrow> 'k card \<Rightarrow> card_dir option
    \<Rightarrow> (card_error + bytes) \<times> card_dir option" where
  "save_card lib encoder overwrite c directory =
     (let dir = (case directory of None \<Rightarrow> [] | Some d \<Rightarrow> d)
      in case card_filename lib c of
           Inl e \<Rightarrow> (Inl e, Some dir)
         | Inr name \<Rightarrow>
             if name \<in> set (dict_keys dir) \<and> \<not> overwrite then (Inl CardExists, Some dir)
             else (case card_bytes lib c of
                     Inl e \<Rightarrow> (Inl e, Some (dict_set dir name []))
                   | Inr bs \<Rightarrow> (Inr name, Some (dict_set dir name (encoder bs)))))"

fun contains :: "bytes \<Rightarrow> bytes \<Rightarrow> bool" where
  "contains xs [] = (xs = [])"
| "contains xs (y # ys) = (take (length xs) (y # ys) = xs \<or> contains xs ys)"

text \<open>Splitting at the delimiter; unpacking into two names fails for any other number of parts.\<close>

fun split_on :: "byte \<Rightarrow> bytes \<Rightarrow> bytes list" where
  "split_on d [] = [[]]"
| "split_on d (x # xs) =
     (if x = d then [] # split_on d xs else case split_on d xs of p # ps \<Rightarrow> (x # p) # ps | [] \<Rightarrow> [[x]])"

definition lookup_card :: "'k card_lib \<Rightarrow> bytes \<Rightarrow> card_dir \<Rightarrow> card_error + bytes" where
  "lookup_card lib identifier dir =
     (let nickname = (case split_on DELIMITER identifier of [n, _] \<Rightarrow> n | _ \<Rightarrow> identifier)
      in case filter (\<lambda>f. contains (cl_lower lib nickname) (cl_lower lib f)) (dict_keys dir) of
           [] \<Rightarrow> Inl UnknownCard
         | [f] \<Rightarrow> Inr f
         | _ \<Rightarrow> Inl AmbiguousNickname)"

text \<open>The decoder may reject the contents of the file.\<close>

definition load_card :: "'k card_lib \<Rightarrow> (bytes \<Rightarrow> card_error + bytes) \<Rightarrow> bytes option \<Rightarrow> bytes option \<Rightarrow> card_dir
    \<Rightarrow> card_error + 'k card" where
  "load_card lib decoder filepath identifier dir =
     (if filepath \<noteq> None \<and> identifier \<noteq> None \<and> identifier \<noteq> Some [] then Inl BothGiven
      else case (case filepath of
                   Some f \<Rightarrow> Inr f
                 | None \<Rightarrow> (case identifier of Some i \<Rightarrow> lookup_card lib i dir | None \<Rightarrow> Inl NoNickname)) of
             Inl e \<Rightarrow> Inl e
           | Inr f \<Rightarrow>
               (case dict_get dir f of
                  None \<Rightarrow> Inl UnknownCard
                | Some contents \<Rightarrow>
                    (case decoder contents of Inl e \<Rightarrow> Inl e | Inr bs \<Rightarrow> from_bytes lib bs)))"

definition delete_card :: "'k card_lib \<Rightarrow> 'k card \<Rightarrow> card_dir \<Rightarrow> card_error + card_dir" where
  "delete_card lib c dir = (case card_filename lib c of
       Inl e \<Rightarrow> Inl e
     | Inr name \<Rightarrow> if name \<in> set (dict_keys dir) then Inr (dict_del dir name) else Inl CardNotFound)"


subsection \<open>What the libraries promise\<close>

text \<open>A field of variable length is one whose length the header can hold.\<close>

definition field_ok :: "'k card_lib \<Rightarrow> nat option \<Rightarrow> bytes \<Rightarrow> bool" where
  "field_ok lib spec bs = (case spec of Some n \<Rightarrow> length bs = n | None \<Rightarrow> length bs < 256 ^ cl_header lib)"

definition field_bytes :: "'k card_lib \<Rightarrow> nat option \<Rightarrow> bytes \<Rightarrow> bytes" where
  "field_bytes lib spec bs = (case spec of Some n \<Rightarrow> bs | None \<Rightarrow> cl_vlb lib bs)"

definition flags_ok :: "'k card_lib \<Rightarrow> bool" where
  "flags_ok lib \<longleftrightarrow> length (cl_alice lib) = 8 \<and> length (cl_bob lib) = 8 \<and> cl_alice lib \<noteq> cl_bob lib"

definition keys_ok :: "'k card_lib \<Rightarrow> bool" where
  "keys_ok lib \<longleftrightarrow> (\<forall>k. length (cl_key_bytes lib k) = cl_key_size lib \<and> cl_key_from_bytes lib (cl_key_bytes lib k) = Some k)"

text \<open>A variable-length field is prefixed with a header; a byte string of matching fields is split into them.\<close>

definition splits_ok :: "'k card_lib \<Rightarrow> bool" where
  "splits_ok lib \<longleftrightarrow> 0 < cl_header lib
     \<and> (\<forall>bs. length bs < 256 ^ cl_header lib \<longrightarrow> length (cl_vlb lib bs) = length bs + cl_header lib)
     \<and> (\<forall>specs fields. list_all2 (field_ok lib) specs fields \<longrightarrow>
          cl_split lib specs (concat (map2 (field_bytes lib) specs fields)) = Some fields)"

subsection \<open>Hexadecimal round trip\<close>

lemma unat_hex_digit: "n < 16 \<Longrightarrow> unat (hex_digit n) = (if n < 10 then 48 + n else 87 + n)"
  by (simp add: hex_digit_def unat_of_nat del: of_nat_add)

lemma byte_hex_value_digit: "n < 16 \<Longrightarrow> byte_hex_value (hex_digit n) = Some n"
  by (simp add: byte_hex_value_def unat_hex_digit Let_def)

lemma hex_digit_not_space: "n < 16 \<Longrightarrow> \<not> is_space (hex_digit n)"
  by (auto simp: is_space_def unat_hex_digit dest: arg_cong [where f = unat] split: if_splits)

lemma fromhex_of_hex_text: "fromhex_text (hex_text bs) = Some bs"
proof (induction bs)
  case (Cons b bs)
  have "unat b < 256" using unsigned_less [of b] by simp
  then have "unat b div 16 < 16" "unat b mod 16 < 16" by simp_all
  moreover have "of_nat (16 * (unat b div 16) + unat b mod 16) = b"
    by (simp only: mult_div_mod_eq word_of_nat_eq_iff) simp
  moreover have "fromhex_text (hex_text (b # bs)) = fromhex_text (hex_digit (unat b div 16) # hex_digit (unat b mod 16) # hex_text bs)"
    by (simp add: hex_text_def)
  ultimately show ?case using Cons.IH by (simp add: hex_digit_not_space byte_hex_value_digit)
qed (simp add: hex_text_def)

subsection \<open>Round trip of cards\<close>

text \<open>What goes over the wire: a card of Alice has no encrypting key in it.\<close>

definition wire_card :: "'k card_lib \<Rightarrow> 'k card \<Rightarrow> 'k card" where
  "wire_card lib c = (if cd_flag c = cl_bob lib then c else c\<lparr>cd_encrypting_key := None\<rparr>)"

text \<open>What the constructor establishes.\<close>

definition card_ok :: "'k card_lib \<Rightarrow> 'k card \<Rightarrow> bool" where
  "card_ok lib c \<longleftrightarrow> (cd_flag c = cl_alice lib \<or> cd_flag c = cl_bob lib)
     \<and> (\<forall>n. cd_nickname c = Some n \<longrightarrow> n \<noteq> [] \<and> length n \<le> MAX_NICKNAME_SIZE)"

lemma new_card_ok: "new_card lib flag vk ek nickname = Inr c \<Longrightarrow> card_ok lib c"
  by (auto simp: new_card_def card_ok_def card_types_def validate_card_def Let_def
      split: option.splits sum.splits if_splits)

lemma new_card_rebuilds:
  assumes "card_ok lib c"
  shows "new_card lib (cd_flag c) (KeyObject (cd_verifying_key c)) (map_option KeyObject (cd_encrypting_key c)) (cd_nickname c) = Inr c"
    and "keys_ok lib \<Longrightarrow> new_card lib (cd_flag c) (KeyBytes (cl_key_bytes lib (cd_verifying_key c)))
      (map_option (KeyBytes \<circ> cl_key_bytes lib) (cd_encrypting_key c))
      (Some (case cd_nickname c of Some n \<Rightarrow> n | None \<Rightarrow> [])) = Inr c"
  using assms
  by (cases "cd_encrypting_key c"; cases "cd_nickname c";
      auto simp: new_card_def card_ok_def card_types_def validate_card_def keys_ok_def Let_def)+

abbreviation wire_nickname :: "'k card \<Rightarrow> bytes" where
  "wire_nickname c \<equiv> (case cd_nickname c of Some n \<Rightarrow> n | None \<Rightarrow> [])"

lemma wire_nickname_short: "card_ok lib c \<Longrightarrow> length (wire_nickname c) \<le> 32"
  by (auto simp: card_ok_def MAX_NICKNAME_SIZE_def split: option.splits)

lemma card_bytes_eq:
  assumes "card_ok lib c" "card_bytes lib c = Inr bs"
  shows "cd_flag c = cl_bob lib \<and> (\<exists>k. cd_encrypting_key c = Some k \<and>
        bs = cd_flag c @ cl_key_bytes lib (cd_verifying_key c) @ cl_key_bytes lib k @ cl_vlb lib (wire_nickname c))
    \<or> cd_flag c \<noteq> cl_bob lib \<and> cd_flag c = cl_alice lib \<and>
        bs = cd_flag c @ cl_key_bytes lib (cd_verifying_key c) @ cl_vlb lib (wire_nickname c)"
  using assms by (auto simp: card_bytes_def card_payload_def card_ok_def card_types_def card_nickname_def Let_def
      split: option.splits sum.splits if_splits)

lemma header_holds: "splits_ok lib \<Longrightarrow> (32 :: nat) < 256 ^ cl_header lib"
  using power_increasing [of 1 "cl_header lib" "256 :: nat"] by (simp add: splits_ok_def)

text \<open>The nickname fits into what the maximal length of a card leaves for it, with its header.\<close>

definition nickname_fits :: "'k card_lib \<Rightarrow> 'k card \<Rightarrow> bool" where
  "nickname_fits lib c \<longleftrightarrow> cl_header lib + length (wire_nickname c) \<le> MAX_NICKNAME_SIZE + 2"

lemma card_bytes_length:
  assumes lib: "flags_ok lib" "keys_ok lib" "splits_ok lib" and c: "card_ok lib c" and bs: "card_bytes lib c = Inr bs"
  shows "length bs = (if cd_flag c = cl_bob lib then 8 + 2 * cl_key_size lib else 8 + cl_key_size lib) + cl_header lib + length (wire_nickname c)"
    "nickname_fits lib c \<Longrightarrow> length bs \<le> MAX_CARD_LENGTH lib"
proof -
  have "length (cl_vlb lib (wire_nickname c)) = length (wire_nickname c) + cl_header lib"
    using lib(3) header_holds [OF lib(3)] wire_nickname_short [OF c] unfolding splits_ok_def by (meson le_less_trans)
  then show len: "length bs = (if cd_flag c = cl_bob lib then 8 + 2 * cl_key_size lib else 8 + cl_key_size lib) + cl_header lib + length (wire_nickname c)"
    using card_bytes_eq [OF c bs] lib(1,2) by (auto simp: flags_ok_def keys_ok_def)
  show "length bs \<le> MAX_CARD_LENGTH lib" if "nickname_fits lib c"
    using that by (auto simp: len MAX_CARD_LENGTH_def bob_specification_def nickname_fits_def)
qed

lemma card_bytes_from_bytes:
  assumes lib: "flags_ok lib" "keys_ok lib" "splits_ok lib" and c: "card_ok lib c" and bs: "card_bytes lib c = Inr bs"
  shows "from_bytes lib bs = (if length bs \<le> MAX_CARD_LENGTH lib then Inr (wire_card lib c) else Inl InvalidCard)"
  using card_bytes_eq [OF c bs]
proof (elim disjE conjE exE)
  fix k
  let ?fields = "[cd_flag c, cl_key_bytes lib (cd_verifying_key c), cl_key_bytes lib k, wire_nickname c]"
  assume bob: "cd_flag c = cl_bob lib" "cd_encrypting_key c = Some k"
    and eq: "bs = cd_flag c @ cl_key_bytes lib (cd_verifying_key c) @ cl_key_bytes lib k @ cl_vlb lib (wire_nickname c)"
  have "list_all2 (field_ok lib) (bob_specification lib) ?fields"
    using lib bob le_less_trans [OF wire_nickname_short [OF c] header_holds [OF lib(3)]]
    by (simp add: bob_specification_def field_ok_def flags_ok_def keys_ok_def)
  moreover have "concat (map2 (field_bytes lib) (bob_specification lib) ?fields) = bs"
    by (simp add: eq bob_specification_def field_bytes_def)
  ultimately have "cl_split lib (bob_specification lib) bs = Some ?fields"
    using lib(3) by (metis splits_ok_def)
  moreover have "take 8 bs = cl_bob lib" using lib(1) bob by (simp add: eq flags_ok_def)
  ultimately show ?thesis
    using lib(1) bob new_card_rebuilds(2) [OF c lib(2)] not_sym [of "cl_alice lib" "cl_bob lib"]
    by (simp add: from_bytes_def wire_card_def flags_ok_def comp_def)
next
  let ?fields = "[cd_flag c, cl_key_bytes lib (cd_verifying_key c), wire_nickname c]"
  assume alice: "cd_flag c \<noteq> cl_bob lib" "cd_flag c = cl_alice lib"
    and eq: "bs = cd_flag c @ cl_key_bytes lib (cd_verifying_key c) @ cl_vlb lib (wire_nickname c)"
  have "list_all2 (field_ok lib) (alice_specification lib) ?fields"
    using lib alice le_less_trans [OF wire_nickname_short [OF c] header_holds [OF lib(3)]]
    by (simp add: alice_specification_def field_ok_def flags_ok_def keys_ok_def)
  moreover have "concat (map2 (field_bytes lib) (alice_specification lib) ?fields) = bs"
    by (simp add: eq alice_specification_def field_bytes_def)
  ultimately have "cl_split lib (alice_specification lib) bs = Some ?fields"
    using lib(3) by (metis splits_ok_def)
  moreover have "take 8 bs = cl_alice lib" using lib(1) alice by (simp add: eq flags_ok_def)
  moreover have "card_ok lib (c\<lparr>cd_encrypting_key := None\<rparr>)" using c by (simp add: card_ok_def)
  note new_card_rebuilds(2) [OF this lib(2)]
  ultimately show ?thesis using alice by (simp add: from_bytes_def wire_card_def)
qed

lemma wire_card_id: "card_id lib (wire_card lib c) = card_id lib c"
  by (simp add: wire_card_def card_id_def card_payload_def card_types_def)


text \<open>
  C21. Cards survive serialization, whatever the size of the header with which the library prefixes a field of variable length. A
  card that was constructed can be serialized unless it is Bob's without an encrypting key or its nickname does not decode. Reading
  the bytes, or the hexadecimal form of them, gives the card back, without the encrypting key if it is Alice's, exactly when they
  are not longer than the maximal length, and raises \<^verbatim>\<open>InvalidCard\<close> otherwise; they are not longer when the nickname and
  its header together have at most 34 bytes. The card that is read back has the same identifier, so it counts as equal.
\<close>

theorem card_roundtrip:
  assumes "flags_ok lib" "keys_ok lib" "splits_ok lib"
    and "new_card lib flag vk ek nickname = Inr c"
  shows "(isl (card_bytes lib c) \<longleftrightarrow> cd_flag c = cl_bob lib \<and> cd_encrypting_key c = None
        \<or> (\<exists>n. cd_nickname c = Some n \<and> \<not> cl_decodes lib n))
    \<and> (\<forall>bs. card_bytes lib c = Inr bs \<longrightarrow>
        from_bytes lib bs = (if length bs \<le> MAX_CARD_LENGTH lib then Inr (wire_card lib c) else Inl InvalidCard)
        \<and> (cl_header lib + length (case cd_nickname c of Some n \<Rightarrow> n | None \<Rightarrow> []) \<le> 34 \<longrightarrow> length bs \<le> MAX_CARD_LENGTH lib)
        \<and> to_hex lib c = Inr (hex_text bs) \<and> from_hex lib (hex_text bs) = from_bytes lib bs
        \<and> card_id lib (wire_card lib c) = card_id lib c)"
proof -
  note ok = new_card_ok [OF assms(4)]
  have "isl (card_bytes lib c) \<longleftrightarrow> cd_flag c = cl_bob lib \<and> cd_encrypting_key c = None
        \<or> (\<exists>n. cd_nickname c = Some n \<and> \<not> cl_decodes lib n)"
    using ok by (auto simp: card_bytes_def card_payload_def card_nickname_def validate_card_def card_ok_def card_types_def Let_def
        split: option.splits sum.splits if_splits)
  moreover have "from_bytes lib bs = (if length bs \<le> MAX_CARD_LENGTH lib then Inr (wire_card lib c) else Inl InvalidCard)
      \<and> (cl_header lib + length (wire_nickname c) \<le> 34 \<longrightarrow> length bs \<le> MAX_CARD_LENGTH lib)
      \<and> to_hex lib c = Inr (hex_text bs) \<and> from_hex lib (hex_text bs) = from_bytes lib bs
      \<and> card_id lib (wire_card lib c) = card_id lib c" if bs: "card_bytes lib c = Inr bs" for bs
    using card_bytes_from_bytes [OF assms(1-3) ok bs] card_bytes_length(2) [OF assms(1-3) ok bs] bs wire_card_id [of lib c]
    by (auto simp: to_hex_def from_hex_def fromhex_of_hex_text nickname_fits_def MAX_NICKNAME_SIZE_def)
  ultimately show ?thesis by blast
qed

text \<open>
  The maximal length leaves two bytes for the header: when the library's header is longer, a card of Bob with a nickname of the
  maximal size is written but not read back.
\<close>

lemma long_nickname_refused:
  assumes "flags_ok lib" "keys_ok lib" "splits_ok lib" "new_card lib flag vk ek nickname = Inr c" "card_bytes lib c = Inr bs"
    and "2 < cl_header lib" "cd_flag c = cl_bob lib" "length (wire_nickname c) = MAX_NICKNAME_SIZE"
  shows "from_bytes lib bs = Inl InvalidCard"
  using card_bytes_from_bytes [OF assms(1-3) new_card_ok [OF assms(4)] assms(5)]
    card_bytes_length(1) [OF assms(1-3) new_card_ok [OF assms(4)] assms(5)] assms(6-8)
  by (simp add: MAX_CARD_LENGTH_def bob_specification_def)

text \<open>
  A concrete splitter: keys are single bytes, variable-length fields have their length in two bytes.
\<close>

fun demo_split :: "nat option list \<Rightarrow> bytes \<Rightarrow> bytes list option" where
  "demo_split [] bs = (if bs = [] then Some [] else None)"
| "demo_split (Some n # specs) bs = (if length bs < n then None else map_option (Cons (take n bs)) (demo_split specs (drop n bs)))"
| "demo_split (None # specs) (h # l # bs) =
     (let n = 256 * unat h + unat l
      in if length bs < n then None else map_option (Cons (take n bs)) (demo_split specs (drop n bs)))"
| "demo_split (None # specs) bs = None"

definition demo_card_lib :: "byte card_lib" where
  "demo_card_lib = \<lparr>cl_alice = replicate 8 1, cl_bob = replicate 8 2, cl_key_size = 1, cl_key_bytes = (\<lambda>k. [k]),
     cl_key_from_bytes = (\<lambda>bs. case bs of [k] \<Rightarrow> Some k | _ \<Rightarrow> None),
     cl_header = 2, cl_vlb = (\<lambda>bs. of_nat (length bs div 256) # of_nat (length bs mod 256) # bs),
     cl_split = demo_split, cl_digest = (\<lambda>bs. replicate 5 (fold (+) bs 0)), cl_lower = (\<lambda>bs. bs),
     cl_decodes = (\<lambda>bs. list_all (\<lambda>b. b < 128) bs)\<rparr>"

lemma demo_split_fields:
  "list_all2 (field_ok demo_card_lib) specs parts \<Longrightarrow>
   demo_split specs (concat (map2 (field_bytes demo_card_lib) specs parts)) = Some parts"
proof (induction specs parts rule: list_all2_induct)
  case (Cons spec specs part parts)
  show ?case
  proof (cases spec)
    case None
    with Cons.hyps have "length part < 65536" by (simp add: field_ok_def demo_card_lib_def)
    then have "256 * unat (of_nat (length part div 256) :: byte) + unat (of_nat (length part mod 256) :: byte) = length part"
      by (simp add: unat_of_nat)
    with None Cons.IH show ?thesis by (simp add: field_bytes_def demo_card_lib_def)
  qed (use Cons in \<open>simp add: field_ok_def field_bytes_def\<close>)
qed simp

lemma demo_card_lib_ok: "flags_ok demo_card_lib" "keys_ok demo_card_lib" "splits_ok demo_card_lib"
proof -
  show "splits_ok demo_card_lib"
    unfolding splits_ok_def using demo_split_fields by (simp add: demo_card_lib_def)
  have "replicate 8 (1 :: byte) \<noteq> replicate 8 2" by simp
  then show "flags_ok demo_card_lib" by (simp add: flags_ok_def demo_card_lib_def)
qed (simp add: keys_ok_def demo_card_lib_def)

definition demo_card :: "byte card" where
  "demo_card = \<lparr>cd_flag = replicate 8 2, cd_verifying_key = 7, cd_encrypting_key = Some 9, cd_nickname = Some [98, 111, 98]\<rparr>"

abbreviation demo_card_bytes :: bytes where
  "demo_card_bytes \<equiv> replicate 8 2 @ [7, 9, 0, 3, 98, 111, 98]"

lemma demo_card_built:
  "new_card demo_card_lib (replicate 8 2) (KeyBytes [7]) (Some (KeyObject 9)) (Some [98, 111, 98]) = Inr demo_card"
  "card_bytes demo_card_lib demo_card = Inr demo_card_bytes"
  by (simp_all add: new_card_def card_types_def demo_card_lib_def demo_card_def validate_card_def MAX_NICKNAME_SIZE_def Let_def
      card_bytes_def card_payload_def card_nickname_def)

theorem card_roundtrip_witness:
  "from_hex demo_card_lib (hex_text demo_card_bytes) = Inr demo_card \<and> length demo_card_bytes \<le> MAX_CARD_LENGTH demo_card_lib"
proof -
  have "wire_card demo_card_lib demo_card = demo_card" by (simp add: wire_card_def demo_card_def demo_card_lib_def)
  moreover have "cl_header demo_card_lib + length (case cd_nickname demo_card of Some n \<Rightarrow> n | None \<Rightarrow> []) \<le> 34"
    by (simp add: demo_card_lib_def demo_card_def)
  ultimately show ?thesis using card_roundtrip [OF demo_card_lib_ok demo_card_built(1)] demo_card_built(2) by auto
qed

text \<open>
  Saved cards can be loaded. After a card whose nickname fits was saved, loading its file, or any identifier that
  resolves to it, gives the card back; no other file has changed; and deleting the card removes
  just its file. Saving it once more without \<^verbatim>\<open>overwrite\<close> raises and leaves the directory as it is.
\<close>

theorem saved_card_loads:
  assumes "flags_ok lib" "keys_ok lib" "splits_ok lib" "new_card lib flag vk ek nickname = Inr c" "nickname_fits lib c"
    and "\<forall>bs. decoder (encoder bs) = Inr bs"
    and "save_card lib encoder overwrite c directory = (Inr name, Some dir)"
  shows "load_card lib decoder (Some name) None dir = Inr (wire_card lib c)
    \<and> (\<forall>identifier. lookup_card lib identifier dir = Inr name \<longrightarrow>
         load_card lib decoder None (Some identifier) dir = Inr (wire_card lib c))
    \<and> (\<forall>f. f \<noteq> name \<longrightarrow> dict_get dir f = dict_get (case directory of None \<Rightarrow> [] | Some d \<Rightarrow> d) f)
    \<and> delete_card lib c dir = Inr (dict_del dir name)
    \<and> save_card lib encoder False c (Some dir) = (Inl CardExists, Some dir)"
proof -
  define d where "d = (case directory of None \<Rightarrow> [] | Some d \<Rightarrow> d)"
  from assms(7) obtain bs where name: "card_filename lib c = Inr name" and bs: "card_bytes lib c = Inr bs"
    and dir: "dir = dict_set d name (encoder bs)"
    by (auto simp: save_card_def Let_def d_def [symmetric] split: sum.splits if_splits)
  have "from_bytes lib bs = Inr (wire_card lib c)"
    using card_bytes_from_bytes [OF assms(1-3) new_card_ok [OF assms(4)] bs] card_bytes_length(2) [OF assms(1-3) new_card_ok [OF assms(4)] bs assms(5)]
    by simp
  moreover have "name \<in> set (dict_keys dir)" unfolding dir set_keys_set by simp
  ultimately show ?thesis using assms(6) name unfolding d_def [symmetric]
    by (auto simp: load_card_def delete_card_def save_card_def dir dict_get_set Let_def)
qed

theorem saved_card_loads_witness:
  "\<exists>name dir. save_card demo_card_lib hex_text False demo_card None = (Inr name, Some dir)
     \<and> load_card demo_card_lib (\<lambda>x. case fromhex_text x of Some y \<Rightarrow> Inr y | None \<Rightarrow> Inl NotHex) (Some name) None dir = Inr demo_card"
proof -
  have wire: "wire_card demo_card_lib demo_card = demo_card" by (simp add: wire_card_def demo_card_def demo_card_lib_def)
  have "\<not> isl (card_id demo_card_lib demo_card)" by code_simp
  then obtain i where "card_id demo_card_lib demo_card = Inr i" by (cases "card_id demo_card_lib demo_card") auto
  moreover have "card_nickname demo_card_lib demo_card = Inr (cd_nickname demo_card)"
    by (simp add: card_nickname_def demo_card_def demo_card_lib_def)
  ultimately obtain name dir where "save_card demo_card_lib hex_text False demo_card None = (Inr name, Some dir)"
    using demo_card_built(2) by (auto simp: save_card_def card_filename_def Let_def split: list.splits option.splits)
  moreover have "nickname_fits demo_card_lib demo_card" by (simp add: nickname_fits_def demo_card_lib_def demo_card_def MAX_NICKNAME_SIZE_def)
  ultimately show ?thesis using saved_card_loads [OF demo_card_lib_ok demo_card_built(1), of "\<lambda>x. case fromhex_text x of Some y \<Rightarrow> Inr y | None \<Rightarrow> Inl NotHex" hex_text] wire
    by (auto simp: fromhex_of_hex_text)
qed

lemma split_on_none: "d \<notin> set xs \<Longrightarrow> split_on d xs = [xs]"
  by (induction xs) auto

lemma split_on_append: "d \<notin> set xs \<Longrightarrow> split_on d (xs @ d # ys) = xs # split_on d ys"
  by (induction xs) auto

text \<open>
  Looking a card up by \<^verbatim>\<open>nickname.id\<close>, the name its file has, is the same as by the nickname
  alone: the identifier after the delimiter is dropped. With two files that match the nickname it
  is ambiguous, although the message says that the card's identifier would help.
\<close>

theorem lookup_drops_identifier:
  assumes "DELIMITER \<notin> set nickname" "DELIMITER \<notin> set identifier"
  shows "lookup_card lib (nickname @ DELIMITER # identifier) dir = lookup_card lib nickname dir
    \<and> (length (filter (\<lambda>f. contains (cl_lower lib nickname) (cl_lower lib f)) (dict_keys dir)) \<ge> 2
        \<longrightarrow> lookup_card lib (nickname @ DELIMITER # identifier) dir = Inl AmbiguousNickname)"
proof -
  define fs where "fs = filter (\<lambda>f. contains (cl_lower lib nickname) (cl_lower lib f)) (dict_keys dir)"
  have "lookup_card lib (nickname @ DELIMITER # identifier) dir = lookup_card lib nickname dir"
    "lookup_card lib nickname dir = (case fs of [] \<Rightarrow> Inl UnknownCard | [f] \<Rightarrow> Inr f | _ \<Rightarrow> Inl AmbiguousNickname)"
    using assms by (simp_all add: lookup_card_def split_on_append split_on_none Let_def fs_def)
  then show ?thesis unfolding fs_def [symmetric] by (auto split: list.splits)
qed

theorem lookup_drops_identifier_witness:
  "lookup_card demo_card_lib ([98, 111, 98] @ DELIMITER # [49]) [([98, 111, 98, 46, 49], []), ([98, 111, 98, 46, 50], [])]
   = Inl AmbiguousNickname"
proof -
  have "cl_lower demo_card_lib = (\<lambda>bs. bs)" by (simp add: demo_card_lib_def)
  with lookup_drops_identifier [of "[98, 111, 98]" "[49]" demo_card_lib "[([98, 111, 98, 46, 49], []), ([98, 111, 98, 46, 50], [])]"]
  show ?thesis by auto
qed

end
