(* ===== verification/Token.thy ===== *)
theory Token
  imports Complex_Main Nulink_Prelude
begin

text \<open>
  Token amounts: the classes \<^verbatim>\<open>ERC20\<close> and \<^verbatim>\<open>NLK\<close> of \<^verbatim>\<open>nulink/blockchain/eth/token.py\<close>.

  An amount is the integer number of the smallest units. The library's conversions of currency
  are parameters: a number of a unit to Wei, where \<open>None\<close> is its \<^verbatim>\<open>ValueError\<close>, and Wei to a number
  of a unit. Decimal numbers are rationals.
\<close>

datatype token_error = InvalidAmount | InvalidDenomination | ZeroDivision

datatype nlk = NLK int

record currency =
  cu_to_wei :: "rat \<Rightarrow> string \<Rightarrow> int option"
  cu_from_wei :: "int \<Rightarrow> string \<Rightarrow> rat"

definition symbol :: string where "symbol = ''NLK''"
definition unit_name :: string where "unit_name = ''NlkNit''"

definition denominations :: "(string, string) dict" where
  "denominations = [(unit_name, ''wei''), (symbol, ''ether'')]"

definition new_token :: "currency \<Rightarrow> rat \<Rightarrow> string \<Rightarrow> token_error + nlk" where
  "new_token cu amount denomination =
     (case dict_get denominations denomination of
        None \<Rightarrow> Inl InvalidDenomination
      | Some wrapped_denomination \<Rightarrow>
          (case cu_to_wei cu amount wrapped_denomination of
             None \<Rightarrow> Inl InvalidAmount
           | Some v \<Rightarrow> Inr (NLK v)))"

definition from_units :: "currency \<Rightarrow> int \<Rightarrow> token_error + nlk" where
  "from_units cu v = new_token cu (of_int v) unit_name"

definition from_tokens :: "currency \<Rightarrow> rat \<Rightarrow> token_error + nlk" where
  "from_tokens cu x = new_token cu x symbol"

definition zero_token :: "currency \<Rightarrow> token_error + nlk" where
  "zero_token cu = from_units cu 0"

fun to_units :: "nlk \<Rightarrow> int" where
  "to_units (NLK v) = v"

definition to_tokens :: "currency \<Rightarrow> nlk \<Rightarrow> rat" where
  "to_tokens cu a = cu_from_wei cu (to_units a) ''ether''"

text \<open>The other operand is an amount or a number; both are read by \<^verbatim>\<open>int\<close>.\<close>

definition token_add :: "currency \<Rightarrow> nlk \<Rightarrow> int \<Rightarrow> token_error + nlk" where
  "token_add cu a other = from_units cu (to_units a + other)"

definition token_sub :: "currency \<Rightarrow> nlk \<Rightarrow> int \<Rightarrow> token_error + nlk" where
  "token_sub cu a other = from_units cu (to_units a - other)"

definition token_mul :: "currency \<Rightarrow> nlk \<Rightarrow> int \<Rightarrow> token_error + nlk" where
  "token_mul cu a other = from_units cu (to_units a * other)"

definition token_floordiv :: "currency \<Rightarrow> nlk \<Rightarrow> int \<Rightarrow> token_error + nlk" where
  "token_floordiv cu a other = (if other = 0 then Inl ZeroDivision else from_units cu (to_units a div other))"

definition token_bool :: "nlk \<Rightarrow> bool" where
  "token_bool a \<longleftrightarrow> to_units a \<noteq> 0"

text \<open>Comparisons are those of the units.\<close>

instantiation nlk :: linorder
begin

definition less_eq_nlk :: "nlk \<Rightarrow> nlk \<Rightarrow> bool" where
  "less_eq_nlk a b \<longleftrightarrow> to_units a \<le> to_units b"

definition less_nlk :: "nlk \<Rightarrow> nlk \<Rightarrow> bool" where
  "less_nlk a b \<longleftrightarrow> to_units a < to_units b"

instance
proof
  fix a b :: nlk
  show "a \<le> b \<Longrightarrow> b \<le> a \<Longrightarrow> a = b" by (cases a; cases b) (simp add: less_eq_nlk_def)
qed (auto simp: less_eq_nlk_def less_nlk_def)

end

subsection \<open>What the library promises\<close>

definition MAX_WEI :: int where "MAX_WEI = 2 ^ 256 - 1"

definition in_range :: "int \<Rightarrow> bool" where
  "in_range v \<longleftrightarrow> 0 \<le> v \<and> v \<le> MAX_WEI"

definition unit_wei :: "string \<Rightarrow> int" where
  "unit_wei u = (if u = ''ether'' then 10 ^ 18 else 1)"

definition currency_ok :: "currency \<Rightarrow> bool" where
  "currency_ok cu \<longleftrightarrow> (\<forall>x u. u \<in> {''wei'', ''ether''} \<longrightarrow> cu_to_wei cu x u =
       (let y = x * of_int (unit_wei u) in if 0 \<le> y \<and> y \<le> of_int MAX_WEI then Some \<lfloor>y\<rfloor> else None))
     \<and> (\<forall>v u. u \<in> {''wei'', ''ether''} \<longrightarrow> in_range v \<longrightarrow> cu_from_wei cu v u = of_int v / of_int (unit_wei u))"

lemma denominations_simps [simp]:
  "dict_get denominations unit_name = Some ''wei''" "dict_get denominations symbol = Some ''ether''"
  by (simp_all add: denominations_def unit_name_def symbol_def)

lemma from_units_eq: "currency_ok cu \<Longrightarrow> from_units cu v = (if in_range v then Inr (NLK v) else Inl InvalidAmount)"
  by (simp add: from_units_def new_token_def currency_ok_def unit_wei_def in_range_def Let_def)

lemma from_tokens_eq:
  "currency_ok cu \<Longrightarrow> from_tokens cu x =
   (if 0 \<le> x * 10 ^ 18 \<and> x * 10 ^ 18 \<le> of_int MAX_WEI then Inr (NLK \<lfloor>x * 10 ^ 18\<rfloor>) else Inl InvalidAmount)"
  by (simp add: from_tokens_def new_token_def currency_ok_def unit_wei_def Let_def)

lemma to_wei_range:
  assumes "currency_ok cu" "u \<in> {''wei'', ''ether''}" "cu_to_wei cu x u = Some v"
  shows "in_range v"
proof -
  from assms have "v = \<lfloor>x * of_int (unit_wei u)\<rfloor>" "0 \<le> x * of_int (unit_wei u)" "x * of_int (unit_wei u) \<le> of_int MAX_WEI"
    unfolding currency_ok_def Let_def by (metis option.distinct(1) option.inject)+
  then show ?thesis by (simp add: in_range_def floor_le_iff)
qed

lemma new_token_range: "currency_ok cu \<Longrightarrow> new_token cu x u = Inr c \<Longrightarrow> in_range (to_units c)"
  by (auto simp: new_token_def denominations_def intro: to_wei_range split: option.splits if_splits)

text \<open>
  Arithmetic on amounts is exact and stays in range. Each operation gives the amount with the
  exact result when that is between zero and the largest 256-bit number, and raises
  \<^verbatim>\<open>InvalidAmount\<close> otherwise: amounts are never negative and never wrap around.
\<close>

theorem token_arithmetic_exact:
  assumes "currency_ok cu"
  shows "token_add cu a b = (if in_range (to_units a + b) then Inr (NLK (to_units a + b)) else Inl InvalidAmount)
    \<and> token_sub cu a b = (if in_range (to_units a - b) then Inr (NLK (to_units a - b)) else Inl InvalidAmount)
    \<and> token_mul cu a b = (if in_range (to_units a * b) then Inr (NLK (to_units a * b)) else Inl InvalidAmount)
    \<and> (b \<noteq> 0 \<longrightarrow> token_floordiv cu a b = (if in_range (to_units a div b) then Inr (NLK (to_units a div b)) else Inl InvalidAmount))
    \<and> (\<forall>c x u. new_token cu x u = Inr c \<longrightarrow> in_range (to_units c))"
  using assms new_token_range
  by (auto simp: token_add_def token_sub_def token_mul_def token_floordiv_def from_units_eq)

definition demo_currency :: currency where
  "demo_currency = \<lparr>cu_to_wei = (\<lambda>x u. let y = x * of_int (unit_wei u) in if 0 \<le> y \<and> y \<le> of_int MAX_WEI then Some \<lfloor>y\<rfloor> else None),
     cu_from_wei = (\<lambda>v u. of_int v / of_int (unit_wei u))\<rparr>"

lemma demo_currency_ok: "currency_ok demo_currency"
  by (simp add: currency_ok_def demo_currency_def)

theorem token_arithmetic_exact_witness:
  "token_sub demo_currency (NLK 3) 5 = Inl InvalidAmount \<and> token_floordiv demo_currency (NLK 7) 2 = Inr (NLK 3)"
  using token_arithmetic_exact [OF demo_currency_ok, of "NLK 3" 5] token_arithmetic_exact [OF demo_currency_ok, of "NLK 7" 2]
  by (simp add: in_range_def MAX_WEI_def)

text \<open>
  Amounts survive conversion. Every amount in range is the same after it was shown in tokens and
  read back, and after it was shown in units and read back; and reading keeps the order.
\<close>

theorem token_conversion_roundtrip:
  assumes "currency_ok cu" "in_range (to_units a)"
  shows "from_tokens cu (to_tokens cu a) = Inr a \<and> from_units cu (to_units a) = Inr a
    \<and> (\<forall>b. in_range (to_units b) \<longrightarrow> (a \<le> b \<longleftrightarrow> to_tokens cu a \<le> to_tokens cu b))"
proof -
  have t: "to_tokens cu b = of_int (to_units b) / 10 ^ 18" if "in_range (to_units b)" for b
    using assms(1) that by (simp add: to_tokens_def currency_ok_def unit_wei_def)
  have "from_tokens cu (to_tokens cu a) = Inr (NLK (to_units a))"
    using assms by (simp add: from_tokens_eq t in_range_def)
  moreover have "NLK (to_units a) = a" by (cases a) simp
  ultimately show ?thesis using assms by (simp add: from_units_eq t less_eq_nlk_def divide_le_cancel)
qed

theorem token_conversion_roundtrip_witness:
  "from_tokens demo_currency (to_tokens demo_currency (NLK 1500)) = Inr (NLK 1500)"
  using token_conversion_roundtrip [OF demo_currency_ok, of "NLK 1500"] by (simp add: in_range_def MAX_WEI_def)

end
