(* ===== verification/Work_Tracker.thy ===== *)
theory Work_Tracker
  imports Nulink_Prelude "HOL-Library.Multiset"
begin

text \<open>
  The operator's work tracker: \<^verbatim>\<open>WorkTrackerBase\<close> and \<^verbatim>\<open>WorkTracker\<close> of
  \<^verbatim>\<open>nulink/blockchain/eth/token.py\<close>, and the wait of an operator to be funded and bonded
  (\<^verbatim>\<open>Operator.block_until_ready\<close> in \<^verbatim>\<open>nulink/blockchain/eth/actors.py\<close>).

  What one cycle sees of the chain is a record: the block number, the receipts, the numbers of
  transactions, the two answers of the requirement (\<open>None\<close>: not a boolean), whether the operator
  is bonded, what firing a commitment comes to, and the random number. The looping call is two fields, whether it runs and
  its interval; an exception that leaves the cycle stops it and calls the error handler. The
  field \<open>wt_fired\<close> lists the transactions that were sent, for the statements below.
\<close>

datatype txhash = Untracked | Tx string

datatype fire_error = AlreadyConfirmed | OtherContractLogic | FireRaises

datatype work_error = NotABoolean | UnknownGasStrategy | FireFailed fire_error | AlreadyRunning

record tracker =
  wt_running :: bool
  wt_interval :: int
  wt_pending :: "(int, txhash) dict"
  wt_requirement :: bool
  wt_start_time :: "int option"
  wt_abort_on_error :: bool
  wt_consecutive_fails :: nat
  wt_gas_strategy :: string
  wt_crashed :: bool
  wt_fired :: "string list"

record chain =
  ch_now :: int
  ch_block_number :: int
  ch_receipt :: "string \<Rightarrow> int option"
  ch_pending_count :: int
  ch_latest_count :: int
  ch_requirement1 :: "bool option"
  ch_requirement2 :: "bool option"
  ch_bonded :: bool
  ch_fire :: "fire_error + string"
  ch_random :: int

definition INTERVAL_FLOOR :: int where "INTERVAL_FLOOR = 1"
definition INTERVAL_CEIL :: int where "INTERVAL_CEIL = 2"

definition expected_confirmation_time :: "(string, int) dict" where
  "expected_confirmation_time = [(''slow'', 3600), (''medium'', 300), (''fast'', 60)]"

definition new_tracker :: "string \<Rightarrow> tracker" where
  "new_tracker gas_strategy = \<lparr>wt_running = False, wt_interval = 0, wt_pending = [], wt_requirement = False,
     wt_start_time = None, wt_abort_on_error = False, wt_consecutive_fails = 0, wt_gas_strategy = gas_strategy,
     wt_crashed = False, wt_fired = []\<rparr>"

definition random_interval :: "nat \<Rightarrow> int \<Rightarrow> int" where
  "random_interval fails random = (if fails > 0 then INTERVAL_FLOOR else random)"

text \<open>Twice the longest time, in seconds: half as much again as is expected.\<close>

definition max_confirmation_time2 :: "tracker \<Rightarrow> work_error + int" where
  "max_confirmation_time2 t =
     (case dict_get expected_confirmation_time (wt_gas_strategy t) of
        None \<Rightarrow> Inl UnknownGasStrategy
      | Some expected \<Rightarrow> Inr (3 * expected))"

definition stop_tracker :: "tracker \<Rightarrow> tracker" where
  "stop_tracker t = (if wt_running t then t\<lparr>wt_running := False\<rparr> else t)"

text \<open>
  \<open>requirement\<close>: whether a requirement is given. A looping call that runs cannot be started.
\<close>

definition start_tracker :: "chain \<Rightarrow> bool \<Rightarrow> bool \<Rightarrow> tracker \<Rightarrow> (work_error + unit) \<times> tracker" where
  "start_tracker ch requirement force t =
     (if wt_running t \<and> \<not> force then (Inr (), t)
      else let t = t\<lparr>wt_requirement := requirement, wt_start_time := Some (ch_now ch)\<rparr>
           in if wt_running t then (Inl AlreadyRunning, t)
              else (Inr (), t\<lparr>wt_running := True, wt_interval := random_interval (wt_consecutive_fails t) (ch_random ch)\<rparr>))"

definition handle_working_errors :: "chain \<Rightarrow> tracker \<Rightarrow> tracker" where
  "handle_working_errors ch t =
     (if wt_abort_on_error t then (stop_tracker t)\<lparr>wt_crashed := True\<rparr>
      else snd (start_tracker ch False False (t\<lparr>wt_consecutive_fails := Suc (wt_consecutive_fails t)\<rparr>)))"

definition should_do_work_now :: "bool option \<Rightarrow> tracker \<Rightarrow> work_error + bool" where
  "should_do_work_now answer t =
     (if \<not> wt_requirement t then Inr True
      else case answer of None \<Rightarrow> Inl NotABoolean | Some r \<Rightarrow> Inr r)"

definition all_work_completed :: "bool option \<Rightarrow> tracker \<Rightarrow> work_error + bool" where
  "all_work_completed answer t = map_sum id Not (should_do_work_now answer t)"

subsection \<open>Pending commitments\<close>

definition commitments_tracker_is_consistent :: "chain \<Rightarrow> tracker \<Rightarrow> bool" where
  "commitments_tracker_is_consistent ch t =
     (let txs_in_mempool = ch_pending_count ch - ch_latest_count ch
      in if int (length (wt_pending t)) = txs_in_mempool then True
         else if txs_in_mempool > int (length (wt_pending t)) then False else True)"

definition sorted_pending :: "tracker \<Rightarrow> (int \<times> txhash) list" where
  "sorted_pending t = sort_key fst (wt_pending t)"

text \<open>The loop over a sorted copy: mined transactions are removed.\<close>

fun track_loop :: "chain \<Rightarrow> (int \<times> txhash) list \<Rightarrow> (int, txhash) dict \<Rightarrow> (int, txhash) dict" where
  "track_loop ch [] pending = pending"
| "track_loop ch ((b, Untracked) # items) pending = track_loop ch items pending"
| "track_loop ch ((b, Tx h) # items) pending =
     (case ch_receipt ch h of
        None \<Rightarrow> track_loop ch items pending
      | Some _ \<Rightarrow> track_loop ch items (dict_del pending b))"

definition track_pending_commitments :: "chain \<Rightarrow> tracker \<Rightarrow> bool \<times> tracker" where
  "track_pending_commitments ch t =
     (let t = t\<lparr>wt_pending := track_loop ch (sorted_pending t) (wt_pending t)\<rparr>
      in if \<not> commitments_tracker_is_consistent ch t
         then (True, t\<lparr>wt_pending := dict_set (wt_pending t) 0 Untracked\<rparr>)
         else (wt_pending t \<noteq> [], t))"

definition fire_commitment :: "chain \<Rightarrow> tracker \<Rightarrow> (fire_error + txhash) \<times> tracker" where
  "fire_commitment ch t = (case ch_fire ch of
       Inl e \<Rightarrow> (Inl e, t)
     | Inr h \<Rightarrow> (Inr (Tx h), t\<lparr>wt_fired := wt_fired t @ [h]\<rparr>))"

definition fire_replacement_commitment :: "chain \<Rightarrow> int \<Rightarrow> tracker \<Rightarrow> (work_error + unit) \<times> tracker" where
  "fire_replacement_commitment ch tx_firing_block_number t =
     (case fire_commitment ch t of
        (Inl e, t) \<Rightarrow> (Inl (FireFailed e), t)
      | (Inr tx, t) \<Rightarrow>
          (Inr (), t\<lparr>wt_pending := dict_del (dict_set (wt_pending t) (ch_block_number ch) tx) tx_firing_block_number\<rparr>))"

definition handle_replacement_commitment :: "chain \<Rightarrow> tracker \<Rightarrow> (work_error + unit) \<times> tracker" where
  "handle_replacement_commitment ch t =
     (case sorted_pending t of
        [] \<Rightarrow> (Inr (), t)
      | (b, Untracked) # _ \<Rightarrow> fire_replacement_commitment ch b t
      | (b, Tx h) # _ \<Rightarrow>
          (case max_confirmation_time2 t of
             Inl e \<Rightarrow> (Inl e, t)
           | Inr m2 \<Rightarrow>
               (let wait_time_in_seconds = (ch_block_number ch - b) * AVERAGE_BLOCK_TIME_IN_SECONDS
                in if 2 * wait_time_in_seconds < m2 then (Inr (), t)
                   else fire_replacement_commitment ch b t)))"

subsection \<open>The cycle\<close>

definition fire_and_track :: "chain \<Rightarrow> tracker \<Rightarrow> (work_error + unit) \<times> tracker" where
  "fire_and_track ch t =
     (case fire_commitment ch t of
        (Inl AlreadyConfirmed, t) \<Rightarrow> (Inr (), t)
      | (Inl e, t) \<Rightarrow> (Inl (FireFailed e), t)
      | (Inr tx, t) \<Rightarrow> (Inr (), t\<lparr>wt_pending := dict_set (wt_pending t) (ch_block_number ch) tx\<rparr>))"

definition do_work :: "chain \<Rightarrow> tracker \<Rightarrow> (work_error + unit) \<times> tracker" where
  "do_work ch t =
     (case all_work_completed (ch_requirement1 ch) t of
        Inl e \<Rightarrow> (Inl e, t)
      | Inr True \<Rightarrow> (Inr (), stop_tracker t)
      | Inr False \<Rightarrow>
          (case track_pending_commitments ch t of
             (True, t) \<Rightarrow>
               (case handle_replacement_commitment ch t of
                  (Inl e, t) \<Rightarrow> (Inl e, t)
                | (Inr _, t) \<Rightarrow> (Inr (), t\<lparr>wt_interval := INTERVAL_FLOOR\<rparr>))
           | (False, t) \<Rightarrow>
               (let t = t\<lparr>wt_interval := random_interval (wt_consecutive_fails t) (ch_random ch)\<rparr>
                in case should_do_work_now (ch_requirement2 ch) t of
                     Inl e \<Rightarrow> (Inl e, t)
                   | Inr False \<Rightarrow> (Inr (), t)
                   | Inr True \<Rightarrow> if \<not> ch_bonded ch then (Inr (), t) else fire_and_track ch t)))"

text \<open>One call of the looping call: an exception stops it and goes to the handler.\<close>

definition tick :: "chain \<Rightarrow> tracker \<Rightarrow> tracker" where
  "tick ch t = (case do_work ch t of
       (Inr _, t) \<Rightarrow> t
     | (Inl _, t) \<Rightarrow> handle_working_errors ch (t\<lparr>wt_running := False\<rparr>))"

subsection \<open>All runs\<close>

definition chain_ok :: "chain \<Rightarrow> bool" where
  "chain_ok ch \<longleftrightarrow> INTERVAL_FLOOR \<le> ch_random ch \<and> ch_random ch \<le> INTERVAL_CEIL"

inductive tracker_step :: "tracker \<Rightarrow> tracker \<Rightarrow> bool" where
  step_tick: "wt_running t \<Longrightarrow> chain_ok ch \<Longrightarrow> tracker_step t (tick ch t)"
| step_start: "chain_ok ch \<Longrightarrow> tracker_step t (snd (start_tracker ch requirement force t))"
| step_stop: "tracker_step t (stop_tracker t)"

inductive_cases tracker_stepE: "tracker_step t t'"

definition tracker_started :: "tracker \<Rightarrow> bool" where
  "tracker_started t \<longleftrightarrow> (\<exists>g. t = new_tracker g)"

text \<open>A pending transaction was sent by the tracker, or is the placeholder for block zero.\<close>

fun tx_ok :: "string list \<Rightarrow> int \<times> txhash \<Rightarrow> bool" where
  "tx_ok fired (b, Untracked) = (b = 0)"
| "tx_ok fired (b, Tx h) = (h \<in> set fired)"

definition tracker_inv :: "tracker \<Rightarrow> bool" where
  "tracker_inv t \<longleftrightarrow> wf_dict (wt_pending t)
     \<and> (\<forall>p \<in> set (wt_pending t). tx_ok (wt_fired t) p)
     \<and> (wt_running t \<longrightarrow> INTERVAL_FLOOR \<le> wt_interval t \<and> wt_interval t \<le> INTERVAL_CEIL)"


subsection \<open>The invariant\<close>

lemma in_dict_delD: "p \<in> set (dict_del d k) \<Longrightarrow> p \<in> set d \<and> fst p \<noteq> k"
  by (auto simp: AList.delete_eq)

lemma tx_ok_more: "tx_ok fired p \<Longrightarrow> tx_ok (fired @ [h]) p"
  by (cases p; cases "snd p") auto

lemma track_loop_subset: "wf_dict d \<Longrightarrow> wf_dict (track_loop ch items d) \<and> set (track_loop ch items d) \<subseteq> set d"
proof (induction ch items d rule: track_loop.induct)
  case (3 ch b h items pending)
  then show ?case by (auto split: option.splits dest: in_dict_delD)
qed auto

text \<open>Operations that send at most the transaction of the cycle and keep the other fields.\<close>

lemma fire_commitment_inv: "fire_commitment ch t = (r, t') \<Longrightarrow> tracker_inv t \<Longrightarrow> tracker_inv t'"
  by (auto simp: fire_commitment_def tracker_inv_def intro!: tx_ok_more split: sum.splits)

lemma tracker_inv_track:
  assumes "fire_commitment ch t = (Inr tx, t')" "tracker_inv t"
  shows "tracker_inv (t'\<lparr>wt_pending := dict_set (wt_pending t') b tx\<rparr>)"
proof -
  from assms(1) obtain h where h: "ch_fire ch = Inr h" "tx = Tx h" "t' = t\<lparr>wt_fired := wt_fired t @ [h]\<rparr>"
    by (auto simp: fire_commitment_def split: sum.splits)
  have "tx_ok (wt_fired t @ [h]) p" if "p \<in> set (dict_set (wt_pending t) b (Tx h))" for p
    using in_dict_setD [OF that] assms(2) tx_ok_more [of "wt_fired t" p h] by (auto simp: tracker_inv_def)
  with assms(2) show ?thesis by (simp add: tracker_inv_def h)
qed

lemma tracker_inv_drop: "tracker_inv t \<Longrightarrow> tracker_inv (t\<lparr>wt_pending := dict_del (wt_pending t) b\<rparr>)"
  by (auto simp: tracker_inv_def dest!: in_dict_delD)

lemma fire_replacement_inv: "fire_replacement_commitment ch b t = (r, t') \<Longrightarrow> tracker_inv t \<Longrightarrow> tracker_inv t'"
  using tracker_inv_drop [OF tracker_inv_track]
  by (fastforce simp: fire_replacement_commitment_def split: prod.splits sum.splits intro: fire_commitment_inv)

lemma handle_replacement_inv: "handle_replacement_commitment ch t = (r, t') \<Longrightarrow> tracker_inv t \<Longrightarrow> tracker_inv t'"
  by (auto simp: handle_replacement_commitment_def Let_def intro: fire_replacement_inv
      split: list.splits txhash.splits sum.splits if_splits)

lemma track_pending_inv:
  assumes "track_pending_commitments ch t = (r, t')" "tracker_inv t"
  shows "tracker_inv t'"
proof -
  let ?t = "t\<lparr>wt_pending := track_loop ch (sorted_pending t) (wt_pending t)\<rparr>"
  have "tracker_inv ?t" using assms(2) track_loop_subset [of "wt_pending t" ch "sorted_pending t"]
    by (fastforce simp: tracker_inv_def)
  then have "tracker_inv (?t\<lparr>wt_pending := dict_set (wt_pending ?t) 0 Untracked\<rparr>)"
    by (auto simp: tracker_inv_def dest!: in_dict_setD)
  with \<open>tracker_inv ?t\<close> assms(1) show ?thesis
    by (auto simp: track_pending_commitments_def Let_def split: if_splits)
qed

lemma fire_and_track_inv: "fire_and_track ch t = (r, t') \<Longrightarrow> tracker_inv t \<Longrightarrow> tracker_inv t'"
  by (auto simp: fire_and_track_def split: prod.splits sum.splits fire_error.splits
      dest: fire_commitment_inv tracker_inv_track)

lemma tracker_inv_interval:
  "tracker_inv t \<Longrightarrow> INTERVAL_FLOOR \<le> i \<Longrightarrow> i \<le> INTERVAL_CEIL \<Longrightarrow> tracker_inv (t\<lparr>wt_interval := i\<rparr>)"
  by (simp add: tracker_inv_def)

lemma floor_ok: "INTERVAL_FLOOR \<le> INTERVAL_CEIL" by (simp add: INTERVAL_FLOOR_def INTERVAL_CEIL_def)

lemma random_interval_ok:
  "chain_ok ch \<Longrightarrow> INTERVAL_FLOOR \<le> random_interval n (ch_random ch) \<and> random_interval n (ch_random ch) \<le> INTERVAL_CEIL"
  by (simp add: chain_ok_def random_interval_def floor_ok)

lemma stop_tracker_inv: "tracker_inv t \<Longrightarrow> tracker_inv (stop_tracker t)"
  by (simp add: stop_tracker_def tracker_inv_def)

lemma start_tracker_inv: "tracker_inv t \<Longrightarrow> chain_ok ch \<Longrightarrow> tracker_inv (snd (start_tracker ch requirement force t))"
  using random_interval_ok [of ch] by (auto simp: start_tracker_def tracker_inv_def Let_def)

lemma do_work_inv:
  assumes "do_work ch t = (r, t')" "tracker_inv t" "chain_ok ch"
  shows "tracker_inv t'"
proof (cases "all_work_completed (ch_requirement1 ch) t = Inr False")
  case False
  with assms stop_tracker_inv [of t] show ?thesis by (auto simp: do_work_def split: sum.splits bool.splits)
next
  case True
  obtain b u where u: "track_pending_commitments ch t = (b, u)" by fastforce
  note inv = track_pending_inv [OF u assms(2)]
  show ?thesis
  proof (cases b)
    case True
    with assms(1) u \<open>all_work_completed _ _ = _\<close> inv floor_ok show ?thesis
      by (auto simp: do_work_def split: prod.splits sum.splits intro: tracker_inv_interval handle_replacement_inv)
  next
    case False
    let ?u = "u\<lparr>wt_interval := random_interval (wt_consecutive_fails u) (ch_random ch)\<rparr>"
    have "tracker_inv ?u" using inv random_interval_ok [OF assms(3)] by (simp add: tracker_inv_interval)
    with False assms(1) u True show ?thesis
      by (auto simp: do_work_def Let_def split: sum.splits bool.splits if_splits intro: fire_and_track_inv)
  qed
qed

lemma tick_inv: "tracker_inv t \<Longrightarrow> chain_ok ch \<Longrightarrow> tracker_inv (tick ch t)"
proof -
  assume t: "tracker_inv t" "chain_ok ch"
  obtain r u where u: "do_work ch t = (r, u)" by fastforce
  note inv = do_work_inv [OF u t]
  have "tracker_inv (u\<lparr>wt_running := False, wt_consecutive_fails := n\<rparr>)" for n using inv by (simp add: tracker_inv_def)
  from start_tracker_inv [OF this t(2)] stop_tracker_inv [of "u\<lparr>wt_running := False\<rparr>"] inv u show ?thesis
    by (auto simp: tick_def handle_working_errors_def tracker_inv_def split: sum.splits)
qed

interpretation wtr: step_invariant tracker_started tracker_step tracker_inv
proof unfold_locales
  fix s t
  show "tracker_started s \<Longrightarrow> tracker_inv s"
    by (auto simp: tracker_started_def new_tracker_def tracker_inv_def)
  assume "tracker_inv s" "tracker_step s t"
  from this(2,1) show "tracker_inv t"
    by (cases rule: tracker_step.cases) (auto intro: tick_inv start_tracker_inv stop_tracker_inv)
qed


text \<open>
  In every state that a tracker reaches, by cycles, starts, stops and errors, the interval of a
  running tracker is between the floor and the ceiling, at most one transaction is tracked per
  block, and every tracked transaction was sent by the tracker, except for the placeholder at block zero.
\<close>

theorem tracker_within_bounds:
  assumes "reaches tracker_started tracker_step t"
  shows "(wt_running t \<longrightarrow> INTERVAL_FLOOR \<le> wt_interval t \<and> wt_interval t \<le> INTERVAL_CEIL)
    \<and> wf_dict (wt_pending t)
    \<and> (\<forall>b h. dict_get (wt_pending t) b = Some (Tx h) \<longrightarrow> h \<in> set (wt_fired t))
    \<and> (\<forall>b. dict_get (wt_pending t) b = Some Untracked \<longrightarrow> b = 0)"
proof -
  from wtr.reaches_inv [OF assms] have inv: "tracker_inv t" .
  then have "tx_ok (wt_fired t) (b, tx)" if "dict_get (wt_pending t) b = Some tx" for b tx
    using dict_get_in_set [OF that] by (simp add: tracker_inv_def)
  with inv show ?thesis by (fastforce simp: tracker_inv_def)
qed

definition demo_chain :: chain where
  "demo_chain = \<lparr>ch_now = 1000, ch_block_number = 50, ch_receipt = (\<lambda>_. None), ch_pending_count = 4, ch_latest_count = 4,
     ch_requirement1 = Some True, ch_requirement2 = Some True, ch_bonded = True, ch_fire = Inr ''h1'', ch_random = 2\<rparr>"

definition demo_tracker :: tracker where
  "demo_tracker = snd (start_tracker demo_chain True False (new_tracker ''fast''))"

lemma demo_tracker_reached: "reaches tracker_started tracker_step (tick demo_chain demo_tracker)"
proof -
  have ok: "chain_ok demo_chain" by (simp add: chain_ok_def demo_chain_def INTERVAL_FLOOR_def INTERVAL_CEIL_def)
  have "reaches tracker_started tracker_step (new_tracker ''fast'')"
    by (rule reaches_start) (auto simp: tracker_started_def)
  then have "reaches tracker_started tracker_step demo_tracker"
    unfolding demo_tracker_def by (rule reaches_step) (rule step_start [OF ok])
  then show ?thesis
  proof (rule reaches_step)
    have "wt_running demo_tracker" by code_simp
    then show "tracker_step demo_tracker (tick demo_chain demo_tracker)" using ok by (rule step_tick)
  qed
qed

theorem tracker_within_bounds_witness:
  "dict_get (wt_pending (tick demo_chain demo_tracker)) 50 = Some (Tx ''h1'')
   \<and> ''h1'' \<in> set (wt_fired (tick demo_chain demo_tracker))"
proof -
  have "dict_get (wt_pending (tick demo_chain demo_tracker)) 50 = Some (Tx ''h1'')" by code_simp
  with tracker_within_bounds [OF demo_tracker_reached] show ?thesis by blast
qed

subsection \<open>When a commitment is sent\<close>

definition unmined :: "chain \<Rightarrow> int \<times> txhash \<Rightarrow> bool" where
  "unmined ch p = (case snd p of Untracked \<Rightarrow> True | Tx h \<Rightarrow> ch_receipt ch h = None)"

lemma set_dict_del: "set (dict_del d k) = {p \<in> set d. fst p \<noteq> k}"
  by (auto simp: AList.delete_eq)

lemma track_loop_set:
  "wf_dict d \<Longrightarrow> set items \<subseteq> set d \<Longrightarrow> distinct (map fst items) \<Longrightarrow>
   set (track_loop ch items d) = {p \<in> set d. p \<in> set items \<longrightarrow> unmined ch p}"
proof (induction ch items d rule: track_loop.induct)
  case (2 ch b items pending)
  then show ?case by (auto simp: unmined_def)
next
  case (3 ch b h items pending)
  show ?case
  proof (cases "ch_receipt ch h")
    case None
    with 3 show ?thesis by (auto simp: unmined_def)
  next
    case (Some x)
    have "(b, Tx h) \<in> set pending" using "3.prems"(2) by simp
    then have key: "p = (b, Tx h)" if "p \<in> set pending" "fst p = b" for p
      using that "3.prems"(1) by (metis eq_key_imp_eq_value prod.collapse)
    have "set items \<subseteq> set (dict_del pending b)" using "3.prems"(2,3) by (force simp: set_dict_del)
    with 3 Some have "set (track_loop ch items (dict_del pending b))
        = {p \<in> set (dict_del pending b). p \<in> set items \<longrightarrow> unmined ch p}" by simp
    moreover have "p \<in> {p \<in> set (dict_del pending b). p \<in> set items \<longrightarrow> unmined ch p}
        \<longleftrightarrow> p \<in> {p \<in> set pending. p \<in> set ((b, Tx h) # items) \<longrightarrow> unmined ch p}" for p
      using key [of p] Some by (cases "fst p = b") (auto simp: set_dict_del unmined_def)
    ultimately show ?thesis using Some by (simp only: track_loop.simps option.simps) blast
  qed
qed auto

lemma track_loop_unmined:
  assumes "wf_dict (wt_pending t)"
  shows "set (track_loop ch (sorted_pending t) (wt_pending t)) = {p \<in> set (wt_pending t). unmined ch p}"
proof -
  have "mset (map fst (sorted_pending t)) = mset (dict_keys (wt_pending t))" by (simp only: sorted_pending_def mset_map mset_sort)
  then have "distinct (map fst (sorted_pending t))" using assms by (metis mset_eq_imp_distinct_iff)
  then show ?thesis using track_loop_set [OF assms, of "sorted_pending t" ch] by (auto simp: sorted_pending_def)
qed


definition txs_in_mempool :: "chain \<Rightarrow> int" where
  "txs_in_mempool ch = ch_pending_count ch - ch_latest_count ch"

lemma track_pending_result:
  assumes "track_pending_commitments ch t = (b, u)" "wf_dict (wt_pending t)"
  defines "U \<equiv> {p \<in> set (wt_pending t). unmined ch p}"
  shows "wt_fired u = wt_fired t" "wt_gas_strategy u = wt_gas_strategy t" "wt_requirement u = wt_requirement t"
    "txs_in_mempool ch > int (card U) \<or> set (wt_pending u) = U \<and> b = (U \<noteq> {}) \<and> txs_in_mempool ch \<le> int (card U)"
proof -
  let ?d = "track_loop ch (sorted_pending t) (wt_pending t)"
  have d: "set ?d = U" using track_loop_unmined [OF assms(2)] by (simp add: U_def)
  have "wf_dict ?d" using track_loop_subset [OF assms(2)] by blast
  then have card: "card U = length ?d" using d distinct_map [of fst ?d] by (metis distinct_card)
  from assms(1) show "wt_fired u = wt_fired t" "wt_gas_strategy u = wt_gas_strategy t" "wt_requirement u = wt_requirement t"
    by (auto simp: track_pending_commitments_def Let_def split: if_splits)
  show "txs_in_mempool ch > int (card U) \<or> set (wt_pending u) = U \<and> b = (U \<noteq> {}) \<and> txs_in_mempool ch \<le> int (card U)"
  proof (cases "txs_in_mempool ch > int (card U)")
    case False
    with card have "commitments_tracker_is_consistent ch (t\<lparr>wt_pending := ?d\<rparr>)"
      by (simp add: commitments_tracker_is_consistent_def txs_in_mempool_def Let_def)
    with assms(1) have "u = t\<lparr>wt_pending := ?d\<rparr>" "b = (?d \<noteq> [])"
      by (simp_all add: track_pending_commitments_def Let_def)
    with False d show ?thesis by auto
  qed simp
qed

lemma replacement_sent:
  assumes "fire_replacement_commitment ch b t = (r, t')"
  shows "wt_fired t' = wt_fired t \<or> (\<exists>h. ch_fire ch = Inr h \<and> wt_fired t' = wt_fired t @ [h])"
  using assms by (auto simp: fire_replacement_commitment_def fire_commitment_def split: sum.splits)

lemma handle_replacement_sent:
  assumes "handle_replacement_commitment ch t = (r, t')"
  shows "wt_fired t' = wt_fired t \<or> (\<exists>h. ch_fire ch = Inr h \<and> wt_fired t' = wt_fired t @ [h]
    \<and> ((\<exists>b. (b, Untracked) \<in> set (wt_pending t))
       \<or> (\<exists>b x e. (b, Tx x) \<in> set (wt_pending t) \<and> (\<forall>p \<in> set (wt_pending t). b \<le> fst p)
            \<and> dict_get expected_confirmation_time (wt_gas_strategy t) = Some e
            \<and> 3 * e \<le> 2 * ((ch_block_number ch - b) * AVERAGE_BLOCK_TIME_IN_SECONDS))))"
proof (cases "sorted_pending t")
  case Nil
  with assms show ?thesis by (simp add: handle_replacement_commitment_def)
next
  case (Cons p ps)
  have set: "set (wt_pending t) = insert p (set ps)" using Cons by (metis sorted_pending_def set_sort list.simps(15))
  have "sorted (map fst (sorted_pending t))" by (simp add: sorted_pending_def)
  then have least: "\<forall>q \<in> set (wt_pending t). fst p \<le> fst q" unfolding Cons set by auto
  obtain b tx where p: "p = (b, tx)" by (cases p)
  show ?thesis
  proof (cases tx)
    case Untracked
    with assms Cons p set show ?thesis
      by (auto simp: handle_replacement_commitment_def dest!: replacement_sent)
  next
    case (Tx h)
    show ?thesis
    proof (cases "dict_get expected_confirmation_time (wt_gas_strategy t)")
      case None
      with Tx assms Cons p show ?thesis by (simp add: handle_replacement_commitment_def max_confirmation_time2_def)
    next
      case (Some e)
      with Tx assms Cons p have "wt_fired t' = wt_fired t \<or> fire_replacement_commitment ch b t = (r, t')
          \<and> 3 * e \<le> 2 * ((ch_block_number ch - b) * AVERAGE_BLOCK_TIME_IN_SECONDS)"
        by (auto simp: handle_replacement_commitment_def max_confirmation_time2_def Let_def split: if_splits)
      then consider (none) "wt_fired t' = wt_fired t"
        | (sent) h' where "ch_fire ch = Inr h'" "wt_fired t' = wt_fired t @ [h']"
            "3 * e \<le> 2 * ((ch_block_number ch - b) * AVERAGE_BLOCK_TIME_IN_SECONDS)"
        using replacement_sent by blast
      then show ?thesis
      proof cases
        case sent
        moreover have "(b, Tx h) \<in> set (wt_pending t)" using set p Tx by simp
        moreover have "\<forall>q \<in> set (wt_pending t). b \<le> fst q" using least p by simp
        ultimately show ?thesis using Some by blast
      qed simp
    qed
  qed
qed

text \<open>
  C22. When a cycle sends a commitment. It sends at most one, and only when it is due: there is no
  unmined transaction, tracked or not, the operator is bonded and the requirement holds; or the mempool has
  more transactions than are tracked; or the oldest unmined transaction was sent so many blocks
  ago that half as much again as its expected confirmation time has passed.
\<close>

theorem commitment_sent_only_when_due:
  assumes "do_work ch t = (r, t')" "wf_dict (wt_pending t)"
  defines "U \<equiv> {p \<in> set (wt_pending t). unmined ch p}"
  shows "wt_fired t' = wt_fired t \<or> (\<exists>h. ch_fire ch = Inr h \<and> wt_fired t' = wt_fired t @ [h]
    \<and> (U = {} \<and> txs_in_mempool ch \<le> 0 \<and> ch_bonded ch \<and> (wt_requirement t \<longrightarrow> ch_requirement2 ch = Some True)
       \<or> txs_in_mempool ch > int (card U) \<or> (\<exists>b. (b, Untracked) \<in> U)
       \<or> (\<exists>b x e. (b, Tx x) \<in> U \<and> (\<forall>p \<in> U. b \<le> fst p)
            \<and> dict_get expected_confirmation_time (wt_gas_strategy t) = Some e
            \<and> 3 * e \<le> 2 * ((ch_block_number ch - b) * AVERAGE_BLOCK_TIME_IN_SECONDS))))"
proof (cases "all_work_completed (ch_requirement1 ch) t = Inr False")
  case False
  with assms(1) show ?thesis by (auto simp: do_work_def stop_tracker_def split: sum.splits bool.splits)
next
  case todo: True
  obtain b u where u: "track_pending_commitments ch t = (b, u)" by fastforce
  note res = track_pending_result [OF u assms(2), folded U_def]
  show ?thesis
  proof (cases b)
    case True
    obtain x v where v: "handle_replacement_commitment ch u = (x, v)" by fastforce
    from True assms(1) u v todo have "wt_fired t' = wt_fired v" by (auto simp: do_work_def split: sum.splits)
    with handle_replacement_sent [OF v] res show ?thesis by auto
  next
    case False
    let ?u = "u\<lparr>wt_interval := random_interval (wt_consecutive_fails u) (ch_random ch)\<rparr>"
    from False assms(1) u todo have "wt_fired t' = wt_fired u \<or>
        ch_bonded ch \<and> should_do_work_now (ch_requirement2 ch) ?u = Inr True \<and> fire_and_track ch ?u = (r, t')"
      by (auto simp: do_work_def Let_def split: sum.splits bool.splits if_splits)
    moreover have "wt_fired t' = wt_fired u \<or> (\<exists>h. ch_fire ch = Inr h \<and> wt_fired t' = wt_fired u @ [h])"
      if "fire_and_track ch ?u = (r, t')"
      using that by (auto simp: fire_and_track_def fire_commitment_def split: sum.splits fire_error.splits)
    ultimately show ?thesis using False res by (auto simp: should_do_work_now_def split: if_splits option.splits)
  qed
qed

theorem commitment_sent_only_when_due_witness:
  "do_work (demo_chain\<lparr>ch_block_number := 57, ch_pending_count := 5, ch_fire := Inr ''h2''\<rparr>) (tick demo_chain demo_tracker)
   = (Inr (), (tick demo_chain demo_tracker)\<lparr>wt_pending := [(57, Tx ''h2'')], wt_fired := [''h1'', ''h2''], wt_interval := 1\<rparr>)
   \<and> 3 * 60 \<le> 2 * ((57 - 50) * AVERAGE_BLOCK_TIME_IN_SECONDS)"
proof -
  let ?ch = "demo_chain\<lparr>ch_block_number := 57, ch_pending_count := 5, ch_fire := Inr ''h2''\<rparr>"
  let ?t = "tick demo_chain demo_tracker"
  let ?t' = "?t\<lparr>wt_pending := [(57, Tx ''h2'')], wt_fired := [''h1'', ''h2''], wt_interval := 1\<rparr>"
  have run: "do_work ?ch ?t = (Inr (), ?t')" by code_simp
  have t: "wt_pending ?t = [(50, Tx ''h1'')]" "wt_fired ?t = [''h1'']" "wt_gas_strategy ?t = ''fast''" by code_simp+
  have "{p \<in> set (wt_pending ?t). unmined ?ch p} = {(50, Tx ''h1'')}" unfolding t by (auto simp: unmined_def demo_chain_def)
  with commitment_sent_only_when_due [OF run] run t show ?thesis
    by (simp add: txs_in_mempool_def demo_chain_def expected_confirmation_time_def AVERAGE_BLOCK_TIME_IN_SECONDS_def)
qed

subsection \<open>After an error\<close>

lemma do_work_keeps:
  assumes "do_work ch t = (r, t')"
  shows "wt_requirement t' = wt_requirement t" "wt_abort_on_error t' = wt_abort_on_error t"
    "wt_consecutive_fails t' = wt_consecutive_fails t"
  using assms
  by (auto simp: do_work_def track_pending_commitments_def handle_replacement_commitment_def fire_replacement_commitment_def
      fire_and_track_def fire_commitment_def stop_tracker_def Let_def
      split: sum.splits bool.splits prod.splits if_splits list.splits txhash.splits fire_error.splits)


text \<open>A tracker that was restarted after an error: the requirement is gone, failures are counted.\<close>

definition restarted :: "tracker \<Rightarrow> bool" where
  "restarted t \<longleftrightarrow> wt_running t \<and> \<not> wt_requirement t \<and> 0 < wt_consecutive_fails t \<and> \<not> wt_abort_on_error t
     \<and> wt_interval t = INTERVAL_FLOOR"

lemma handle_working_errors_restarts:
  "\<not> wt_abort_on_error t \<Longrightarrow> restarted (handle_working_errors ch (t\<lparr>wt_running := False\<rparr>))"
  by (simp add: restarted_def handle_working_errors_def start_tracker_def random_interval_def Let_def)

lemma fire_frame:
  "fire_replacement_commitment ch b t = (x, t') \<Longrightarrow> wt_running t' = wt_running t \<and> wt_interval t' = wt_interval t"
  "fire_and_track ch t = (x, t') \<Longrightarrow> wt_running t' = wt_running t \<and> wt_interval t' = wt_interval t"
  by (auto simp: fire_commitment_def fire_replacement_commitment_def fire_and_track_def
      split: sum.splits fire_error.splits)

lemma handle_replacement_frame:
  "handle_replacement_commitment ch t = (r, t') \<Longrightarrow> wt_running t' = wt_running t"
  by (auto simp: handle_replacement_commitment_def Let_def dest!: fire_frame(1)
      split: list.splits txhash.splits sum.splits if_splits)

lemma restarted_do_work:
  assumes "restarted t" "do_work ch t = (Inr x, t')"
  shows "restarted t'"
proof -
  note keep = do_work_keeps [OF assms(2)]
  have todo: "all_work_completed (ch_requirement1 ch) t = Inr False" "should_do_work_now (ch_requirement2 ch) t' = Inr True"
    using assms(1) keep by (simp_all add: all_work_completed_def should_do_work_now_def restarted_def)
  obtain b u where u: "track_pending_commitments ch t = (b, u)" by fastforce
  then have run: "wt_running u = wt_running t" "wt_consecutive_fails u = wt_consecutive_fails t" "wt_requirement u = wt_requirement t"
    by (auto simp: track_pending_commitments_def Let_def split: if_splits)
  have "wt_running t' = wt_running t \<and> wt_interval t' = INTERVAL_FLOOR"
  proof (cases b)
    case True
    with assms(2) u todo(1) run show ?thesis
      by (auto simp: do_work_def dest!: handle_replacement_frame split: prod.splits sum.splits)
  next
    case False
    with assms u todo(1) run show ?thesis
      by (auto simp: do_work_def random_interval_def restarted_def Let_def dest!: fire_frame(2)
          split: sum.splits bool.splits if_splits)
  qed
  with keep assms(1) show ?thesis by (simp add: restarted_def)
qed

lemma restarted_tick: "restarted t \<Longrightarrow> restarted (tick ch t)"
proof -
  assume t: "restarted t"
  obtain r u where u: "do_work ch t = (r, u)" by fastforce
  with t do_work_keeps [OF u] restarted_do_work [OF t] handle_working_errors_restarts [of u ch] show ?thesis
    by (auto simp: tick_def restarted_def split: sum.splits)
qed

text \<open>
  An error makes the tracker forget its requirement. The handler starts the tracker again without
  it, so that the work never counts as completed: the tracker goes on for ever, whatever the
  requirement would have said, and since the failures are never reset it stays at the smallest
  interval.
\<close>

theorem failed_tracker_never_completes:
  assumes "do_work ch t = (Inl e, u)" "\<not> wt_abort_on_error t"
  shows "restarted (fold tick chs (tick ch t))"
proof -
  have "restarted (tick ch t)"
    using assms do_work_keeps [OF assms(1)] handle_working_errors_restarts [of u ch] by (simp add: tick_def)
  then show ?thesis by (induction chs arbitrary: ch t) (auto intro: restarted_tick)
qed

text \<open>The requirement says that nothing is left to do, and yet the tracker runs.\<close>

theorem failed_tracker_never_completes_witness:
  "wt_requirement demo_tracker \<and>
   (let done = demo_chain\<lparr>ch_requirement1 := Some False, ch_requirement2 := Some False\<rparr>
    in \<not> wt_running (tick done demo_tracker)
       \<and> wt_running (fold tick [done, done] (tick (demo_chain\<lparr>ch_fire := Inl FireRaises\<rparr>) demo_tracker)))"
proof -
  let ?ch = "demo_chain\<lparr>ch_fire := Inl FireRaises\<rparr>"
  let ?done = "demo_chain\<lparr>ch_requirement1 := Some False, ch_requirement2 := Some False\<rparr>"
  have "fst (do_work ?ch demo_tracker) = Inl (FireFailed FireRaises)" by code_simp
  then obtain u where "do_work ?ch demo_tracker = (Inl (FireFailed FireRaises), u)" by (metis prod.collapse)
  moreover have "\<not> wt_abort_on_error demo_tracker" by code_simp
  ultimately have "restarted (fold tick [?done, ?done] (tick ?ch demo_tracker))" by (rule failed_tracker_never_completes)
  then have run: "wt_running (fold tick [?done, ?done] (tick ?ch demo_tracker))" unfolding restarted_def by blast
  have "wt_requirement demo_tracker" by code_simp
  moreover have "\<not> wt_running (tick ?done demo_tracker)" by code_simp
  ultimately show ?thesis using run unfolding Let_def by blast
qed

subsection \<open>Waiting to be funded and bonded\<close>

record ready_turn =
  rt_elapsed :: int
  rt_ether_balance :: int
  rt_bonded :: bool

text \<open>\<open>timeout\<close>: zero is no timeout. \<open>False\<close> is the exception that the operator is not qualified.\<close>

partial_function (option) block_until_ready :: "(nat \<Rightarrow> ready_turn) \<Rightarrow> int \<Rightarrow> bool \<Rightarrow> bool \<Rightarrow> nat \<Rightarrow> bool option" where
  "block_until_ready turns timeout funded bonded i =
     (if funded \<and> bonded then Some True
      else if timeout \<noteq> 0 \<and> rt_elapsed (turns i) > timeout then Some False
      else block_until_ready turns timeout
             (funded \<or> rt_ether_balance (turns i) \<noteq> 0) (bonded \<or> rt_bonded (turns i)) (Suc i))"

lemma block_until_ready_from:
  assumes "\<forall>k < n. timeout = 0 \<or> rt_elapsed (turns (i + k)) \<le> timeout"
    and "funded \<or> (\<exists>k < n. rt_ether_balance (turns (i + k)) \<noteq> 0)" "bonded \<or> (\<exists>k < n. rt_bonded (turns (i + k)))"
  shows "block_until_ready turns timeout funded bonded i = Some True"
  using assms
proof (induction n arbitrary: i funded bonded)
  case 0
  then show ?case by (subst block_until_ready.simps) simp
next
  case (Suc n)
  let ?f = "funded \<or> rt_ether_balance (turns i) \<noteq> 0" and ?b = "bonded \<or> rt_bonded (turns i)"
  have "\<forall>k < n. timeout = 0 \<or> rt_elapsed (turns (Suc i + k)) \<le> timeout" using Suc.prems(1) by auto
  moreover have "?f \<or> (\<exists>k < n. rt_ether_balance (turns (Suc i + k)) \<noteq> 0)" "?b \<or> (\<exists>k < n. rt_bonded (turns (Suc i + k)))"
    using Suc.prems(2,3) by (metis add.right_neutral add_Suc_right add_Suc_shift less_Suc_eq_0_disj)+
  ultimately have "block_until_ready turns timeout ?f ?b (Suc i) = Some True" by (rule Suc.IH)
  moreover have "timeout = 0 \<or> rt_elapsed (turns i) \<le> timeout" using Suc.prems(1) by force
  ultimately show ?case by (subst block_until_ready.simps) auto
qed

text \<open>
  The wait ends. When the operator is seen with funds in one turn and bonded in another, and no
  timeout was passed before, the wait returns, although neither has to hold at the same time as
  the other.
\<close>

theorem block_until_ready_returns:
  assumes "i < n" "rt_ether_balance (turns i) \<noteq> 0" "j < n" "rt_bonded (turns j)"
    and "\<forall>k < n. timeout = 0 \<or> rt_elapsed (turns k) \<le> timeout"
  shows "block_until_ready turns timeout False False 0 = Some True"
  using block_until_ready_from [of n timeout turns 0] assms by auto

theorem block_until_ready_returns_witness:
  "block_until_ready (\<lambda>k. \<lparr>rt_elapsed = int k, rt_ether_balance = (if k = 1 then 5 else 0), rt_bonded = (k = 2)\<rparr>) 10 False False 0 = Some True"
  by (rule block_until_ready_returns [of 1 3 _ 2]) auto

end
