(* ===== verification/Availability.thy ===== *)
theory Availability
  imports Complex_Main Nulink_Prelude
begin

text \<open>
  The availability tracker of a node: \<^verbatim>\<open>AvailabilityTracker\<close> of \<^verbatim>\<open>nulink/network/trackers.py\<close>.

  The score is a floating-point number. Such numbers are rationals here, and the two operations
  that round, the product with the charge rate and the sum with the result, are parameters. What a
  round sees (the number of known nodes, whether the node may be lonely, the time, the sample and
  what the sampled nodes answer) is a record. The looping call is two fields, whether it runs and its
  interval; an exception stops it and goes to the error handler.
\<close>

record float_ops =
  fl_charge :: "rat \<Rightarrow> rat"
  fl_add :: "rat \<Rightarrow> rat \<Rightarrow> rat"

datatype warning = Mild | Medium | Severe | Shutdown

datatype unreachable = Unreachable | Solitary | Lonely | MeasureRaised

record availability =
  av_enforce_loneliness :: bool
  av_excuses :: "(int, string) dict"
  av_score :: rat
  av_start_time :: "int option"
  av_active_measurement :: bool
  av_running :: bool
  av_interval :: int
  av_responders :: "address set"
  av_warnings :: "warning list"
  av_ursula_stopped :: bool

definition FAST_INTERVAL :: int where "FAST_INTERVAL = 15"
definition SLOW_INTERVAL :: int where "SLOW_INTERVAL = 120"
definition SEEDING_DURATION :: int where "SEEDING_DURATION = 60"
definition MAXIMUM_ALONE_TIME :: int where "MAXIMUM_ALONE_TIME = 120"
definition MAXIMUM_SCORE :: rat where "MAXIMUM_SCORE = 10"
definition SAMPLE_SIZE :: nat where "SAMPLE_SIZE = 1"

definition new_availability :: "bool \<Rightarrow> availability" where
  "new_availability enforce_loneliness = \<lparr>av_enforce_loneliness = enforce_loneliness, av_excuses = [], av_score = 10,
     av_start_time = None, av_active_measurement = False, av_running = False, av_interval = 0, av_responders = {},
     av_warnings = [], av_ursula_stopped = False\<rparr>"

definition warn :: "warning \<Rightarrow> availability \<Rightarrow> availability" where
  "warn w a = a\<lparr>av_warnings := av_warnings a @ [w]\<rparr>"

text \<open>Stopping the node stops this tracker too; the exception always leaves.\<close>

definition stop_availability :: "availability \<Rightarrow> availability" where
  "stop_availability a = (if av_running a then a\<lparr>av_running := False\<rparr> else a)"

definition shutdown_everything :: "unreachable option \<Rightarrow> availability \<Rightarrow> (unreachable + unit) \<times> availability" where
  "shutdown_everything reason a =
     (let a = (stop_availability (warn Shutdown a))\<lparr>av_ursula_stopped := True\<rparr>
      in (Inl (case reason of Some r \<Rightarrow> r | None \<Rightarrow> Unreachable), a))"

definition start_availability :: "int \<Rightarrow> availability \<Rightarrow> availability" where
  "start_availability now a =
     (if av_running a then a else a\<lparr>av_start_time := Some now, av_running := True, av_interval := FAST_INTERVAL\<rparr>)"

text \<open>
  \<^verbatim>\<open>handle_measurement_errors(self, crash_on_error=False, *args)\<close>: an exception is raised again only
  when there are further arguments. As an error callback it is called with the failure as its
  first argument, which is \<^verbatim>\<open>crash_on_error\<close>.
\<close>

definition handle_measurement_errors :: "int \<Rightarrow> bool \<Rightarrow> unreachable list \<Rightarrow> availability
    \<Rightarrow> (unreachable + unit) \<times> availability" where
  "handle_measurement_errors now crash_on_error args a =
     (case args of
        failure # _ \<Rightarrow> if crash_on_error then (Inl failure, a) else (Inr (), a)
      | [] \<Rightarrow> (Inr (), if \<not> av_running a then start_availability now a else a))"

definition measurement_errback :: "int \<Rightarrow> unreachable \<Rightarrow> availability \<Rightarrow> (unreachable + unit) \<times> availability" where
  "measurement_errback now failure a = handle_measurement_errors now True [] a"

definition status :: "availability \<Rightarrow> bool" where
  "status a \<longleftrightarrow> av_score a > MAXIMUM_SCORE / 2"

subsection \<open>Measuring\<close>

text \<open>\<open>reason\<close>: the empty one is not noted.\<close>

definition record_result :: "float_ops \<Rightarrow> int \<Rightarrow> bool option \<Rightarrow> string \<Rightarrow> availability \<Rightarrow> availability" where
  "record_result fl now result reason a =
     (let a = (if result \<noteq> Some True \<and> reason \<noteq> '''' then a\<lparr>av_excuses := dict_set (av_excuses a) now reason\<rparr> else a)
      in case result of
           None \<Rightarrow> a
         | Some r \<Rightarrow>
             (let score = fl_add fl (if r then 1 else 0) (fl_charge fl (av_score a))
              in a\<lparr>av_score := (if score \<ge> MAXIMUM_SCORE then MAXIMUM_SCORE else score)\<rparr>))"

datatype check_reply = CheckStatus nat | CheckBadRequest string | CheckNotFound | CheckUnreachable | CheckRaises

definition measure :: "float_ops \<Rightarrow> int \<Rightarrow> address \<Rightarrow> check_reply \<Rightarrow> availability \<Rightarrow> (check_reply + unit) \<times> availability" where
  "measure fl now addr reply a =
     (let noted = a\<lparr>av_responders := insert addr (av_responders a)\<rparr>
      in case reply of
           CheckBadRequest reason \<Rightarrow> (Inr (), record_result fl now (Some False) reason noted)
         | CheckStatus code \<Rightarrow>
             (Inr (), if code = 200 then record_result fl now (Some True) '''' noted
                      else if code = 400 then record_result fl now (Some False) ''failed'' noted
                      else record_result fl now None ''error'' noted)
         | _ \<Rightarrow> (Inl reply, a))"

fun measure_sample :: "float_ops \<Rightarrow> int \<Rightarrow> (address \<times> check_reply) list \<Rightarrow> availability \<Rightarrow> (unreachable + unit) \<times> availability" where
  "measure_sample fl now [] a = (Inr (), a)"
| "measure_sample fl now ((addr, reply) # ursulas) a =
     (case measure fl now addr reply a of
        (Inr _, a) \<Rightarrow> measure_sample fl now ursulas a
      | (Inl CheckNotFound, a) \<Rightarrow> measure_sample fl now ursulas (record_result fl now None ''no ping'' a)
      | (Inl CheckUnreachable, a) \<Rightarrow> measure_sample fl now ursulas a
      | (Inl _, a) \<Rightarrow> (Inl MeasureRaised, a))"

text \<open>The warnings in the order of their thresholds; the shutdown comes first and raises.\<close>

definition warnings :: "(rat \<times> warning) list" where
  "warnings = [(1, Shutdown), (2, Severe), (7, Medium), (9, Mild)]"

fun issue_from :: "bool \<Rightarrow> (rat \<times> warning) list \<Rightarrow> availability \<Rightarrow> (unreachable + unit) \<times> availability" where
  "issue_from cascade [] a = (Inr (), a)"
| "issue_from cascade ((threshold, action) # ws) a =
     (if av_score a \<le> threshold
      then (if action = Shutdown then shutdown_everything None a
            else if cascade then issue_from cascade ws (warn action a) else (Inr (), warn action a))
      else issue_from cascade ws a)"

definition issue_warnings :: "bool \<Rightarrow> availability \<Rightarrow> (unreachable + unit) \<times> availability" where
  "issue_warnings cascade a = issue_from cascade warnings a"

record round_env =
  ro_known :: nat
  ro_lonely :: bool
  ro_now :: int
  ro_sample :: "(address \<times> check_reply) list"

definition elapsed :: "round_env \<Rightarrow> availability \<Rightarrow> int" where
  "elapsed e a = ro_now e - (case av_start_time a of Some s \<Rightarrow> s | None \<Rightarrow> ro_now e)"

definition maintain :: "float_ops \<Rightarrow> round_env \<Rightarrow> availability \<Rightarrow> (unreachable + unit) \<times> availability" where
  "maintain fl e a =
     (if ro_known e < SAMPLE_SIZE
      then (if \<not> ro_lonely e \<and> av_enforce_loneliness a \<and> elapsed e a \<ge> MAXIMUM_ALONE_TIME
            then shutdown_everything (Some (if ro_known e = 0 then Solitary else Lonely)) (warn Severe a)
            else (Inr (), a))
      else if av_interval a = FAST_INTERVAL \<and> elapsed e a \<ge> SEEDING_DURATION
      then (Inr (), a\<lparr>av_interval := SLOW_INTERVAL\<rparr>)
      else if av_active_measurement a then (Inr (), a)
      else case measure_sample fl (ro_now e) (ro_sample e) (a\<lparr>av_active_measurement := True\<rparr>) of
             (Inl x, a) \<Rightarrow> (Inl x, a\<lparr>av_active_measurement := False\<rparr>)
           | (Inr _, a) \<Rightarrow> issue_warnings True (a\<lparr>av_active_measurement := False\<rparr>))"

text \<open>One call of the looping call.\<close>

definition availability_tick :: "float_ops \<Rightarrow> round_env \<Rightarrow> availability \<Rightarrow> availability" where
  "availability_tick fl e a = (case maintain fl e a of
       (Inr _, a) \<Rightarrow> a
     | (Inl x, a) \<Rightarrow> snd (measurement_errback (ro_now e) x (a\<lparr>av_running := False\<rparr>)))"

inductive availability_step :: "float_ops \<Rightarrow> availability \<Rightarrow> availability \<Rightarrow> bool" for fl :: float_ops where
  step_tick: "av_running a \<Longrightarrow> availability_step fl a (availability_tick fl e a)"
| step_measure: "measure_sample fl now ursulas a = (r, a') \<Longrightarrow> availability_step fl a a'"
| step_start: "availability_step fl a (start_availability now a)"
| step_stop: "availability_step fl a (stop_availability a)"

definition availability_started :: "availability \<Rightarrow> bool" where
  "availability_started a \<longleftrightarrow> (\<exists>b. a = new_availability b)"

subsection \<open>Bounds of the score\<close>

text \<open>Rounding does not take the product above the score or below zero, nor a sum below its summand.\<close>

definition float_ok :: "float_ops \<Rightarrow> bool" where
  "float_ok fl \<longleftrightarrow> (\<forall>s. 0 \<le> s \<longrightarrow> 0 \<le> fl_charge fl s \<and> fl_charge fl s \<le> s)
     \<and> (\<forall>s. 0 \<le> s \<longrightarrow> fl_add fl 0 s = s \<and> s \<le> fl_add fl 1 s)"

definition score_ok :: "float_ops \<Rightarrow> availability \<Rightarrow> bool" where
  "score_ok fl a \<longleftrightarrow> float_ok fl \<longrightarrow> 0 \<le> av_score a \<and> av_score a \<le> MAXIMUM_SCORE"

lemma av_score_record: "av_score (record_result fl now result reason a) = (case result of
     None \<Rightarrow> av_score a
   | Some r \<Rightarrow> min MAXIMUM_SCORE (fl_add fl (if r then 1 else 0) (fl_charge fl (av_score a))))"
  by (cases result) (auto simp: record_result_def Let_def)

lemma float_okD:
  assumes "float_ok fl" "0 \<le> s"
  shows "0 \<le> fl_charge fl s" "fl_charge fl s \<le> s" "fl_add fl 0 (fl_charge fl s) = fl_charge fl s"
    "fl_charge fl s \<le> fl_add fl 1 (fl_charge fl s)"
  using assms by (simp_all add: float_ok_def)

lemma record_result_score:
  assumes "score_ok fl a"
  shows "score_ok fl (record_result fl now result reason a)"
    and "float_ok fl \<Longrightarrow> result \<noteq> Some True \<Longrightarrow> av_score (record_result fl now result reason a) \<le> av_score a"
proof -
  have bounds: "0 \<le> av_score a" "av_score a \<le> MAXIMUM_SCORE" if "float_ok fl" using assms that by (auto simp: score_ok_def)
  show "score_ok fl (record_result fl now result reason a)"
    unfolding score_ok_def
  proof
    assume ok: "float_ok fl"
    note f = float_okD [OF ok bounds(1) [OF ok]]
    from f bounds [OF ok] order_trans [OF f(1,4)]
    show "0 \<le> av_score (record_result fl now result reason a) \<and> av_score (record_result fl now result reason a) \<le> MAXIMUM_SCORE"
      by (auto simp: av_score_record MAXIMUM_SCORE_def split: option.splits)
  qed
  assume "float_ok fl" "result \<noteq> Some True"
  with float_okD [OF this(1) bounds(1)] show "av_score (record_result fl now result reason a) \<le> av_score a"
    by (auto simp: av_score_record split: option.splits)
qed

lemma measure_score: "measure fl now addr reply a = (r, a') \<Longrightarrow> score_ok fl a \<Longrightarrow> score_ok fl a'"
  using record_result_score(1) [of fl "a\<lparr>av_responders := insert addr (av_responders a)\<rparr>"]
  by (auto simp: measure_def score_ok_def Let_def split: check_reply.splits if_splits)

lemma measure_sample_score: "measure_sample fl now us a = (r, a') \<Longrightarrow> score_ok fl a \<Longrightarrow> score_ok fl a'"
proof (induction fl now us a rule: measure_sample.induct)
  case (2 fl now addr reply us a)
  obtain x u where u: "measure fl now addr reply a = (x, u)" by fastforce
  note ok = measure_score [OF u "2.prems"(2)]
  from 2 u ok record_result_score(1) [OF ok] show ?case by (auto split: sum.splits check_reply.splits)
qed auto

lemma issue_from_score: "issue_from c ws a = (r, a') \<Longrightarrow> av_score a' = av_score a"
  by (induction c ws a rule: issue_from.induct)
    (auto simp: shutdown_everything_def stop_availability_def warn_def Let_def split: if_splits)

lemma maintain_score: "maintain fl e a = (r, a') \<Longrightarrow> score_ok fl a \<Longrightarrow> score_ok fl a'"
  using measure_sample_score [of fl "ro_now e" "ro_sample e" "a\<lparr>av_active_measurement := True\<rparr>"]
  by (auto simp: maintain_def issue_warnings_def score_ok_def shutdown_everything_def stop_availability_def warn_def Let_def
      dest!: issue_from_score split: if_splits prod.splits sum.splits)

lemma availability_tick_score:
  assumes "score_ok fl a"
  shows "score_ok fl (availability_tick fl e a)"
proof -
  obtain r u where u: "maintain fl e a = (r, u)" by fastforce
  from maintain_score [OF u assms] u show ?thesis
    by (auto simp: availability_tick_def measurement_errback_def handle_measurement_errors_def start_availability_def score_ok_def
        split: sum.splits)
qed

interpretation avl: step_invariant availability_started "availability_step fl" "score_ok fl" for fl
proof unfold_locales
  fix s t
  show "availability_started s \<Longrightarrow> score_ok fl s"
    by (auto simp: availability_started_def new_availability_def score_ok_def MAXIMUM_SCORE_def)
  assume "score_ok fl s" "availability_step fl s t"
  from this(2,1) show "score_ok fl t"
    by (cases rule: availability_step.cases)
      (auto intro: availability_tick_score measure_sample_score, auto simp: score_ok_def start_availability_def stop_availability_def)
qed


text \<open>
  The score stays between zero and its maximum in every state that the tracker reaches; only a
  successful measurement can raise it; and the warnings raise exactly when it has fallen to one
  or below.
\<close>

theorem availability_score_bounded:
  assumes "float_ok fl" "reaches availability_started (availability_step fl) a"
  shows "0 \<le> av_score a \<and> av_score a \<le> MAXIMUM_SCORE
    \<and> (result \<noteq> Some True \<longrightarrow> av_score (record_result fl now result reason a) \<le> av_score a)
    \<and> ((\<exists>x. fst (issue_warnings cascade a) = Inl x) \<longleftrightarrow> av_score a \<le> 1)"
proof -
  have ok: "score_ok fl a" using avl.reaches_inv [OF assms(2)] .
  have "(\<exists>x. fst (issue_warnings cascade a) = Inl x) \<longleftrightarrow> av_score a \<le> 1"
    by (cases "av_score a \<le> 1") (simp_all add: issue_warnings_def warnings_def shutdown_everything_def Let_def)
  with ok assms(1) record_result_score(2) [OF ok assms(1)] show ?thesis by (auto simp: score_ok_def)
qed

definition demo_float :: float_ops where
  "demo_float = \<lparr>fl_charge = (\<lambda>s. 9 / 10 * s), fl_add = (+)\<rparr>"

lemma demo_float_ok: "float_ok demo_float"
  by (simp add: float_ok_def demo_float_def)

theorem availability_score_bounded_witness:
  "av_score (record_result demo_float 7 (Some False) ''failed'' (new_availability True)) = 9
   \<and> (9 :: rat) \<le> av_score (new_availability True)"
proof -
  have "reaches availability_started (availability_step demo_float) (new_availability True)"
    by (rule reaches_start) (auto simp: availability_started_def)
  from availability_score_bounded [OF demo_float_ok this, of "Some False" 7 "''failed''"]
  show ?thesis by (simp add: av_score_record new_availability_def MAXIMUM_SCORE_def demo_float_def)
qed

text \<open>
  The automatic shutdown does not last. Whatever exception leaves a round, the shutdown of an
  unreachable node among them, the error callback neither reports nor raises it: the tracker is
  running again, at the fast interval and with a new start time.
\<close>

theorem shutdown_restarts_tracker:
  assumes "maintain fl e a = (Inl x, a')"
  shows "fst (measurement_errback (ro_now e) x (a'\<lparr>av_running := False\<rparr>)) = Inr ()
    \<and> av_running (availability_tick fl e a) \<and> av_start_time (availability_tick fl e a) = Some (ro_now e)
    \<and> av_interval (availability_tick fl e a) = FAST_INTERVAL \<and> av_score (availability_tick fl e a) = av_score a'"
  using assms
  by (simp add: availability_tick_def measurement_errback_def handle_measurement_errors_def start_availability_def)

text \<open>A node with score one reports another failure: it is shut down, and the tracker runs on.\<close>

theorem shutdown_restarts_tracker_witness:
  "av_ursula_stopped (availability_tick demo_float
     \<lparr>ro_known = 1, ro_lonely = False, ro_now = 500, ro_sample = [(''a'', CheckStatus 400)]\<rparr>
     ((start_availability 480 (new_availability True))\<lparr>av_score := 1\<rparr>))
   \<and> av_running (availability_tick demo_float
     \<lparr>ro_known = 1, ro_lonely = False, ro_now = 500, ro_sample = [(''a'', CheckStatus 400)]\<rparr>
     ((start_availability 480 (new_availability True))\<lparr>av_score := 1\<rparr>))"
proof -
  let ?e = "\<lparr>ro_known = 1, ro_lonely = False, ro_now = 500, ro_sample = [(''a'', CheckStatus 400)]\<rparr>"
  let ?a = "(start_availability 480 (new_availability True))\<lparr>av_score := 1\<rparr>"
  have "\<exists>x a'. maintain demo_float ?e ?a = (Inl x, a') \<and> av_ursula_stopped a'"
    by (simp add: maintain_def measure_def record_result_def issue_warnings_def warnings_def shutdown_everything_def
        start_availability_def new_availability_def demo_float_def elapsed_def Let_def SAMPLE_SIZE_def FAST_INTERVAL_def
        SEEDING_DURATION_def MAXIMUM_SCORE_def warn_def stop_availability_def)
  then obtain x a' where m: "maintain demo_float ?e ?a = (Inl x, a')" and stopped: "av_ursula_stopped a'" by blast
  have "av_ursula_stopped (availability_tick demo_float ?e ?a)"
    using m stopped by (simp add: availability_tick_def measurement_errback_def handle_measurement_errors_def start_availability_def)
  with shutdown_restarts_tracker [OF m] show ?thesis by blast
qed

end
