(* ===== verification/Middleware.thy ===== *)
theory Middleware
  imports Node_Verification "HOL-Library.Sublist"
begin

text \<open>
  The HTTP client: \<^verbatim>\<open>nulink/network/middleware.py\<close> and \<^verbatim>\<open>nulink/utilities/version.py\<close>.

  Bytes are characters; text enters by its UTF-8 encoding, and decoding it may fail. The network is a parameter: what the attempts to fetch a
  certificate come to, and what sending a request with a certificate comes to. Certificates are stored by
  the name of the host they are for and the port.
\<close>

type_synonym http_bytes = string

subsection \<open>Versions\<close>

datatype version_error = VersionMismatch | VersionIndexError | VersionAssertion | VersionDecodeError

text \<open>
  \<open>None\<close> and the empty version stand for the oldest one. The second parts are compared only when the
  first agree.
\<close>

definition check_version :: "string \<Rightarrow> string option \<Rightarrow> version_error + bool" where
  "check_version current to_checked_version =
     (let version = split_char (CHR ''.'') (case to_checked_version of Some (c # v) \<Rightarrow> c # v | _ \<Rightarrow> ''0.1.0'');
          cur_version = split_char (CHR ''.'') current
      in if cur_version ! 0 \<noteq> version ! 0 then Inr False
         else if length cur_version < 2 \<or> length version < 2 then Inl VersionIndexError
         else Inr (cur_version ! 1 = version ! 1))"

definition check_version_pickle_symbol :: string where
  "check_version_pickle_symbol = ''>>__checkout_version__<<''"

text \<open>Python's \<^verbatim>\<open>split\<close> at a byte string that is not empty.\<close>

function split_bytes :: "string \<Rightarrow> string \<Rightarrow> string list" where
  "split_bytes sep xs =
     (if sep \<noteq> [] \<and> prefix sep xs then [] # split_bytes sep (drop (length sep) xs)
      else case xs of
             [] \<Rightarrow> [[]]
           | x # rest \<Rightarrow> (case split_bytes sep rest of p # ps \<Rightarrow> (x # p) # ps | [] \<Rightarrow> [[x]]))"
  by pat_completeness auto

termination
proof (relation "measure (length \<circ> snd)")
  fix sep xs :: string
  assume "sep \<noteq> [] \<and> prefix sep xs"
  then show "((sep, drop (length sep) xs), sep, xs) \<in> measure (length \<circ> snd)"
    by (auto simp: prefix_def)
qed auto

declare split_bytes.simps [simp del]

text \<open>What follows the status check in \<^verbatim>\<open>node_information\<close> and \<^verbatim>\<open>get_nodes_via_rest\<close>.\<close>

definition strip_version :: "(string \<Rightarrow> string option) \<Rightarrow> string \<Rightarrow> http_bytes \<Rightarrow> version_error + http_bytes" where
  "strip_version decode current content =
     (case split_bytes check_version_pickle_symbol content of
        [_] \<Rightarrow> Inl VersionMismatch
      | [payload, version_bytes] \<Rightarrow>
          (case decode version_bytes of
             None \<Rightarrow> Inl VersionDecodeError
           | Some version_str \<Rightarrow>
               (case check_version current (Some version_str) of
                  Inl e \<Rightarrow> Inl e
                | Inr False \<Rightarrow> Inl VersionMismatch
                | Inr True \<Rightarrow> Inr payload))
      | _ \<Rightarrow> Inl VersionAssertion)"

definition add_version :: "string \<Rightarrow> http_bytes \<Rightarrow> http_bytes" where
  "add_version version payload = payload @ check_version_pickle_symbol @ version"

subsection \<open>Certificates\<close>

text \<open>
  The storage of certificates, by the name of the host that a certificate is for (its common name) and a port. A certificate
  without a readable subject is refused; writing its file succeeds, fails before the file is opened, or fails with something
  else left in the file.
\<close>

type_synonym 'c cert_store = "(string \<times> nat, 'c) dict"

datatype 'c disk_write = WriteOk | WriteRefused | WriteBroken 'c

record 'c cert_io =
  ci_common_name :: "'c \<Rightarrow> string option"
  ci_disk :: "string \<times> nat \<Rightarrow> 'c disk_write"

datatype storing_error = NoCommonName | StoringOSError

definition store_node_certificate :: "'c cert_io \<Rightarrow> 'c \<Rightarrow> nat \<Rightarrow> 'c cert_store \<Rightarrow> (storing_error + unit) \<times> 'c cert_store" where
  "store_node_certificate io c port store =
     (case ci_common_name io c of
        None \<Rightarrow> (Inl NoCommonName, store)
      | Some host \<Rightarrow>
          (case ci_disk io (host, port) of
             WriteOk \<Rightarrow> (Inr (), dict_set store (host, port) c)
           | WriteRefused \<Rightarrow> (Inl StoringOSError, store)
           | WriteBroken rest \<Rightarrow> (Inl StoringOSError, dict_set store (host, port) rest)))"

datatype 'c cert_attempt = CertFetched 'c | CertTimeout | CertAddressError | CertOtherOSError | CertMalformed

datatype cert_error = CertRefused | CertGaiError | CertOSError | CertValueError | CertStoring storing_error

text \<open>
  \<open>fetch i\<close>: what the \<open>i\<close>-th attempt comes to: the certificate, a timeout, one of the other errors that
  \<^verbatim>\<open>NodeSeemsToBeDown\<close> lists (an address that does not resolve, a refused connection), an error
  of the system that it does not list, or bytes that are not a certificate.
\<close>

partial_function (option) get_certificate :: "'c cert_io \<Rightarrow> (nat \<Rightarrow> 'c cert_attempt) \<Rightarrow> nat \<Rightarrow> nat \<Rightarrow> nat \<Rightarrow> 'c cert_store
    \<Rightarrow> ((cert_error + 'c) \<times> 'c cert_store) option" where
  "get_certificate io fetch port retry_attempts current_attempt store =
     (case fetch current_attempt of
        CertFetched c \<Rightarrow>
          (case store_node_certificate io c port store of
             (Inl e, store') \<Rightarrow> Some (Inl (CertStoring e), store')
           | (Inr _, store') \<Rightarrow> Some (Inr c, store'))
      | CertTimeout \<Rightarrow>
          if current_attempt = retry_attempts then Some (Inl CertRefused, store)
          else get_certificate io fetch port retry_attempts (Suc current_attempt) store
      | CertAddressError \<Rightarrow> Some (Inl CertGaiError, store)
      | CertOtherOSError \<Rightarrow> Some (Inl CertOSError, store)
      | CertMalformed \<Rightarrow> Some (Inl CertValueError, store))"

declare get_certificate.simps [code]

definition RETRY_ATTEMPTS :: nat where "RETRY_ATTEMPTS = 3"

subsection \<open>Requests\<close>

record response =
  re_status :: nat
  re_content :: http_bytes

datatype send_result = Sent response | SendSSLError | SendDown | SendRaises

text \<open>The network during one request.\<close>

record 'c network =
  nw_fetch :: "nat \<Rightarrow> 'c cert_attempt"
  nw_send :: "'c \<Rightarrow> send_result"

datatype middleware_error =
    MwUnreachable | MwNotFound | MwBadRequest response | MwPaymentRequired | MwUnauthorized | MwUnexpectedResponse nat
  | MwValueError | MwVerification node_error | MwSSLError | MwDown | MwOther | MwOSError | MwVersion version_error

definition send_error :: "send_result \<Rightarrow> middleware_error + response" where
  "send_error s = (case s of Sent r \<Rightarrow> Inr r | SendSSLError \<Rightarrow> Inl MwSSLError | SendDown \<Rightarrow> Inl MwDown | SendRaises \<Rightarrow> Inl MwOther)"

fun cert_failure :: "cert_error \<Rightarrow> middleware_error" where
  "cert_failure CertRefused = MwUnreachable"
| "cert_failure CertGaiError = MwUnreachable"
| "cert_failure CertOSError = MwOSError"
| "cert_failure CertValueError = MwOther"
| "cert_failure (CertStoring NoCommonName) = MwOther"
| "cert_failure (CertStoring StoringOSError) = MwOSError"

text \<open>
  The request goes out with the cached certificate, and after an SSL error, or without a cached one, with a fresh one.
\<close>

definition execute_method :: "'c cert_io \<Rightarrow> 'c network \<Rightarrow> string \<Rightarrow> nat
    \<Rightarrow> 'c cert_store \<Rightarrow> ((middleware_error + response) \<times> 'c cert_store) option" where
  "execute_method io nw host port store =
     (let fresh = (case get_certificate io (nw_fetch nw) port RETRY_ATTEMPTS 0 store of
            None \<Rightarrow> None
          | Some (Inl e, store') \<Rightarrow> Some (Inl (cert_failure e), store')
          | Some (Inr c, store') \<Rightarrow> Some (send_error (nw_send nw c), store'))
      in case dict_get store (host, port) of
           Some cached \<Rightarrow>
             (case nw_send nw cached of
                SendSSLError \<Rightarrow> fresh
              | s \<Rightarrow> Some (send_error s, store))
         | None \<Rightarrow> fresh)"

text \<open>A node is given by its host and port; zero and the empty host are not given.\<close>

definition parse_node_or_host_and_port :: "(string \<times> nat) option \<Rightarrow> string \<Rightarrow> nat \<Rightarrow> middleware_error + string \<times> nat" where
  "parse_node_or_host_and_port node host port =
     (case node of
        Some interface \<Rightarrow> if host \<noteq> '''' \<or> port \<noteq> 0 then Inl MwValueError else Inr interface
      | None \<Rightarrow> if \<not> (host \<noteq> '''' \<and> port \<noteq> 0) then Inl MwValueError else Inr (host, port))"

definition raise_for_status :: "response \<Rightarrow> middleware_error + response" where
  "raise_for_status r =
     (if re_status r \<ge> 300
      then (if re_status r = 400 then Inl (MwBadRequest r)
            else if re_status r = 404 then Inl MwNotFound
            else if re_status r = 402 then Inl MwPaymentRequired
            else if re_status r = 403 then Inl MwUnauthorized
            else Inl (MwUnexpectedResponse (re_status r)))
      else Inr r)"

text \<open>The part of a request after the node was verified and parsed, and a request that is exempt from verification.\<close>

definition perform_request :: "'c cert_io \<Rightarrow> 'c network \<Rightarrow> string \<times> nat \<Rightarrow> 'c cert_store
    \<Rightarrow> ((middleware_error + response) \<times> 'c cert_store) option" where
  "perform_request io nw interface store =
     (case execute_method io nw (fst interface) (snd interface) store of
        None \<Rightarrow> None
      | Some (Inl e, store) \<Rightarrow> Some (Inl e, store)
      | Some (Inr r, store) \<Rightarrow> Some (raise_for_status r, store))"

definition exempt_request :: "'c cert_io \<Rightarrow> 'c network \<Rightarrow> string \<Rightarrow> nat \<Rightarrow> 'c cert_store
    \<Rightarrow> ((middleware_error + response) \<times> 'c cert_store) option" where
  "exempt_request io nw host port store =
     (case parse_node_or_host_and_port None host port of
        Inl e \<Rightarrow> Some (Inl e, store)
      | Inr interface \<Rightarrow> perform_request io nw interface store)"

definition starts_with_2 :: "nat \<Rightarrow> bool" where
  "starts_with_2 n \<longleftrightarrow> n = 2 \<or> n div 10 = 2 \<or> n div 100 = 2"

text \<open>The endpoints: the outcome of the request is an argument.\<close>

definition node_information :: "(string \<Rightarrow> string option) \<Rightarrow> string \<Rightarrow> middleware_error + response \<Rightarrow> middleware_error + http_bytes" where
  "node_information decode current outcome =
     (case outcome of
        Inl e \<Rightarrow> Inl e
      | Inr r \<Rightarrow> if \<not> starts_with_2 (re_status r) then Inr (re_content r)
                else map_sum MwVersion id (strip_version decode current (re_content r)))"

subsection \<open>Requests to a node\<close>

text \<open>
  The node that a request is for. A sprout becomes a node the first time it is used: \<open>pe_finish\<close> is what constructing the
  node comes to. A call that comes while the sprout is being finished waits for that to end (\<open>None\<close>: no one else
  ends it).
\<close>

datatype peer_phase = Sprout | Finishing | Matured

record 'c peer =
  pe_interface :: "string \<times> nat"
  pe_certificate :: 'c
  pe_phase :: peer_phase
  pe_finish :: "node_error + teacher"
  pe_teacher :: teacher

definition storing_failure :: "(storing_error + unit) \<times> 's \<Rightarrow> (node_error + unit) \<times> 's" where
  "storing_failure = (\<lambda>(r, s). (map_sum (\<lambda>_. OtherNodeError ''certificate'') id r, s))"

text \<open>The storage that the node stores its certificate in is the one of the middleware.\<close>

definition peer_store_function :: "'c cert_io \<Rightarrow> 'c peer \<Rightarrow> 'c cert_store \<Rightarrow> (node_error + unit) \<times> 'c cert_store" where
  "peer_store_function io p store = storing_failure (store_node_certificate io (pe_certificate p) (snd (pe_interface p)) store)"

definition mature :: "'c cert_io \<Rightarrow> 'c peer \<Rightarrow> 'c cert_store \<Rightarrow> ((node_error + unit) \<times> 'c peer \<times> 'c cert_store) option" where
  "mature io p store =
     (case pe_phase p of
        Matured \<Rightarrow> Some (Inr (), p, store)
      | Finishing \<Rightarrow> None
      | Sprout \<Rightarrow>
          (case pe_finish p of
             Inl e \<Rightarrow> Some (Inl e, p\<lparr>pe_phase := Finishing\<rparr>, store)
           | Inr t \<Rightarrow>
               (case peer_store_function io p store of
                  (Inl e, store) \<Rightarrow> Some (Inl e, p\<lparr>pe_phase := Matured, pe_teacher := t\<rparr>, store)
                | (Inr _, store) \<Rightarrow> Some (Inr (), p\<lparr>pe_phase := Matured, pe_teacher := t\<lparr>t_certificate_saved := True\<rparr>\<rparr>, store))))"

text \<open>What the exceptions of a request are to the verification that makes it.\<close>

fun node_error_of :: "middleware_error \<Rightarrow> node_error" where
  "node_error_of MwSSLError = SSLError"
| "node_error_of MwDown = NodeSeemsToBeDown"
| "node_error_of MwUnreachable = Unreachable"
| "node_error_of _ = OtherNodeError ''request''"

text \<open>
  Verification makes a request of its own, for the node's public information, that is exempt from verification. \<open>nw0\<close> is the
  network during that request.
\<close>

definition request_information :: "'c cert_io \<Rightarrow> 'c network \<Rightarrow> (string \<Rightarrow> string option) \<Rightarrow> string \<Rightarrow> string \<times> nat \<Rightarrow> 'c cert_store
    \<Rightarrow> ((middleware_error + http_bytes) \<times> 'c cert_store) option" where
  "request_information io nw decode current interface store =
     map_option (\<lambda>(res, store). (node_information decode current res, store)) (exempt_request io nw (fst interface) (snd interface) store)"

definition verify_peer :: "'c cert_io \<Rightarrow> 'c network \<Rightarrow> (string \<Rightarrow> string option) \<Rightarrow> string \<Rightarrow> (http_bytes \<Rightarrow> sprout option)
    \<Rightarrow> application_agent option \<Rightarrow> 'c peer \<Rightarrow> 'c cert_store \<Rightarrow> ((node_error + unit) \<times> 'c peer \<times> 'c cert_store) option" where
  "verify_peer io nw0 decode current from_metadata_bytes registry p store =
     map_option (\<lambda>(res, t, store). (map_sum id (\<lambda>_. ()) res, p\<lparr>pe_teacher := t\<rparr>, store))
       (verify_node (peer_store_function io p)
          (\<lambda>store. map_option (\<lambda>(res, store). (map_sum node_error_of id res, store))
             (request_information io nw0 decode current (pe_interface p) store))
          from_metadata_bytes registry False (pe_teacher p) store)"

definition method_wrapper :: "'c cert_io \<Rightarrow> 'c network \<Rightarrow> 'c network \<Rightarrow> (string \<Rightarrow> string option) \<Rightarrow> string \<Rightarrow> (http_bytes \<Rightarrow> sprout option)
    \<Rightarrow> application_agent option \<Rightarrow> 'c peer option \<Rightarrow> string \<Rightarrow> nat \<Rightarrow> 'c cert_store
    \<Rightarrow> ((middleware_error + response) \<times> 'c peer option \<times> 'c cert_store) option" where
  "method_wrapper io nw0 nw decode current from_metadata_bytes registry node host port store =
     (case node of
        None \<Rightarrow> map_option (\<lambda>(res, store). (res, None, store)) (exempt_request io nw host port store)
      | Some p \<Rightarrow>
          (case mature io p store of
             None \<Rightarrow> None
           | Some (Inl e, p, store) \<Rightarrow> Some (Inl (MwVerification e), Some p, store)
           | Some (Inr _, p, store) \<Rightarrow>
               (case verify_peer io nw0 decode current from_metadata_bytes registry p store of
                  None \<Rightarrow> None
                | Some (Inl e, p, store) \<Rightarrow> Some (Inl (MwVerification e), Some p, store)
                | Some (Inr _, p, store) \<Rightarrow>
                    (case parse_node_or_host_and_port (Some (pe_interface p)) host port of
                       Inl e \<Rightarrow> Some (Inl e, Some p, store)
                     | Inr interface \<Rightarrow>
                         map_option (\<lambda>(res, store). (res, Some p, store)) (perform_request io nw interface store)))))"

subsection \<open>Answers\<close>

definition get_nodes_via_rest :: "(string \<Rightarrow> string option) \<Rightarrow> string \<Rightarrow> middleware_error + response \<Rightarrow> middleware_error + response" where
  "get_nodes_via_rest decode current outcome =
     (case outcome of
        Inl e \<Rightarrow> Inl e
      | Inr r \<Rightarrow> if \<not> starts_with_2 (re_status r) then Inr r
                else (case strip_version decode current (re_content r) of
                        Inl e \<Rightarrow> Inl (MwVersion e)
                      | Inr payload \<Rightarrow> Inr (r\<lparr>re_content := payload\<rparr>)))"

text \<open>\<open>json b\<close>: the version in the body of a ping, \<open>None\<close> when the body is not JSON.\<close>

definition ping :: "(http_bytes \<Rightarrow> string option option) \<Rightarrow> string \<Rightarrow> middleware_error + response \<Rightarrow> middleware_error + response" where
  "ping json current outcome =
     (case outcome of
        Inl e \<Rightarrow> Inl e
      | Inr r \<Rightarrow> if \<not> starts_with_2 (re_status r) then Inr r
                else (case json (re_content r) of
                        None \<Rightarrow> Inl (MwVersion VersionMismatch)
                      | Some ver \<Rightarrow>
                          (case check_version current ver of
                             Inl e \<Rightarrow> Inl (MwVersion e)
                           | Inr False \<Rightarrow> Inl (MwVersion VersionMismatch)
                           | Inr True \<Rightarrow> Inr r)))"


subsection \<open>Splitting off the version\<close>

text \<open>The separator does not overlap with itself, so it is found where it was put.\<close>

definition unbordered :: "string \<Rightarrow> bool" where
  "unbordered sep \<longleftrightarrow> (\<forall>j \<in> {1..<length sep}. take j sep \<noteq> drop (length sep - j) sep)"

lemma symbol_unbordered: "unbordered check_version_pickle_symbol" "check_version_pickle_symbol \<noteq> []"
proof -
  have "list_all (\<lambda>j. take j check_version_pickle_symbol
      \<noteq> drop (length check_version_pickle_symbol - j) check_version_pickle_symbol) [1..<length check_version_pickle_symbol]"
    by code_simp
  then show "unbordered check_version_pickle_symbol" unfolding unbordered_def list_all_iff set_upt .
qed (simp add: check_version_pickle_symbol_def)

lemma split_bytes_none: "sep \<noteq> [] \<Longrightarrow> \<not> sublist sep xs \<Longrightarrow> split_bytes sep xs = [xs]"
proof (induction xs)
  case (Cons x xs)
  then have "\<not> prefix sep (x # xs)" "\<not> sublist sep xs" by (auto simp: sublist_Cons_right)
  with Cons show ?case by (subst split_bytes.simps) simp
qed (subst split_bytes.simps, simp)

lemma unbordered_not_prefix:
  assumes "unbordered sep" "p \<noteq> []" "\<not> prefix sep p"
  shows "\<not> prefix sep (p @ sep @ ys)"
proof
  assume pre: "prefix sep (p @ sep @ ys)"
  from pre assms(3) obtain t where t: "sep = p @ t" "prefix t (sep @ ys)" unfolding prefix_append by blast
  from t(1) assms(3) have nonempty: "t \<noteq> []" by fastforce
  from t(1) assms(2) have shorter: "length t < length sep" by simp
  from t(2) obtain zs where "sep @ ys = t @ zs" unfolding prefix_def by blast
  then have "take (length t) (sep @ ys) = t" by simp
  with shorter have "take (length t) sep = t" by simp
  moreover have "drop (length sep - length t) sep = t" using t(1) by auto
  moreover have "length t \<in> {1..<length sep}" using nonempty shorter by (cases t) auto
  ultimately show False using assms(1) unfolding unbordered_def by fastforce
qed

lemma split_bytes_at:
  assumes "unbordered sep" "sep \<noteq> []" "\<not> sublist sep p"
  shows "split_bytes sep (p @ sep @ ys) = p # split_bytes sep ys"
  using assms(3)
proof (induction p)
  case Nil
  with assms(2) show ?case by (subst split_bytes.simps) simp
next
  case (Cons x p)
  then have here: "\<not> prefix sep (x # p)" and "\<not> sublist sep p" by (auto simp: sublist_Cons_right)
  from unbordered_not_prefix [OF assms(1) _ here, of ys] have "\<not> prefix sep (x # p @ sep @ ys)" by simp
  with Cons.IH \<open>\<not> sublist sep p\<close> show ?case by (subst split_bytes.simps) simp
qed

lemma strip_add_version:
  assumes "\<not> sublist check_version_pickle_symbol payload" "\<not> sublist check_version_pickle_symbol version"
  shows "strip_version decode current (add_version version payload) =
    (case decode version of
       None \<Rightarrow> Inl VersionDecodeError
     | Some v \<Rightarrow> (case check_version current (Some v) of
         Inl e \<Rightarrow> Inl e | Inr False \<Rightarrow> Inl VersionMismatch | Inr True \<Rightarrow> Inr payload))"
  using split_bytes_at [OF symbol_unbordered assms(1)] split_bytes_none [OF symbol_unbordered(2) assms(2)]
  by (simp add: strip_version_def add_version_def)

lemma check_version_same:
  assumes "CHR ''.'' \<in> set v"
  shows "check_version v (Some v) = Inr True"
proof -
  from assms obtain c w where v: "v = c # w" by (cases v) auto
  have "length (split_char (CHR ''.'') v) \<ge> 2"
    using assms
  proof (induction v)
    case (Cons x xs)
    then show ?case using split_char_not_Nil [of "CHR ''.''" xs]
      by (cases "split_char (CHR ''.'') xs") auto
  qed simp
  then show ?thesis by (simp add: check_version_def v Let_def)
qed

subsection \<open>Requests return\<close>

text \<open>
  The frame of a request: entries of the store change only under the port, and only under the common name of a
  certificate in question.
\<close>

definition only_certificates :: "'c cert_io \<Rightarrow> 'c set \<Rightarrow> nat \<Rightarrow> 'c cert_store \<Rightarrow> 'c cert_store \<Rightarrow> bool" where
  "only_certificates io C port store store' \<longleftrightarrow>
     (\<forall>h q. dict_get store' (h, q) \<noteq> dict_get store (h, q) \<longrightarrow> q = port \<and> (\<exists>c \<in> C. ci_common_name io c = Some h))"

definition fetched :: "'c network \<Rightarrow> 'c set" where
  "fetched nw = {c. \<exists>i \<le> RETRY_ATTEMPTS. nw_fetch nw i = CertFetched c}"

lemma only_certificates_refl [simp]: "only_certificates io C port store store"
  by (simp add: only_certificates_def)






lemma get_certificate_timeouts:
  "\<forall>i. current \<le> i \<and> i \<le> retry \<longrightarrow> fetch i = CertTimeout \<Longrightarrow> current \<le> retry
   \<Longrightarrow> get_certificate io fetch port retry current store = Some (Inl CertRefused, store)"
proof (induction "retry - current" arbitrary: current)
  case 0
  then show ?case by (subst get_certificate.simps) simp
next
  case (Suc n)
  then have "get_certificate io fetch port retry (Suc current) store = Some (Inl CertRefused, store)" by simp
  with Suc.prems Suc.hyps(2) show ?case by (subst get_certificate.simps) simp
qed



text \<open>What a request promises of its result and of the store.\<close>

definition request_ok :: "'c network \<Rightarrow> middleware_error + response \<Rightarrow> bool" where
  "request_ok nw res \<longleftrightarrow> (\<forall>r. res = Inr r \<longrightarrow> re_status r < 300)
     \<and> (\<forall>n. res = Inl (MwUnexpectedResponse n) \<longrightarrow> n \<ge> 300 \<and> n \<notin> {400, 402, 403, 404})
     \<and> (res = Inl MwSSLError \<longrightarrow> (\<exists>c \<in> fetched nw. nw_send nw c = SendSSLError))"

lemma request_ok_early [simp]: "request_ok nw (Inl MwValueError)" "request_ok nw (Inl (MwVerification e))"
  by (simp_all add: request_ok_def)











text \<open>A sprout that could not be finished stays in the middle: the next request to it never returns.\<close>

lemma failed_sprout_blocks:
  assumes "pe_phase p = Sprout" "pe_finish p = Inl e"
  shows "\<exists>p'. method_wrapper io nw0 nw decode current from_bytes registry (Some p) host port store = Some (Inl (MwVerification e), Some p', store)
    \<and> method_wrapper io nw0 nw decode current from_bytes registry (Some p') host port store = None"
  using assms by (simp add: method_wrapper_def mature_def)

subsection \<open>A payload with the separator in it\<close>

lemma split_bytes_not_Nil: "split_bytes sep xs \<noteq> []"
  by (subst split_bytes.simps) (auto split: list.splits)

lemma split_bytes_Cons:
  assumes "\<not> prefix sep (x # xs)"
  shows "length (split_bytes sep (x # xs)) = length (split_bytes sep xs)"
proof -
  from split_bytes_not_Nil [of sep xs] obtain q qs where q: "split_bytes sep xs = q # qs" by (cases "split_bytes sep xs") auto
  then have "split_bytes sep (x # xs) = (x # q) # qs" by (subst split_bytes.simps) (simp add: assms)
  with q show ?thesis by simp
qed

lemma split_bytes_found:
  assumes "sep \<noteq> []" "sublist sep xs"
  shows "2 \<le> length (split_bytes sep xs)"
  using assms(2)
proof (induction xs)
  case Nil
  with assms(1) show ?case by simp
next
  case (Cons x xs)
  show ?case
  proof (cases "prefix sep (x # xs)")
    case True
    with assms(1) show ?thesis
      using split_bytes_not_Nil [of sep "drop (length sep) (x # xs)"]
      by (subst split_bytes.simps) (simp add: Suc_le_eq)
  next
    case False
    with Cons have "sublist sep xs" by (simp add: sublist_Cons_right)
    with Cons.IH split_bytes_Cons [OF False] show ?thesis by simp
  qed
qed

lemma split_bytes_twice:
  assumes "unbordered sep" "sep \<noteq> []" "sublist sep p"
  shows "3 \<le> length (split_bytes sep (p @ sep @ ys))"
  using assms(3)
proof (induction p)
  case Nil
  with assms(2) show ?case by simp
next
  case (Cons x p)
  show ?case
  proof (cases "prefix sep (x # p)")
    case True
    then obtain r where r: "x # p = sep @ r" by (auto simp: prefix_def)
    have "2 \<le> length (split_bytes sep (r @ sep @ ys))" by (rule split_bytes_found [OF assms(2)]) auto
    moreover have "split_bytes sep (sep @ r @ sep @ ys) = [] # split_bytes sep (r @ sep @ ys)"
      using assms(2) by (subst split_bytes.simps) simp
    moreover have "(x # p) @ sep @ ys = sep @ r @ sep @ ys" by (simp add: r)
    ultimately show ?thesis by simp
  next
    case False
    with Cons have "sublist sep p" by (simp add: sublist_Cons_right)
    moreover from unbordered_not_prefix [OF assms(1) _ False, of ys] have "\<not> prefix sep (x # p @ sep @ ys)" by simp
    ultimately show ?thesis using Cons.IH split_bytes_Cons [of sep x "p @ sep @ ys"] by simp
  qed
qed

lemma strip_version_injected:
  assumes "sublist check_version_pickle_symbol payload"
  shows "strip_version decode current (add_version version payload) = Inl VersionAssertion"
proof -
  have "3 \<le> length (split_bytes check_version_pickle_symbol (add_version version payload))"
    unfolding add_version_def by (rule split_bytes_twice [OF symbol_unbordered assms])
  then obtain a b c ps where "split_bytes check_version_pickle_symbol (add_version version payload) = a # b # c # ps"
    by (auto simp: numeral_3_eq_3 Suc_le_length_iff)
  then show ?thesis by (simp add: strip_version_def)
qed

text \<open>
  What a node of the same version sends reaches the client: the answer to a request for metadata or
  public information, which is the payload, the separator and the version, comes out as the
  payload if the separator does not occur in the payload. If it does (a node chooses the bytes of its
  metadata), the client raises \<^verbatim>\<open>AssertionError\<close>, whatever else the answer holds.
\<close>

theorem version_strip_exact:
  assumes "CHR ''.'' \<in> set version" "\<not> sublist check_version_pickle_symbol version" "decode version = Some version"
    and "r = \<lparr>re_status = 200, re_content = add_version version payload\<rparr>"
  shows "get_nodes_via_rest decode version (Inr r) =
      (if sublist check_version_pickle_symbol payload then Inl (MwVersion VersionAssertion) else Inr \<lparr>re_status = 200, re_content = payload\<rparr>)
    \<and> node_information decode version (Inr r) =
      (if sublist check_version_pickle_symbol payload then Inl (MwVersion VersionAssertion) else Inr payload)"
proof -
  have "strip_version decode version (add_version version payload) =
      (if sublist check_version_pickle_symbol payload then Inl VersionAssertion else Inr payload)"
    using assms(2,3) check_version_same [OF assms(1)]
    by (simp add: strip_version_injected strip_add_version)
  then show ?thesis by (simp add: get_nodes_via_rest_def node_information_def starts_with_2_def assms(4))
qed

theorem version_strip_exact_witness:
  "get_nodes_via_rest Some ''0.2.0'' (Inr \<lparr>re_status = 200, re_content = add_version ''0.2.0'' ''m''\<rparr>)
      = Inr \<lparr>re_status = 200, re_content = ''m''\<rparr>
    \<and> node_information Some ''0.2.0'' (Inr \<lparr>re_status = 200, re_content = add_version ''0.2.0'' check_version_pickle_symbol\<rparr>)
      = Inl (MwVersion VersionAssertion)"
proof -
  have s: "CHR ''.'' \<in> set ''0.2.0''" "\<not> sublist check_version_pickle_symbol ''0.2.0''" "\<not> sublist check_version_pickle_symbol ''m''"
    by (auto simp: check_version_pickle_symbol_def sublist_code)
  show ?thesis
    using version_strip_exact [of "''0.2.0''" Some _ "''m''"] version_strip_exact [of "''0.2.0''" Some _ check_version_pickle_symbol] s
    by simp
qed

end
