(* ===== verification/Py_Text.thy ===== *)
theory Py_Text
  imports Nulink_Prelude "HOL-Library.Char_ord" "HOL-Library.Word"
begin

text \<open>
  What the program uses of Python's text and bytes: \<^verbatim>\<open>str\<close> and \<^verbatim>\<open>int\<close> of numbers,
  \<^verbatim>\<open>bytes.hex\<close> and \<^verbatim>\<open>bytes.fromhex\<close>, \<^verbatim>\<open>str.rstrip\<close>, and the round trips between them.
  Bytes are lists of 8-bit words; text is ASCII.
\<close>

subsection \<open>Integers as text\<close>

definition is_digit :: "char \<Rightarrow> bool" where
  "is_digit c \<longleftrightarrow> CHR ''0'' \<le> c \<and> c \<le> CHR ''9''"

definition digit :: "nat \<Rightarrow> char" where
  "digit n = ''0123456789'' ! n"

definition digit_value :: "char \<Rightarrow> nat" where
  "digit_value c = the (map_of (zip ''0123456789'' [0..<10]) c)"

fun show_nat :: "nat \<Rightarrow> string" where
  "show_nat n = (if n < 10 then [digit n] else show_nat (n div 10) @ [digit (n mod 10)])"

declare show_nat.simps [simp del]

definition show_int :: "int \<Rightarrow> string" where
  "show_int i = (if i < 0 then CHR ''-'' # show_nat (nat (- i)) else show_nat (nat i))"

text \<open>Python's \<^verbatim>\<open>int\<close>: blanks around, a sign, and digits with single underscores between them.\<close>

fun parse_nat :: "nat \<Rightarrow> bool \<Rightarrow> string \<Rightarrow> nat option" where
  "parse_nat acc after_digit [] = (if after_digit then Some acc else None)"
| "parse_nat acc after_digit (c # cs) =
     (if is_digit c then parse_nat (acc * 10 + digit_value c) True cs
      else if c = CHR ''_'' \<and> after_digit then parse_nat acc False cs
      else None)"

definition is_blank :: "char \<Rightarrow> bool" where
  "is_blank c \<longleftrightarrow> c \<in> {CHR '' '', CHR 0x09, CHR 0x0A, CHR 0x0B, CHR 0x0C, CHR 0x0D, CHR 0x1C, CHR 0x1D, CHR 0x1E, CHR 0x1F}"

definition strip_blanks :: "string \<Rightarrow> string" where
  "strip_blanks s = rev (dropWhile is_blank (rev (dropWhile is_blank s)))"

definition parse_int :: "string \<Rightarrow> int option" where
  "parse_int s =
     (case strip_blanks s of
        c # cs \<Rightarrow>
          if c = CHR ''-'' then map_option (\<lambda>n. - int n) (parse_nat 0 False cs)
          else if c = CHR ''+'' then map_option int (parse_nat 0 False cs)
          else map_option int (parse_nat 0 False (c # cs))
      | [] \<Rightarrow> None)"

lemma digit_facts:
  assumes "n < 10"
  shows "is_digit (digit n)" "digit_value (digit n) = n" "digit n \<notin> {CHR ''-'', CHR ''+'', CHR '':'', CHR ''_''}" "\<not> is_blank (digit n)"
proof -
  have all: "list_all (\<lambda>n. is_digit (digit n) \<and> digit_value (digit n) = n \<and> digit n \<notin> {CHR ''-'', CHR ''+'', CHR '':'', CHR ''_''}
      \<and> \<not> is_blank (digit n)) [0..<10]" by code_simp
  with assms show "is_digit (digit n)" "digit_value (digit n) = n" "digit n \<notin> {CHR ''-'', CHR ''+'', CHR '':'', CHR ''_''}" "\<not> is_blank (digit n)"
    unfolding list_all_iff by auto
qed

lemma digit_char:
  assumes "c \<in> digit ` {..<10}"
  shows "is_digit c" "c \<noteq> CHR ''-''" "c \<noteq> CHR ''+''" "c \<noteq> CHR '':''" "\<not> is_blank c"
  using assms digit_facts by auto

lemma show_nat_digits: "set (show_nat n) \<subseteq> digit ` {..<10}" "show_nat n \<noteq> []"
proof (induction n rule: show_nat.induct)
  case (1 n)
  { case 1 then show ?case using "1.IH"(1) by (subst show_nat.simps) auto
  next case 2 then show ?case by (subst show_nat.simps) simp }
qed

definition decimal :: "nat \<Rightarrow> string \<Rightarrow> nat" where
  "decimal = foldl (\<lambda>acc c. acc * 10 + digit_value c)"

lemma decimal_show_nat: "decimal 0 (show_nat n) = n"
proof (induction n rule: show_nat.induct)
  case (1 n)
  then show ?case by (subst show_nat.simps) (simp add: decimal_def digit_facts)
qed

lemma parse_nat_digits: "set cs \<subseteq> digit ` {..<10} \<Longrightarrow> cs \<noteq> [] \<or> after \<Longrightarrow> parse_nat acc after cs = Some (decimal acc cs)"
proof (induction cs arbitrary: acc after)
  case (Cons c cs)
  then have "is_digit c" by (intro digit_char) simp
  with Cons show ?case by (simp add: decimal_def)
qed (simp add: decimal_def)

lemma strip_blanks_none:
  assumes "\<forall>c \<in> set s. \<not> is_blank c"
  shows "strip_blanks s = s"
proof -
  have "dropWhile is_blank s = s" "dropWhile is_blank (rev s) = rev s"
    using assms hd_in_set [of s] hd_in_set [of "rev s"] by (auto simp: dropWhile_eq_self_iff)
  then show ?thesis by (simp add: strip_blanks_def)
qed

lemma parse_show_int: "parse_int (show_int i) = Some i"
proof -
  have n: "parse_nat 0 False (show_nat m) = Some m" for m
    using parse_nat_digits [OF show_nat_digits(1), of m False 0] show_nat_digits(2) by (simp add: decimal_show_nat)
  have chars: "c \<in> digit ` {..<10}" if "c \<in> set (show_nat m)" for c m using that show_nat_digits(1) by blast
  have "\<not> is_blank CHR ''-''" by (simp add: is_blank_def)
  then have clean: "strip_blanks (show_nat m) = show_nat m" "strip_blanks (CHR ''-'' # show_nat m) = CHR ''-'' # show_nat m" for m
    using digit_char(5) [OF chars] by (auto intro!: strip_blanks_none)
  show ?thesis
  proof (cases "i < 0")
    case True
    then show ?thesis by (simp add: show_int_def parse_int_def clean n)
  next
    case False
    obtain c cs where c: "show_nat (nat i) = c # cs" using show_nat_digits(2) [of "nat i"] by (cases "show_nat (nat i)") auto
    then have "c \<noteq> CHR ''-''" "c \<noteq> CHR ''+''" using digit_char(2,3) [OF chars] by (metis list.set_intros(1))+
    with False n [of "nat i"] clean(1) [of "nat i"] c show ?thesis by (simp add: show_int_def parse_int_def)
  qed
qed

lemma show_int_no_colon: "CHR '':'' \<notin> set (show_int i)"
  using show_nat_digits(1) digit_char(4) by (auto simp: show_int_def)

subsection \<open>Bytes as hexadecimal text\<close>

type_synonym bytes = "8 word list"

definition hex_digits :: string where
  "hex_digits = ''0123456789abcdef''"

text \<open>Python's \<^verbatim>\<open>string.hexdigits\<close>.\<close>

definition string_hexdigits :: string where
  "string_hexdigits = ''0123456789abcdefABCDEF''"

definition hex_char :: "nat \<Rightarrow> char" where
  "hex_char n = hex_digits ! n"

definition hex_value :: "char \<Rightarrow> nat option" where
  "hex_value c = map_of (zip string_hexdigits ([0..<16] @ [10..<16])) c"

text \<open>Python's \<^verbatim>\<open>bytes.hex\<close>.\<close>

fun hex :: "bytes \<Rightarrow> string" where
  "hex [] = []"
| "hex (b # bs) = hex_char (unat b div 16) # hex_char (unat b mod 16) # hex bs"

text \<open>Python's \<^verbatim>\<open>bytes.fromhex\<close>: blanks may stand between bytes, anything else is a \<^verbatim>\<open>ValueError\<close>.\<close>

definition hex_blank :: "char \<Rightarrow> bool" where
  "hex_blank c \<longleftrightarrow> c \<in> {CHR '' '', CHR 0x09, CHR 0x0A, CHR 0x0B, CHR 0x0C, CHR 0x0D}"

fun fromhex :: "string \<Rightarrow> bytes option" where
  "fromhex [] = Some []"
| "fromhex [c] = (if hex_blank c then Some [] else None)"
| "fromhex (c # d # cs) =
     (if hex_blank c then fromhex (d # cs)
      else case (hex_value c, hex_value d) of
             (Some h, Some l) \<Rightarrow> map_option (Cons (word_of_nat (h * 16 + l))) (fromhex cs)
           | _ \<Rightarrow> None)"

lemma hex_char_facts:
  assumes "n < 16"
  shows "hex_value (hex_char n) = Some n" "\<not> hex_blank (hex_char n)" "hex_char n \<in> set hex_digits"
proof -
  have "list_all (\<lambda>n. hex_value (hex_char n) = Some n \<and> \<not> hex_blank (hex_char n) \<and> hex_char n \<in> set hex_digits) [0..<16]"
    by code_simp
  with assms show "hex_value (hex_char n) = Some n" "\<not> hex_blank (hex_char n)" "hex_char n \<in> set hex_digits"
    unfolding list_all_iff by auto
qed

lemma byte_nibbles: "unat (b :: 8 word) div 16 < 16" "unat b mod 16 < 16"
proof -
  have "unat b < 2 ^ LENGTH(8)" by (rule unsigned_less)
  then have "unat b < 256" by simp
  then show "unat b div 16 < 16" "unat b mod 16 < 16" by auto
qed

lemma fromhex_hex [simp]: "fromhex (hex bs) = Some bs"
  by (induction bs) (simp_all add: hex_char_facts byte_nibbles)

lemma length_hex [simp]: "length (hex bs) = 2 * length bs"
  by (induction bs) simp_all

lemma hex_chars: "set (hex bs) \<subseteq> set hex_digits"
  by (induction bs) (simp_all add: hex_char_facts byte_nibbles)

lemma hex_digits_subset: "set hex_digits \<subseteq> set string_hexdigits"
  by code_simp

subsection \<open>Stripping\<close>

text \<open>Python's \<^verbatim>\<open>sub in s\<close>.\<close>

fun contains_text :: "string \<Rightarrow> string \<Rightarrow> bool" where
  "contains_text sub [] \<longleftrightarrow> sub = []"
| "contains_text sub (c # cs) \<longleftrightarrow> take (length sub) (c # cs) = sub \<or> contains_text sub cs"

text \<open>Python's \<^verbatim>\<open>s.rstrip(chars)\<close>: every trailing character of the set goes.\<close>

definition rstrip :: "string \<Rightarrow> string \<Rightarrow> string" where
  "rstrip chars s = rev (dropWhile (\<lambda>c. c \<in> set chars) (rev s))"

lemma rstrip_append: "set t \<subseteq> set chars \<Longrightarrow> rstrip chars (s @ t) = rstrip chars s"
  by (induction t arbitrary: s rule: rev_induct) (auto simp: rstrip_def simp flip: append_assoc)

lemma rstrip_id: "s \<noteq> [] \<Longrightarrow> last s \<notin> set chars \<Longrightarrow> rstrip chars s = s"
  by (cases s rule: rev_cases) (simp_all add: rstrip_def)

text \<open>\<^verbatim>\<open>str.encode()\<close> of ASCII text.\<close>

definition encode :: "string \<Rightarrow> bytes" where
  "encode = map (\<lambda>c. word_of_nat (of_char c))"

lemma encode_inject [simp]: "encode s = encode t \<longleftrightarrow> s = t"
proof -
  have "unat (word_of_nat (of_char c) :: 8 word) = of_char c" for c
    using of_char_mod_256 [of c, where ?'a = nat] by (simp add: unsigned_of_nat take_bit_eq_mod)
  then have "inj (\<lambda>c. word_of_nat (of_char c) :: 8 word)"
    by (metis (mono_tags, lifting) injI of_char_eq_iff)
  then show ?thesis by (simp add: encode_def inj_map_eq_map)
qed

end
