(* ===== verification/Datastore.thy ===== *)
theory Datastore
  imports Py_Text "HOL-Library.List_Lexorder" "HOL-Library.Sublist"
begin

text \<open>
  Records over an ordered key-value store: \<^verbatim>\<open>nulink/datastore/\<close>.

  The store (LMDB) is a list of entries in the order of their keys. A transaction works on a copy that is
  kept when the body returns and dropped when it raises. What a body does with its record is a list
  of reads and writes. Packing a value and whether the store takes a write are parameters; text is ASCII.
\<close>

subsection \<open>Keys\<close>

text \<open>A part of a key, or the id of a record.\<close>

datatype key_part = StrPart string | IntPart int

definition to_int_part :: "string \<Rightarrow> key_part" where
  "to_int_part s = (case parse_int s of Some i \<Rightarrow> IntPart i | None \<Rightarrow> StrPart s)"

fun show_part :: "key_part \<Rightarrow> string" where
  "show_part (StrPart s) = s"
| "show_part (IntPart i) = show_int i"

record datastore_key =
  record_type :: "key_part option"
  record_field :: "key_part option"
  record_id :: "key_part option"

text \<open>\<open>None\<close>: more than three parts, which the constructor refuses with \<^verbatim>\<open>TypeError\<close>.\<close>

definition from_bytestring :: "string \<Rightarrow> datastore_key option" where
  "from_bytestring key_bytestring =
     (let key_parts = split_char (CHR '':'') key_bytestring;
          key_parts = map StrPart (butlast key_parts) @ [to_int_part (last key_parts)]
      in case key_parts of
           [t] \<Rightarrow> Some \<lparr>record_type = Some t, record_field = None, record_id = None\<rparr>
         | [t, f] \<Rightarrow> Some \<lparr>record_type = Some t, record_field = Some f, record_id = None\<rparr>
         | [t, f, i] \<Rightarrow> Some \<lparr>record_type = Some t, record_field = Some f, record_id = Some i\<rparr>
         | _ \<Rightarrow> None)"

text \<open>Python's \<^verbatim>\<open>or\<close> on parts of keys.\<close>

definition or_part :: "key_part option \<Rightarrow> key_part option \<Rightarrow> key_part option" where
  "or_part a b = (if a = None \<or> a = Some (StrPart '''') \<or> a = Some (IntPart 0) then b else a)"

definition compare_key :: "datastore_key \<Rightarrow> string \<Rightarrow> bool option" where
  "compare_key k key_bytestring =
     (case from_bytestring key_bytestring of
        None \<Rightarrow> None
      | Some other_key \<Rightarrow> Some (
          record_type k = or_part (record_type other_key) (record_type k)
          \<and> record_field k = or_part (record_field other_key) (record_field k)
          \<and> record_id k = or_part (record_id other_key) (record_id k)))"

subsection \<open>The store\<close>

type_synonym store = "(string \<times> string) list"

fun db_put :: "string \<Rightarrow> string \<Rightarrow> store \<Rightarrow> store" where
  "db_put k v [] = [(k, v)]"
| "db_put k v ((k', v') # db) =
     (if k < k' then (k, v) # (k', v') # db else if k = k' then (k, v) # db else (k', v') # db_put k v db)"

definition db_delete :: "string \<Rightarrow> store \<Rightarrow> store" where
  "db_delete k db = filter (\<lambda>(k', _). k' \<noteq> k) db"

definition db_get :: "string \<Rightarrow> store \<Rightarrow> string option" where
  "db_get k db = map_of db k"

text \<open>The entries from the first key that is not below \<open>k\<close>.\<close>

definition set_range :: "string \<Rightarrow> store \<Rightarrow> store" where
  "set_range k db = dropWhile (\<lambda>(k', _). k' < k) db"

text \<open>The size of the map: not more than the disk allows, and refused below 10 GB.\<close>

definition LMDB_MAP_SIZE :: int where "LMDB_MAP_SIZE = 50000000000"

definition datastore_map_size :: "int option \<Rightarrow> int \<Rightarrow> int option" where
  "datastore_map_size map_size disk_available_bytes =
     (let map_size = (case map_size of None \<Rightarrow> LMDB_MAP_SIZE | Some n \<Rightarrow> if n = 0 then LMDB_MAP_SIZE else n);
          map_size = (if map_size < disk_available_bytes then map_size else disk_available_bytes - 10000000000)
      in if map_size < 10000000000 then None else Some map_size)"

subsection \<open>Records\<close>

datatype tx_error = AttributeError | TypeError | DBWriteError | OtherException string

text \<open>The type check of a field, packing after encoding, and decoding after unpacking.\<close>

record 'v record_field_spec =
  rf_field_type :: "'v \<Rightarrow> bool"
  rf_pack :: "'v \<Rightarrow> tx_error + string"
  rf_unpack :: "string \<Rightarrow> tx_error + 'v"

record 'v record_class =
  rc_name :: string
  rc_fields :: "(string, 'v record_field_spec) dict"

definition storagekey :: "string \<Rightarrow> string \<Rightarrow> key_part \<Rightarrow> string" where
  "storagekey name field rid = name @ '':'' @ field @ '':'' @ show_part rid"

definition setattr :: "(string \<Rightarrow> string \<Rightarrow> bool) \<Rightarrow> 'v record_class \<Rightarrow> key_part \<Rightarrow> bool \<Rightarrow> string \<Rightarrow> 'v option \<Rightarrow> store
    \<Rightarrow> (tx_error + unit) \<times> store" where
  "setattr takes rc rid writeable attr val db =
     (if \<not> writeable then (Inl TypeError, db)
      else case dict_get (rc_fields rc) attr of
             None \<Rightarrow> (Inl TypeError, db)
           | Some rf \<Rightarrow>
               (let key = storagekey (rc_name rc) attr rid
                in case val of
                     None \<Rightarrow> (Inr (), db_delete key db)
                   | Some v \<Rightarrow>
                       if \<not> rf_field_type rf v then (Inl TypeError, db)
                       else (case rf_pack rf v of
                               Inl e \<Rightarrow> (Inl e, db)
                             | Inr field_value \<Rightarrow>
                                 if takes key field_value then (Inr (), db_put key field_value db) else (Inl DBWriteError, db))))"

definition getattr :: "'v record_class \<Rightarrow> key_part \<Rightarrow> store \<Rightarrow> string \<Rightarrow> tx_error + 'v" where
  "getattr rc rid db attr =
     (if attr \<noteq> '''' \<and> hd attr = CHR ''_'' then Inl AttributeError
      else case dict_get (rc_fields rc) attr of
             None \<Rightarrow> Inl TypeError
           | Some rf \<Rightarrow>
               (case db_get (storagekey (rc_name rc) attr rid) db of
                  None \<Rightarrow> Inl AttributeError
                | Some raw \<Rightarrow>
                    (case rf_unpack rf raw of
                       Inl e \<Rightarrow> Inl e
                     | Inr v \<Rightarrow> if rf_field_type rf v then Inr v else Inl TypeError)))"

text \<open>The body of a \<^verbatim>\<open>with\<close> statement: writes, reads, and exceptions of its own.\<close>

datatype 'v command = SetField string "'v option" | GetField string | Raise tx_error

fun run_body :: "(string \<Rightarrow> string \<Rightarrow> bool) \<Rightarrow> 'v record_class \<Rightarrow> key_part \<Rightarrow> bool \<Rightarrow> 'v command list \<Rightarrow> store
    \<Rightarrow> (tx_error + 'v list) \<times> store" where
  "run_body takes rc rid writeable [] db = (Inr [], db)"
| "run_body takes rc rid writeable (SetField attr v # cs) db =
     (case setattr takes rc rid writeable attr v db of
        (Inl e, db) \<Rightarrow> (Inl e, db)
      | (Inr _, db) \<Rightarrow> run_body takes rc rid writeable cs db)"
| "run_body takes rc rid writeable (GetField attr # cs) db =
     (case getattr rc rid db attr of
        Inl e \<Rightarrow> (Inl e, db)
      | Inr v \<Rightarrow>
          (case run_body takes rc rid writeable cs db of
             (Inl e, db) \<Rightarrow> (Inl e, db)
           | (Inr vs, db) \<Rightarrow> (Inr (v # vs), db)))"
| "run_body takes rc rid writeable (Raise e # cs) db = (Inl e, db)"

text \<open>Deleting a record sets every field of its class to \<^verbatim>\<open>None\<close>.\<close>

definition delete_record :: "'v record_class \<Rightarrow> 'v command list" where
  "delete_record rc = map (\<lambda>field. SetField field None) (dict_keys (rc_fields rc))"

datatype datastore_error = RecordNotFound | DatastoreTransactionError | Propagated tx_error

definition transaction_error :: "bool \<Rightarrow> tx_error \<Rightarrow> datastore_error" where
  "transaction_error writeable e =
     (if e \<in> {AttributeError, TypeError, DBWriteError}
      then (if \<not> writeable \<and> e = AttributeError then RecordNotFound else DatastoreTransactionError)
      else Propagated e)"

text \<open>An id that can be an integer is one.\<close>

definition normal_id :: "key_part \<Rightarrow> key_part" where
  "normal_id rid = (case rid of StrPart s \<Rightarrow> to_int_part s | IntPart i \<Rightarrow> IntPart i)"

definition describe_record :: "(string \<Rightarrow> string \<Rightarrow> bool) \<Rightarrow> 'v record_class \<Rightarrow> key_part \<Rightarrow> bool \<Rightarrow> 'v command list \<Rightarrow> store
    \<Rightarrow> (datastore_error + 'v list) \<times> store" where
  "describe_record takes rc rid writeable body db =
     (case run_body takes rc (normal_id rid) writeable body db of
        (Inr vs, db') \<Rightarrow> (Inr vs, db')
      | (Inl e, _) \<Rightarrow> (Inl (transaction_error writeable e), db))"

subsection \<open>Queries\<close>

text \<open>
  The filter gets the value of the field when there is one, else the record, which is read through its
  attributes. The loop over the keys; records are compared by their ids.
\<close>

type_synonym 'v filter_func = "('v + (string \<Rightarrow> tx_error + 'v)) \<Rightarrow> bool"

definition passes :: "'v record_class \<Rightarrow> store \<Rightarrow> 'v filter_func option \<Rightarrow> string \<Rightarrow> key_part \<Rightarrow> bool option" where
  "passes rc db filter_func filter_field rid =
     (case filter_func of
        None \<Rightarrow> Some True
      | Some p \<Rightarrow>
          if filter_field \<noteq> ''''
          then (case getattr rc rid db filter_field of
                  Inr v \<Rightarrow> Some (p (Inl v))
                | Inl (OtherException _) \<Rightarrow> None
                | Inl DBWriteError \<Rightarrow> None
                | Inl _ \<Rightarrow> Some False)
          else Some (p (Inr (getattr rc rid db))))"

text \<open>\<open>None\<close>: an exception that is not about the query (a malformed key, a value that cannot be unpacked).\<close>

fun query_loop :: "'v record_class \<Rightarrow> store \<Rightarrow> 'v filter_func option \<Rightarrow> string \<Rightarrow> string \<Rightarrow> string list \<Rightarrow> key_part list
    \<Rightarrow> key_part list option" where
  "query_loop rc db filter_func filter_field query_key [] valid = Some valid"
| "query_loop rc db filter_func filter_field query_key (db_key # ks) valid =
     (case from_bytestring db_key of
        None \<Rightarrow> None
      | Some curr_key \<Rightarrow>
          (case compare_key curr_key query_key of
             None \<Rightarrow> None
           | Some False \<Rightarrow> Some valid
           | Some True \<Rightarrow>
               (case record_id curr_key of
                  None \<Rightarrow> None
                | Some rid \<Rightarrow>
                    if rid \<in> set valid then query_loop rc db filter_func filter_field query_key ks valid
                    else (case passes rc db filter_func filter_field rid of
                            None \<Rightarrow> None
                          | Some False \<Rightarrow> query_loop rc db filter_func filter_field query_key ks valid
                          | Some True \<Rightarrow> query_loop rc db filter_func filter_field query_key ks (valid @ [rid])))))"

datatype query_result = QueryNotFound | QueryRaises | QueryRecords "key_part list"

definition query_by :: "'v record_class \<Rightarrow> 'v filter_func option \<Rightarrow> string \<Rightarrow> store \<Rightarrow> query_result" where
  "query_by rc filter_func filter_field db =
     (let query_key = rc_name rc @ '':'' @ filter_field
      in case set_range query_key db of
           [] \<Rightarrow> QueryNotFound
         | (k, _) # rest \<Rightarrow>
             (case from_bytestring k of
                None \<Rightarrow> QueryRaises
              | Some curr_key \<Rightarrow>
                  (case compare_key curr_key query_key of
                     None \<Rightarrow> QueryRaises
                   | Some False \<Rightarrow> QueryNotFound
                   | Some True \<Rightarrow>
                       (case query_loop rc db filter_func filter_field query_key (k # map fst rest) [] of
                          None \<Rightarrow> QueryRaises
                        | Some [] \<Rightarrow> QueryNotFound
                        | Some ids \<Rightarrow> QueryRecords ids))))"

text \<open>\<^verbatim>\<open>unwrap_records\<close> and \<^verbatim>\<open>get_reencryption_requests\<close>.\<close>

definition get_reencryption_requests :: "'v record_class \<Rightarrow> store \<Rightarrow> key_part list option" where
  "get_reencryption_requests rc db =
     (case query_by rc None '''' db of QueryNotFound \<Rightarrow> Some [] | QueryRaises \<Rightarrow> None | QueryRecords ids \<Rightarrow> Some ids)"


subsection \<open>Keys of records\<close>

text \<open>The class, field and id of a record as the store sees them: no colons, and an id that is an integer where it can be.\<close>

definition wf_key :: "string \<Rightarrow> string \<Rightarrow> key_part \<Rightarrow> bool" where
  "wf_key name field rid \<longleftrightarrow> CHR '':'' \<notin> set name \<and> CHR '':'' \<notin> set field \<and> CHR '':'' \<notin> set (show_part rid) \<and> normal_id rid = rid"

lemma to_int_part_show: "normal_id rid = rid \<Longrightarrow> to_int_part (show_part rid) = rid"
  by (cases rid) (auto simp: normal_id_def to_int_part_def parse_show_int)

lemma normal_id_idem [simp]: "normal_id (normal_id rid) = normal_id rid"
  by (cases rid) (auto simp: normal_id_def to_int_part_def split: option.splits)

lemma split_storagekey:
  assumes "wf_key name field rid"
  shows "split_char (CHR '':'') (storagekey name field rid) = [name, field, show_part rid]"
  using assms by (simp add: wf_key_def storagekey_def split_char_append split_char_absent)

lemma from_storagekey:
  assumes "wf_key name field rid"
  shows "from_bytestring (storagekey name field rid) =
    Some \<lparr>record_type = Some (StrPart name), record_field = Some (StrPart field), record_id = Some rid\<rparr>"
  using assms by (simp add: from_bytestring_def split_storagekey to_int_part_show wf_key_def)

lemma storagekey_inj:
  assumes "wf_key name field rid" "wf_key name' field' rid'" "storagekey name field rid = storagekey name' field' rid'"
  shows "name = name' \<and> field = field' \<and> rid = rid'"
proof -
  from assms(3) have "from_bytestring (storagekey name field rid) = from_bytestring (storagekey name' field' rid')" by simp
  then show ?thesis unfolding from_storagekey [OF assms(1)] from_storagekey [OF assms(2)] by simp
qed

subsection \<open>The store as a map\<close>

text \<open>What records rely on of the store, and a few consequences.\<close>

locale key_value_store =
  fixes get :: "'k \<Rightarrow> 's \<Rightarrow> 'v option" and put :: "'k \<Rightarrow> 'v \<Rightarrow> 's \<Rightarrow> 's" and del :: "'k \<Rightarrow> 's \<Rightarrow> 's" and ok :: "'s \<Rightarrow> bool"
  assumes get_put: "ok s \<Longrightarrow> get k' (put k v s) = (if k' = k then Some v else get k' s)"
    and get_del: "ok s \<Longrightarrow> get k' (del k s) = (if k' = k then None else get k' s)"
    and ok_put: "ok s \<Longrightarrow> ok (put k v s)"
    and ok_del: "ok s \<Longrightarrow> ok (del k s)"
begin

lemma overwrite: "ok s \<Longrightarrow> get k' (put k v (put k w s)) = get k' (put k v s)"
  by (simp add: get_put ok_put)

lemma put_commute: "ok s \<Longrightarrow> k \<noteq> j \<Longrightarrow> get i (put k v (put j w s)) = get i (put j w (put k v s))"
  by (simp add: get_put ok_put)

lemma delete_written: "ok s \<Longrightarrow> get k' (del k (put k v s)) = get k' (del k s)"
  by (simp add: get_put get_del ok_put)

end

abbreviation ordered :: "store \<Rightarrow> bool" where
  "ordered db \<equiv> sorted_wrt (<) (map fst db)"

lemma keys_db_put: "fst ` set (db_put k v db) = insert k (fst ` set db)"
  by (induction k v db rule: db_put.induct) auto

lemma ordered_db_put: "ordered db \<Longrightarrow> ordered (db_put k v db)"
proof (induction k v db rule: db_put.induct)
  case (2 k v k' v' db)
  then have "k' < x" if "x \<in> fst ` set (db_put k v db)" "\<not> k < k'" "k \<noteq> k'" for x
    using that by (auto simp: keys_db_put)
  with 2 show ?case by fastforce
qed simp

lemma ordered_db_delete: "ordered db \<Longrightarrow> ordered (db_delete k db)"
  unfolding db_delete_def sorted_wrt_map by (rule sorted_wrt_filter)

lemma db_get_put: "db_get k' (db_put k v db) = (if k' = k then Some v else db_get k' db)"
  by (induction k v db rule: db_put.induct) (auto simp: db_get_def)

lemma db_get_delete: "db_get k' (db_delete k db) = (if k' = k then None else db_get k' db)"
  unfolding db_get_def db_delete_def by (induction db) auto

interpretation lmdb: key_value_store db_get db_put db_delete ordered
  by unfold_locales (simp_all add: db_get_put db_get_delete ordered_db_put ordered_db_delete)


subsection \<open>Transactions\<close>

definition wf_class :: "'v record_class \<Rightarrow> bool" where
  "wf_class rc \<longleftrightarrow> rc_name rc \<noteq> '''' \<and> CHR '':'' \<notin> set (rc_name rc) \<and> (\<forall>f \<in> set (dict_keys (rc_fields rc)). CHR '':'' \<notin> set f)"

text \<open>The store is in order and holds keys of records only.\<close>

definition store_ok :: "store \<Rightarrow> bool" where
  "store_ok db \<longleftrightarrow> ordered db \<and> (\<forall>k \<in> fst ` set db. \<exists>name field rid. wf_key name field rid \<and> k = storagekey name field rid)"

text \<open>What a write may do to the store.\<close>

definition only_record :: "'v record_class \<Rightarrow> key_part \<Rightarrow> store \<Rightarrow> store \<Rightarrow> bool" where
  "only_record rc rid db db' \<longleftrightarrow>
     (\<forall>k. (\<forall>f \<in> set (dict_keys (rc_fields rc)). k \<noteq> storagekey (rc_name rc) f rid) \<longrightarrow> db_get k db' = db_get k db)
     \<and> (store_ok db \<and> wf_class rc \<and> CHR '':'' \<notin> set (show_part rid) \<and> normal_id rid = rid \<longrightarrow> store_ok db')"

lemma only_record_refl [simp]: "only_record rc rid db db"
  by (simp add: only_record_def)

lemma only_record_trans: "only_record rc rid a b \<Longrightarrow> only_record rc rid b c \<Longrightarrow> only_record rc rid a c"
  unfolding only_record_def by metis

lemma setattr_only:
  assumes "setattr takes rc rid writeable attr v db = (r, db')"
  shows "only_record rc rid db db'" "\<not> writeable \<Longrightarrow> db' = db"
proof -
  let ?k = "storagekey (rc_name rc) attr rid"
  consider "db' = db" | "attr \<in> set (dict_keys (rc_fields rc))" "db' = db_delete ?k db \<or> (\<exists>b. db' = db_put ?k b db)"
    using assms by (auto simp: setattr_def Let_def weak_map_of_SomeI dest!: map_of_SomeD
        split: if_splits option.splits sum.splits) force+
  then show "only_record rc rid db db'"
  proof cases
    case 2
    have "store_ok db'" if "store_ok db" "wf_class rc" "CHR '':'' \<notin> set (show_part rid)" "normal_id rid = rid"
    proof -
      from that 2(1) have "wf_key (rc_name rc) attr rid" by (auto simp: wf_key_def wf_class_def)
      moreover have "fst ` set db' \<subseteq> insert ?k (fst ` set db)"
        using 2(2)
      proof
        assume "db' = db_delete ?k db"
        then show ?thesis by (auto simp: db_delete_def)
      next
        assume "\<exists>b. db' = db_put ?k b db"
        then obtain b where "db' = db_put ?k b db" ..
        then show ?thesis using keys_db_put [of ?k b db] by blast
      qed
      moreover have "ordered db'" using 2(2) that(1) by (auto simp: store_ok_def lmdb.ok_put lmdb.ok_del)
      ultimately show ?thesis using that(1) unfolding store_ok_def by blast
    qed
    with 2 show ?thesis by (auto simp: only_record_def db_get_put db_get_delete)
  qed simp
  show "db' = db" if "\<not> writeable" using assms that by (simp add: setattr_def)
qed

lemma run_body_only:
  "run_body takes rc rid writeable body db = (r, db') \<Longrightarrow> only_record rc rid db db' \<and> (\<not> writeable \<longrightarrow> db' = db)"
proof (induction takes rc rid writeable body db arbitrary: r rule: run_body.induct)
  case (2 takes rc rid writeable attr v cs db)
  obtain x u where u: "setattr takes rc rid writeable attr v db = (x, u)" by fastforce
  note here = setattr_only [OF u]
  show ?case
  proof (cases x)
    case (Inl e)
    with 2 u here show ?thesis by auto
  next
    case (Inr y)
    with "2.prems" u have "run_body takes rc rid writeable cs u = (r, db')" by simp
    from "2.IH" [OF u [symmetric] Inr this] here show ?thesis by (blast intro: only_record_trans)
  qed
next
  case (3 takes rc rid writeable attr cs db)
  then show ?case by (auto split: sum.splits prod.splits)
qed auto

lemma known_field: "f \<in> set (dict_keys (rc_fields rc)) \<Longrightarrow> \<exists>rf. dict_get (rc_fields rc) f = Some rf"
  using dict_get_None_iff [of "rc_fields rc" f] by blast

lemma run_deletes:
  assumes "set fs \<subseteq> set (dict_keys (rc_fields rc))"
  shows "\<exists>db'. run_body takes rc rid True (map (\<lambda>f. SetField f None) fs) db = (Inr [], db')
    \<and> (\<forall>k. db_get k db' = (if k \<in> (\<lambda>f. storagekey (rc_name rc) f rid) ` set fs then None else db_get k db))"
  using assms
proof (induction fs arbitrary: db)
  case (Cons f fs)
  then obtain rf where "dict_get (rc_fields rc) f = Some rf" using known_field [of f rc] by auto
  then have "setattr takes rc rid True f None db = (Inr (), db_delete (storagekey (rc_name rc) f rid) db)" by (simp add: setattr_def)
  with Cons.IH [of "db_delete (storagekey (rc_name rc) f rid) db"] Cons.prems show ?case by (auto simp: db_get_delete)
qed simp

text \<open>
  A deleted record is gone, whatever fields it had.
\<close>

lemma deleted_record_not_found:
  "\<exists>db'. describe_record takes rc rid True (delete_record rc) db = (Inr [], db')
    \<and> (\<forall>f \<in> set (dict_keys (rc_fields rc)). fst (describe_record takes rc rid False [GetField f] db') = Inl RecordNotFound)"
proof -
  from run_deletes [OF subset_refl] obtain db' where
    db': "run_body takes rc (normal_id rid) True (delete_record rc) db = (Inr [], db')"
    "\<And>f. f \<in> set (dict_keys (rc_fields rc)) \<Longrightarrow> db_get (storagekey (rc_name rc) f (normal_id rid)) db' = None"
    unfolding delete_record_def by (metis image_eqI)
  have "getattr rc (normal_id rid) db' f = Inl AttributeError" if "f \<in> set (dict_keys (rc_fields rc))" for f
  proof -
    from that obtain rf where "dict_get (rc_fields rc) f = Some rf" using known_field by blast
    with db'(2) [OF that] show ?thesis by (simp add: getattr_def)
  qed
  with db'(1) show ?thesis by (auto simp: describe_record_def transaction_error_def)
qed

text \<open>
  C19. A transaction is all or nothing. A record that is not writeable, or a body that raises whatever exception, leaves the store as it
  was. Otherwise only the fields of the record that was described can change. The store stays
  in order, with keys of records only, when the id has no colon.
\<close>

theorem describe_atomic:
  assumes "describe_record takes rc rid writeable body db = (res, db')"
  shows "(\<not> writeable \<or> (\<exists>e. res = Inl e) \<longrightarrow> db' = db)
    \<and> (\<forall>k. (\<forall>f \<in> set (dict_keys (rc_fields rc)). k \<noteq> storagekey (rc_name rc) f (normal_id rid)) \<longrightarrow> db_get k db' = db_get k db)
    \<and> (store_ok db \<and> wf_class rc \<and> CHR '':'' \<notin> set (show_part (normal_id rid)) \<longrightarrow> store_ok db')"
proof -
  obtain r u where u: "run_body takes rc (normal_id rid) writeable body db = (r, u)" by fastforce
  from run_body_only [OF u] have only: "only_record rc (normal_id rid) db u" "\<not> writeable \<longrightarrow> u = db" by auto
  from assms u have "db' = u \<and> (\<exists>vs. res = Inr vs) \<or> db' = db" by (auto simp: describe_record_def split: sum.splits)
  with only show ?thesis by (auto simp: only_record_def)
qed


text \<open>A class with one field of text that is stored as it is, and a store that takes everything.\<close>

definition demo_class :: "string record_class" where
  "demo_class = \<lparr>rc_name = ''Req'', rc_fields = [(''key'', \<lparr>rf_field_type = (\<lambda>v. v \<noteq> ''''), rf_pack = Inr, rf_unpack = Inr\<rparr>)]\<rparr>"

theorem describe_atomic_witness:
  "describe_record (\<lambda>_ _. True) demo_class (StrPart ''7'') True [SetField ''key'' (Some ''a''), SetField ''key'' (Some '''')] [(''Req:key:1'', ''x'')]
    = (Inl DatastoreTransactionError, [(''Req:key:1'', ''x'')])"
proof -
  let ?run = "describe_record (\<lambda>_ _. True) demo_class (StrPart ''7'') True [SetField ''key'' (Some ''a''), SetField ''key'' (Some '''')] [(''Req:key:1'', ''x'')]"
  have "fst ?run = Inl DatastoreTransactionError" by code_simp
  moreover from describe_atomic [OF prod.collapse [symmetric, of ?run]] this
  have "snd ?run = [(''Req:key:1'', ''x'')]" by blast
  ultimately show ?thesis by (metis prod.collapse)
qed

text \<open>
  What was written is read back. When a transaction that sets a field to a value returns, and unpacking undoes packing for this value, a later
  transaction on the record with this id, given as text or as a number, reads the value; and
  every other field, record and class reads as before.
\<close>

theorem written_field_is_read:
  assumes "describe_record takes rc rid True [SetField attr (Some v)] db = (Inr vs, db')"
    and "dict_get (rc_fields rc) attr = Some rf" "\<forall>b. rf_pack rf v = Inr b \<longrightarrow> rf_unpack rf b = Inr v" "hd attr \<noteq> CHR ''_''"
    and "normal_id rid' = normal_id rid"
  shows "describe_record takes rc rid' writeable [GetField attr] db' = (Inr [v], db')
    \<and> (wf_key (rc_name rc) attr (normal_id rid) \<and> wf_key (rc_name other) field (normal_id oid)
        \<and> (rc_name other, field, normal_id oid) \<noteq> (rc_name rc, attr, normal_id rid)
       \<longrightarrow> describe_record takes other oid writeable [GetField field] db' =
           (fst (describe_record takes other oid writeable [GetField field] db), db'))"
proof -
  let ?k = "storagekey (rc_name rc) attr (normal_id rid)"
  from assms(1,2) obtain b where b: "rf_field_type rf v" "rf_pack rf v = Inr b" "db' = db_put ?k b db"
    by (auto simp: describe_record_def setattr_def Let_def split: if_splits sum.splits)
  with assms(2-5) have "describe_record takes rc rid' writeable [GetField attr] db' = (Inr [v], db')"
    by (simp add: describe_record_def getattr_def db_get_put)
  moreover have "describe_record takes other oid writeable [GetField field] db' =
      (fst (describe_record takes other oid writeable [GetField field] db), db')"
    if "wf_key (rc_name rc) attr (normal_id rid)" "wf_key (rc_name other) field (normal_id oid)"
      "(rc_name other, field, normal_id oid) \<noteq> (rc_name rc, attr, normal_id rid)"
  proof -
    have "storagekey (rc_name other) field (normal_id oid) \<noteq> ?k" using storagekey_inj [OF that(2,1)] that(3) by auto
    then have "db_get (storagekey (rc_name other) field (normal_id oid)) db' = db_get (storagekey (rc_name other) field (normal_id oid)) db"
      by (simp add: b(3) db_get_put)
    then have "getattr other (normal_id oid) db' field = getattr other (normal_id oid) db field"
      by (auto simp: getattr_def split: option.splits)
    then show ?thesis by (simp add: describe_record_def split: sum.splits)
  qed
  ultimately show ?thesis by blast
qed

theorem written_field_is_read_witness:
  "describe_record (\<lambda>_ _. True) demo_class (IntPart 7) False [GetField ''key'']
     (snd (describe_record (\<lambda>_ _. True) demo_class (StrPart ''7'') True [SetField ''key'' (Some ''a'')] []))
   = (Inr [''a''], [(''Req:key:7'', ''a'')])"
proof -
  have w: "describe_record (\<lambda>_ _. True) demo_class (StrPart ''7'') True [SetField ''key'' (Some ''a'')] []
      = (Inr [], [(''Req:key:7'', ''a'')])" by code_simp
  have same: "normal_id (IntPart 7) = normal_id (StrPart ''7'')" by code_simp
  have field: "dict_get (rc_fields demo_class) ''key'' = Some \<lparr>rf_field_type = (\<lambda>v. v \<noteq> ''''), rf_pack = Inr, rf_unpack = Inr\<rparr>"
    by (simp add: demo_class_def)
  show ?thesis unfolding w snd_conv
    using written_field_is_read [OF w field _ _ same, where writeable = False and other = demo_class and field = "''key''" and oid = "IntPart 7"] by simp
qed


subsection \<open>Queries\<close>

lemma prefix_le: "prefix q (k :: string) \<Longrightarrow> q \<le> k"
proof (induction q arbitrary: k)
  case (Cons x q)
  then show ?case by (cases k) auto
qed simp

lemma append_le_append: "(xs :: string) @ ys \<le> xs @ zs \<longleftrightarrow> ys \<le> zs"
  by (induction xs) auto

lemma prefix_of_first_part: "ff @ r = field @ d # s \<Longrightarrow> d \<notin> set ff \<Longrightarrow> prefix ff field"
proof (induction ff arbitrary: field)
  case (Cons x ff)
  then show ?case by (cases field) auto
qed simp

lemma prefix_between:
  fixes q :: string
  assumes "prefix q k" "q \<le> k'" "k' \<le> k"
  shows "prefix q k'"
  using assms
proof (induction q arbitrary: k k')
  case (Cons x q)
  then obtain r where k: "k = x # r" "prefix q r" by (cases k) auto
  from Cons.prems(2) obtain y r' where k': "k' = y # r'" by (cases k') auto
  with Cons.prems(2,3) k have "y = x" "q \<le> r'" "r' \<le> r" by auto
  with Cons.IH [OF k(2)] k' show ?case by simp
qed simp

lemma in_dropWhile: "x \<in> set xs \<Longrightarrow> \<not> P x \<Longrightarrow> x \<in> set (dropWhile P xs)"
  by (induction xs) auto

lemma in_takeWhile:
  fixes xs :: "string list"
  shows "sorted_wrt (<) xs \<Longrightarrow> x \<in> set xs \<Longrightarrow> \<forall>y \<in> set xs. y \<le> x \<longrightarrow> P y \<Longrightarrow> x \<in> set (takeWhile P xs)"
  by (induction xs) (auto simp: less_imp_le)

text \<open>The keys that a query is about, by the class and the field, which may be left open.\<close>

definition matches :: "string \<Rightarrow> string \<Rightarrow> string \<Rightarrow> bool" where
  "matches name ff k \<longleftrightarrow> (\<exists>field rid. wf_key name field rid \<and> k = storagekey name field rid \<and> (ff = '''' \<or> field = ff))"

text \<open>No stored field continues the name of the field with a character below the colon, a digit for instance.\<close>

definition unobstructed :: "store \<Rightarrow> string \<Rightarrow> string \<Rightarrow> bool" where
  "unobstructed db name ff \<longleftrightarrow> ff = '''' \<or>
     (\<forall>c r rid. wf_key name (ff @ c # r) rid \<longrightarrow> storagekey name (ff @ c # r) rid \<in> fst ` set db \<longrightarrow> \<not> c < CHR '':'')"

lemma matches_prefix: "matches name ff k \<Longrightarrow> prefix (name @ CHR '':'' # ff) k"
  by (auto simp: matches_def storagekey_def)

lemma matches_between:
  assumes "wf_key name' field' rid'" "k' = storagekey name' field' rid'" "k' \<in> fst ` set db" "unobstructed db name ff"
    and "matches name ff k" "CHR '':'' \<notin> set name" "CHR '':'' \<notin> set ff" "name @ CHR '':'' # ff \<le> k'" "k' \<le> k"
  shows "matches name ff k'"
proof -
  from prefix_between [OF matches_prefix [OF assms(5)] assms(8,9)] obtain r where r: "k' = name @ '':'' @ ff @ r"
    by (auto simp: prefix_def)
  have split: "split_char (CHR '':'') k' = [name', field', show_part rid']" unfolding assms(2) by (rule split_storagekey [OF assms(1)])
  from r have "split_char (CHR '':'') k' = name # split_char (CHR '':'') (ff @ r)" using assms(6) by (simp add: split_char_append)
  with split have name: "name' = name" and rest: "split_char (CHR '':'') (ff @ r) = [field', show_part rid']" by simp_all
  from assms(2) r name have eq: "ff @ r = field' @ '':'' @ show_part rid'" by (simp add: storagekey_def)
  show ?thesis
  proof (cases "ff = ''''")
    case True
    with assms(1,2) name show ?thesis unfolding matches_def by blast
  next
    case False
    with assms(5) obtain rid where k: "k = name @ '':'' @ ff @ '':'' @ show_part rid" by (auto simp: matches_def storagekey_def)
    from eq assms(7) have "prefix ff field'" by (auto intro: prefix_of_first_part)
    then obtain u where u: "field' = ff @ u" by (auto simp: prefix_def)
    show ?thesis
    proof (cases u)
      case Nil
      with u assms(1,2) name show ?thesis unfolding matches_def by auto
    next
      case (Cons c v)
      have "c \<noteq> CHR '':''" using assms(1) u Cons by (auto simp: wf_key_def)
      moreover have "c \<le> CHR '':''" using assms(9) unfolding assms(2) k storagekey_def name u Cons
        by (auto simp: append_le_append)
      ultimately have "c < CHR '':''" by simp
      moreover have "\<not> c < CHR '':''" using assms(1-4) False u Cons name by (auto simp: unobstructed_def)
      ultimately show ?thesis by simp
    qed
  qed
qed


lemma matching_keys:
  assumes "store_ok db" "unobstructed db name ff" "CHR '':'' \<notin> set name" "CHR '':'' \<notin> set ff"
  shows "set (takeWhile (matches name ff) (map fst (set_range (name @ CHR '':'' # ff) db))) = {k \<in> fst ` set db. matches name ff k}"
proof -
  let ?q = "name @ CHR '':'' # ff"
  define ks where "ks = dropWhile (\<lambda>k. k < ?q) (map fst db)"
  have ks: "map fst (set_range ?q db) = ks" by (simp add: set_range_def ks_def dropWhile_map case_prod_unfold o_def)
  have keys: "set ks \<subseteq> fst ` set db" unfolding ks_def by (auto dest: set_dropWhileD)
  have sorted: "sorted_wrt (<) ks" unfolding ks_def using assms(1) by (auto simp: store_ok_def intro: sorted_wrt_dropWhile)
  have above: "?q \<le> k'" if "k' \<in> set ks" for k'
  proof (cases ks)
    case (Cons k0 rest)
    then have "\<not> k0 < ?q" unfolding ks_def by (metis dropWhile_eq_Cons_conv)
    with sorted Cons that show ?thesis by force
  qed (use that in simp)
  have "k \<in> set (takeWhile (matches name ff) ks)" if "k \<in> fst ` set db" "matches name ff k" for k
  proof (rule in_takeWhile [OF sorted])
    from prefix_le [OF matches_prefix [OF that(2)]] that(1) show "k \<in> set ks" unfolding ks_def by (intro in_dropWhile) auto
    show "\<forall>k' \<in> set ks. k' \<le> k \<longrightarrow> matches name ff k'"
    proof (intro ballI impI)
      fix k' assume k': "k' \<in> set ks" "k' \<le> k"
      from keys k'(1) have "k' \<in> fst ` set db" by blast
      with assms(1) obtain name' field' rid' where "wf_key name' field' rid'" "k' = storagekey name' field' rid'"
        unfolding store_ok_def by blast
      then show "matches name ff k'"
        using matches_between [OF _ _ _ assms(2) that(2) assms(3,4) above [OF k'(1)] k'(2)] keys k'(1) by blast
    qed
  qed
  then show ?thesis unfolding ks using keys by (auto dest: set_takeWhileD)
qed

text \<open>The comparison with a query key.\<close>

lemma from_query_key:
  assumes "CHR '':'' \<notin> set name" "CHR '':'' \<notin> set ff" "parse_int ff = None"
  shows "from_bytestring (name @ CHR '':'' # ff) = Some \<lparr>record_type = Some (StrPart name), record_field = Some (StrPart ff), record_id = None\<rparr>"
  using assms by (simp add: from_bytestring_def split_char_append split_char_absent to_int_part_def)

lemma compare_storagekey:
  assumes "wf_key name' field rid" "name \<noteq> ''''" "CHR '':'' \<notin> set name" "CHR '':'' \<notin> set ff" "parse_int ff = None"
  shows "compare_key \<lparr>record_type = Some (StrPart name'), record_field = Some (StrPart field), record_id = Some rid\<rparr> (name @ CHR '':'' # ff)
    = Some (matches name ff (storagekey name' field rid))"
proof -
  have "matches name ff (storagekey name' field rid) \<longleftrightarrow> name' = name \<and> (ff = '''' \<or> field = ff)"
    using assms(1) by (auto simp: matches_def dest: storagekey_inj)
  then show ?thesis using assms(2) by (auto simp: compare_key_def from_query_key [OF assms(3-5)] or_part_def)
qed

lemma query_loop_result:
  assumes "rc_name rc \<noteq> ''''" "CHR '':'' \<notin> set (rc_name rc)" "CHR '':'' \<notin> set ff" "parse_int ff = None"
    and "\<forall>rid. passes rc db p ff rid \<noteq> None"
  shows "\<forall>k \<in> set ks. \<exists>name field rid. wf_key name field rid \<and> k = storagekey name field rid \<Longrightarrow> distinct valid \<Longrightarrow>
    \<exists>ids. query_loop rc db p ff (rc_name rc @ CHR '':'' # ff) ks valid = Some ids \<and> distinct ids
      \<and> set ids = set valid \<union> {rid. passes rc db p ff rid = Some True
          \<and> (\<exists>field. wf_key (rc_name rc) field rid \<and> storagekey (rc_name rc) field rid \<in> set (takeWhile (matches (rc_name rc) ff) ks))}"
proof (induction ks arbitrary: valid)
  case (Cons k ks)
  then obtain name field rid where k: "wf_key name field rid" "k = storagekey name field rid" by auto
  note parse = from_storagekey [OF k(1)] compare_storagekey [OF k(1) assms(1-4)]
  show ?case
  proof (cases "matches (rc_name rc) ff k")
    case False
    with Cons.prems(2) show ?thesis by (simp add: k(2) parse)
  next
    case True
    then have name: "name = rc_name rc" using k by (auto simp: matches_def dest: storagekey_inj)
    define valid' where "valid' = (if rid \<in> set valid \<or> passes rc db p ff rid = Some False then valid else valid @ [rid])"
    obtain b where b: "passes rc db p ff rid = Some b" using assms(5) by blast
    have step: "query_loop rc db p ff (rc_name rc @ CHR '':'' # ff) (k # ks) valid = query_loop rc db p ff (rc_name rc @ CHR '':'' # ff) ks valid'"
      using True b by (cases b) (auto simp: k(2) parse valid'_def)
    have "distinct valid'" using Cons.prems(2) by (auto simp: valid'_def)
    with Cons.IH [of valid'] Cons.prems(1) obtain ids where ids:
      "query_loop rc db p ff (rc_name rc @ CHR '':'' # ff) ks valid' = Some ids" "distinct ids"
      "set ids = set valid' \<union> {rid. passes rc db p ff rid = Some True
          \<and> (\<exists>field. wf_key (rc_name rc) field rid \<and> storagekey (rc_name rc) field rid \<in> set (takeWhile (matches (rc_name rc) ff) ks))}"
      by auto
    have same: "rid' = rid" if "wf_key (rc_name rc) field' rid'" "storagekey (rc_name rc) field' rid' = k" for field' rid'
      using storagekey_inj [OF that(1) k(1)] that(2) k(2) by simp
    have "set ids = set valid \<union> {rid. passes rc db p ff rid = Some True
          \<and> (\<exists>field. wf_key (rc_name rc) field rid \<and> storagekey (rc_name rc) field rid \<in> set (takeWhile (matches (rc_name rc) ff) (k # ks)))}"
      unfolding ids(3) using True b k name by (auto simp: valid'_def dest: same)
    with step ids show ?thesis by auto
  qed
qed simp


text \<open>
  C20. A query returns exactly the records that it is about, under these conditions: the store is
  in order and holds keys of records only, the class has a name without a colon, the filter does
  not raise on any record, and for a query by field the field's name has no colon, does not read
  as an integer, and no stored field of the class has a name that continues it with a character
  below the colon. Then a query by class, and by field or not, finds the ids of all records that
  have a key of that class and field and pass the filter, each once; when there is none it raises
  \<^verbatim>\<open>RecordNotFound\<close>. For a query by class alone the conditions on the field hold by themselves.
\<close>

theorem query_exact:
  assumes "store_ok db" "wf_class rc" "CHR '':'' \<notin> set filter_field" "parse_int filter_field = None"
    and "unobstructed db (rc_name rc) filter_field" "\<forall>rid. passes rc db filter_func filter_field rid \<noteq> None"
  shows "\<exists>ids. query_by rc filter_func filter_field db = (if ids = [] then QueryNotFound else QueryRecords ids) \<and> distinct ids
    \<and> set ids = {rid. passes rc db filter_func filter_field rid = Some True
        \<and> (\<exists>field. wf_key (rc_name rc) field rid \<and> storagekey (rc_name rc) field rid \<in> fst ` set db \<and> (filter_field = '''' \<or> field = filter_field))}"
proof -
  let ?q = "rc_name rc @ CHR '':'' # filter_field" and ?m = "matches (rc_name rc) filter_field"
  let ?ids = "{rid. passes rc db filter_func filter_field rid = Some True
        \<and> (\<exists>field. wf_key (rc_name rc) field rid \<and> storagekey (rc_name rc) field rid \<in> fst ` set db \<and> (filter_field = '''' \<or> field = filter_field))}"
  have rc: "rc_name rc \<noteq> ''''" "CHR '':'' \<notin> set (rc_name rc)" using assms(2) by (auto simp: wf_class_def)
  let ?ks = "map fst (set_range ?q db)"
  have keys: "\<forall>k \<in> set ?ks. \<exists>name field rid. wf_key name field rid \<and> k = storagekey name field rid"
    using assms(1) by (auto simp: store_ok_def set_range_def dest!: set_dropWhileD)
  from query_loop_result [OF rc assms(3,4,6) keys, of "[]"] obtain ids where
    loop: "query_loop rc db filter_func filter_field ?q ?ks [] = Some ids" "distinct ids"
    and "set ids = {rid. passes rc db filter_func filter_field rid = Some True
      \<and> (\<exists>field. wf_key (rc_name rc) field rid \<and> storagekey (rc_name rc) field rid \<in> set (takeWhile ?m ?ks))}" by auto
  then have ids: "set ids = ?ids"
    unfolding matching_keys [OF assms(1,5) rc(2) assms(3)] by (auto simp: matches_def dest: storagekey_inj)
  have "query_by rc filter_func filter_field db = (if ids = [] then QueryNotFound else QueryRecords ids)"
  proof (cases "set_range ?q db")
    case Nil
    with loop(1) show ?thesis by (simp add: query_by_def)
  next
    case (Cons e rest)
    obtain k v where e: "e = (k, v)" by (cases e)
    with keys Cons obtain name field rid where k: "wf_key name field rid" "k = storagekey name field rid" by auto
    note parse = from_storagekey [OF k(1)] compare_storagekey [OF k(1) rc assms(3,4)]
    show ?thesis
    proof (cases "?m k")
      case True
      with Cons e loop(1) show ?thesis by (cases ids) (simp_all add: query_by_def parse k(2))
    next
      case False
      with Cons e loop(1) have "ids = []" by (simp add: parse k(2))
      with Cons e False show ?thesis by (simp add: query_by_def parse k(2))
    qed
  qed
  with loop(2) ids show ?thesis by blast
qed

definition demo_store :: store where
  "demo_store = [(''Other:key:2'', ''z''), (''Req:key:1'', ''a''), (''Req:key:9'', ''b''), (''Req:other:1'', ''c'')]"

definition demo_filter :: "string filter_func" where
  "demo_filter x = (case x of Inl v \<Rightarrow> v = ''b'' | Inr r \<Rightarrow> False)"

theorem query_exact_witness:
  "\<exists>ids. query_by demo_class (Some demo_filter) ''key'' demo_store = QueryRecords ids \<and> set ids = {IntPart 9}"
proof -
  let ?p = "Some demo_filter"
  have keys: "''Other:key:2'' = storagekey ''Other'' ''key'' (IntPart 2)" "''Req:key:1'' = storagekey ''Req'' ''key'' (IntPart 1)"
    "''Req:key:9'' = storagekey ''Req'' ''key'' (IntPart 9)" "''Req:other:1'' = storagekey ''Req'' ''other'' (IntPart 1)" by code_simp+
  have wf: "wf_key ''Other'' ''key'' (IntPart 2)" "wf_key ''Req'' ''key'' (IntPart 1)" "wf_key ''Req'' ''key'' (IntPart 9)" "wf_key ''Req'' ''other'' (IntPart 1)"
    by code_simp+
  have "ordered demo_store" by code_simp
  moreover have "\<forall>k \<in> set [storagekey ''Other'' ''key'' (IntPart 2), storagekey ''Req'' ''key'' (IntPart 1), storagekey ''Req'' ''key'' (IntPart 9), storagekey ''Req'' ''other'' (IntPart 1)].
      \<exists>name field rid. wf_key name field rid \<and> k = storagekey name field rid" using wf by auto
  ultimately have ok: "store_ok demo_store" by (simp add: store_ok_def demo_store_def keys)
  have class_ok: "wf_class demo_class" "CHR '':'' \<notin> set ''key''" "parse_int ''key'' = None" "rc_name demo_class = ''Req''" by code_simp+
  have free: "unobstructed demo_store ''Req'' ''key''"
    unfolding unobstructed_def demo_store_def keys using storagekey_inj wf by fastforce
  have passes: "\<forall>rid. passes demo_class demo_store ?p ''key'' rid \<noteq> None"
    by (auto simp: passes_def getattr_def demo_class_def split: option.splits)
  have results: "passes demo_class demo_store ?p ''key'' (IntPart 9) = Some True" "passes demo_class demo_store ?p ''key'' (IntPart 1) = Some False"
    by code_simp+
  have stored: "fst ` set demo_store = {storagekey ''Other'' ''key'' (IntPart 2), storagekey ''Req'' ''key'' (IntPart 1),
      storagekey ''Req'' ''key'' (IntPart 9), storagekey ''Req'' ''other'' (IntPart 1)}" by (simp add: demo_store_def keys)
  have only: "rid \<in> {IntPart 1, IntPart 9}" if "wf_key ''Req'' ''key'' rid" "storagekey ''Req'' ''key'' rid \<in> fst ` set demo_store" for rid
    using that(2) storagekey_inj [OF that(1)] wf unfolding stored by blast
  have "storagekey ''Req'' ''key'' (IntPart 9) \<in> fst ` set demo_store" by (simp add: stored)
  then have "{rid. passes demo_class demo_store ?p ''key'' rid = Some True
      \<and> (\<exists>field. wf_key ''Req'' field rid \<and> storagekey ''Req'' field rid \<in> fst ` set demo_store \<and> (''key'' = '''' \<or> field = ''key''))} = {IntPart 9}"
    using results by (auto dest!: only intro: wf(3))
  then show ?thesis
    using query_exact [OF ok class_ok(1-3) _ passes, unfolded class_ok(4), OF free] by (metis insert_not_empty set_empty)
qed


text \<open>
  Why the query by field needs its condition: digits come before the colon, so the keys of a field
  \<^verbatim>\<open>key2\<close> come before those of \<^verbatim>\<open>key\<close>, the cursor stops at them, and the query gives up.
\<close>

lemma query_obstructed:
  "query_by demo_class None ''key'' [(''Req:key2:1'', ''c''), (''Req:key:1'', ''a'')] = QueryNotFound"
  "query_by demo_class None ''key'' [(''Req:key:1'', ''a'')] = QueryRecords [IntPart 1]"
  by code_simp+

end
