(* ===== verification/Rest_Server.thy ===== *)
theory Rest_Server
  imports Middleware Learner Retrieval Availability Datastore
begin

text \<open>
  The HTTP endpoints of a node, \<^verbatim>\<open>nulink/network/server.py\<close>, and what the learner and the retrieval
  client make of their answers through the middleware.

  A handler that raises is an \<open>Inl\<close>, which Flask answers with status 500. The messages of the library for
  metadata and re-encryption are a record of parameters. The texts of error responses, which name
  the requester, are a parameter \<open>txt\<close> of the kind of error.
\<close>

record ('k, 'm) wire =
  w_request :: "'k \<Rightarrow> node list \<Rightarrow> http_bytes"
  w_parse_request :: "http_bytes \<Rightarrow> ('k \<times> node list) option"
  w_response :: "string \<Rightarrow> int \<Rightarrow> node list \<Rightarrow> http_bytes"
  w_parse_response :: "http_bytes \<Rightarrow> 'm option"
  w_verify_response :: "'m \<Rightarrow> string \<Rightarrow> (int \<times> node list) option"
  w_verify_metadata :: "node \<Rightarrow> bool option"

datatype server_error = UnparsableRequest | RequestVersion version_error | RequestDecodeError | PaymentRaised | ReencryptionRaised
  | EvidenceRaised datastore_error | OtherServerError

definition flask :: "http_bytes \<Rightarrow> server_error + response \<Rightarrow> response" where
  "flask page res = (case res of Inl _ \<Rightarrow> \<lparr>re_status = 500, re_content = page\<rparr> | Inr r \<Rightarrow> r)"

subsection \<open>Metadata\<close>

definition public_information :: "string \<Rightarrow> node \<Rightarrow> response" where
  "public_information version this_node = \<lparr>re_status = 200, re_content = add_version version (n_metadata this_node)\<rparr>"

definition bytestring_of_known_nodes :: "('k, 'm) wire \<Rightarrow> node \<Rightarrow> ('k, 'n) learner \<Rightarrow> http_bytes" where
  "bytestring_of_known_nodes w this_node l =
     (let fleet = se_current_state (l_known_nodes l)
      in w_response w (l_stamp l) (fs_timestamp fleet) (this_node # fleet_iter fleet))"

definition bytestring_of_empty_known_nodes :: "('k, 'm) wire \<Rightarrow> string \<Rightarrow> ('k, 'n) learner \<Rightarrow> response" where
  "bytestring_of_empty_known_nodes w version l =
     \<lparr>re_status = 200, re_content = add_version version
        (w_response w (l_stamp l) (fs_timestamp (se_current_state (l_known_nodes l))) [])\<rparr>"

text \<open>\<open>relaxed\<close>: the learning deferred is \<^verbatim>\<open>RELAX\<close>.\<close>

definition all_known_nodes :: "('k, 'm) wire \<Rightarrow> string \<Rightarrow> node \<Rightarrow> bool \<Rightarrow> ('k, 'n) learner \<Rightarrow> response \<times> ('k, 'n) learner" where
  "all_known_nodes w version this_node relaxed l =
     (let l = (if \<not> relaxed \<and> \<not> l_task_running l then snd (start_learning_loop l) else l)
      in (\<lparr>re_status = 200, re_content = add_version version (bytestring_of_known_nodes w this_node l)\<rparr>, l))"

text \<open>
  The request: parsed as it is, or else without the version. \<open>Inr None\<close> stands for a version that is
  not supported, which is answered with no nodes.
\<close>

definition parse_exchange :: "('k, 'm) wire \<Rightarrow> (string \<Rightarrow> string option) \<Rightarrow> string \<Rightarrow> http_bytes
    \<Rightarrow> server_error + ('k \<times> node list) option" where
  "parse_exchange w decode current data =
     (case w_parse_request w data of
        Some request \<Rightarrow> Inr (Some request)
      | None \<Rightarrow>
          (case split_bytes check_version_pickle_symbol data of
             [_] \<Rightarrow> Inr None
           | [payload, version_bytes] \<Rightarrow>
               (case decode version_bytes of
                  None \<Rightarrow> Inl RequestDecodeError
                | Some version_str \<Rightarrow>
                    (case check_version current (Some version_str) of
                       Inl e \<Rightarrow> Inl (RequestVersion e)
                     | Inr False \<Rightarrow> Inr None
                     | Inr True \<Rightarrow>
                         (case w_parse_request w payload of
                            None \<Rightarrow> Inl UnparsableRequest
                          | Some request \<Rightarrow> Inr (Some request))))
           | _ \<Rightarrow> Inl (RequestVersion VersionAssertion)))"

text \<open>
  Verifying metadata raises (\<open>None\<close>), and the metadata is passed over, or returns a truth value, which is not looked at.
  Remembering without verification does not raise.
\<close>

fun remember_announced :: "('k, 'm) wire \<Rightarrow> ('k, 'n) env \<Rightarrow> node list \<Rightarrow> ('k, 'n) learner \<Rightarrow> ('k, 'n) learner" where
  "remember_announced w env [] l = l"
| "remember_announced w env (n # ns) l =
     remember_announced w env ns (case w_verify_metadata w n of None \<Rightarrow> l | Some _ \<Rightarrow> snd (remember_node env True False n l))"

definition node_metadata_exchange :: "('k, 'm) wire \<Rightarrow> (string \<Rightarrow> string option) \<Rightarrow> string \<Rightarrow> ('k, 'n) env \<Rightarrow> node \<Rightarrow> bool
    \<Rightarrow> http_bytes \<Rightarrow> ('k, 'n) learner \<Rightarrow> (server_error + response) \<times> ('k, 'n) learner" where
  "node_metadata_exchange w decode current env this_node relaxed data l =
     (case parse_exchange w decode current data of
        Inl e \<Rightarrow> (Inl e, l)
      | Inr None \<Rightarrow> (Inr (bytestring_of_empty_known_nodes w current l), l)
      | Inr (Some (checksum, announced)) \<Rightarrow>
          if checksum = fs_checksum (se_current_state (l_known_nodes l))
          then (Inr (bytestring_of_empty_known_nodes w current l), l)
          else let l = remember_announced w env announced l;
                   (r, l) = all_known_nodes w current this_node relaxed l
               in (Inr r, l))"

subsection \<open>The learner's side of an exchange\<close>

definition exchange_request :: "('k, 'm) wire \<Rightarrow> string \<Rightarrow> 'k \<Rightarrow> node list \<Rightarrow> http_bytes" where
  "exchange_request w version checksum announce_nodes = add_version version (w_request w checksum announce_nodes)"

text \<open>
  What \<^verbatim>\<open>get_nodes_via_rest\<close> and the parsing and verification after it come to. Both SSL errors and failing
  connections are connection errors of the library; a version mismatch is a \<^verbatim>\<open>RuntimeError\<close>.
\<close>

definition reply_of_error :: "middleware_error \<Rightarrow> teacher_reply" where
  "reply_of_error e =
     (case e of
        MwDown \<Rightarrow> Learner.ReplyDown
      | MwSSLError \<Rightarrow> Learner.ReplyDown
      | MwVersion VersionMismatch \<Rightarrow> ReplyRuntimeError
      | MwVerification v \<Rightarrow>
          if is_InvalidNode v then ReplyInvalidNode
          else if v = SSLError \<or> v = NodeSeemsToBeDown then Learner.ReplyDown else ReplyException
      | _ \<Rightarrow> ReplyException)"

definition reply_of_nodes_response :: "('k, 'm) wire \<Rightarrow> node \<Rightarrow> middleware_error + response \<Rightarrow> teacher_reply" where
  "reply_of_nodes_response w teacher res =
     (case res of
        Inl e \<Rightarrow> reply_of_error e
      | Inr r \<Rightarrow>
          if re_status r \<noteq> 200 then ReplyBadStatus
          else (case w_parse_response w (re_content r) of
                  None \<Rightarrow> ReplyUnparsable
                | Some m \<Rightarrow>
                    (case w_verify_response w m (n_stamp teacher) of
                       None \<Rightarrow> ReplyUnverified
                     | Some (timestamp, nodes) \<Rightarrow> ReplyNodes timestamp nodes)))"

subsection \<open>Re-encryption\<close>




record order_state =
  os_revoked_policies :: "string set"
  os_datastore :: store





definition revoke_endpoint :: "(http_bytes \<Rightarrow> 'o option) \<Rightarrow> http_bytes \<Rightarrow> order_state \<Rightarrow> (server_error + response) \<times> order_state" where
  "revoke_endpoint parse data s =
     (case parse data of None \<Rightarrow> (Inl UnparsableRequest, s) | Some _ \<Rightarrow> (Inr \<lparr>re_status = 200, re_content = ''''\<rparr>, s))"


subsection \<open>Availability\<close>

text \<open>\<open>parse\<close>: the interface in the metadata; \<open>Inl True\<close> when parsing it raises \<^verbatim>\<open>ValueError\<close>, \<open>Inl False\<close> for another exception.\<close>

definition check_availability :: "(string \<Rightarrow> http_bytes) \<Rightarrow> (http_bytes \<Rightarrow> bool + string \<times> nat)
    \<Rightarrow> (string \<Rightarrow> nat \<Rightarrow> middleware_error + http_bytes) \<Rightarrow> string \<Rightarrow> http_bytes \<Rightarrow> server_error + response" where
  "check_availability txt parse information remote_addr data =
     (case parse data of
        Inl True \<Rightarrow> Inr \<lparr>re_status = 400, re_content = txt ''Invalid Ursula''\<rparr>
      | Inl False \<Rightarrow> Inl OtherServerError
      | Inr (initiator_address, initiator_port) \<Rightarrow>
          if remote_addr \<noteq> initiator_address then Inr \<lparr>re_status = 400, re_content = txt ''Origin address mismatch''\<rparr>
          else (case information initiator_address initiator_port of
                  Inl MwDown \<Rightarrow> Inr \<lparr>re_status = 400, re_content = txt ''Unreachable node''\<rparr>
                | Inl MwSSLError \<Rightarrow> Inr \<lparr>re_status = 400, re_content = txt ''Unreachable node''\<rparr>
                | Inl _ \<Rightarrow> Inl OtherServerError
                | Inr metadata \<Rightarrow>
                    if metadata = data then Inr \<lparr>re_status = 200, re_content = ''''\<rparr>
                    else Inr \<lparr>re_status = 400, re_content = txt ''Suspicious node''\<rparr>))"

text \<open>\<open>json v\<close>: the body of a ping with the version \<open>v\<close> in it.\<close>

definition ping_endpoint :: "(string \<Rightarrow> http_bytes) \<Rightarrow> string \<Rightarrow> response" where
  "ping_endpoint json version = \<lparr>re_status = 200, re_content = json version\<rparr>"


text \<open>
  What \<^verbatim>\<open>AvailabilityTracker.measure\<close> sees of the answer. The reason of a bad request is the response's method
  \<^verbatim>\<open>json\<close>, which is not called.
\<close>

definition check_reply_of :: "middleware_error + response \<Rightarrow> check_reply" where
  "check_reply_of res =
     (case res of
        Inr r \<Rightarrow> CheckStatus (re_status r)
      | Inl (MwBadRequest r) \<Rightarrow> CheckBadRequest ''response.json''
      | Inl MwNotFound \<Rightarrow> CheckNotFound
      | Inl e \<Rightarrow>
          (case e of
             MwUnexpectedResponse _ \<Rightarrow> CheckUnreachable
           | MwVerification v \<Rightarrow> if v \<in> {NotStaking, NodeSeemsToBeDown, SSLError} then CheckUnreachable else CheckRaises
           | _ \<Rightarrow> if e \<in> {MwDown, MwSSLError, MwPaymentRequired, MwUnauthorized} then CheckUnreachable else CheckRaises))"

text \<open>Asking a node for its public information: it is exempt from verification.\<close>

definition fetch_information :: "'c cert_io \<Rightarrow> 'c network \<Rightarrow> (string \<Rightarrow> string option)
    \<Rightarrow> string \<Rightarrow> 'c cert_store \<Rightarrow> string \<Rightarrow> nat \<Rightarrow> (middleware_error + http_bytes) option" where
  "fetch_information io nw decode current store host port =
     map_option fst (request_information io nw decode current (host, port) store)"

subsection \<open>Client and server together\<close>

definition exchange :: "('k, 'm) wire \<Rightarrow> (string \<Rightarrow> string option) \<Rightarrow> string \<Rightarrow> ('k, 'n) env \<Rightarrow> node \<Rightarrow> bool \<Rightarrow> http_bytes
    \<Rightarrow> 'k \<Rightarrow> node list \<Rightarrow> ('k, 'n) learner \<Rightarrow> teacher_reply \<times> ('k, 'n) learner" where
  "exchange w decode version env teacher relaxed page checksum announced t =
     (let (res, t') = node_metadata_exchange w decode version env teacher relaxed (exchange_request w version checksum announced) t
      in (reply_of_nodes_response w teacher (get_nodes_via_rest decode version (raise_for_status (flask page res))), t'))"


definition answer_check :: "(string \<Rightarrow> http_bytes) \<Rightarrow> http_bytes \<Rightarrow> (http_bytes \<Rightarrow> bool + string \<times> nat)
    \<Rightarrow> (string \<Rightarrow> nat \<Rightarrow> middleware_error + http_bytes) \<Rightarrow> string \<Rightarrow> http_bytes \<Rightarrow> check_reply" where
  "answer_check txt page parse information remote_addr data =
     check_reply_of (raise_for_status (flask page (check_availability txt parse information remote_addr data)))"

subsection \<open>What the exchange leaves with the teacher\<close>

text \<open>A sensor with nothing pending, as every recorded state leaves it.\<close>

definition settled :: "('k, 'n) learner \<Rightarrow> bool" where
  "settled l \<longleftrightarrow> pending l = [] \<and> se_nodes_to_remove (l_known_nodes l) = [] \<and> \<not> se_auto_update_state (l_known_nodes l)"

abbreviation joins :: "('k, 'n) learner \<Rightarrow> node \<Rightarrow> bool" where
  "joins l n \<equiv> accepted l n \<and> n_domain n = se_domain (l_known_nodes l)"

lemma recorded_fields [simp]:
  "se_nodes_to_add (snd (record_fleet_state cs nick so now md skip se)) = []"
  "se_nodes_to_remove (snd (record_fleet_state cs nick so now md skip se)) = []"
  "se_auto_update_state (snd (record_fleet_state cs nick so now md skip se)) = se_auto_update_state se"
  "se_domain (snd (record_fleet_state cs nick so now md skip se)) = se_domain se"
  by (simp_all add: record_fleet_state_def Let_def split: prod.splits)

lemma sensor_record_lookup:
  assumes "\<forall>xs. set (e_set_order env xs) = set xs" "se_nodes_to_remove (l_known_nodes l) = []"
    and "\<forall>n \<in> set (pending l). n_checksum_address n \<noteq> a"
  shows "known_node (sensor_record env skip l) a = known_node l a"
proof -
  let ?se = "l_known_nodes l"
  obtain s' d where w: "with_updated_nodes (e_cs env) (e_nick env) (e_now env) (e_this_metadata env)
      (e_set_order env (pending l)) (se_nodes_to_remove ?se) skip (se_current_state ?se) = (s', d)" by fastforce
  note eq = with_updated_nodes_eq [OF w]
  from eq(7) assms(2) have "sd_nodes_removed d = []" by (auto simp: calculate_diff_def)
  moreover have "last_added (e_set_order env (pending l)) a = None" using assms(1,3) by (auto simp: last_added_None)
  ultimately have "dict_get (fs_nodes s') a = dict_get (fs_nodes (se_current_state ?se)) a"
    by (simp add: eq(1) dict_get_put_nodes dict_get_added)
  then show ?thesis
    by (simp add: fleet_getitem_def current_after_record [where so = "e_set_order env", OF w])
qed

lemma metadata_of_known: "metadata_of s a = map_option n_metadata (fleet_getitem s a)"
  by (simp add: metadata_of_def fleet_getitem_def)

lemma remember_recorded:
  assumes "\<forall>xs. set (e_set_order env xs) = set xs" "settled l" "l' = snd (remember_node env True False n l)"
  shows "settled l'" "se_domain (l_known_nodes l') = se_domain (l_known_nodes l)" "l_stamp l' = l_stamp l"
    "a \<noteq> n_checksum_address n \<Longrightarrow> known_node l' a = known_node l a"
    "map_option n_metadata (known_node l' (n_checksum_address n)) =
      (if joins l n then Some (n_metadata n) else map_option n_metadata (known_node l (n_checksum_address n)))"
proof -
  from assms(2) have auto: "\<not> se_auto_update_state (l_known_nodes l)" by (simp add: settled_def)
  from remember_lazily [OF auto, of env n] obtain u where u:
    "remember_node env False False n l = (Inr (if accepted l n then Some n else None), u)" "same_fleet l u"
    "pending u = (if joins l n then filter (\<lambda>m. n_stamp m \<noteq> n_stamp n) (pending l) @ [n] else pending l)" by blast
  have l': "l' = (if accepted l n then sensor_record env False u else l)"
    using assms(3) u(1) auto
    by (auto simp: remember_node_def accepted_def Let_def split: if_splits option.splits)
  have pend: "pending u = (if joins l n then [n] else [])" "se_nodes_to_remove (l_known_nodes u) = []"
    using u(2,3) assms(2) by (auto simp: settled_def same_fleet_def)
  have known_u: "known_node u b = known_node l b" for b using u(2) by (simp add: same_fleet_def)
  show "settled l'" using assms(2) u(2) by (auto simp: l' settled_def same_fleet_def)
  show "se_domain (l_known_nodes l') = se_domain (l_known_nodes l)" "l_stamp l' = l_stamp l"
    using u(2) by (auto simp: l' same_fleet_def)
  show "known_node l' a = known_node l a" if "a \<noteq> n_checksum_address n"
    using that sensor_record_lookup [OF assms(1) pend(2), of a] known_u by (auto simp: l' pend(1))
  show "map_option n_metadata (known_node l' (n_checksum_address n)) =
      (if joins l n then Some (n_metadata n) else map_option n_metadata (known_node l (n_checksum_address n)))"
  proof (cases "joins l n")
    case True
    with metadata_after_record [OF assms(1), of n u False] pend show ?thesis
      by (simp add: l' metadata_of_known)
  next
    case False
    with sensor_record_lookup [OF assms(1) pend(2)] known_u show ?thesis by (auto simp: l' pend(1))
  qed
qed

lemma remember_announced_recorded:
  assumes "\<forall>xs. set (e_set_order env xs) = set xs"
  shows "settled l \<Longrightarrow> distinct (map n_checksum_address ns) \<Longrightarrow>
    settled (remember_announced w env ns l) \<and> l_stamp (remember_announced w env ns l) = l_stamp l
    \<and> (\<forall>a. a \<notin> n_checksum_address ` set ns \<longrightarrow> known_node (remember_announced w env ns l) a = known_node l a)
    \<and> (\<forall>n \<in> set ns. map_option n_metadata (known_node (remember_announced w env ns l) (n_checksum_address n)) =
         (if w_verify_metadata w n \<noteq> None \<and> joins l n then Some (n_metadata n)
          else map_option n_metadata (known_node l (n_checksum_address n))))"
proof (induction ns arbitrary: l)
  case (Cons n ns)
  define u where "u = (case w_verify_metadata w n of None \<Rightarrow> l | Some _ \<Rightarrow> snd (remember_node env True False n l))"
  note rec = remember_recorded [OF assms Cons.prems(1) refl, where n = n]
  have u: "settled u" "se_domain (l_known_nodes u) = se_domain (l_known_nodes l)" "l_stamp u = l_stamp l"
    "\<And>a. a \<noteq> n_checksum_address n \<Longrightarrow> known_node u a = known_node l a"
    using rec Cons.prems(1) by (auto simp: u_def split: option.splits)
  have un: "map_option n_metadata (known_node u (n_checksum_address n)) = (if w_verify_metadata w n \<noteq> None \<and> joins l n
      then Some (n_metadata n) else map_option n_metadata (known_node l (n_checksum_address n)))"
    using rec(5) by (cases "w_verify_metadata w n") (simp_all add: u_def)
  have rest: "joins u m = joins l m \<and> known_node u (n_checksum_address m) = known_node l (n_checksum_address m)"
    if "m \<in> set ns" for m
  proof -
    from that Cons.prems(2) have "n_checksum_address m \<noteq> n_checksum_address n" by (metis distinct.simps(2) image_eqI list.simps(9) set_map)
    then show ?thesis by (simp add: accepted_def u)
  qed
  from Cons.prems(2) have "distinct (map n_checksum_address ns)" "n_checksum_address n \<notin> n_checksum_address ` set ns" by auto
  with Cons.IH [OF u(1)] rest u(3,4) un show ?case by (auto simp: u_def [symmetric])
qed simp


text \<open>
  What is relied on of the library of messages, for the message that is sent: a request is parsed back
  (and a parser that does not refuse what follows it, gives the same), and a response is parsed back and
  verifies under the stamp that signed it.
\<close>

definition carries_request :: "('k, 'm) wire \<Rightarrow> 'k \<Rightarrow> node list \<Rightarrow> bool" where
  "carries_request w k ns \<longleftrightarrow> w_parse_request w (w_request w k ns) = Some (k, ns)
     \<and> (\<forall>rest. w_parse_request w (w_request w k ns @ rest) \<in> {None, Some (k, ns)})"

definition carries_response :: "('k, 'm) wire \<Rightarrow> string \<Rightarrow> int \<Rightarrow> node list \<Rightarrow> bool" where
  "carries_response w stamp ts ns \<longleftrightarrow>
     (\<exists>m. w_parse_response w (w_response w stamp ts ns) = Some m \<and> w_verify_response w m stamp = Some (ts, ns))"

text \<open>A version that a client and a server can agree on, and bytes without the separator.\<close>

abbreviation clean :: "http_bytes \<Rightarrow> bool" where
  "clean b \<equiv> \<not> sublist check_version_pickle_symbol b"

definition version_ok :: "(string \<Rightarrow> string option) \<Rightarrow> string \<Rightarrow> bool" where
  "version_ok decode version \<longleftrightarrow> CHR ''.'' \<in> set version \<and> clean version \<and> decode version = Some version"

lemma parse_exchange_request:
  assumes "carries_request w k ns" "version_ok decode version" "clean (w_request w k ns)"
  shows "parse_exchange w decode version (exchange_request w version k ns) = Inr (Some (k, ns))"
proof (cases "w_parse_request w (exchange_request w version k ns)")
  case None
  have "split_bytes check_version_pickle_symbol (exchange_request w version k ns) = [w_request w k ns, version]"
    using split_bytes_at [OF symbol_unbordered assms(3), of version] split_bytes_none [OF symbol_unbordered(2), of version] assms(2)
    by (simp add: exchange_request_def add_version_def version_ok_def)
  with None assms show ?thesis
    by (simp add: parse_exchange_def version_ok_def check_version_same carries_request_def)
next
  case (Some r)
  have "w_parse_request w (w_request w k ns @ rest) \<in> {None, Some (k, ns)}" for rest using assms(1) unfolding carries_request_def by blast
  from this [of "check_version_pickle_symbol @ version"] Some have "r = (k, ns)"
    by (simp add: exchange_request_def add_version_def)
  with Some show ?thesis by (simp add: parse_exchange_def)
qed

lemma versioned_reply:
  assumes "carries_response w (n_stamp teacher) ts ns" "version_ok decode version" "clean (w_response w (n_stamp teacher) ts ns)"
  shows "reply_of_nodes_response w teacher (get_nodes_via_rest decode version (raise_for_status (flask page (Inr
    \<lparr>re_status = 200, re_content = add_version version (w_response w (n_stamp teacher) ts ns)\<rparr>)))) = ReplyNodes ts ns"
proof -
  obtain m where m: "w_parse_response w (w_response w (n_stamp teacher) ts ns) = Some m" "w_verify_response w m (n_stamp teacher) = Some (ts, ns)"
    using assms(1) unfolding carries_response_def by blast
  have "strip_version decode version (add_version version (w_response w (n_stamp teacher) ts ns)) = Inr (w_response w (n_stamp teacher) ts ns)"
    using assms(2,3) by (simp add: version_ok_def strip_add_version check_version_same)
  with m show ?thesis
    by (simp add: flask_def raise_for_status_def get_nodes_via_rest_def starts_with_2_def reply_of_nodes_response_def)
qed

text \<open>The two outcomes of an exchange between a client and a server of one version.\<close>

lemma exchange_same_state:
  assumes "carries_request w k ns" "version_ok decode version" "clean (w_request w k ns)" "l_stamp t = n_stamp teacher"
    and "carries_response w (n_stamp teacher) (fs_timestamp (se_current_state (l_known_nodes t))) []"
    and "k = fs_checksum (se_current_state (l_known_nodes t))"
    and "clean (w_response w (n_stamp teacher) (fs_timestamp (se_current_state (l_known_nodes t))) [])"
  shows "exchange w decode version env teacher relaxed page k ns t =
    (ReplyNodes (fs_timestamp (se_current_state (l_known_nodes t))) [], t)"
  using parse_exchange_request [OF assms(1-3)] versioned_reply [OF assms(5,2,7), of page] assms(4,6)
  by (simp add: exchange_def node_metadata_exchange_def bytestring_of_empty_known_nodes_def)

lemma all_known_nodes_learner:
  assumes "all_known_nodes w version teacher relaxed l = (r, l')"
  shows "l_known_nodes l' = l_known_nodes l" "l_stamp l' = l_stamp l"
    "r = \<lparr>re_status = 200, re_content = add_version version (bytestring_of_known_nodes w teacher l')\<rparr>"
  using assms by (auto simp: all_known_nodes_def start_learning_loop_def Let_def split: if_splits)

lemma exchange_new_state:
  assumes "carries_request w k ns" "version_ok decode version" "clean (w_request w k ns)" "l_stamp t = n_stamp teacher"
    and "k \<noteq> fs_checksum (se_current_state (l_known_nodes t))"
    and "exchange w decode version env teacher relaxed page k ns t = (reply, t')"
    and "clean (bytestring_of_known_nodes w teacher t')"
    and "settled t" "distinct (map n_checksum_address ns)" "\<forall>xs. set (e_set_order env xs) = set xs"
    and "carries_response w (n_stamp teacher) (fs_timestamp (se_current_state (l_known_nodes t'))) (teacher # fleet_iter (se_current_state (l_known_nodes t')))"
  shows "l_known_nodes t' = l_known_nodes (remember_announced w env ns t)"
    "reply = ReplyNodes (fs_timestamp (se_current_state (l_known_nodes t'))) (teacher # fleet_iter (se_current_state (l_known_nodes t')))"
proof -
  let ?u = "remember_announced w env ns t"
  obtain r u' where u': "all_known_nodes w version teacher relaxed ?u = (r, u')" by fastforce
  note akn = all_known_nodes_learner [OF u']
  from assms(5,6) parse_exchange_request [OF assms(1-3)] u' have t': "t' = u'"
    and reply: "reply = reply_of_nodes_response w teacher (get_nodes_via_rest decode version (raise_for_status (flask page (Inr r))))"
    by (auto simp: exchange_def node_metadata_exchange_def)
  have "l_stamp t' = n_stamp teacher"
    using akn(2) remember_announced_recorded [OF assms(10,8,9), of w] assms(4) by (simp add: t')
  with assms(7) have b: "bytestring_of_known_nodes w teacher t' = w_response w (n_stamp teacher)
      (fs_timestamp (se_current_state (l_known_nodes t'))) (teacher # fleet_iter (se_current_state (l_known_nodes t')))"
    by (simp add: bytestring_of_known_nodes_def Let_def)
  show "l_known_nodes t' = l_known_nodes ?u" using akn(1) by (simp add: t')
  show "reply = ReplyNodes (fs_timestamp (se_current_state (l_known_nodes t'))) (teacher # fleet_iter (se_current_state (l_known_nodes t')))"
    unfolding reply akn(3) t' [symmetric] b using assms(7) unfolding b by (rule versioned_reply [OF assms(11,2)])
qed


subsection \<open>Re-encryption end to end\<close>













subsection \<open>The learner's side returns\<close>

text \<open>A teacher that announces itself is known when its remote state is noted.\<close>

lemma digest_returns:
  assumes "settled l" "\<forall>xs. set (e_set_order env xs) = set xs" "teacher \<in> set ns" "distinct (map n_checksum_address ns)"
    and "distinct (map n_stamp ns)" "n_domain teacher = l_domain l" "n_domain teacher = se_domain (l_known_nodes l)" "n_stamp teacher \<noteq> l_stamp l"
  shows "\<exists>l'. digest_reply env False teacher (ReplyNodes ts ns) remembered l = (Inr (LearnedSprouts ns), l')"
proof -
  from assms(1) have idle: "\<not> se_auto_update_state (l_known_nodes l)" "pending l = []" "se_nodes_to_remove (l_known_nodes l) = []"
    by (simp_all add: settled_def)
  from learn_sprouts_lazily [OF idle(1), of env ns] obtain u where
    u: "learn_sprouts env False ns l = (Inr (filter (accepted l) ns), u)" "same_fleet l u" "set (pending u) \<subseteq> set ns"
      "accepted l teacher \<longrightarrow> teacher \<in> set (pending u)"
    using assms(3,5,7) idle(2) by auto
  have none: "se_nodes_to_remove (l_known_nodes u) = []" using u(2) idle(3) by (simp add: same_fleet_def)
  have inj: "inj_on n_checksum_address (set (pending u))"
    using u(3) assms(4) by (auto simp: distinct_map intro: inj_on_subset)
  have known_u: "known_node u (n_checksum_address teacher) \<noteq> None" if "\<not> accepted l teacher"
    using that u(2) assms(8) by (auto simp: accepted_def same_fleet_def split: option.splits)
  have rec: "known_node (sensor_record env False u) (n_checksum_address teacher) \<noteq> None"
  proof (cases "teacher \<in> set (pending u)")
    case True
    then have "metadata_of (se_current_state (l_known_nodes (sensor_record env False u))) (n_checksum_address teacher) = Some (n_metadata teacher)"
      using inj none by (intro metadata_after_record [OF assms(2)]) (simp_all add: distinct_map)
    then show ?thesis by (auto simp: metadata_of_known)
  next
    case False
    have "n_checksum_address m \<noteq> n_checksum_address teacher" if "m \<in> set (pending u)" for m
    proof
      assume eq: "n_checksum_address m = n_checksum_address teacher"
      have "inj_on n_checksum_address (set ns)" using assms(4) by (simp add: distinct_map)
      with eq that u(3) assms(3) have "m = teacher" by (meson inj_onD subsetD)
      with that False show False by simp
    qed
    with sensor_record_lookup [OF assms(2) none] known_u u(4) False show ?thesis by metis
  qed
  let ?v = "if remembered \<noteq> [] \<or> filter (accepted l) ns \<noteq> [] then sensor_record env False u else u"
  have "known_node ?v (n_checksum_address teacher) \<noteq> None"
    using rec known_u assms(3) by (auto simp: filter_empty_conv)
  then have "fleet_contains (se_current_state (l_known_nodes ?v)) (n_checksum_address teacher)"
    unfolding fleet_contains_def fleet_getitem_def by (simp add: dict_get_None_iff)
  then obtain l' where "note_remote_state env teacher ts (length ns) (LearnedSprouts ns) ?v = (Inr (LearnedSprouts ns), l')"
    by (simp add: note_remote_state_def record_remote_fleet_state_def Let_def)
  with u(1) assms(3,6) show ?thesis by (auto simp: digest_reply_def)
qed

end
