(* ===== verification/Files.thy ===== *)
theory Files
  imports Complex_Main Py_Text
begin

text \<open>
  The part of the file system the program uses: a dictionary from absolute paths to directories and
  files, and the \<^verbatim>\<open>umask\<close> of the process. A path is the list of its components, the root the
  empty list. What a file holds is a type parameter. Permission checks of later accesses, links and
  other processes are left out; the permission bits a new file gets are kept
  (\<^verbatim>\<open>0o666\<close> is \<^verbatim>\<open>0x1B6\<close>, \<^verbatim>\<open>0o777\<close> is \<^verbatim>\<open>0x1FF\<close>).
\<close>

unbundle bit_operations_syntax

type_synonym path = "string list"
type_synonym mode = "12 word"

datatype 'c file_node = Dir mode | File mode 'c

datatype os_error = FileExists | FileNotFound | NotADirectory | IsADirectory

record 'c fs =
  entries :: "(path, 'c file_node) dict"
  umask :: mode

definition is_dir :: "'c fs \<Rightarrow> path \<Rightarrow> bool" where
  "is_dir fs p \<longleftrightarrow> p = [] \<or> (case dict_get (entries fs) p of Some (Dir _) \<Rightarrow> True | _ \<Rightarrow> False)"

definition is_file :: "'c fs \<Rightarrow> path \<Rightarrow> bool" where
  "is_file fs p \<longleftrightarrow> p \<noteq> [] \<and> (case dict_get (entries fs) p of Some (File _ _) \<Rightarrow> True | _ \<Rightarrow> False)"

definition path_exists :: "'c fs \<Rightarrow> path \<Rightarrow> bool" where
  "path_exists fs p \<longleftrightarrow> p = [] \<or> dict_get (entries fs) p \<noteq> None"

text \<open>\<^verbatim>\<open>Path.name\<close>, and \<^verbatim>\<open>parent / name\<close> for a name that does not start with a slash.\<close>

definition path_name :: "path \<Rightarrow> string" where
  "path_name p = (if p = [] then [] else last p)"

definition path_join :: "path \<Rightarrow> string \<Rightarrow> path" where
  "path_join parent name = parent @ filter (\<lambda>c. c \<noteq> '''' \<and> c \<noteq> ''.'') (split_char (CHR ''/'') name)"

text \<open>Reading, creating with \<^verbatim>\<open>O_EXCL\<close>, opening with \<^verbatim>\<open>'w'\<close>, and removing a file.\<close>

definition read_file :: "'c fs \<Rightarrow> path \<Rightarrow> os_error + 'c" where
  "read_file fs p =
     (if is_dir fs p then Inl IsADirectory
      else case dict_get (entries fs) p of Some (File _ c) \<Rightarrow> Inr c | _ \<Rightarrow> Inl FileNotFound)"

definition put_node :: "path \<Rightarrow> 'c file_node \<Rightarrow> 'c fs \<Rightarrow> 'c fs" where
  "put_node p n fs = fs\<lparr>entries := dict_set (entries fs) p n\<rparr>"

definition parent_error :: "'c fs \<Rightarrow> path \<Rightarrow> os_error option" where
  "parent_error fs p =
     (if is_dir fs (butlast p) then None
      else if \<exists>n \<in> set [0..<length p]. is_file fs (take n p) then Some NotADirectory
      else Some FileNotFound)"

definition create_file :: "mode \<Rightarrow> path \<Rightarrow> 'c \<Rightarrow> 'c fs \<Rightarrow> os_error + 'c fs" where
  "create_file m p c fs =
     (if path_exists fs p then Inl FileExists
      else case parent_error fs p of
             Some e \<Rightarrow> Inl e
           | None \<Rightarrow> Inr (put_node p (File (m AND NOT (umask fs)) c) fs))"

definition write_file :: "path \<Rightarrow> 'c \<Rightarrow> 'c fs \<Rightarrow> os_error + 'c fs" where
  "write_file p c fs =
     (if is_dir fs p then Inl IsADirectory
      else case dict_get (entries fs) p of
             Some (File m _) \<Rightarrow> Inr (put_node p (File m c) fs)
           | _ \<Rightarrow> create_file 0x1B6 p c fs)"

definition remove_file :: "path \<Rightarrow> 'c fs \<Rightarrow> os_error + 'c fs" where
  "remove_file p fs =
     (if is_dir fs p then Inl IsADirectory
      else if path_exists fs p then Inr (fs\<lparr>entries := dict_del (entries fs) p\<rparr>)
      else Inl FileNotFound)"

definition set_umask :: "mode \<Rightarrow> 'c fs \<Rightarrow> 'c fs" where
  "set_umask m fs = fs\<lparr>umask := m\<rparr>"

text \<open>\<^verbatim>\<open>os.listdir\<close> of a directory, as full paths, and the removal of a directory with all below it.\<close>

definition listdir :: "'c fs \<Rightarrow> path \<Rightarrow> path list" where
  "listdir fs p = filter (\<lambda>q. q \<noteq> [] \<and> butlast q = p) (dict_keys (entries fs))"

definition rmtree :: "path \<Rightarrow> 'c fs \<Rightarrow> os_error + 'c fs" where
  "rmtree p fs =
     (if is_dir fs p then Inr (fs\<lparr>entries := filter (\<lambda>(q, _). take (length p) q \<noteq> p) (entries fs)\<rparr>)
      else if path_exists fs p then Inl NotADirectory
      else Inl FileNotFound)"

text \<open>\<^verbatim>\<open>os.mkdir\<close> and \<^verbatim>\<open>os.makedirs(path, mode, exist_ok)\<close>, on the reversed path.\<close>

definition mkdir :: "mode \<Rightarrow> path \<Rightarrow> 'c fs \<Rightarrow> os_error + 'c fs" where
  "mkdir m p fs =
     (if path_exists fs p then Inl FileExists
      else case parent_error fs p of
             Some e \<Rightarrow> Inl e
           | None \<Rightarrow> Inr (put_node p (Dir (m AND NOT (umask fs))) fs))"

definition mkdir_ok :: "bool \<Rightarrow> mode \<Rightarrow> path \<Rightarrow> 'c fs \<Rightarrow> os_error + 'c fs" where
  "mkdir_ok exist_ok m p fs =
     (case mkdir m p fs of
        Inr fs' \<Rightarrow> Inr fs'
      | Inl e \<Rightarrow> if exist_ok \<and> is_dir fs p then Inr fs else Inl e)"

fun makedirs_up :: "bool \<Rightarrow> mode \<Rightarrow> string list \<Rightarrow> 'c fs \<Rightarrow> os_error + 'c fs" where
  "makedirs_up exist_ok m [] fs = mkdir_ok exist_ok m [] fs"
| "makedirs_up exist_ok m (x # up) fs =
     (if path_exists fs (rev up) then mkdir_ok exist_ok m (rev (x # up)) fs
      else case makedirs_up exist_ok 0x1FF up fs of
             Inl FileExists \<Rightarrow> mkdir_ok exist_ok m (rev (x # up)) fs
           | Inl e \<Rightarrow> Inl e
           | Inr fs' \<Rightarrow> mkdir_ok exist_ok m (rev (x # up)) fs')"

definition makedirs :: "bool \<Rightarrow> mode \<Rightarrow> path \<Rightarrow> 'c fs \<Rightarrow> os_error + 'c fs" where
  "makedirs exist_ok m p fs = makedirs_up exist_ok m (rev p) fs"

subsection \<open>What the operations keep\<close>

text \<open>A file system is a tree: the parent of everything in it is a directory.\<close>

definition wf_fs :: "'c fs \<Rightarrow> bool" where
  "wf_fs fs \<longleftrightarrow> wf_dict (entries fs) \<and> (\<forall>p \<in> set (dict_keys (entries fs)). p \<noteq> [] \<and> is_dir fs (butlast p))"

named_theorems fs_simps

lemmas node_defs = is_dir_def is_file_def path_exists_def read_file_def

lemma put_node_same [fs_simps]:
  "p \<noteq> [] \<Longrightarrow> is_dir (put_node p n fs) p \<longleftrightarrow> (\<exists>m. n = Dir m)"
  "p \<noteq> [] \<Longrightarrow> is_file (put_node p n fs) p \<longleftrightarrow> (\<exists>m c. n = File m c)"
  "path_exists (put_node p n fs) p"
  by (auto simp: node_defs put_node_def dict_simps split: file_node.splits)

lemma put_node_other [fs_simps]:
  "q \<noteq> p \<Longrightarrow> is_dir (put_node p n fs) q = is_dir fs q"
  "q \<noteq> p \<Longrightarrow> is_file (put_node p n fs) q = is_file fs q"
  "q \<noteq> p \<Longrightarrow> path_exists (put_node p n fs) q = path_exists fs q"
  "q \<noteq> p \<Longrightarrow> read_file (put_node p n fs) q = read_file fs q"
  by (simp_all add: node_defs put_node_def dict_simps)

lemma put_node_fields [simp]:
  "umask (put_node p n fs) = umask fs" "umask (set_umask m fs) = m" "entries (set_umask m fs) = entries fs"
  by (simp_all add: put_node_def set_umask_def)

lemma set_umask_reads [fs_simps]:
  "is_dir (set_umask m fs) p = is_dir fs p" "is_file (set_umask m fs) p = is_file fs p"
  "path_exists (set_umask m fs) p = path_exists fs p" "read_file (set_umask m fs) p = read_file fs p"
  by (simp_all add: node_defs)

lemma wf_set_umask [fs_simps]: "wf_fs (set_umask m fs) = wf_fs fs"
  by (simp add: wf_fs_def set_umask_reads)

lemma is_dir_exists: "is_dir fs p \<Longrightarrow> path_exists fs p"
  by (auto simp: node_defs split: option.splits)

lemma is_file_exists: "is_file fs p \<Longrightarrow> path_exists fs p \<and> \<not> is_dir fs p"
  by (auto simp: node_defs split: option.splits file_node.splits)

lemma wf_put_node:
  assumes "wf_fs fs" "p \<noteq> []" "is_dir fs (butlast p)" "\<not> path_exists fs p \<or> (is_dir fs p \<longleftrightarrow> (\<exists>m. n = Dir m))"
  shows "wf_fs (put_node p n fs)"
proof -
  have keep: "is_dir (put_node p n fs) (butlast q)" if q: "q \<in> insert p (set (dict_keys (entries fs)))" for q
  proof -
    have old: "is_dir fs (butlast q)" using q assms(1,3) by (auto simp: wf_fs_def)
    show ?thesis
    proof (cases "butlast q = p")
      case True
      with old assms(2,4) show ?thesis by (auto simp: fs_simps dest: is_dir_exists)
    qed (use old in \<open>simp add: fs_simps\<close>)
  qed
  have "q \<noteq> []" if "q \<in> insert p (set (dict_keys (entries fs)))" for q
    using that assms(1,2) by (auto simp: wf_fs_def)
  moreover have e: "entries (put_node p n fs) = dict_set (entries fs) p n" by (simp add: put_node_def)
  moreover have "wf_dict (entries fs)" using assms(1) by (simp add: wf_fs_def)
  ultimately show ?thesis
    using keep unfolding wf_fs_def e set_keys_set by (blast intro: wf_dict_set)
qed

lemma parent_error_None: "parent_error fs p = None \<longleftrightarrow> is_dir fs (butlast p)"
  by (simp add: parent_error_def)

lemma create_file_Inr:
  assumes "create_file m p c fs = Inr fs'"
  shows "\<not> path_exists fs p" "p \<noteq> []" "is_dir fs (butlast p)" "fs' = put_node p (File (m AND NOT (umask fs)) c) fs"
  using assms by (auto simp: create_file_def parent_error_None path_exists_def split: if_splits option.splits)

lemma create_file_ok:
  "create_file m p c fs = Inr fs' \<Longrightarrow> wf_fs fs \<Longrightarrow>
   wf_fs fs' \<and> is_file fs' p \<and> read_file fs' p = Inr c \<and> (\<forall>q. q \<noteq> p \<longrightarrow> read_file fs' q = read_file fs q)"
  using create_file_Inr [of m p c fs fs']
  by (auto simp: fs_simps intro: wf_put_node) (simp add: node_defs put_node_def dict_simps)

lemma mkdir_Inr:
  assumes "mkdir m p fs = Inr fs'"
  shows "\<not> path_exists fs p" "p \<noteq> []" "is_dir fs (butlast p)" "fs' = put_node p (Dir (m AND NOT (umask fs))) fs"
  using assms by (auto simp: mkdir_def parent_error_None path_exists_def split: if_splits option.splits)

text \<open>\<open>dirs_only fs fs'\<close>: the second file system has more directories, and is otherwise the first.\<close>

definition dirs_only :: "'c fs \<Rightarrow> 'c fs \<Rightarrow> bool" where
  "dirs_only fs fs' \<longleftrightarrow> umask fs' = umask fs \<and> (wf_fs fs \<longrightarrow> wf_fs fs') \<and>
     (\<forall>q. path_exists fs q \<longrightarrow> dict_get (entries fs') q = dict_get (entries fs) q) \<and>
     (\<forall>q. \<not> path_exists fs q \<longrightarrow> path_exists fs' q \<longrightarrow> is_dir fs' q)"

lemma dirs_only_refl: "dirs_only fs fs"
  by (simp add: dirs_only_def)

lemma dirs_only_exists:
  assumes "dirs_only fs fs'"
  shows "path_exists fs q \<Longrightarrow> path_exists fs' q" "is_dir fs q \<Longrightarrow> is_dir fs' q" "is_file fs' q = is_file fs q"
proof -
  have same: "dict_get (entries fs') q = dict_get (entries fs) q" if "path_exists fs q"
    using assms that by (simp add: dirs_only_def)
  then show "path_exists fs q \<Longrightarrow> path_exists fs' q" "is_dir fs q \<Longrightarrow> is_dir fs' q"
    using is_dir_exists [of fs q] by (auto simp: node_defs)
  show "is_file fs' q = is_file fs q"
  proof (cases "path_exists fs q")
    case True
    with same show ?thesis by (simp add: is_file_def)
  next
    case False
    with assms show ?thesis using is_file_exists [of fs' q] is_file_exists [of fs q] by (auto simp: dirs_only_def)
  qed
qed

lemma dirs_only_trans: "dirs_only a b \<Longrightarrow> dirs_only b c \<Longrightarrow> dirs_only a c"
proof -
  assume ab: "dirs_only a b" and bc: "dirs_only b c"
  have "is_dir c q" if "\<not> path_exists a q" "path_exists c q" for q
    using that ab bc dirs_only_exists(2) [OF bc] by (cases "path_exists b q") (auto simp: dirs_only_def)
  with ab bc show ?thesis using dirs_only_exists(1) [OF ab] by (auto simp: dirs_only_def)
qed

lemma dirs_only_mkdir: "mkdir m p fs = Inr fs' \<Longrightarrow> dirs_only fs fs' \<and> is_dir fs' p"
  using mkdir_Inr [of m p fs fs'] unfolding dirs_only_def
  by (auto simp: fs_simps intro: wf_put_node) (auto simp: put_node_def dict_simps node_defs split: if_splits)

lemma mkdir_ok_Inr: "mkdir_ok eo m p fs = Inr fs' \<Longrightarrow> dirs_only fs fs' \<and> is_dir fs' p"
  by (auto simp: mkdir_ok_def dirs_only_refl dest: dirs_only_mkdir split: sum.splits if_splits)

lemma makedirs_up_Inr: "makedirs_up eo m up fs = Inr fs' \<Longrightarrow> dirs_only fs fs' \<and> is_dir fs' (rev up)"
proof (induction eo m up fs arbitrary: fs' rule: makedirs_up.induct)
  case (2 eo m x up fs)
  then show ?case
    by (auto split: if_splits sum.splits os_error.splits dest!: mkdir_ok_Inr intro: dirs_only_trans)
qed (auto dest: mkdir_ok_Inr)

lemma makedirs_Inr: "makedirs eo m p fs = Inr fs' \<Longrightarrow> dirs_only fs fs' \<and> is_dir fs' p"
  using makedirs_up_Inr [of eo m "rev p" fs fs'] by (simp add: makedirs_def)

text \<open>With \<open>exist_ok\<close> the directories are made unless a file is in the way.\<close>

lemma is_file_or_dir: "path_exists fs p \<longleftrightarrow> is_dir fs p \<or> is_file fs p"
  by (auto simp: node_defs split: option.splits file_node.splits)

lemma makedirs_up_total:
  assumes "\<forall>n. \<not> is_file fs (rev (drop n up))"
  shows "\<exists>fs'. makedirs_up True m up fs = Inr fs'"
  using assms
proof (induction up arbitrary: m)
  case Nil
  then show ?case by (simp add: mkdir_ok_def mkdir_def node_defs)
next
  case (Cons x up)
  have here: "\<not> is_file fs (rev (x # up))" using Cons.prems [rule_format, of 0] by simp
  have "\<forall>n. \<not> is_file fs (rev (drop n up))"
    using Cons.prems by (metis drop_Suc_Cons)
  with Cons.IH [of "0x1FF"] obtain fs1 where fs1: "makedirs_up True 0x1FF up fs = Inr fs1" and up: "\<not> is_file fs (rev up)"
    by (metis drop0)
  have ok: "\<exists>fs2. mkdir_ok True m (rev (x # up)) g = Inr fs2"
    if "is_dir g (rev up)" "\<not> is_file g (rev (x # up))" for g :: "'a fs"
    using that is_file_or_dir [of g "rev (x # up)"]
    by (auto simp: mkdir_ok_def mkdir_def parent_error_def split: option.splits sum.splits)
  show ?case
  proof (cases "path_exists fs (rev up)")
    case True
    with up ok [of fs] here show ?thesis by (simp add: is_file_or_dir)
  next
    case False
    have "dirs_only fs fs1" "is_dir fs1 (rev up)" using makedirs_up_Inr [OF fs1] by auto
    with ok [of fs1] here fs1 False show ?thesis by (simp add: dirs_only_exists(3))
  qed
qed

lemma makedirs_total:
  assumes "\<forall>n \<le> length dir. \<not> is_file fs (take n dir)"
  shows "\<exists>fs'. makedirs True m dir fs = Inr fs'"
proof -
  have "\<not> is_file fs (rev (drop n (rev dir)))" for n
    using assms [rule_format, of "length dir - n"] by (simp add: rev_drop)
  then show ?thesis using makedirs_up_total [of fs "rev dir" m] by (simp add: makedirs_def)
qed

text \<open>Making directories above a path does not make the path itself.\<close>

lemma mkdir_ok_other: "mkdir_ok eo m p fs = Inr fs' \<Longrightarrow> q \<noteq> p \<Longrightarrow> path_exists fs' q = path_exists fs q"
  by (auto simp: mkdir_ok_def fs_simps dest!: mkdir_Inr(4) split: sum.splits if_splits)

lemma makedirs_up_below:
  "makedirs_up eo m up fs = Inr fs' \<Longrightarrow> length q > length up \<Longrightarrow> path_exists fs' q = path_exists fs q"
proof (induction eo m up fs arbitrary: fs' rule: makedirs_up.induct)
  case (1 eo m fs)
  then show ?case by (auto dest: mkdir_ok_other)
next
  case (2 eo m x up fs)
  have ne: "q \<noteq> rev (x # up)" using 2(3) by auto
  show ?case
  proof (cases "path_exists fs (rev up)")
    case True
    with 2(2) mkdir_ok_other [OF _ ne] show ?thesis by auto
  next
    case False
    with 2(2) mkdir_ok_other [OF _ ne] 2(1) [OF False] 2(3) show ?thesis
      by (auto split: sum.splits os_error.splits)
  qed
qed

lemma makedirs_below: "makedirs eo m dir fs = Inr fs' \<Longrightarrow> path_exists fs' (dir @ [n]) = path_exists fs (dir @ [n])"
  using makedirs_up_below [of eo m "rev dir" fs fs' "dir @ [n]"] by (simp add: makedirs_def)

lemma dirs_only_read: "dirs_only fs fs1 \<Longrightarrow> is_file fs q \<Longrightarrow> read_file fs1 q = read_file fs q"
  using is_file_exists [of fs q] by (auto simp: dirs_only_def node_defs)

lemma read_put_same: "p \<noteq> [] \<Longrightarrow> read_file (put_node p (File m c) fs) p = Inr c"
  by (simp add: node_defs put_node_def dict_get_set)

lemma write_file_into_dir:
  assumes "wf_fs fs" "is_dir fs d" "\<not> is_dir fs (d @ [x])"
  shows "\<exists>m. write_file (d @ [x]) c fs = Inr (put_node (d @ [x]) (File m c) fs) \<and> wf_fs (put_node (d @ [x]) (File m c) fs)"
proof -
  have wf: "wf_fs (put_node (d @ [x]) (File m c) fs)" for m
    using assms by (intro wf_put_node) auto
  show ?thesis
  proof (cases "dict_get (entries fs) (d @ [x])")
    case None
    then have "create_file 0x1B6 (d @ [x]) c fs = Inr (put_node (d @ [x]) (File (0x1B6 AND NOT (umask fs)) c) fs)"
      using assms(2) by (simp add: create_file_def path_exists_def parent_error_def)
    with None assms(3) wf show ?thesis by (auto simp: write_file_def)
  next
    case (Some n)
    with assms(3) obtain m c' where "n = File m c'" by (cases n) (auto simp: is_dir_def)
    with Some assms(3) wf show ?thesis by (auto simp: write_file_def)
  qed
qed

text \<open>A file is written at a path whose directories are made first, unless a file or a directory is in the way.\<close>

definition writable_path :: "path \<Rightarrow> 'c fs \<Rightarrow> bool" where
  "writable_path p fs \<longleftrightarrow> wf_fs fs \<and> p \<noteq> [] \<and> \<not> is_dir fs p \<and> (\<forall>n < length p. \<not> is_file fs (take n p))"

lemma makedirs_and_write:
  assumes "writable_path p fs"
  shows "\<exists>fs1 fs2. makedirs True m (butlast p) fs = Inr fs1 \<and> write_file p c fs1 = Inr fs2 \<and> writable_path p fs2 \<and> read_file fs2 p = Inr c"
proof -
  from assms have p: "p = butlast p @ [last p]" and wf: "wf_fs fs" and nd: "\<not> is_dir fs p" by (auto simp: writable_path_def)
  have "\<not> is_file fs (take n (butlast p))" if "n \<le> length (butlast p)" for n
  proof -
    from assms have "p \<noteq> []" by (simp add: writable_path_def)
    with that have "n < length p" using length_butlast [of p] by (cases p) (simp_all del: butlast.simps)
    moreover from this have "take n (butlast p) = take n p" by (simp add: butlast_conv_take)
    ultimately show ?thesis using assms by (simp add: writable_path_def)
  qed
  then obtain fs1 where mk: "makedirs True m (butlast p) fs = Inr fs1" using makedirs_total by blast
  have only: "dirs_only fs fs1" and d: "is_dir fs1 (butlast p)" using makedirs_Inr [OF mk] by auto
  have wf1: "wf_fs fs1" using only wf by (simp add: dirs_only_def)
  have "path_exists fs1 p = path_exists fs p" using makedirs_below [OF mk, of "last p"] p by simp
  then have nd1: "\<not> is_dir fs1 p"
    using nd dirs_only_exists(3) [OF only, of p] is_file_or_dir [of fs p] is_file_or_dir [of fs1 p] is_file_exists [of fs1 p] by auto
  from write_file_into_dir [OF wf1 d, of "last p" c] nd1 p obtain md where
    w: "write_file p c fs1 = Inr (put_node p (File md c) fs1)" "wf_fs (put_node p (File md c) fs1)" by auto
  have "\<not> is_file (put_node p (File md c) fs1) (take n p)" if "n < length p" for n
  proof -
    have "take n p \<noteq> p" using that by (metis length_take min.absorb4 nat_neq_iff)
    then show ?thesis using assms that dirs_only_exists(3) [OF only] by (simp add: fs_simps writable_path_def)
  qed
  then have "writable_path p (put_node p (File md c) fs1)"
    using w(2) assms by (auto simp: writable_path_def fs_simps)
  moreover have "read_file (put_node p (File md c) fs1) p = Inr c" using assms by (simp add: read_put_same writable_path_def)
  ultimately show ?thesis using mk w(1) by blast
qed

subsection \<open>JSON documents\<close>

text \<open>
  A file that holds JSON, as decoding and \<^verbatim>\<open>json.loads\<close> see it: bytes that are not text, text that
  is not JSON, or a value.
\<close>

datatype json =
    JStr string | JObj "(string \<times> json) list" | JNull | JBool bool | JInt int | JFloat rat | JList "json list"

datatype text_file = Undecodable | NotJson | Json json

text \<open>\<^verbatim>\<open>value[field]\<close> on what \<^verbatim>\<open>json.loads\<close> returned.\<close>

datatype subscript_error = NoSuchKey | NotSubscriptable

fun json_item :: "json \<Rightarrow> string \<Rightarrow> subscript_error + json" where
  "json_item (JObj d) k = (case dict_get d k of Some v \<Rightarrow> Inr v | None \<Rightarrow> Inl NoSuchKey)"
| "json_item _ k = Inl NotSubscriptable"

end
