(* ===== verification/Signers.thy ===== *)
theory Signers
  imports Files
begin

text \<open>
  Signing backends: \<^verbatim>\<open>nulink/blockchain/eth/signers/\<close>, the address check of
  \<^verbatim>\<open>nulink/blockchain/eth/decorators.py\<close>, and \<^verbatim>\<open>TransactingPower\<close> of \<^verbatim>\<open>nulink/crypto/powers.py\<close>,
  which is their client.

  \<^item> \<^verbatim>\<open>eth_utils\<close> (is it an address, a checksum address, its checksum form), \<^verbatim>\<open>eth_account\<close> (decrypting a
    key file, signing) and the devices behind Clef and Trezor are parameters.
  \<^item> The interface of the abstract class \<^verbatim>\<open>Signer\<close> is a record of operations; what its clients rely on
    are the locales \<open>signer\<close> and \<open>locking_signer\<close>, interpreted for the three backends.
\<close>

subsection \<open>Checking addresses\<close>

text \<open>The value of a parameter: a string, \<^verbatim>\<open>None\<close>, the constant for no connection, or something else.\<close>

datatype arg = ArgStr string | ArgNone | ArgNoConnection | ArgOther

record param =
  pm_name :: string
  pm_value :: arg
  pm_default_none :: bool

datatype address_error = InvalidType | InvalidChecksum

definition ends_with :: "string \<Rightarrow> string \<Rightarrow> bool" where
  "ends_with s suf \<longleftrightarrow> length suf \<le> length s \<and> drop (length s - length suf) s = suf"

definition is_address_parameter :: "string \<Rightarrow> bool" where
  "is_address_parameter n \<longleftrightarrow> ends_with n ''_address'' \<or> n \<in> {''account'', ''address''}"

text \<open>
  The wrapper before it calls the function: the addresses seen to be valid are remembered over all
  calls. The result is the error it raises, and the new memory.
\<close>

fun validate_params :: "(arg \<Rightarrow> bool) \<Rightarrow> param list \<Rightarrow> arg list \<Rightarrow> address_error option \<times> arg list" where
  "validate_params is_ck [] verified = (None, verified)"
| "validate_params is_ck (p # ps) verified =
     (let a = pm_value p
      in if a \<in> set verified then validate_params is_ck ps verified
         else if pm_default_none p \<and> a = ArgNone \<or> a = ArgNoConnection then validate_params is_ck ps verified
         else if is_ck a then validate_params is_ck ps (verified @ [a])
         else (case a of ArgStr _ \<Rightarrow> (Some InvalidChecksum, verified) | _ \<Rightarrow> (Some InvalidType, verified)))"

definition validate_checksum_address ::
  "(arg \<Rightarrow> bool) \<Rightarrow> param list \<Rightarrow> (arg list \<Rightarrow> 'r) \<Rightarrow> arg list \<Rightarrow> (address_error + 'r) \<times> arg list" where
  "validate_checksum_address is_ck params call verified =
     (case validate_params is_ck (filter (is_address_parameter \<circ> pm_name) params) verified of
        (Some e, verified') \<Rightarrow> (Inl e, verified')
      | (None, verified') \<Rightarrow> (Inr (call (map pm_value params)), verified'))"

text \<open>The same check without a memory.\<close>

definition check_param :: "(arg \<Rightarrow> bool) \<Rightarrow> param \<Rightarrow> address_error option" where
  "check_param is_ck p =
     (let a = pm_value p
      in if pm_default_none p \<and> a = ArgNone \<or> a = ArgNoConnection \<or> is_ck a then None
         else case a of ArgStr _ \<Rightarrow> Some InvalidChecksum | _ \<Rightarrow> Some InvalidType)"

definition first_error :: "(arg \<Rightarrow> bool) \<Rightarrow> param list \<Rightarrow> address_error option" where
  "first_error is_ck ps = (case filter (\<lambda>e. e \<noteq> None) (map (check_param is_ck) ps) of e # _ \<Rightarrow> e | [] \<Rightarrow> None)"

subsection \<open>The interface\<close>

datatype signer_error =
    AccountLocked | UnknownAccount | AuthenticationFailed | InvalidSignerURI | InvalidKeyfile
  | BadAddress address_error | SignerTypeError | SignerValueError | SignerKeyError | SignerRuntimeError
  | SignerError | SignerNotImplemented | SignerDecodeError | SignerOsError os_error | NoDeviceDetected | DeviceError | DeviceFailure string

record ('s, 'sig) signer_ops =
  so_accounts :: "'s \<Rightarrow> address list"
  so_unlock :: "address \<Rightarrow> string option \<Rightarrow> 's \<Rightarrow> (signer_error + bool) \<times> 's"
  so_lock :: "address \<Rightarrow> 's \<Rightarrow> (signer_error + bool) \<times> 's"
  so_sign_message :: "address \<Rightarrow> bytes \<Rightarrow> 's \<Rightarrow> signer_error + 'sig"

text \<open>What every backend promises: locking and unlocking keep its accounts and what other accounts can sign.\<close>

locale signer =
  fixes ops :: "('s, 'sig) signer_ops"
    and wf :: "'s \<Rightarrow> bool"
  assumes unlock_wf: "wf s \<Longrightarrow> wf (snd (so_unlock ops a pw s))"
    and lock_wf: "wf s \<Longrightarrow> wf (snd (so_lock ops a s))"
    and unlock_accounts: "so_accounts ops (snd (so_unlock ops a pw s)) = so_accounts ops s"
    and lock_accounts: "so_accounts ops (snd (so_lock ops a s)) = so_accounts ops s"
    and unlock_other: "b \<noteq> a \<Longrightarrow> so_sign_message ops b m (snd (so_unlock ops a pw s)) = so_sign_message ops b m s"
    and lock_other: "b \<noteq> a \<Longrightarrow> so_sign_message ops b m (snd (so_lock ops a s)) = so_sign_message ops b m s"
    and unlock_fails: "so_unlock ops a pw s = (Inl e, s') \<Longrightarrow> s' = s"
begin

lemma unlock_lock_other:
  "b \<noteq> a \<Longrightarrow> so_sign_message ops b m (snd (so_lock ops a (snd (so_unlock ops a pw s)))) = so_sign_message ops b m s"
  by (simp add: unlock_other lock_other)

end

text \<open>A backend that keeps keys itself: unlocked accounts sign, locked ones do not.\<close>

locale locking_signer = signer ops wf
  for ops :: "('s, 'sig) signer_ops" and wf :: "'s \<Rightarrow> bool" +
  assumes unlocked_signs: "wf s \<Longrightarrow> so_unlock ops a pw s = (Inr True, s') \<Longrightarrow> \<exists>sig. so_sign_message ops a m s' = Inr sig"
    and locked_refuses: "wf s \<Longrightarrow> so_lock ops a s = (Inr True, s') \<Longrightarrow> so_sign_message ops a m s' = Inl AccountLocked"
    and lock_unlocked: "wf s \<Longrightarrow> so_sign_message ops a m s = Inr sig \<Longrightarrow> fst (so_lock ops a s) = Inr True"
begin

text \<open>Unlock, sign, lock: the signature is there, and afterwards the account refuses to sign.\<close>

lemma session:
  assumes "wf s" "so_unlock ops a pw s = (Inr True, s')"
  shows "(\<exists>sig. so_sign_message ops a m s' = Inr sig) \<and>
         fst (so_lock ops a s') = Inr True \<and> so_sign_message ops a m (snd (so_lock ops a s')) = Inl AccountLocked"
proof -
  from unlocked_signs [OF assms] obtain sig where sig: "so_sign_message ops a m s' = Inr sig" by blast
  have "wf s'" using unlock_wf [OF assms(1), of a pw] assms(2) by simp
  with sig have lock: "fst (so_lock ops a s') = Inr True" by (blast intro: lock_unlocked)
  then have "so_lock ops a s' = (Inr True, snd (so_lock ops a s'))" by (simp add: prod_eq_iff)
  with \<open>wf s'\<close> have "so_sign_message ops a m (snd (so_lock ops a s')) = Inl AccountLocked" by (rule locked_refuses)
  with sig lock show ?thesis by blast
qed

end

subsection \<open>Key files: KeystoreSigner\<close>

datatype tx_value = TxStr string | TxInt int | TxBytes bytes | TxNone

type_synonym tx = "(string, tx_value) dict"

fun tx_falsy :: "tx_value \<Rightarrow> bool" where
  "tx_falsy (TxStr s) \<longleftrightarrow> s = []"
| "tx_falsy (TxInt i) \<longleftrightarrow> i = 0"
| "tx_falsy (TxBytes b) \<longleftrightarrow> b = []"
| "tx_falsy TxNone \<longleftrightarrow> True"

text \<open>\<^verbatim>\<open>Account.decrypt\<close> then \<^verbatim>\<open>Account.from_key\<close>: an account that signs, or one of the two exceptions.\<close>

datatype 'a decryption = Decrypted 'a | DecryptTypeError | DecryptValueError

record ('a, 'sig) eth_lib =
  el_is_address :: "json \<Rightarrow> bool"
  el_to_checksum :: "json \<Rightarrow> address"
  el_is_checksum :: "address \<Rightarrow> bool"
  el_decrypt :: "json \<Rightarrow> string option \<Rightarrow> 'a decryption"
  el_sign_message :: "'a \<Rightarrow> bytes \<Rightarrow> 'sig"
  el_sign_transaction :: "'a \<Rightarrow> tx \<Rightarrow> 'sig"

record 'a keystore_signer =
  ks_path :: path
  ks_keys :: "(address, json) dict"
  ks_signers :: "(address, 'a) dict"

definition ks_read_keyfile :: "text_file fs \<Rightarrow> path \<Rightarrow> signer_error + json \<times> json" where
  "ks_read_keyfile fs p =
     (case read_file fs p of
        Inl FileNotFound \<Rightarrow> Inl InvalidKeyfile
      | Inl e \<Rightarrow> Inl (SignerOsError e)
      | Inr Undecodable \<Rightarrow> Inl SignerDecodeError
      | Inr NotJson \<Rightarrow> Inl InvalidKeyfile
      | Inr (Json md) \<Rightarrow>
          (case json_item md ''address'' of
             Inl NoSuchKey \<Rightarrow> Inl InvalidKeyfile
           | Inl NotSubscriptable \<Rightarrow> Inl SignerTypeError
           | Inr a \<Rightarrow> Inr (a, md)))"

definition ks_handle_keyfile :: "('a, 'sig) eth_lib \<Rightarrow> text_file fs \<Rightarrow> path \<Rightarrow> signer_error + address \<times> json" where
  "ks_handle_keyfile lib fs p =
     (case ks_read_keyfile fs p of
        Inl e \<Rightarrow> Inl e
      | Inr (a, md) \<Rightarrow> if \<not> el_is_address lib a then Inl InvalidKeyfile else Inr (el_to_checksum lib a, md))"

fun ks_read_all :: "('a, 'sig) eth_lib \<Rightarrow> text_file fs \<Rightarrow> path list \<Rightarrow> (address, json) dict \<Rightarrow> signer_error + (address, json) dict" where
  "ks_read_all lib fs [] keys = Inr keys"
| "ks_read_all lib fs (p # ps) keys =
     (case ks_handle_keyfile lib fs p of
        Inl e \<Rightarrow> Inl e
      | Inr (a, md) \<Rightarrow> ks_read_all lib fs ps (dict_set keys a md))"

definition ks_read_keystore :: "('a, 'sig) eth_lib \<Rightarrow> text_file fs \<Rightarrow> path \<Rightarrow> signer_error + (address, json) dict" where
  "ks_read_keystore lib fs p =
     (if is_dir fs p then ks_read_all lib fs (filter (is_file fs) (listdir fs p)) []
      else if is_file fs p then ks_read_all lib fs [p] []
      else Inl InvalidSignerURI)"

definition new_keystore_signer :: "('a, 'sig) eth_lib \<Rightarrow> text_file fs \<Rightarrow> path \<Rightarrow> signer_error + 'a keystore_signer" where
  "new_keystore_signer lib fs p =
     (case ks_read_keystore lib fs p of
        Inl e \<Rightarrow> Inl e
      | Inr keys \<Rightarrow> Inr \<lparr>ks_path = p, ks_keys = keys, ks_signers = []\<rparr>)"

definition ks_get_signer :: "('a, 'sig) eth_lib \<Rightarrow> address \<Rightarrow> 'a keystore_signer \<Rightarrow> signer_error + 'a" where
  "ks_get_signer lib account s =
     (if \<not> el_is_checksum lib account then Inl (BadAddress InvalidChecksum)
      else case dict_get (ks_signers s) account of
             Some sk \<Rightarrow> Inr sk
           | None \<Rightarrow> if dict_get (ks_keys s) account = None then Inl UnknownAccount else Inl AccountLocked)"

definition ks_accounts :: "'a keystore_signer \<Rightarrow> address list" where
  "ks_accounts s = dict_keys (ks_keys s)"

definition ks_unlock_account ::
  "('a, 'sig) eth_lib \<Rightarrow> address \<Rightarrow> string option \<Rightarrow> 'a keystore_signer \<Rightarrow> (signer_error + bool) \<times> 'a keystore_signer" where
  "ks_unlock_account lib account password s =
     (if \<not> el_is_checksum lib account then (Inl (BadAddress InvalidChecksum), s)
      else case dict_get (ks_signers s) account of
             Some _ \<Rightarrow> (Inr True, s)
           | None \<Rightarrow>
               (case dict_get (ks_keys s) account of
                  None \<Rightarrow> (Inl UnknownAccount, s)
                | Some key_metadata \<Rightarrow>
                    (case el_decrypt lib key_metadata password of
                       Decrypted signing_key \<Rightarrow> (Inr True, s\<lparr>ks_signers := dict_set (ks_signers s) account signing_key\<rparr>)
                     | DecryptTypeError \<Rightarrow>
                         if password = None \<or> password = Some [] then (Inl AuthenticationFailed, s) else (Inl SignerTypeError, s)
                     | DecryptValueError \<Rightarrow> (Inl AuthenticationFailed, s))))"

definition ks_lock_account ::
  "('a, 'sig) eth_lib \<Rightarrow> address \<Rightarrow> 'a keystore_signer \<Rightarrow> (signer_error + bool) \<times> 'a keystore_signer" where
  "ks_lock_account lib account s =
     (if \<not> el_is_checksum lib account then (Inl (BadAddress InvalidChecksum), s)
      else let s' = s\<lparr>ks_signers := dict_del (ks_signers s) account\<rparr>
           in if dict_get (ks_signers s) account = None \<and> account \<notin> set (ks_accounts s) then (Inl UnknownAccount, s)
              else (Inr (dict_get (ks_signers s') account = None), s'))"

definition ks_sign_message :: "('a, 'sig) eth_lib \<Rightarrow> address \<Rightarrow> bytes \<Rightarrow> 'a keystore_signer \<Rightarrow> signer_error + 'sig" where
  "ks_sign_message lib account message s =
     (if \<not> el_is_checksum lib account then Inl (BadAddress InvalidChecksum)
      else case ks_get_signer lib account s of Inl e \<Rightarrow> Inl e | Inr sk \<Rightarrow> Inr (el_sign_message lib sk message))"

definition ks_sign_transaction :: "('a, 'sig) eth_lib \<Rightarrow> tx \<Rightarrow> 'a keystore_signer \<Rightarrow> signer_error + 'sig" where
  "ks_sign_transaction lib transaction_dict s =
     (case dict_get transaction_dict ''from'' of
        None \<Rightarrow> Inl SignerKeyError
      | Some (TxStr sender) \<Rightarrow>
          (case ks_get_signer lib sender s of
             Inl e \<Rightarrow> Inl e
           | Inr sk \<Rightarrow>
               (case dict_get transaction_dict ''to'' of
                  None \<Rightarrow> Inl SignerKeyError
                | Some to_ \<Rightarrow>
                    Inr (el_sign_transaction lib sk (if tx_falsy to_ then dict_del transaction_dict ''to'' else transaction_dict))))
      | Some _ \<Rightarrow> Inl (BadAddress InvalidType))"

text \<open>\<^verbatim>\<open>__del__\<close> locks every account of the keystore.\<close>

definition ks_del :: "('a, 'sig) eth_lib \<Rightarrow> 'a keystore_signer \<Rightarrow> 'a keystore_signer" where
  "ks_del lib s = foldl (\<lambda>t account. snd (ks_lock_account lib account t)) s (dict_keys (ks_keys s))"

definition keystore_ops :: "('a, 'sig) eth_lib \<Rightarrow> ('a keystore_signer, 'sig) signer_ops" where
  "keystore_ops lib = \<lparr>so_accounts = ks_accounts, so_unlock = ks_unlock_account lib, so_lock = ks_lock_account lib,
     so_sign_message = ks_sign_message lib\<rparr>"

text \<open>A signer reads its keys under checksum addresses, and holds signing keys only of accounts it read.\<close>

definition ks_wf :: "('a, 'sig) eth_lib \<Rightarrow> 'a keystore_signer \<Rightarrow> bool" where
  "ks_wf lib s \<longleftrightarrow> wf_dict (ks_keys s) \<and> wf_dict (ks_signers s) \<and>
     dom (dict_get (ks_signers s)) \<subseteq> dom (dict_get (ks_keys s)) \<and>
     (\<forall>a \<in> dom (dict_get (ks_keys s)). el_is_checksum lib a)"

lemma ks_accounts_iff: "a \<in> set (ks_accounts s) \<longleftrightarrow> dict_get (ks_keys s) a \<noteq> None"
  by (auto simp: ks_accounts_def dict_get_None_iff)

lemma ks_unlock_keys: "ks_keys (snd (ks_unlock_account lib a pw s)) = ks_keys s"
  by (simp add: ks_unlock_account_def split: option.splits decryption.splits)

lemma ks_lock_keys: "ks_keys (snd (ks_lock_account lib a s)) = ks_keys s"
  by (simp add: ks_lock_account_def Let_def)

lemma ks_unlock_wf: "ks_wf lib s \<Longrightarrow> ks_wf lib (snd (ks_unlock_account lib a pw s))"
proof -
  assume wf: "ks_wf lib s"
  then have "ks_wf lib (s\<lparr>ks_signers := dict_set (ks_signers s) a k\<rparr>)" if "dict_get (ks_keys s) a = Some md" for k md
    using that wf_dict_set [of "ks_signers s" a k] by (simp add: ks_wf_def dom_dict_set domIff)
  with wf show ?thesis by (simp add: ks_unlock_account_def split: option.split decryption.split)
qed

lemma ks_lock_wf: "ks_wf lib s \<Longrightarrow> ks_wf lib (snd (ks_lock_account lib a s))"
proof -
  assume wf: "ks_wf lib s"
  then have "ks_wf lib (s\<lparr>ks_signers := dict_del (ks_signers s) a\<rparr>)"
    using wf_dict_del [of "ks_signers s" a] by (auto simp: ks_wf_def dom_dict_del simp del: delete_keys)
  with wf show ?thesis by (simp add: ks_lock_account_def Let_def)
qed

lemma ks_other:
  "b \<noteq> a \<Longrightarrow> ks_sign_message lib b m (snd (ks_unlock_account lib a pw s)) = ks_sign_message lib b m s"
  "b \<noteq> a \<Longrightarrow> ks_sign_message lib b m (snd (ks_lock_account lib a s)) = ks_sign_message lib b m s"
  by (auto simp: ks_sign_message_def ks_get_signer_def ks_unlock_account_def ks_lock_account_def Let_def dict_simps
      split: option.splits decryption.splits)

lemma ks_unlocked_signs: "ks_unlock_account lib a pw s = (Inr True, s') \<Longrightarrow> \<exists>sig. ks_sign_message lib a m s' = Inr sig"
  by (auto simp: ks_sign_message_def ks_get_signer_def ks_unlock_account_def dict_simps
      split: if_splits option.splits decryption.splits)

lemma ks_locked_refuses:
  assumes "ks_wf lib s" "ks_lock_account lib a s = (Inr True, s')"
  shows "ks_sign_message lib a m s' = Inl AccountLocked"
proof -
  have "s' = s\<lparr>ks_signers := dict_del (ks_signers s) a\<rparr>" "el_is_checksum lib a"
    "a \<in> dom (dict_get (ks_signers s)) \<or> a \<in> dom (dict_get (ks_keys s))"
    using assms(2) by (auto simp: ks_lock_account_def Let_def ks_accounts_iff domIff split: if_splits)
  moreover from this assms(1) have "dict_get (ks_keys s) a \<noteq> None" unfolding ks_wf_def by blast
  ultimately show ?thesis by (simp add: ks_sign_message_def ks_get_signer_def dict_get_del)
qed

lemma ks_lock_unlocked: "ks_sign_message lib a m s = Inr sig \<Longrightarrow> fst (ks_lock_account lib a s) = Inr True"
  by (auto simp: ks_sign_message_def ks_get_signer_def ks_lock_account_def Let_def dict_simps
      split: if_splits option.splits)

interpretation kss: locking_signer "keystore_ops lib" "ks_wf lib" for lib
  by unfold_locales
    (auto simp: keystore_ops_def ks_unlock_wf ks_lock_wf ks_unlock_keys ks_lock_keys ks_accounts_def ks_other ks_locked_refuses
      intro: ks_unlocked_signs ks_lock_unlocked, auto simp: ks_unlock_account_def split: if_splits option.splits decryption.splits)

subsection \<open>An external signer: ClefSigner\<close>

definition SIGN_DATA_FOR_VALIDATOR :: string where "SIGN_DATA_FOR_VALIDATOR = ''data/validator''"
definition SIGN_DATA_FOR_CLIQUE :: string where "SIGN_DATA_FOR_CLIQUE = ''application/clique''"
definition SIGN_DATA_FOR_ECRECOVER :: string where "SIGN_DATA_FOR_ECRECOVER = ''text/plain''"

datatype clef_data = ClefText string | ClefValidator address string

text \<open>The request to the Clef process is a parameter. An optional argument that is empty counts as missing.\<close>

definition clef_sign_message ::
  "(address \<Rightarrow> bool) \<Rightarrow> (string \<Rightarrow> address \<Rightarrow> clef_data \<Rightarrow> signer_error + 'sig) \<Rightarrow> address \<Rightarrow> bytes
    \<Rightarrow> string option \<Rightarrow> address option \<Rightarrow> signer_error + 'sig" where
  "clef_sign_message is_ck ipc account message content_type validator_address =
     (if \<not> is_ck account then Inl (BadAddress InvalidChecksum)
      else if (case validator_address of Some v \<Rightarrow> \<not> is_ck v | None \<Rightarrow> False) then Inl (BadAddress InvalidChecksum)
      else let text = ''0x'' @ hex message;
               ct = (case content_type of Some (c # cs) \<Rightarrow> c # cs | _ \<Rightarrow> SIGN_DATA_FOR_ECRECOVER)
           in if ct \<notin> {SIGN_DATA_FOR_VALIDATOR, SIGN_DATA_FOR_CLIQUE, SIGN_DATA_FOR_ECRECOVER} then Inl SignerValueError
              else if ct = SIGN_DATA_FOR_VALIDATOR then
                (case validator_address of
                   None \<Rightarrow> Inl SignerValueError
                 | Some v \<Rightarrow>
                     if v = [] \<or> v = NULL_ADDRESS then Inl SignerValueError
                     else ipc ct account (ClefValidator v text))
              else if ct = SIGN_DATA_FOR_ECRECOVER then ipc ct account (ClefText text)
              else Inl SignerNotImplemented)"

definition clef_ops ::
  "(address \<Rightarrow> bool) \<Rightarrow> (string \<Rightarrow> address \<Rightarrow> clef_data \<Rightarrow> signer_error + 'sig) \<Rightarrow> address list \<Rightarrow> (unit, 'sig) signer_ops" where
  "clef_ops is_ck ipc known =
     \<lparr>so_accounts = (\<lambda>_. known),
      so_unlock = (\<lambda>a pw s. (if is_ck a then Inr True else Inl (BadAddress InvalidChecksum), s)),
      so_lock = (\<lambda>a s. (if is_ck a then Inr True else Inl (BadAddress InvalidChecksum), s)),
      so_sign_message = (\<lambda>a m s. clef_sign_message is_ck ipc a m None None)\<rparr>"

interpretation cls: signer "clef_ops is_ck ipc known" "\<lambda>_. True" for is_ck ipc known
  by unfold_locales (auto simp: clef_ops_def split: if_splits)

subsection \<open>A device: TrezorSigner\<close>

datatype 'x usb = UsbOk 'x | UsbNoDevice | UsbBusy | UsbOther string

fun handle_trezor_call :: "'x usb \<Rightarrow> signer_error + 'x" where
  "handle_trezor_call (UsbOk x) = Inr x"
| "handle_trezor_call UsbNoDevice = Inl NoDeviceDetected"
| "handle_trezor_call UsbBusy = Inl DeviceError"
| "handle_trezor_call (UsbOther e) = Inl (DeviceFailure e)"

type_synonym hd_path = "nat list"

text \<open>Opening the device gives a client (\<open>UsbOk True\<close>), or there is no transport (\<open>UsbOk False\<close>).\<close>

record ('vrs, 'sig) trezor_lib =
  tl_open :: "bool usb"
  tl_parse_path :: "string \<Rightarrow> hd_path"
  tl_get_address :: "hd_path \<Rightarrow> address usb"
  tl_sign_message :: "hd_path \<Rightarrow> bytes \<Rightarrow> 'sig usb"
  tl_valid_fields :: "tx \<Rightarrow> bool"
  tl_sign_tx :: "hd_path \<Rightarrow> tx \<Rightarrow> 'vrs usb"
  tl_to_bytes :: "tx_value \<Rightarrow> tx_value"
  tl_to_canonical :: "tx_value \<Rightarrow> tx_value"
  tl_encode :: "'vrs \<Rightarrow> tx \<Rightarrow> 'sig"

record trezor =
  tz_testnet :: bool
  tz_addresses :: "(address, hd_path) dict"

definition ADDRESS_CACHE_SIZE :: nat where "ADDRESS_CACHE_SIZE = 10"

definition derivation_root :: "bool \<Rightarrow> string" where
  "derivation_root testnet =
     show_nat 44 @ [CHR 0x27] @ ''/'' @ show_nat (if testnet then 1 else 60) @ [CHR 0x27] @ ''/'' @ show_nat 0 @ [CHR 0x27] @ ''/'' @ show_nat 0"

definition index_path :: "('vrs, 'sig) trezor_lib \<Rightarrow> bool \<Rightarrow> nat \<Rightarrow> hd_path" where
  "index_path lib testnet index = tl_parse_path lib (derivation_root testnet @ ''/'' @ show_nat index)"

fun cache_addresses ::
  "('vrs, 'sig) trezor_lib \<Rightarrow> bool \<Rightarrow> nat list \<Rightarrow> (address, hd_path) dict \<Rightarrow> signer_error + (address, hd_path) dict" where
  "cache_addresses lib testnet [] addresses = Inr addresses"
| "cache_addresses lib testnet (index # rest) addresses =
     (case handle_trezor_call (tl_get_address lib (index_path lib testnet index)) of
        Inl e \<Rightarrow> Inl e
      | Inr address \<Rightarrow> cache_addresses lib testnet rest (dict_set addresses address (index_path lib testnet index)))"

definition new_trezor :: "('vrs, 'sig) trezor_lib \<Rightarrow> bool \<Rightarrow> signer_error + trezor" where
  "new_trezor lib testnet =
     (case handle_trezor_call (tl_open lib) of
        Inl e \<Rightarrow> Inl e
      | Inr False \<Rightarrow> Inl NoDeviceDetected
      | Inr True \<Rightarrow>
          (case cache_addresses lib testnet [0..<ADDRESS_CACHE_SIZE] [] of
             Inl e \<Rightarrow> Inl e
           | Inr addresses \<Rightarrow> Inr \<lparr>tz_testnet = testnet, tz_addresses = addresses\<rparr>))"

definition get_address_path :: "trezor \<Rightarrow> address \<Rightarrow> signer_error + hd_path" where
  "get_address_path t checksum_address =
     (case dict_get (tz_addresses t) checksum_address of Some p \<Rightarrow> Inr p | None \<Rightarrow> Inl SignerRuntimeError)"

definition trezor_sign_message :: "('vrs, 'sig) trezor_lib \<Rightarrow> trezor \<Rightarrow> bytes \<Rightarrow> address \<Rightarrow> signer_error + 'sig" where
  "trezor_sign_message lib t message checksum_address =
     (case get_address_path t checksum_address of
        Inl e \<Rightarrow> Inl e
      | Inr p \<Rightarrow> handle_trezor_call (tl_sign_message lib p message))"

definition trezor_key :: "string \<Rightarrow> string" where
  "trezor_key k = (if k = ''gas'' then ''gas_limit'' else if k = ''gasPrice'' then ''gas_price''
     else if k = ''chainId'' then ''chain_id'' else k)"

definition format_transaction :: "('vrs, 'sig) trezor_lib \<Rightarrow> tx \<Rightarrow> signer_error + tx" where
  "format_transaction lib d =
     (if \<not> tl_valid_fields lib d then Inl SignerTypeError else Inr (map (\<lambda>(k, v). (trezor_key k, v)) d))"

text \<open>\<^verbatim>\<open>apply_formatters_to_dict\<close> with one formatter.\<close>

definition format_field :: "string \<Rightarrow> (tx_value \<Rightarrow> tx_value) \<Rightarrow> tx \<Rightarrow> tx" where
  "format_field k f = map (\<lambda>(x, v). (x, if x = k then f v else v))"

definition trezor_sign_transaction :: "('vrs, 'sig) trezor_lib \<Rightarrow> trezor \<Rightarrow> tx \<Rightarrow> signer_error + 'sig" where
  "trezor_sign_transaction lib t d =
     (if dict_get d ''chainId'' = None then Inl SignerError
      else case dict_get d ''from'' of
             None \<Rightarrow> Inl SignerError
           | Some sender \<Rightarrow>
               (let d1 = format_field ''data'' (tl_to_bytes lib) (dict_del d ''from'')
                in case format_transaction lib d1 of
                     Inl e \<Rightarrow> Inl e
                   | Inr trezor_transaction \<Rightarrow>
                       (case sender of
                          TxStr sender_address \<Rightarrow>
                            (case get_address_path t sender_address of
                               Inl e \<Rightarrow> Inl e
                             | Inr p \<Rightarrow>
                                 (case handle_trezor_call (tl_sign_tx lib p trezor_transaction) of
                                    Inl e \<Rightarrow> Inl e
                                  | Inr vrs \<Rightarrow>
                                      Inr (tl_encode lib vrs (format_field ''to'' (tl_to_canonical lib) (dict_del d1 ''chainId'')))))
                        | _ \<Rightarrow> Inl SignerRuntimeError)))"

text \<open>
  The power below calls \<^verbatim>\<open>sign_message(account=..., message=...)\<close>; the method of the Trezor signer
  takes \<^verbatim>\<open>checksum_address\<close>, so the call is a \<^verbatim>\<open>TypeError\<close>.
\<close>

definition trezor_ops :: "(address \<Rightarrow> bool) \<Rightarrow> (trezor, 'sig) signer_ops" where
  "trezor_ops is_ck =
     \<lparr>so_accounts = (\<lambda>t. dict_keys (tz_addresses t)),
      so_unlock = (\<lambda>a pw s. (if is_ck a then Inr True else Inl (BadAddress InvalidChecksum), s)),
      so_lock = (\<lambda>a s. (if is_ck a then Inr True else Inl (BadAddress InvalidChecksum), s)),
      so_sign_message = (\<lambda>a m s. Inl SignerTypeError)\<rparr>"

interpretation tzs: signer "trezor_ops is_ck" "\<lambda>_. True" for is_ck
  by unfold_locales (auto simp: trezor_ops_def split: if_splits)

subsection \<open>The client: TransactingPower\<close>

record transacting_power =
  tp_account :: address
  tp_password :: "string option"
  tp_cache :: bool

datatype power_error = NoSignerGiven | FromSigner signer_error | PowerBadAddress

definition new_transacting_power ::
  "(address \<Rightarrow> bool) \<Rightarrow> address \<Rightarrow> bool \<Rightarrow> string option \<Rightarrow> bool \<Rightarrow> power_error + transacting_power" where
  "new_transacting_power is_ck account has_signer password cache =
     (if \<not> is_ck account then Inl PowerBadAddress
      else if \<not> has_signer then Inl NoSignerGiven
      else Inr \<lparr>tp_account = account, tp_password = password, tp_cache = cache\<rparr>)"

text \<open>\<^verbatim>\<open>password or self.__password\<close>.\<close>

definition given_or_kept :: "string option \<Rightarrow> transacting_power \<Rightarrow> string option" where
  "given_or_kept password p = (case password of Some (c # cs) \<Rightarrow> Some (c # cs) | _ \<Rightarrow> tp_password p)"

definition tp_unlock ::
  "('s, 'sig) signer_ops \<Rightarrow> string option \<Rightarrow> transacting_power \<Rightarrow> 's \<Rightarrow> (signer_error + bool) \<times> 's" where
  "tp_unlock ops password p s = so_unlock ops (tp_account p) (given_or_kept password p) s"

definition tp_activate ::
  "('s, 'sig) signer_ops \<Rightarrow> string option \<Rightarrow> transacting_power \<Rightarrow> 's \<Rightarrow> (signer_error + transacting_power) \<times> 's" where
  "tp_activate ops password p s =
     (case tp_unlock ops password p s of
        (Inl e, s') \<Rightarrow> (Inl e, s')
      | (Inr _, s') \<Rightarrow> (Inr (if tp_cache p then p else p\<lparr>tp_password := None\<rparr>), s'))"

definition tp_lock_account :: "('s, 'sig) signer_ops \<Rightarrow> transacting_power \<Rightarrow> 's \<Rightarrow> (signer_error + unit) \<times> 's" where
  "tp_lock_account ops p s = (case so_lock ops (tp_account p) s of (Inl e, s') \<Rightarrow> (Inl e, s') | (Inr _, s') \<Rightarrow> (Inr (), s'))"

definition tp_sign_message ::
  "('s, 'sig) signer_ops \<Rightarrow> ('sig \<Rightarrow> 'sig) \<Rightarrow> transacting_power \<Rightarrow> bytes \<Rightarrow> 's \<Rightarrow> signer_error + 'sig" where
  "tp_sign_message ops to_standard p message s =
     (case so_sign_message ops (tp_account p) message s of Inl e \<Rightarrow> Inl e | Inr sig \<Rightarrow> Inr (to_standard sig))"

definition tp_eq :: "transacting_power \<Rightarrow> transacting_power \<Rightarrow> bool" where
  "tp_eq p q \<longleftrightarrow> tp_account p = tp_account q"

text \<open>\<^verbatim>\<open>with power: power.sign_message(m)\<close>: enter unlocks, leave locks, also when the body raises.\<close>

definition with_power_sign ::
  "('s, 'sig) signer_ops \<Rightarrow> ('sig \<Rightarrow> 'sig) \<Rightarrow> transacting_power \<Rightarrow> bytes \<Rightarrow> 's \<Rightarrow> (signer_error + 'sig) \<times> 's" where
  "with_power_sign ops to_standard p message s =
     (case tp_unlock ops None p s of
        (Inl e, s1) \<Rightarrow> (Inl e, s1)
      | (Inr _, s1) \<Rightarrow>
          (case tp_lock_account ops p s1 of
             (Inl e, s2) \<Rightarrow> (Inl e, s2)
           | (Inr _, s2) \<Rightarrow> (tp_sign_message ops to_standard p message s1, s2)))"

subsection \<open>The check with a memory is the check\<close>

lemma first_error_Cons:
  "first_error is_ck (p # ps) = (case check_param is_ck p of Some e \<Rightarrow> Some e | None \<Rightarrow> first_error is_ck ps)"
  by (simp add: first_error_def split: option.splits)

lemma validate_params_exact:
  assumes "\<forall>a \<in> set verified. is_ck a"
  shows "fst (validate_params is_ck ps verified) = first_error is_ck ps"
    and "\<forall>a \<in> set (snd (validate_params is_ck ps verified)). is_ck a"
    and "set verified \<subseteq> set (snd (validate_params is_ck ps verified))"
proof -
  have "fst (validate_params is_ck ps verified) = first_error is_ck ps \<and>
    (\<forall>a \<in> set (snd (validate_params is_ck ps verified)). is_ck a) \<and> set verified \<subseteq> set (snd (validate_params is_ck ps verified))"
    using assms
  proof (induction ps arbitrary: verified)
    case Nil
    then show ?case by (simp add: first_error_def)
  next
    case (Cons p ps)
    let ?a = "pm_value p"
    let ?skip = "?a \<in> set verified \<or> pm_default_none p \<and> ?a = ArgNone \<or> ?a = ArgNoConnection"
    consider (skip) ?skip | (valid) "\<not> ?skip" "is_ck ?a" | (bad) "\<not> ?skip" "\<not> is_ck ?a" by blast
    then show ?case
    proof cases
      case skip
      with Cons.prems have "check_param is_ck p = None" by (auto simp: check_param_def)
      moreover from skip have "validate_params is_ck (p # ps) verified = validate_params is_ck ps verified" by (auto simp: Let_def)
      ultimately show ?thesis using Cons.IH [OF Cons.prems] by (simp add: first_error_Cons del: validate_params.simps)
    next
      case valid
      then have "check_param is_ck p = None" by (simp add: check_param_def)
      moreover from valid have "validate_params is_ck (p # ps) verified = validate_params is_ck ps (verified @ [?a])" by (auto simp: Let_def)
      ultimately show ?thesis using Cons.IH [of "verified @ [?a]"] Cons.prems valid(2)
        by (simp add: first_error_Cons del: validate_params.simps)
    next
      case bad
      with Cons.prems show ?thesis
        by (cases "pm_value p") (auto simp: first_error_Cons check_param_def Let_def)
    qed
  qed
  then show "fst (validate_params is_ck ps verified) = first_error is_ck ps"
    "\<forall>a \<in> set (snd (validate_params is_ck ps verified)). is_ck a"
    "set verified \<subseteq> set (snd (validate_params is_ck ps verified))" by blast+
qed

text \<open>
  C28. The decorator that remembers valid addresses over all calls decides every call as the plain check
  of its address parameters, in their order, does: the call goes through exactly when no parameter
  is refused, else the first refusal is raised; and it remembers only valid addresses.
\<close>

theorem validation_memory_sound:
  assumes "\<forall>a \<in> set verified. is_ck a"
  shows "fst (validate_checksum_address is_ck params call verified) =
      (case first_error is_ck (filter (is_address_parameter \<circ> pm_name) params) of
         Some e \<Rightarrow> Inl e
       | None \<Rightarrow> Inr (call (map pm_value params))) \<and>
    (\<forall>a \<in> set (snd (validate_checksum_address is_ck params call verified)). is_ck a)"
  using validate_params_exact [OF assms, of "filter (is_address_parameter \<circ> pm_name) params"]
  by (auto simp: validate_checksum_address_def split: prod.splits option.splits)

theorem validation_memory_sound_witness:
  "(let is_ck = (\<lambda>a. a = ArgStr ''0xA'');
        params = [\<lparr>pm_name = ''self'', pm_value = ArgOther, pm_default_none = False\<rparr>,
                  \<lparr>pm_name = ''account'', pm_value = ArgStr ''0xA'', pm_default_none = False\<rparr>,
                  \<lparr>pm_name = ''validator_address'', pm_value = ArgStr ''0xb'', pm_default_none = True\<rparr>]
    in fst (validate_checksum_address is_ck params length [ArgStr ''0xA'']) = Inl InvalidChecksum)"
  using validation_memory_sound [of "[ArgStr ''0xA'']" "\<lambda>a. a = ArgStr ''0xA''"
      "[\<lparr>pm_name = ''self'', pm_value = ArgOther, pm_default_none = False\<rparr>,
        \<lparr>pm_name = ''account'', pm_value = ArgStr ''0xA'', pm_default_none = False\<rparr>,
        \<lparr>pm_name = ''validator_address'', pm_value = ArgStr ''0xb'', pm_default_none = True\<rparr>]" length]
  by (simp add: first_error_def check_param_def is_address_parameter_def ends_with_def)

subsection \<open>Histories of a key file signer\<close>

text \<open>What can happen to a signer: an account is unlocked with some password, or locked.\<close>

inductive ks_step :: "('a, 'sig) eth_lib \<Rightarrow> 'a keystore_signer \<Rightarrow> 'a keystore_signer \<Rightarrow> bool" for lib where
  step_unlock: "ks_step lib s (snd (ks_unlock_account lib a pw s))"
| step_lock: "ks_step lib s (snd (ks_lock_account lib a s))"

definition ks_start :: "('a, 'sig) eth_lib \<Rightarrow> text_file fs \<Rightarrow> path \<Rightarrow> 'a keystore_signer \<Rightarrow> bool" where
  "ks_start lib fs p s \<longleftrightarrow> new_keystore_signer lib fs p = Inr s"

text \<open>Every signing key came out of the key file of its account with some password.\<close>

definition ks_keys_decrypted :: "('a, 'sig) eth_lib \<Rightarrow> 'a keystore_signer \<Rightarrow> bool" where
  "ks_keys_decrypted lib s \<longleftrightarrow> (\<forall>a k. dict_get (ks_signers s) a = Some k \<longrightarrow>
     (\<exists>md pw. dict_get (ks_keys s) a = Some md \<and> el_decrypt lib md pw = Decrypted k))"

lemma ks_read_all_wf:
  assumes "\<forall>j. el_is_address lib j \<longrightarrow> el_is_checksum lib (el_to_checksum lib j)"
  shows "ks_read_all lib fs ps keys = Inr keys' \<Longrightarrow> wf_dict keys \<Longrightarrow> \<forall>a \<in> dom (dict_get keys). el_is_checksum lib a \<Longrightarrow>
    wf_dict keys' \<and> (\<forall>a \<in> dom (dict_get keys'). el_is_checksum lib a)"
proof (induction ps arbitrary: keys)
  case (Cons p ps)
  from Cons.prems(1) obtain a md where f: "ks_handle_keyfile lib fs p = Inr (a, md)"
    and rest: "ks_read_all lib fs ps (dict_set keys a md) = Inr keys'" by (auto split: sum.splits)
  from f assms have "el_is_checksum lib a" by (auto simp: ks_handle_keyfile_def split: sum.splits if_splits)
  with Cons.prems(3) have "\<forall>b \<in> dom (dict_get (dict_set keys a md)). el_is_checksum lib b" by (auto simp: dom_dict_set)
  with Cons.IH [OF rest] wf_dict_set [OF Cons.prems(2)] show ?case by blast
qed simp

text \<open>The invariant, and that a new signer has it and each step keeps it.\<close>

definition ks_inv :: "('a, 'sig) eth_lib \<Rightarrow> 'a keystore_signer \<Rightarrow> bool" where
  "ks_inv lib s \<longleftrightarrow> ks_wf lib s \<and> ks_keys_decrypted lib s"

lemma ks_start_inv:
  assumes "\<forall>j. el_is_address lib j \<longrightarrow> el_is_checksum lib (el_to_checksum lib j)" "ks_start lib fs p s"
  shows "ks_inv lib s"
proof -
  from assms(2) obtain ps keys where "ks_read_all lib fs ps [] = Inr keys" "s = \<lparr>ks_path = p, ks_keys = keys, ks_signers = []\<rparr>"
    by (auto simp: ks_start_def new_keystore_signer_def ks_read_keystore_def simp del: ks_read_all.simps split: sum.splits if_splits)
  with ks_read_all_wf [OF assms(1)] show ?thesis by (fastforce simp: ks_inv_def ks_wf_def ks_keys_decrypted_def)
qed

lemma ks_keys_decrypted_unlock: "ks_keys_decrypted lib s \<Longrightarrow> ks_keys_decrypted lib (snd (ks_unlock_account lib a pw s))"
  by (auto simp: ks_keys_decrypted_def ks_unlock_account_def dict_get_set split: option.split decryption.split)

lemma ks_keys_decrypted_lock: "ks_keys_decrypted lib s \<Longrightarrow> ks_keys_decrypted lib (snd (ks_lock_account lib a s))"
  by (auto simp: ks_keys_decrypted_def ks_lock_account_def dict_get_del Let_def)

lemma ks_step_inv: "ks_inv lib s \<Longrightarrow> ks_step lib s t \<Longrightarrow> ks_inv lib t"
  by (erule ks_step.cases) (auto simp: ks_inv_def intro: ks_unlock_wf ks_lock_wf ks_keys_decrypted_unlock ks_keys_decrypted_lock)

interpretation kst: step_invariant "ks_inv lib" "ks_step lib" "ks_inv lib" for lib
  by unfold_locales (auto intro: ks_step_inv)

lemma ks_steps_keys: "(ks_step lib)\<^sup>*\<^sup>* s t \<Longrightarrow> ks_keys t = ks_keys s"
  by (induction rule: rtranclp_induct) (auto elim!: ks_step.cases simp: ks_unlock_keys ks_lock_keys)

lemma ks_sign_message_Inr:
  "ks_sign_message lib a m s = Inr sig \<longleftrightarrow>
   el_is_checksum lib a \<and> (\<exists>k. dict_get (ks_signers s) a = Some k \<and> sig = el_sign_message lib k m)"
  by (auto simp: ks_sign_message_def ks_get_signer_def split: option.splits)

text \<open>
  C26. A key file signer, through any sequence of unlocks (with any passwords) and locks, keeps the accounts it
  read, and whatever it signs is signed with a key that a password took out of the key file of that account.
\<close>

theorem signs_only_with_decrypted_keys:
  assumes "\<forall>j. el_is_address lib j \<longrightarrow> el_is_checksum lib (el_to_checksum lib j)"
    and "new_keystore_signer lib fs p = Inr s" and "(ks_step lib)\<^sup>*\<^sup>* s t"
  shows "ks_wf lib t \<and> ks_accounts t = ks_accounts s \<and>
    (ks_sign_message lib a m t = Inr sig \<longrightarrow>
      (\<exists>md pw k. dict_get (ks_keys s) a = Some md \<and> el_decrypt lib md pw = Decrypted k \<and> sig = el_sign_message lib k m))"
proof -
  have "ks_inv lib s" using ks_start_inv [OF assms(1)] assms(2) by (simp add: ks_start_def)
  with assms(3) have "ks_inv lib t" by (rule kst.steps_inv)
  with ks_steps_keys [OF assms(3)] show ?thesis
    unfolding ks_inv_def ks_keys_decrypted_def ks_sign_message_Inr by (metis ks_accounts_def)
qed

text \<open>A library of one account whose key file opens with one password.\<close>

definition demo_lib :: "(nat, nat \<times> bytes) eth_lib" where
  "demo_lib = \<lparr>el_is_address = (\<lambda>j. j = JStr ''0xa''), el_to_checksum = (\<lambda>_. ''0xA''), el_is_checksum = (\<lambda>a. a = ''0xA''),
     el_decrypt = (\<lambda>md pw. case pw of None \<Rightarrow> DecryptTypeError | Some s \<Rightarrow> if s = ''pw'' then Decrypted 7 else DecryptValueError),
     el_sign_message = Pair, el_sign_transaction = (\<lambda>k t. (k, []))\<rparr>"

definition demo_keyfile :: json where
  "demo_keyfile = JObj [(''address'', JStr ''0xa'')]"

definition demo_fs :: "text_file fs" where
  "demo_fs = \<lparr>entries = [([''k''], Dir 0), ([''k'', ''f''], File 0 (Json demo_keyfile))], umask = 0\<rparr>"

definition demo_signer :: "nat keystore_signer" where
  "demo_signer = \<lparr>ks_path = [''k''], ks_keys = [(''0xA'', demo_keyfile)], ks_signers = []\<rparr>"

lemma demo_signer_new: "new_keystore_signer demo_lib demo_fs [''k''] = Inr demo_signer"
  by (simp add: demo_lib_def demo_fs_def demo_signer_def demo_keyfile_def new_keystore_signer_def ks_read_keystore_def
      ks_handle_keyfile_def ks_read_keyfile_def is_dir_def is_file_def read_file_def listdir_def)

lemma demo_signer_wf: "ks_wf demo_lib demo_signer"
  by (auto simp: ks_wf_def demo_signer_def demo_lib_def split: if_splits)

lemma demo_unlock:
  "ks_unlock_account demo_lib ''0xA'' (Some ''pw'') demo_signer = (Inr True, demo_signer\<lparr>ks_signers := [(''0xA'', 7)]\<rparr>)"
  by (simp add: ks_unlock_account_def demo_lib_def demo_signer_def)

theorem signs_only_with_decrypted_keys_witness:
  "\<exists>md pw k. dict_get (ks_keys demo_signer) ''0xA'' = Some md \<and> el_decrypt demo_lib md pw = Decrypted k \<and> (7, []) = el_sign_message demo_lib k []"
proof -
  let ?t = "demo_signer\<lparr>ks_signers := [(''0xA'', 7)]\<rparr>"
  have "ks_step demo_lib demo_signer ?t"
    using step_unlock [of demo_lib demo_signer "''0xA''" "Some ''pw''"] by (simp add: demo_unlock)
  moreover have "ks_sign_message demo_lib ''0xA'' [] ?t = Inr (7, [])"
    by (simp add: ks_sign_message_def ks_get_signer_def demo_lib_def)
  moreover have "\<forall>j. el_is_address demo_lib j \<longrightarrow> el_is_checksum demo_lib (el_to_checksum demo_lib j)"
    by (simp add: demo_lib_def)
  ultimately show ?thesis
    using signs_only_with_decrypted_keys [of demo_lib demo_fs "[''k'']" demo_signer ?t "''0xA''" "[]" "(7, [])"] demo_signer_new by blast
qed

subsection \<open>A transacting power over a key file signer\<close>

lemma tp_activate_Inr:
  assumes "tp_activate ops pw p s = (Inr p', s')"
  shows "\<exists>r. so_unlock ops (tp_account p) (given_or_kept pw p) s = (Inr r, s')"
    and "p' = (if tp_cache p then p else p\<lparr>tp_password := None\<rparr>)"
  using assms by (auto simp: tp_activate_def tp_unlock_def split: prod.splits sum.splits)

lemma ks_unlock_true: "fst (ks_unlock_account lib a pw s) = Inr r \<Longrightarrow> r"
  by (auto simp: ks_unlock_account_def split: if_splits option.splits decryption.splits)

lemma ks_unlock_known: "ks_wf lib s \<Longrightarrow> fst (ks_unlock_account lib a pw s) = Inr True \<Longrightarrow>
  el_is_checksum lib a \<and> dict_get (ks_keys s) a \<noteq> None"
proof -
  assume "ks_wf lib s" and "fst (ks_unlock_account lib a pw s) = Inr True"
  then have "el_is_checksum lib a" "a \<in> dom (dict_get (ks_signers s)) \<or> a \<in> dom (dict_get (ks_keys s))"
    "dom (dict_get (ks_signers s)) \<subseteq> dom (dict_get (ks_keys s))"
    by (auto simp: ks_unlock_account_def ks_wf_def domIff split: if_splits option.splits)
  then show ?thesis by (auto simp: domIff)
qed

text \<open>
  Activating a power that does not cache its password, with a password that opens its account, lets it
  sign; after it locks the account it signs no more, and a \<^verbatim>\<open>with\<close> block then fails to authenticate,
  as the password is gone (\<^verbatim>\<open>Account.decrypt\<close> has no password to work with).
\<close>

theorem transacting_power_session:
  assumes wf: "ks_wf lib s" and nc: "\<not> tp_cache p"
    and act: "tp_activate (keystore_ops lib) pw p s = (Inr p', s')"
    and no_pw: "\<forall>md. el_decrypt lib md None = DecryptTypeError"
  shows "(\<exists>sig. tp_sign_message (keystore_ops lib) std p' m s' = Inr sig) \<and>
    (\<exists>s''. tp_lock_account (keystore_ops lib) p' s' = (Inr (), s'') \<and>
       tp_sign_message (keystore_ops lib) std p' m s'' = Inl AccountLocked \<and>
       with_power_sign (keystore_ops lib) std p' m s'' = (Inl AuthenticationFailed, s''))"
proof -
  let ?ops = "keystore_ops lib" and ?a = "tp_account p"
  from tp_activate_Inr [OF act] nc obtain r where
    unl: "so_unlock ?ops ?a (given_or_kept pw p) s = (Inr r, s')" and p': "p' = p\<lparr>tp_password := None\<rparr>" by auto
  from unl have unl': "so_unlock ?ops ?a (given_or_kept pw p) s = (Inr True, s')"
    using ks_unlock_true [of lib ?a "given_or_kept pw p" s] by (simp add: keystore_ops_def)
  from kss.session [OF wf unl', of m] obtain sig s'' where
    sig: "so_sign_message ?ops ?a m s' = Inr sig" and lock: "so_lock ?ops ?a s' = (Inr True, s'')"
    and off: "so_sign_message ?ops ?a m s'' = Inl AccountLocked" by (metis prod.collapse)
  have known: "el_is_checksum lib ?a" "dict_get (ks_keys s'') ?a \<noteq> None"
    using ks_unlock_known [OF wf, of ?a "given_or_kept pw p"] unl' lock
      ks_unlock_keys [of lib ?a "given_or_kept pw p" s] ks_lock_keys [of lib ?a s'] by (auto simp: keystore_ops_def)
  from off known have "dict_get (ks_signers s'') ?a = None"
    by (auto simp: keystore_ops_def ks_sign_message_def ks_get_signer_def split: option.splits)
  with known no_pw have "ks_unlock_account lib ?a None s'' = (Inl AuthenticationFailed, s'')"
    by (auto simp: ks_unlock_account_def)
  with sig lock off p' show ?thesis
    by (simp add: tp_sign_message_def tp_lock_account_def with_power_sign_def tp_unlock_def given_or_kept_def) (simp add: keystore_ops_def)
qed

theorem transacting_power_session_witness:
  "let p = \<lparr>tp_account = ''0xA'', tp_password = Some ''pw'', tp_cache = False\<rparr>; p' = p\<lparr>tp_password := None\<rparr>;
       t = demo_signer\<lparr>ks_signers := [(''0xA'', 7)]\<rparr>
   in \<exists>s''. tp_lock_account (keystore_ops demo_lib) p' t = (Inr (), s'') \<and>
        with_power_sign (keystore_ops demo_lib) id p' [] s'' = (Inl AuthenticationFailed, s'')"
proof -
  let ?p = "\<lparr>tp_account = ''0xA'', tp_password = Some ''pw'', tp_cache = False\<rparr>"
  have "tp_activate (keystore_ops demo_lib) None ?p demo_signer = (Inr (?p\<lparr>tp_password := None\<rparr>), demo_signer\<lparr>ks_signers := [(''0xA'', 7)]\<rparr>)"
    by (simp add: tp_activate_def tp_unlock_def given_or_kept_def keystore_ops_def demo_unlock)
  moreover have "\<forall>md. el_decrypt demo_lib md None = DecryptTypeError" by (simp add: demo_lib_def)
  ultimately show ?thesis
    using transacting_power_session [OF demo_signer_wf, of ?p None _ _ id "[]"] by (auto simp: Let_def)
qed

end
