(* ===== verification/Powers.thy ===== *)
theory Powers
  imports Signers
begin

text \<open>
  Key pairs, stamps and powers: \<^verbatim>\<open>nulink/crypto/keypairs.py\<close>, \<^verbatim>\<open>signing.py\<close>, \<^verbatim>\<open>powers.py\<close>.

  Keys, certificates and what is done with them (Umbral and the TLS library) are parameters, in one record.
  A \<^verbatim>\<open>CryptoPower\<close> is the dictionary of a character's powers and the one of its public keys; consuming
  a transacting power unlocks its account at the signer, whose state is passed along.
\<close>

record ('sk, 'pk, 'f, 'cert, 'sig) umbral =
  um_public_key :: "'sk \<Rightarrow> 'pk"
  um_key_bytes :: "'pk \<Rightarrow> bytes"
  um_key_from_bytes :: "bytes \<Rightarrow> 'pk option"
  um_sign :: "'sk \<Rightarrow> bytes \<Rightarrow> 'sig"
  um_decrypt_kit :: "'sk \<Rightarrow> bytes \<Rightarrow> bytes option"
  um_make_key :: "'f \<Rightarrow> bytes \<Rightarrow> 'sk"
  um_make_factory :: "'f \<Rightarrow> bytes \<Rightarrow> 'f"
  um_factory_from :: "bytes \<Rightarrow> 'f option"
  um_kfrags :: "'sk \<Rightarrow> 'pk \<Rightarrow> 'sk \<Rightarrow> nat \<Rightarrow> nat \<Rightarrow> bytes list"
  um_cert_key :: "'cert \<Rightarrow> 'pk"
  um_self_signed :: "string \<Rightarrow> 'sk option \<Rightarrow> 'cert \<times> 'sk"

datatype crypto_error =
    KeyValueError | KeyTypeError | DecryptionFailed | CertificateNotFound
  | NoSigningPower | NoDecryptingPower | NoTransactingPower | NoHostingPower | PowerUpError
  | CryptoAttributeError | CryptoTypeError | ActivationFailed signer_error

subsection \<open>Key pairs\<close>

text \<open>No private key is \<^verbatim>\<open>PUBLIC_ONLY\<close>.\<close>

record ('sk, 'pk) keypair =
  kp_privkey :: "'sk option"
  kp_pubkey :: 'pk

definition new_keypair ::
  "('sk, 'pk, 'f, 'cert, 'sig) umbral \<Rightarrow> 'sk option \<Rightarrow> 'pk option \<Rightarrow> bool \<Rightarrow> 'sk \<Rightarrow> crypto_error + ('sk, 'pk) keypair" where
  "new_keypair um private_key public_key generate_keys_if_needed random_key =
     (case (private_key, public_key) of
        (Some _, Some _) \<Rightarrow> Inl KeyValueError
      | (Some sk, None) \<Rightarrow> Inr \<lparr>kp_privkey = Some sk, kp_pubkey = um_public_key um sk\<rparr>
      | (None, Some pk) \<Rightarrow> Inr \<lparr>kp_privkey = None, kp_pubkey = pk\<rparr>
      | (None, None) \<Rightarrow>
          if generate_keys_if_needed then Inr \<lparr>kp_privkey = Some random_key, kp_pubkey = um_public_key um random_key\<rparr>
          else Inl KeyValueError)"

definition decrypt_message_kit :: "('sk, 'pk, 'f, 'cert, 'sig) umbral \<Rightarrow> ('sk, 'pk) keypair \<Rightarrow> bytes \<Rightarrow> crypto_error + bytes" where
  "decrypt_message_kit um kp message_kit =
     (case kp_privkey kp of
        None \<Rightarrow> Inl KeyTypeError
      | Some sk \<Rightarrow> (case um_decrypt_kit um sk message_kit of Some m \<Rightarrow> Inr m | None \<Rightarrow> Inl DecryptionFailed))"

definition kp_sign :: "('sk, 'pk, 'f, 'cert, 'sig) umbral \<Rightarrow> ('sk, 'pk) keypair \<Rightarrow> bytes \<Rightarrow> crypto_error + 'sig" where
  "kp_sign um kp message =
     (case kp_privkey kp of None \<Rightarrow> Inl KeyTypeError | Some sk \<Rightarrow> Inr (um_sign um sk message))"

text \<open>The stamp of one's own key signs; the stamp of a stranger shows the key only.\<close>

datatype ('sk, 'pk) stamp = SignatureStamp 'pk 'sk | StrangerStamp 'pk

fun stamp_key :: "('sk, 'pk) stamp \<Rightarrow> 'pk" where
  "stamp_key (SignatureStamp pk sk) = pk"
| "stamp_key (StrangerStamp pk) = pk"

definition stamp_bytes :: "('sk, 'pk, 'f, 'cert, 'sig) umbral \<Rightarrow> ('sk, 'pk) stamp \<Rightarrow> bytes" where
  "stamp_bytes um st = um_key_bytes um (stamp_key st)"

fun stamp_call :: "('sk, 'pk, 'f, 'cert, 'sig) umbral \<Rightarrow> ('sk, 'pk) stamp \<Rightarrow> bytes \<Rightarrow> crypto_error + 'sig" where
  "stamp_call um (SignatureStamp pk sk) message = Inr (um_sign um sk message)"
| "stamp_call um (StrangerStamp pk) message = Inl NoSigningPower"

text \<open>\<^verbatim>\<open>__hash__\<close>: the bytes of the key as a big-endian number.\<close>

definition int_from_bytes :: "bytes \<Rightarrow> int" where
  "int_from_bytes = foldl (\<lambda>n b. 256 * n + uint b) 0"

definition stamp_hash :: "('sk, 'pk, 'f, 'cert, 'sig) umbral \<Rightarrow> ('sk, 'pk) stamp \<Rightarrow> int" where
  "stamp_hash um st = int_from_bytes (stamp_bytes um st)"

definition stamp_eq :: "('sk, 'pk, 'f, 'cert, 'sig) umbral \<Rightarrow> ('sk, 'pk) stamp \<Rightarrow> ('sk, 'pk) stamp \<Rightarrow> bool" where
  "stamp_eq um st other \<longleftrightarrow> stamp_bytes um other = stamp_bytes um st"

definition stamp_add :: "('sk, 'pk, 'f, 'cert, 'sig) umbral \<Rightarrow> ('sk, 'pk) stamp \<Rightarrow> bytes \<Rightarrow> bytes" where
  "stamp_add um st other = stamp_bytes um st @ other"

definition get_signature_stamp :: "('sk, 'pk) keypair \<Rightarrow> ('sk, 'pk) stamp" where
  "get_signature_stamp kp =
     (case kp_privkey kp of None \<Rightarrow> StrangerStamp (kp_pubkey kp) | Some sk \<Rightarrow> SignatureStamp (kp_pubkey kp) sk)"

text \<open>A pair for TLS; a certificate file is given by what reading it yields, \<open>None\<close> where it is missing.\<close>

record ('sk, 'pk, 'cert) hosting_keypair = "('sk, 'pk) keypair" +
  hk_certificate :: "'cert option"
  hk_saved :: bool

definition new_hosting_keypair ::
  "('sk, 'pk, 'f, 'cert, 'sig) umbral \<Rightarrow> string \<Rightarrow> address option \<Rightarrow> 'sk option \<Rightarrow> 'cert option \<Rightarrow> 'cert option option \<Rightarrow> bool
    \<Rightarrow> crypto_error + ('sk, 'pk, 'cert) hosting_keypair" where
  "new_hosting_keypair um host checksum_address private_key certificate certificate_file generate_certificate =
     (case private_key of
        Some sk \<Rightarrow>
          (case certificate_file of
             Some None \<Rightarrow> Inl CertificateNotFound
           | Some (Some c) \<Rightarrow>
               Inr \<lparr>kp_privkey = Some sk, kp_pubkey = um_public_key um sk, hk_certificate = Some c, hk_saved = True\<rparr>
           | None \<Rightarrow>
               Inr \<lparr>kp_privkey = Some sk, kp_pubkey = um_public_key um sk, hk_certificate = certificate, hk_saved = False\<rparr>)
      | None \<Rightarrow>
          (case certificate of
             Some c \<Rightarrow>
               Inr \<lparr>kp_privkey = None, kp_pubkey = um_cert_key um c, hk_certificate = Some c, hk_saved = certificate_file \<noteq> None\<rparr>
           | None \<Rightarrow>
               (case certificate_file of
                  Some None \<Rightarrow> Inl CertificateNotFound
                | Some (Some c) \<Rightarrow>
                    Inr \<lparr>kp_privkey = None, kp_pubkey = um_cert_key um c, hk_certificate = Some c, hk_saved = True\<rparr>
                | None \<Rightarrow>
                    if generate_certificate then
                      (if host = [] \<and> checksum_address \<noteq> None \<and> checksum_address \<noteq> Some [] then Inl KeyTypeError
                       else case um_self_signed um host None of
                              (c, sk) \<Rightarrow> Inr \<lparr>kp_privkey = Some sk, kp_pubkey = um_public_key um sk, hk_certificate = Some c, hk_saved = False\<rparr>)
                    else Inl KeyTypeError)))"

subsection \<open>Powers\<close>

datatype power_class = SigningPower | DecryptingPower | DelegatingPower | TLSHostingPower | TransactingPower

datatype ('sk, 'pk, 'f, 'cert) power =
    Signing "('sk, 'pk) keypair"
  | Decrypting "('sk, 'pk) keypair"
  | Delegating 'f
  | Hosting "('sk, 'pk, 'cert) hosting_keypair"
  | Transacting transacting_power

fun class_of :: "('sk, 'pk, 'f, 'cert) power \<Rightarrow> power_class" where
  "class_of (Signing _) = SigningPower"
| "class_of (Decrypting _) = DecryptingPower"
| "class_of (Delegating _) = DelegatingPower"
| "class_of (Hosting _) = TLSHostingPower"
| "class_of (Transacting _) = TransactingPower"

definition confers_public_key :: "power_class \<Rightarrow> bool" where
  "confers_public_key c \<longleftrightarrow> c \<in> {SigningPower, DecryptingPower, TLSHostingPower}"

fun public_key :: "('sk, 'pk, 'f, 'cert) power \<Rightarrow> 'pk option" where
  "public_key (Signing kp) = Some (kp_pubkey kp)"
| "public_key (Decrypting kp) = Some (kp_pubkey kp)"
| "public_key (Hosting kp) = Some (kp_pubkey kp)"
| "public_key _ = None"

text \<open>
  \<^verbatim>\<open>KeyPairBasedPower.__init__\<close> of a signing or decrypting power. A public key comes as a stamp, as bytes or as
  a key; empty bytes count as none.
\<close>

datatype ('sk, 'pk) power_key = KeyStamp "('sk, 'pk) stamp" | PowerKeyBytes bytes | PowerKeyObject 'pk

definition power_key_given :: "('sk, 'pk) power_key option \<Rightarrow> bool" where
  "power_key_given a \<longleftrightarrow> a \<noteq> None \<and> a \<noteq> Some (PowerKeyBytes [])"

fun key_of_arg :: "('sk, 'pk, 'f, 'cert, 'sig) umbral \<Rightarrow> ('sk, 'pk) power_key \<Rightarrow> crypto_error + 'pk" where
  "key_of_arg um (KeyStamp st) = Inr (stamp_key st)"
| "key_of_arg um (PowerKeyBytes b) = (case um_key_from_bytes um b of Some pk \<Rightarrow> Inr pk | None \<Rightarrow> Inl KeyValueError)"
| "key_of_arg um (PowerKeyObject pk) = Inr pk"

definition keypair_power_init ::
  "('sk, 'pk, 'f, 'cert, 'sig) umbral \<Rightarrow> ('sk, 'pk) power_key option \<Rightarrow> ('sk, 'pk) keypair option \<Rightarrow> 'sk
    \<Rightarrow> crypto_error + ('sk, 'pk) keypair" where
  "keypair_power_init um pk_arg kp_arg random_key =
     (case kp_arg of
        Some kp \<Rightarrow> if power_key_given pk_arg then Inl KeyValueError else Inr kp
      | None \<Rightarrow>
          (case pk_arg of
             Some a \<Rightarrow>
               if power_key_given (Some a) then
                 (case key_of_arg um a of
                    Inl e \<Rightarrow> Inl e
                  | Inr pk \<Rightarrow> new_keypair um None (Some pk) True random_key)
               else new_keypair um None None True random_key
           | None \<Rightarrow> new_keypair um None None True random_key))"

definition provides :: "power_class \<Rightarrow> string list" where
  "provides c =
     (case c of
        SigningPower \<Rightarrow> [''sign'', ''get_signature_stamp'']
      | DecryptingPower \<Rightarrow> [''decrypt_message_kit'', ''decrypt_kfrag'', ''decrypt_treasure_map'']
      | TLSHostingPower \<Rightarrow> [''get_deployer'']
      | _ \<Rightarrow> [])"

text \<open>\<^verbatim>\<open>TLSHostingPower.__init__\<close>: without a certificate the pair of the base class cannot be built.\<close>

definition new_hosting_power ::
  "('sk, 'pk, 'f, 'cert, 'sig) umbral \<Rightarrow> string \<Rightarrow> 'cert option \<Rightarrow> 'cert option option
    \<Rightarrow> ('sk, 'pk, 'cert) hosting_keypair option \<Rightarrow> crypto_error + ('sk, 'pk, 'f, 'cert) power" where
  "new_hosting_power um host public_certificate public_certificate_file kp_arg =
     (case (public_certificate, public_certificate_file) of
        (Some _, Some _) \<Rightarrow> Inl KeyValueError
      | (Some c, None) \<Rightarrow>
          (case new_hosting_keypair um host None None (Some c) None False of Inl e \<Rightarrow> Inl e | Inr kp \<Rightarrow> Inr (Hosting kp))
      | (None, Some f) \<Rightarrow>
          (case new_hosting_keypair um host None None None (Some f) False of Inl e \<Rightarrow> Inl e | Inr kp \<Rightarrow> Inr (Hosting kp))
      | (None, None) \<Rightarrow> (case kp_arg of Some kp \<Rightarrow> Inr (Hosting kp) | None \<Rightarrow> Inl KeyTypeError))"

subsection \<open>Delegation by label\<close>

definition get_privkey_from_label :: "('sk, 'pk, 'f, 'cert, 'sig) umbral \<Rightarrow> 'f \<Rightarrow> bytes \<Rightarrow> 'sk" where
  "get_privkey_from_label um f label = um_make_key um f label"

definition get_pubkey_from_label :: "('sk, 'pk, 'f, 'cert, 'sig) umbral \<Rightarrow> 'f \<Rightarrow> bytes \<Rightarrow> 'pk" where
  "get_pubkey_from_label um f label = um_public_key um (get_privkey_from_label um f label)"

definition dp_generate_kfrags ::
  "('sk, 'pk, 'f, 'cert, 'sig) umbral \<Rightarrow> 'f \<Rightarrow> 'pk \<Rightarrow> 'sk \<Rightarrow> bytes \<Rightarrow> nat \<Rightarrow> nat \<Rightarrow> 'pk \<times> bytes list" where
  "dp_generate_kfrags um f bob_pubkey_enc signer_key label threshold shares =
     (let private_key = get_privkey_from_label um f label
      in (um_public_key um private_key, um_kfrags um private_key bob_pubkey_enc signer_key threshold shares))"

definition get_decrypting_power_from_label ::
  "('sk, 'pk, 'f, 'cert, 'sig) umbral \<Rightarrow> 'f \<Rightarrow> bytes \<Rightarrow> ('sk, 'pk, 'f, 'cert) power" where
  "get_decrypting_power_from_label um f label =
     (let label_privkey = get_privkey_from_label um f label
      in Decrypting \<lparr>kp_privkey = Some label_privkey, kp_pubkey = um_public_key um label_privkey\<rparr>)"

subsection \<open>The powers of a character\<close>

record ('sk, 'pk, 'f, 'cert) crypto_power =
  cp_power_ups :: "(power_class, ('sk, 'pk, 'f, 'cert) power) dict"
  cp_public_keys :: "(power_class, 'pk) dict"

definition empty_crypto_power :: "('sk, 'pk, 'f, 'cert) crypto_power" where
  "empty_crypto_power = \<lparr>cp_power_ups = [], cp_public_keys = []\<rparr>"

text \<open>What may be handed to \<^verbatim>\<open>consume_power_up\<close>: a power, its class, another class, or something that is no class.\<close>

datatype ('sk, 'pk, 'f, 'cert) power_up =
    PowerInstance "('sk, 'pk, 'f, 'cert) power" | PowerClass power_class | ForeignClass | NoClass

text \<open>Building a power from its class alone: fresh keys where that is possible.\<close>

definition instantiate_power ::
  "('sk, 'pk, 'f, 'cert, 'sig) umbral \<Rightarrow> 'sk \<Rightarrow> 'f \<Rightarrow> power_class \<Rightarrow> crypto_error + ('sk, 'pk, 'f, 'cert) power" where
  "instantiate_power um random_key random_factory c =
     (case c of
        SigningPower \<Rightarrow> map_sum id Signing (keypair_power_init um None None random_key)
      | DecryptingPower \<Rightarrow> map_sum id Decrypting (keypair_power_init um None None random_key)
      | DelegatingPower \<Rightarrow> Inr (Delegating random_factory)
      | TLSHostingPower \<Rightarrow> Inl CryptoTypeError
      | TransactingPower \<Rightarrow> Inl CryptoTypeError)"

definition activate_power ::
  "('s, 'tsig) signer_ops \<Rightarrow> string option \<Rightarrow> ('sk, 'pk, 'f, 'cert) power \<Rightarrow> 's \<Rightarrow> (crypto_error + ('sk, 'pk, 'f, 'cert) power) \<times> 's" where
  "activate_power ops password p s =
     (case p of
        Transacting tp \<Rightarrow>
          (case tp_activate ops password tp s of
             (Inl e, s') \<Rightarrow> (Inl (ActivationFailed e), s')
           | (Inr tp', s') \<Rightarrow> (Inr (Transacting tp'), s'))
      | _ \<Rightarrow> (Inr p, s))"

definition install_power ::
  "('sk, 'pk, 'f, 'cert) power \<Rightarrow> ('sk, 'pk, 'f, 'cert) crypto_power \<Rightarrow> ('sk, 'pk, 'f, 'cert) crypto_power" where
  "install_power p cp =
     (let c = class_of p; cp' = cp\<lparr>cp_power_ups := dict_set (cp_power_ups cp) c p\<rparr>
      in case public_key p of
           Some pk \<Rightarrow> cp'\<lparr>cp_public_keys := dict_set (cp_public_keys cp') c pk\<rparr>
         | None \<Rightarrow> cp')"

definition consume_power_up ::
  "('sk, 'pk, 'f, 'cert, 'sig) umbral \<Rightarrow> ('s, 'tsig) signer_ops \<Rightarrow> 'sk \<Rightarrow> 'f \<Rightarrow> string option \<Rightarrow> ('sk, 'pk, 'f, 'cert) power_up
    \<Rightarrow> ('sk, 'pk, 'f, 'cert) crypto_power \<Rightarrow> 's \<Rightarrow> (crypto_error + ('sk, 'pk, 'f, 'cert) crypto_power) \<times> 's" where
  "consume_power_up um ops random_key random_factory password power_up cp s =
     (case power_up of
        PowerInstance p \<Rightarrow>
          (case activate_power ops password p s of
             (Inl e, s') \<Rightarrow> (Inl e, s')
           | (Inr p', s') \<Rightarrow> (Inr (install_power p' cp), s'))
      | PowerClass c \<Rightarrow>
          (case instantiate_power um random_key random_factory c of
             Inl e \<Rightarrow> (Inl e, s)
           | Inr p \<Rightarrow> (Inr (install_power p cp), s))
      | ForeignClass \<Rightarrow> (Inl CryptoTypeError, s)
      | NoClass \<Rightarrow> (Inl CryptoAttributeError, s))"

text \<open>\<^verbatim>\<open>CryptoPower.__init__\<close>: consumes each in turn. Every class gets fresh keys.\<close>

fun new_crypto_power ::
  "('sk, 'pk, 'f, 'cert, 'sig) umbral \<Rightarrow> ('s, 'tsig) signer_ops \<Rightarrow> (('sk, 'pk, 'f, 'cert) power_up \<times> 'sk \<times> 'f) list
    \<Rightarrow> ('sk, 'pk, 'f, 'cert) crypto_power \<Rightarrow> 's \<Rightarrow> (crypto_error + ('sk, 'pk, 'f, 'cert) crypto_power) \<times> 's" where
  "new_crypto_power um ops [] cp s = (Inr cp, s)"
| "new_crypto_power um ops ((u, rk, rf) # us) cp s =
     (case consume_power_up um ops rk rf None u cp s of
        (Inl e, s') \<Rightarrow> (Inl e, s')
      | (Inr cp', s') \<Rightarrow> new_crypto_power um ops us cp' s')"

text \<open>The exception a class names in \<^verbatim>\<open>not_found_error\<close>; \<^verbatim>\<open>DelegatingPower\<close> has none.\<close>

definition not_found_error :: "power_class \<Rightarrow> crypto_error" where
  "not_found_error c =
     (case c of
        SigningPower \<Rightarrow> NoSigningPower
      | DecryptingPower \<Rightarrow> NoDecryptingPower
      | TransactingPower \<Rightarrow> NoTransactingPower
      | TLSHostingPower \<Rightarrow> NoHostingPower
      | DelegatingPower \<Rightarrow> CryptoAttributeError)"

definition power_ups :: "('sk, 'pk, 'f, 'cert) crypto_power \<Rightarrow> power_class \<Rightarrow> crypto_error + ('sk, 'pk, 'f, 'cert) power" where
  "power_ups cp c = (case dict_get (cp_power_ups cp) c of Some p \<Rightarrow> Inr p | None \<Rightarrow> Inl (not_found_error c))"

definition is_power_up_error :: "crypto_error \<Rightarrow> bool" where
  "is_power_up_error e \<longleftrightarrow> e \<in> {NoSigningPower, NoDecryptingPower, NoTransactingPower, NoHostingPower, PowerUpError}"

definition crypto_power_contains :: "('sk, 'pk, 'f, 'cert) crypto_power \<Rightarrow> power_class \<Rightarrow> crypto_error + bool" where
  "crypto_power_contains cp c =
     (case power_ups cp c of
        Inr _ \<Rightarrow> Inr True
      | Inl e \<Rightarrow> if is_power_up_error e then Inr False else Inl e)"

subsection \<open>Powers and public keys agree\<close>

text \<open>
  Every power stands under its own class, and the published keys are exactly the public keys of
  the powers that have one.
\<close>

definition cp_ok :: "('sk, 'pk, 'f, 'cert) crypto_power \<Rightarrow> bool" where
  "cp_ok cp \<longleftrightarrow> wf_dict (cp_power_ups cp) \<and> wf_dict (cp_public_keys cp) \<and>
     (\<forall>c p. dict_get (cp_power_ups cp) c = Some p \<longrightarrow> class_of p = c) \<and>
     (\<forall>c. dict_get (cp_public_keys cp) c = Option.bind (dict_get (cp_power_ups cp) c) public_key)"

lemma public_key_confers: "public_key p \<noteq> None \<longleftrightarrow> confers_public_key (class_of p)"
  by (cases p) (simp_all add: confers_public_key_def)

lemma install_power_ups: "cp_power_ups (install_power p cp) = dict_set (cp_power_ups cp) (class_of p) p"
  by (simp add: install_power_def Let_def split: option.split)

lemma install_public_keys: "cp_public_keys (install_power p cp) =
    (case public_key p of Some pk \<Rightarrow> dict_set (cp_public_keys cp) (class_of p) pk | None \<Rightarrow> cp_public_keys cp)"
  by (simp add: install_power_def Let_def split: option.split)

lemma cp_ok_install: "cp_ok cp \<Longrightarrow> cp_ok (install_power p cp)"
proof -
  assume ok: "cp_ok cp"
  have "dict_get (cp_public_keys (install_power p cp)) c =
      Option.bind (dict_get (cp_power_ups (install_power p cp)) c) public_key" for c
  proof (cases "c = class_of p")
    case True
    have "dict_get (cp_public_keys cp) c = None" if "public_key p = None"
    proof -
      have "public_key q = None" if "dict_get (cp_power_ups cp) c = Some q" for q
        using that ok \<open>public_key p = None\<close> True public_key_confers [of p] public_key_confers [of q] by (auto simp: cp_ok_def)
      with ok show ?thesis by (cases "dict_get (cp_power_ups cp) c") (auto simp: cp_ok_def)
    qed
    with True show ?thesis by (auto simp: install_power_ups install_public_keys dict_get_set split: option.split)
  next
    case False
    with ok show ?thesis by (auto simp: install_power_ups install_public_keys dict_get_set cp_ok_def split: option.split)
  qed
  moreover have "wf_dict (cp_public_keys (install_power p cp))"
    using ok by (auto simp: install_public_keys cp_ok_def split: option.split)
  ultimately show ?thesis
    using ok by (auto simp: cp_ok_def install_power_ups dict_get_set)
qed

lemma cp_ok_empty: "cp_ok empty_crypto_power"
  by (simp add: cp_ok_def empty_crypto_power_def)

lemma consume_Inr:
  assumes "consume_power_up um ops rk rf pw u cp s = (Inr cp', s')"
  shows "\<exists>p. cp' = install_power p cp"
  using assms by (auto simp: consume_power_up_def split: power_up.splits prod.splits sum.splits)

lemma cp_ok_new: "new_crypto_power um ops us cp s = (Inr cp', s') \<Longrightarrow> cp_ok cp \<Longrightarrow> cp_ok cp'"
proof (induction us arbitrary: cp s)
  case (Cons u us)
  then show ?case by (cases u) (auto split: prod.splits sum.splits dest!: consume_Inr intro: cp_ok_install)
qed simp

text \<open>
  C27. The powers a character ends up with, whatever it was built from: looking up a class gives a power of
  that class; its public key, where it has one, is the one that is published under the class, and no
  other key is published.
\<close>

theorem crypto_power_typed:
  assumes "new_crypto_power um ops us empty_crypto_power s = (Inr cp, s')"
  shows "(power_ups cp c = Inr p \<longrightarrow> class_of p = c \<and> dict_get (cp_public_keys cp) c = public_key p) \<and>
    (power_ups cp c = Inl e \<longrightarrow> dict_get (cp_public_keys cp) c = None) \<and>
    (dict_get (cp_public_keys cp) c \<noteq> None \<longrightarrow> confers_public_key c)"
proof -
  have ok: "cp_ok cp" using cp_ok_new [OF assms cp_ok_empty] .
  then show ?thesis
    using public_key_confers [of "the (dict_get (cp_power_ups cp) c)"]
    by (auto simp: cp_ok_def power_ups_def split: option.splits)
qed

definition demo_umbral :: "(nat, nat, nat, nat, nat) umbral" where
  "demo_umbral = \<lparr>um_public_key = Suc, um_key_bytes = (\<lambda>k. [of_nat k]), um_key_from_bytes = (\<lambda>b. None), um_sign = (\<lambda>k m. k),
     um_decrypt_kit = (\<lambda>k m. Some m), um_make_key = (\<lambda>f b. f + length b), um_make_factory = (\<lambda>f b. f),
     um_factory_from = (\<lambda>b. if length b = 32 then Some 100 else None), um_kfrags = (\<lambda>_ _ _ m n. []),
     um_cert_key = id, um_self_signed = (\<lambda>h k. (0, 0))\<rparr>"

theorem crypto_power_typed_witness:
  "\<exists>cp. new_crypto_power demo_umbral (keystore_ops demo_lib) [(PowerClass SigningPower, 5, 0), (PowerClass DelegatingPower, 0, 9)]
       empty_crypto_power demo_signer = (Inr cp, demo_signer) \<and> dict_get (cp_public_keys cp) SigningPower = Some 6"
proof -
  let ?us = "[(PowerClass SigningPower, 5, 0), (PowerClass DelegatingPower, 0, 9)]"
  let ?kp = "\<lparr>kp_privkey = Some (5 :: nat), kp_pubkey = 6 :: nat\<rparr>"
  let ?cp = "\<lparr>cp_power_ups = [(SigningPower, Signing ?kp), (DelegatingPower, Delegating 9)], cp_public_keys = [(SigningPower, 6)]\<rparr>
    :: (nat, nat, nat, nat) crypto_power"
  have run: "new_crypto_power demo_umbral (keystore_ops demo_lib) ?us empty_crypto_power demo_signer = (Inr ?cp, demo_signer)"
    by (simp add: consume_power_up_def instantiate_power_def keypair_power_init_def new_keypair_def install_power_def
        empty_crypto_power_def demo_umbral_def)
  let ?p = "Signing ?kp :: (nat, nat, nat, nat) power"
  have "power_ups ?cp SigningPower = Inr ?p" by (simp add: power_ups_def)
  then have "dict_get (cp_public_keys ?cp) SigningPower = public_key ?p"
    using crypto_power_typed [OF run, of SigningPower ?p] by blast
  with run show ?thesis by auto
qed

text \<open>
  Asking whether a power is there answers for four of the five classes; for a missing
  delegating power the question itself raises.
\<close>

lemma contains_power:
  "crypto_power_contains cp c =
     (if dict_get (cp_power_ups cp) c \<noteq> None then Inr True
      else if c = DelegatingPower then Inl CryptoAttributeError else Inr False)"
  by (cases c) (auto simp: crypto_power_contains_def power_ups_def not_found_error_def is_power_up_error_def split: option.splits)

text \<open>The key that encrypts under a label is the one of the fragments, and the label's decrypting power opens it.\<close>

lemma label_keys_agree:
  "fst (dp_generate_kfrags um f bob sk label m n) = get_pubkey_from_label um f label"
  "public_key (get_decrypting_power_from_label um f label) = Some (get_pubkey_from_label um f label)"
  by (simp_all add: dp_generate_kfrags_def get_pubkey_from_label_def get_decrypting_power_from_label_def Let_def)

lemma stamp_signs_iff_private:
  "stamp_call um (get_signature_stamp kp) m = (case kp_privkey kp of Some sk \<Rightarrow> Inr (um_sign um sk m) | None \<Rightarrow> Inl NoSigningPower)"
  by (simp add: get_signature_stamp_def split: option.split)

text \<open>Equal stamps have equal hashes, and for keys of one length different stamps differ in their hash.\<close>

lemma int_from_bytes_snoc: "int_from_bytes (bs @ [b]) = 256 * int_from_bytes bs + uint b"
  by (simp add: int_from_bytes_def)

lemma byte_uint: "0 \<le> uint (b :: 8 word)" "uint b < 256"
proof -
  have "uint b < 2 ^ LENGTH(8)" by (rule uint_bounded)
  then show "0 \<le> uint b" "uint b < 256" by simp_all
qed

lemma int_from_bytes_inject: "length bs = length cs \<Longrightarrow> int_from_bytes bs = int_from_bytes cs \<Longrightarrow> bs = cs"
proof (induction bs arbitrary: cs rule: rev_induct)
  case (snoc b bs)
  then obtain c cs' where cs: "cs = cs' @ [c]" by (cases cs rule: rev_cases) auto
  with snoc.prems have eq: "256 * int_from_bytes bs + uint b = 256 * int_from_bytes cs' + uint c" by (simp add: int_from_bytes_snoc)
  moreover have "(256 * x + uint d) div 256 = x \<and> (256 * x + uint d) mod 256 = uint d" for x and d :: "8 word"
    using byte_uint [of d] by simp
  ultimately have "int_from_bytes bs = int_from_bytes cs'" "uint b = uint c" by metis+
  with snoc cs show ?case by (simp add: word_uint_eq_iff)
qed simp

lemma stamp_hash_eq:
  assumes "length (stamp_bytes um st) = length (stamp_bytes um other)"
  shows "stamp_hash um st = stamp_hash um other \<longleftrightarrow> stamp_eq um st other"
  using int_from_bytes_inject [OF assms] by (auto simp: stamp_hash_def stamp_eq_def)

end
