(* ===== verification/Keystore.thy ===== *)
theory Keystore
  imports Powers
begin

text \<open>
  The keystore: \<^verbatim>\<open>nulink/crypto/keystore.py\<close> and \<^verbatim>\<open>nulink/crypto/passwords.py\<close>.

  Scrypt, HKDF, the secret box and the seed words (\<^verbatim>\<open>mnemonic\<close>) are parameters, as are the keys
  (\<open>Powers\<close>). The clock, the random bytes and what the user types are arguments of the operations that use
  them. The terminal output is left out.
\<close>

subsection \<open>Passwords and wrapping\<close>

text \<open>\<^verbatim>\<open>Scrypt(...).derive\<close> gives a key or an \<^verbatim>\<open>InternalError\<close> with a reason.\<close>

datatype scrypt_result = ScryptKey bytes | ScryptInternal nat

record password_lib =
  pl_scrypt :: "bytes \<Rightarrow> bytes \<Rightarrow> scrypt_result"
  pl_hkdf :: "bytes \<Rightarrow> bytes \<Rightarrow> bytes \<Rightarrow> bytes"
  pl_box_encrypt :: "bytes \<Rightarrow> bytes \<Rightarrow> bytes \<Rightarrow> bytes"
  pl_box_decrypt :: "bytes \<Rightarrow> bytes \<Rightarrow> bytes option"
  pl_to_entropy :: "string \<Rightarrow> bytes option"
  pl_secret_key_size :: nat

datatype keystore_error =
    KsExists | KsInvalid | KsNotFound | KsLocked | KsAuthenticationFailed
  | InvalidPassword string | SecretBoxAuthenticationError
  | KsValueError | KsTypeError | KsKeyError | KsUnicodeError | KsMemoryError | KsInternalError | KsAbort
  | KsOsError os_error | KsPowerError crypto_error

definition derive_key_material_from_password :: "password_lib \<Rightarrow> bytes \<Rightarrow> bytes \<Rightarrow> keystore_error + bytes" where
  "derive_key_material_from_password pl password salt =
     (case pl_scrypt pl salt password of
        ScryptKey k \<Rightarrow> Inr k
      | ScryptInternal reason \<Rightarrow> if reason = 65 then Inl KsMemoryError else Inl KsInternalError)"

definition WRAPPING_KEY_INFO :: bytes where
  "WRAPPING_KEY_INFO = encode ''NuLink-KeyWrap''"

definition derive_wrapping_key_from_key_material :: "password_lib \<Rightarrow> bytes \<Rightarrow> bytes \<Rightarrow> bytes" where
  "derive_wrapping_key_from_key_material pl key_material salt = pl_hkdf pl salt WRAPPING_KEY_INFO key_material"

text \<open>The box draws a nonce for each message.\<close>

definition secret_box_encrypt :: "password_lib \<Rightarrow> bytes \<Rightarrow> bytes \<Rightarrow> bytes \<Rightarrow> bytes \<Rightarrow> bytes" where
  "secret_box_encrypt pl nonce key_material salt plaintext =
     pl_box_encrypt pl (derive_wrapping_key_from_key_material pl key_material salt) nonce plaintext"

definition secret_box_decrypt :: "password_lib \<Rightarrow> bytes \<Rightarrow> bytes \<Rightarrow> bytes \<Rightarrow> keystore_error + bytes" where
  "secret_box_decrypt pl key_material salt ciphertext =
     (case pl_box_decrypt pl (derive_wrapping_key_from_key_material pl key_material salt) ciphertext of
        Some plaintext \<Rightarrow> Inr plaintext
      | None \<Rightarrow> Inl SecretBoxAuthenticationError)"

subsection \<open>Key files\<close>

definition SIGNING_INFO :: bytes where "SIGNING_INFO = encode ''NuLink/signing''"
definition DECRYPTING_INFO :: bytes where "DECRYPTING_INFO = encode ''NuLink/decrypting''"
definition DELEGATING_INFO :: bytes where "DELEGATING_INFO = encode ''NuLink/delegating''"
definition TLS_INFO :: bytes where "TLS_INFO = encode ''NuLink/tls''"

definition KEYSTORE_VERSION :: string where "KEYSTORE_VERSION = ''2.0''"
definition MINIMUM_PASSWORD_LENGTH :: nat where "MINIMUM_PASSWORD_LENGTH = 8"
definition ID_SIZE :: nat where "ID_SIZE = 32"
definition FILENAME_DELIMITER :: char where "FILENAME_DELIMITER = CHR ''-''"
definition SUFFIX :: string where "SUFFIX = ''priv''"

text \<open>\<^verbatim>\<open>0o600\<close> as bits.\<close>

definition PRIVATE_MODE :: mode where "PRIVATE_MODE = 0x180"

datatype payload_value = PText string | PBytes bytes | POther json

type_synonym payload = "(string, payload_value) dict"

definition secret_fields :: "string list" where
  "secret_fields = [''key'', ''password_salt'', ''wrapper_salt'']"

definition assemble_keystore :: "string \<Rightarrow> bytes \<Rightarrow> bytes \<Rightarrow> bytes \<Rightarrow> payload" where
  "assemble_keystore created encrypted_secret password_salt wrapper_salt =
     [(''version'', PText KEYSTORE_VERSION), (''created'', PText created), (''key'', PBytes encrypted_secret),
      (''password_salt'', PBytes password_salt), (''wrapper_salt'', PBytes wrapper_salt)]"

text \<open>The loops over the three fields, and \<^verbatim>\<open>json.dumps\<close>, which refuses bytes.\<close>

fun hex_fields :: "string list \<Rightarrow> payload \<Rightarrow> keystore_error + payload" where
  "hex_fields [] p = Inr p"
| "hex_fields (f # fs) p =
     (case dict_get p f of
        None \<Rightarrow> Inl KsKeyError
      | Some (PBytes b) \<Rightarrow> hex_fields fs (dict_set p f (PText (hex b)))
      | Some _ \<Rightarrow> Inl KsTypeError)"

fun payload_to_json :: "payload_value \<Rightarrow> json option" where
  "payload_to_json (PText s) = Some (JStr s)"
| "payload_to_json (PBytes b) = None"
| "payload_to_json (POther j) = Some j"

definition serialize_keystore :: "payload \<Rightarrow> keystore_error + text_file" where
  "serialize_keystore p =
     (case hex_fields secret_fields p of
        Inl e \<Rightarrow> Inl e
      | Inr q \<Rightarrow>
          if \<forall>(k, v) \<in> set q. payload_to_json v \<noteq> None then Inr (Json (JObj (map (\<lambda>(k, v). (k, the (payload_to_json v))) q)))
          else Inl KsTypeError)"

fun of_json :: "json \<Rightarrow> payload_value" where
  "of_json (JStr s) = PText s"
| "of_json j = POther j"

fun fromhex_fields :: "string list \<Rightarrow> payload \<Rightarrow> keystore_error + payload" where
  "fromhex_fields [] p = Inr p"
| "fromhex_fields (f # fs) p =
     (case dict_get p f of
        None \<Rightarrow> Inl KsKeyError
      | Some (PText s) \<Rightarrow>
          (case fromhex s of None \<Rightarrow> Inl KsValueError | Some b \<Rightarrow> fromhex_fields fs (dict_set p f (PBytes b)))
      | Some _ \<Rightarrow> Inl KsTypeError)"

fun deserialize_keystore :: "text_file \<Rightarrow> keystore_error + payload" where
  "deserialize_keystore Undecodable = Inl KsUnicodeError"
| "deserialize_keystore NotJson = Inl KsInvalid"
| "deserialize_keystore (Json (JObj d)) = fromhex_fields secret_fields (map (\<lambda>(k, v). (k, of_json v)) d)"
| "deserialize_keystore (Json _) = Inl KsTypeError"

definition read_keystore :: "text_file fs \<Rightarrow> path \<Rightarrow> keystore_error + payload" where
  "read_keystore fs p = (case read_file fs p of Inl e \<Rightarrow> Inl (KsOsError e) | Inr c \<Rightarrow> deserialize_keystore c)"

text \<open>
  The file is created before the payload is serialized; the \<^verbatim>\<open>umask\<close> is cleared whether or not it could
  be created. An empty file is not JSON.
\<close>

definition write_keystore :: "path \<Rightarrow> payload \<Rightarrow> text_file fs \<Rightarrow> (keystore_error + path) \<times> text_file fs" where
  "write_keystore p payload fs =
     (if path_exists fs p then (Inl KsExists, fs)
      else case create_file PRIVATE_MODE p NotJson fs of
             Inl e \<Rightarrow> (Inl (KsOsError e), set_umask 0 fs)
           | Inr fs1 \<Rightarrow>
               (let fs2 = set_umask 0 fs1
                in case serialize_keystore payload of
                     Inl e \<Rightarrow> (Inl e, fs2)
                   | Inr content \<Rightarrow>
                       (case write_file p content fs2 of
                          Inl e \<Rightarrow> (Inl (KsOsError e), fs2)
                        | Inr fs3 \<Rightarrow> (Inr p, fs3))))"

definition generate_keystore_filepath :: "nat \<Rightarrow> path \<Rightarrow> string \<Rightarrow> path" where
  "generate_keystore_filepath utc_nowish parent key_id = path_join parent (show_nat utc_nowish @ ''-'' @ key_id @ ''.priv'')"

definition validate_keystore_password :: "string \<Rightarrow> string list" where
  "validate_keystore_password password =
     (if password = [] then [''Password must not be blank.''] else []) @
     (if length password < MINIMUM_PASSWORD_LENGTH then [''Password must be at least '' @ show_nat MINIMUM_PASSWORD_LENGTH @ '' characters long.''] else [])"

definition filename_parts :: "path \<Rightarrow> string list" where
  "filename_parts p = split_char FILENAME_DELIMITER (rstrip (''.'' @ SUFFIX) (path_name p))"

definition validate_keystore_filename :: "path \<Rightarrow> keystore_error option" where
  "validate_keystore_filename p =
     (case filename_parts p of
        [created, keystore_id] \<Rightarrow>
          if length keystore_id = ID_SIZE \<and> list_all (\<lambda>c. c \<in> set string_hexdigits) keystore_id then None else Some KsInvalid
      | _ \<Rightarrow> Some KsInvalid)"

text \<open>
  A path whose name lacks the suffix makes an \<^verbatim>\<open>Invalid\<close> exception that is never raised: the
  pattern has no effect.
\<close>

definition parse_path :: "text_file fs \<Rightarrow> path \<Rightarrow> keystore_error + string \<times> string" where
  "parse_path fs p =
     (if \<not> path_exists fs p then Inl KsNotFound
      else if \<not> is_file fs p then Inl KsValueError
      else case validate_keystore_filename p of
             Some e \<Rightarrow> Inl e
           | None \<Rightarrow> (case filename_parts p of [created, keystore_id] \<Rightarrow> Inr (created, keystore_id) | _ \<Rightarrow> Inl KsValueError))"

subsection \<open>The keystore\<close>

text \<open>No secret is \<^verbatim>\<open>KEYSTORE_LOCKED\<close>.\<close>

record keystore =
  kst_path :: path
  kst_created :: string
  kst_id :: string
  kst_secret :: "bytes option"

definition new_keystore :: "text_file fs \<Rightarrow> path \<Rightarrow> keystore_error + keystore" where
  "new_keystore fs p =
     (case parse_path fs p of
        Inl e \<Rightarrow> Inl e
      | Inr (created, key_id) \<Rightarrow> Inr \<lparr>kst_path = p, kst_created = created, kst_id = key_id, kst_secret = None\<rparr>)"

definition payload_bytes :: "payload \<Rightarrow> string \<Rightarrow> bytes option" where
  "payload_bytes p f = (case dict_get p f of Some (PBytes b) \<Rightarrow> Some b | _ \<Rightarrow> None)"

text \<open>
  \<^verbatim>\<open>__decrypt_keystore\<close>: the secret, or the exception. Reading has made the three fields bytes,
  so their lookup does not fail.
\<close>

definition open_keystore :: "password_lib \<Rightarrow> text_file fs \<Rightarrow> path \<Rightarrow> string \<Rightarrow> keystore_error + bytes" where
  "open_keystore pl fs p password =
     (case read_keystore fs p of
        Inl e \<Rightarrow> Inl e
      | Inr payload \<Rightarrow>
          (case (payload_bytes payload ''password_salt'', payload_bytes payload ''key'', payload_bytes payload ''wrapper_salt'') of
             (Some psalt, Some key, Some wsalt) \<Rightarrow>
               (case derive_key_material_from_password pl (encode password) psalt of
                  Inl e \<Rightarrow> Inl e
                | Inr material \<Rightarrow> secret_box_decrypt pl material wsalt key)
           | _ \<Rightarrow> Inl KsKeyError))"

text \<open>\<^verbatim>\<open>unlock\<close>: only a failed authentication locks the keystore; other exceptions leave it as it was.\<close>

definition unlock :: "password_lib \<Rightarrow> text_file fs \<Rightarrow> string \<Rightarrow> keystore \<Rightarrow> keystore_error option \<times> keystore" where
  "unlock pl fs password ks =
     (case open_keystore pl fs (kst_path ks) password of
        Inr secret \<Rightarrow> (None, ks\<lparr>kst_secret := Some secret\<rparr>)
      | Inl SecretBoxAuthenticationError \<Rightarrow> (Some KsAuthenticationFailed, ks\<lparr>kst_secret := None\<rparr>)
      | Inl e \<Rightarrow> (Some e, ks))"

definition lock :: "keystore \<Rightarrow> keystore" where
  "lock ks = ks\<lparr>kst_secret := None\<rparr>"

definition is_unlocked :: "keystore \<Rightarrow> bool" where
  "is_unlocked ks \<longleftrightarrow> kst_secret ks \<noteq> None"

text \<open>The clock and the random bytes one \<^verbatim>\<open>__save\<close> uses.\<close>

record save_env =
  se_now :: nat
  se_created :: string
  se_password_salt :: bytes
  se_wrapper_salt :: bytes
  se_nonce :: bytes

definition keystore_id_of :: "('sk, 'pk, 'f, 'cert, 'sig) umbral \<Rightarrow> 'f \<Rightarrow> string" where
  "keystore_id_of um f = take ID_SIZE (hex (um_key_bytes um (um_public_key um (um_make_key um f SIGNING_INFO))))"

definition save ::
  "('sk, 'pk, 'f, 'cert, 'sig) umbral \<Rightarrow> password_lib \<Rightarrow> save_env \<Rightarrow> path \<Rightarrow> bytes \<Rightarrow> string \<Rightarrow> path option \<Rightarrow> text_file fs
    \<Rightarrow> (keystore_error + path) \<times> text_file fs" where
  "save um pl env default_dir secret password keystore_dir fs =
     (let failures = validate_keystore_password password
      in if failures \<noteq> [] then (Inl (InvalidPassword (concat failures)), fs)
         else case um_factory_from um secret of
                None \<Rightarrow> (Inl KsValueError, fs)
              | Some f \<Rightarrow>
                  (let dir = (case keystore_dir of Some d \<Rightarrow> d | None \<Rightarrow> default_dir)
                   in case makedirs True 0x1C0 dir fs of
                        Inl e \<Rightarrow> (Inl (KsOsError e), fs)
                      | Inr fs1 \<Rightarrow>
                          (let p = generate_keystore_filepath (se_now env) dir (keystore_id_of um f)
                           in case derive_key_material_from_password pl (encode password) (se_password_salt env) of
                                Inl e \<Rightarrow> (Inl e, fs1)
                              | Inr material \<Rightarrow>
                                  write_keystore p
                                    (assemble_keystore (se_created env)
                                       (secret_box_encrypt pl (se_nonce env) material (se_wrapper_salt env) secret)
                                       (se_password_salt env) (se_wrapper_salt env)) fs1)))"

definition load_keystore :: "nat \<Rightarrow> path \<Rightarrow> string \<Rightarrow> text_file fs \<Rightarrow> keystore_error + keystore" where
  "load_keystore now keystore_dir key_id fs = new_keystore fs (generate_keystore_filepath now keystore_dir key_id)"

text \<open>Saving a secret and opening the new file as a keystore: the end of the three ways to make one.\<close>

definition save_and_open ::
  "('sk, 'pk, 'f, 'cert, 'sig) umbral \<Rightarrow> password_lib \<Rightarrow> save_env \<Rightarrow> path \<Rightarrow> bytes \<Rightarrow> string \<Rightarrow> path option \<Rightarrow> text_file fs
    \<Rightarrow> (keystore_error + keystore) \<times> text_file fs" where
  "save_and_open um pl env default_dir secret password keystore_dir fs =
     (case save um pl env default_dir secret password keystore_dir fs of
        (Inl e, fs') \<Rightarrow> (Inl e, fs')
      | (Inr p, fs') \<Rightarrow> (new_keystore fs' p, fs'))"

definition import_secure ::
  "('sk, 'pk, 'f, 'cert, 'sig) umbral \<Rightarrow> password_lib \<Rightarrow> save_env \<Rightarrow> path \<Rightarrow> bytes \<Rightarrow> string \<Rightarrow> path option \<Rightarrow> text_file fs
    \<Rightarrow> (keystore_error + keystore) \<times> text_file fs" where
  "import_secure um pl env default_dir key_material password keystore_dir fs =
     (if length key_material \<noteq> pl_secret_key_size pl then (Inl KsValueError, fs)
      else save_and_open um pl env default_dir key_material password keystore_dir fs)"

definition restore ::
  "('sk, 'pk, 'f, 'cert, 'sig) umbral \<Rightarrow> password_lib \<Rightarrow> save_env \<Rightarrow> path \<Rightarrow> string \<Rightarrow> string \<Rightarrow> path option \<Rightarrow> text_file fs
    \<Rightarrow> (keystore_error + keystore) \<times> text_file fs" where
  "restore um pl env default_dir words password keystore_dir fs =
     (case pl_to_entropy pl words of
        None \<Rightarrow> (Inl KsValueError, fs)
      | Some secret \<Rightarrow> save_and_open um pl env default_dir secret password keystore_dir fs)"

text \<open>What the user answers: whether the words are backed up, and the words typed again.\<close>

definition confirm_generate :: "string \<Rightarrow> bool \<Rightarrow> string \<Rightarrow> keystore_error option" where
  "confirm_generate words backed_up response =
     (if \<not> backed_up then Some KsAbort else if response \<noteq> words then Some KsValueError else None)"

definition generate ::
  "('sk, 'pk, 'f, 'cert, 'sig) umbral \<Rightarrow> password_lib \<Rightarrow> save_env \<Rightarrow> path \<Rightarrow> string \<Rightarrow> (bool \<times> string) option \<Rightarrow> string \<Rightarrow> path option
    \<Rightarrow> text_file fs \<Rightarrow> (keystore_error + keystore \<times> string option) \<times> text_file fs" where
  "generate um pl env default_dir words interactive password keystore_dir fs =
     (case (case interactive of Some (backed_up, response) \<Rightarrow> confirm_generate words backed_up response | None \<Rightarrow> None) of
        Some e \<Rightarrow> (Inl e, fs)
      | None \<Rightarrow>
          (case restore um pl env default_dir words password keystore_dir fs of
             (Inl e, fs') \<Rightarrow> (Inl e, fs')
           | (Inr ks, fs') \<Rightarrow> (Inr (ks, if interactive = None then Some words else None), fs')))"

subsection \<open>Deriving powers\<close>

definition HKDF_INFO :: "power_class \<Rightarrow> bytes option" where
  "HKDF_INFO c =
     (case c of
        SigningPower \<Rightarrow> Some SIGNING_INFO
      | DecryptingPower \<Rightarrow> Some DECRYPTING_INFO
      | DelegatingPower \<Rightarrow> Some DELEGATING_INFO
      | TLSHostingPower \<Rightarrow> Some TLS_INFO
      | TransactingPower \<Rightarrow> None)"

definition derive_hosting_power ::
  "('sk, 'pk, 'f, 'cert, 'sig) umbral \<Rightarrow> string \<Rightarrow> 'sk \<Rightarrow> crypto_error + ('sk, 'pk, 'f, 'cert) power" where
  "derive_hosting_power um host private_key =
     (case um_self_signed um host (Some private_key) of
        (certificate, sk) \<Rightarrow>
          (case new_hosting_keypair um host None (Some sk) (Some certificate) None False of
             Inl e \<Rightarrow> Inl e
           | Inr kp \<Rightarrow> new_hosting_power um host None None (Some kp)))"

definition own_keypair :: "('sk, 'pk, 'f, 'cert, 'sig) umbral \<Rightarrow> 'sk \<Rightarrow> ('sk, 'pk) keypair" where
  "own_keypair um sk = \<lparr>kp_privkey = Some sk, kp_pubkey = um_public_key um sk\<rparr>"

definition derive_crypto_power ::
  "('sk, 'pk, 'f, 'cert, 'sig) umbral \<Rightarrow> keystore \<Rightarrow> power_class \<Rightarrow> string option \<Rightarrow> keystore_error + ('sk, 'pk, 'f, 'cert) power" where
  "derive_crypto_power um ks c host =
     (case kst_secret ks of
        None \<Rightarrow> Inl KsLocked
      | Some secret \<Rightarrow>
          (case HKDF_INFO c of
             None \<Rightarrow> Inl KsTypeError
           | Some info \<Rightarrow>
               (case um_factory_from um secret of
                  None \<Rightarrow> Inl KsValueError
                | Some f \<Rightarrow>
                    (let private_key = um_make_key um f info
                     in case c of
                          TLSHostingPower \<Rightarrow>
                            (case host of
                               None \<Rightarrow> Inl KsTypeError
                             | Some h \<Rightarrow> map_sum KsPowerError id (derive_hosting_power um h private_key))
                        | SigningPower \<Rightarrow> Inr (Signing (own_keypair um private_key))
                        | DecryptingPower \<Rightarrow> Inr (Decrypting (own_keypair um private_key))
                        | DelegatingPower \<Rightarrow> Inr (Delegating (um_make_factory um f DELEGATING_INFO))
                        | TransactingPower \<Rightarrow> Inl KsValueError))))"

subsection \<open>What is written is read\<close>

definition stored_payload :: "string \<Rightarrow> bytes \<Rightarrow> bytes \<Rightarrow> bytes \<Rightarrow> text_file" where
  "stored_payload created key psalt wsalt =
     Json (JObj [(''version'', JStr KEYSTORE_VERSION), (''created'', JStr created), (''key'', JStr (hex key)),
       (''password_salt'', JStr (hex psalt)), (''wrapper_salt'', JStr (hex wsalt))])"

lemma serialize_assembled:
  "serialize_keystore (assemble_keystore created key psalt wsalt) = Inr (stored_payload created key psalt wsalt)"
  by (simp add: serialize_keystore_def assemble_keystore_def secret_fields_def stored_payload_def)

lemma deserialize_stored:
  "deserialize_keystore (stored_payload created key psalt wsalt) = Inr (assemble_keystore created key psalt wsalt)"
  by (simp add: assemble_keystore_def secret_fields_def stored_payload_def)

lemma payload_bytes_assembled:
  "payload_bytes (assemble_keystore created key psalt wsalt) ''key'' = Some key"
  "payload_bytes (assemble_keystore created key psalt wsalt) ''password_salt'' = Some psalt"
  "payload_bytes (assemble_keystore created key psalt wsalt) ''wrapper_salt'' = Some wsalt"
  by (simp_all add: payload_bytes_def assemble_keystore_def)

lemma open_stored:
  assumes "read_file fs p = Inr (stored_payload created key psalt wsalt)"
  shows "open_keystore pl fs p password =
    (case derive_key_material_from_password pl (encode password) psalt of
       Inl e \<Rightarrow> Inl e
     | Inr material \<Rightarrow> secret_box_decrypt pl material wsalt key)"
  by (simp add: open_keystore_def read_keystore_def assms deserialize_stored payload_bytes_assembled del: deserialize_keystore.simps)

text \<open>The name of a key file tells its id.\<close>

definition is_keystore_id :: "string \<Rightarrow> bool" where
  "is_keystore_id key_id \<longleftrightarrow> length key_id = ID_SIZE \<and> set key_id \<subseteq> set hex_digits"

lemma digit_not_special: "c \<in> digit ` {..<10} \<Longrightarrow> c \<noteq> CHR ''/'' \<and> c \<noteq> CHR ''-''"
proof -
  have "list_all (\<lambda>n. digit n \<noteq> CHR ''/'' \<and> digit n \<noteq> CHR ''-'') [0..<10]" by code_simp
  then show "c \<in> digit ` {..<10} \<Longrightarrow> c \<noteq> CHR ''/'' \<and> c \<noteq> CHR ''-''" by (auto simp: list_all_iff)
qed

lemma hex_not_special: "c \<in> set hex_digits \<Longrightarrow> c \<noteq> CHR ''/'' \<and> c \<noteq> CHR ''-'' \<and> c \<notin> set ''.priv''"
proof -
  have "list_all (\<lambda>c. c \<noteq> CHR ''/'' \<and> c \<noteq> CHR ''-'' \<and> c \<notin> set ''.priv'') hex_digits" by code_simp
  then show "c \<in> set hex_digits \<Longrightarrow> c \<noteq> CHR ''/'' \<and> c \<noteq> CHR ''-'' \<and> c \<notin> set ''.priv''" by (auto simp: list_all_iff)
qed

definition keystore_filename :: "nat \<Rightarrow> string \<Rightarrow> string" where
  "keystore_filename now key_id = show_nat now @ ''-'' @ key_id @ ''.priv''"

lemma keystore_filepath:
  assumes "is_keystore_id key_id"
  shows "generate_keystore_filepath now dir key_id = dir @ [keystore_filename now key_id]"
proof -
  let ?n = "keystore_filename now key_id"
  have "CHR ''/'' \<notin> set (show_nat now)" using show_nat_digits(1) [of now] digit_not_special by blast
  moreover have "CHR ''/'' \<notin> set key_id" using assms hex_not_special by (auto simp: is_keystore_id_def)
  ultimately have "CHR ''/'' \<notin> set ?n" by (simp add: keystore_filename_def)
  then have "split_char (CHR ''/'') ?n = [?n]" by (rule split_char_absent)
  moreover have "?n \<noteq> ''''" "?n \<noteq> ''.''" by (auto simp: keystore_filename_def append_eq_Cons_conv)
  ultimately show ?thesis by (simp add: generate_keystore_filepath_def path_join_def keystore_filename_def [symmetric] del: append.simps)
qed

lemma keystore_filename_parts:
  assumes "is_keystore_id key_id"
  shows "filename_parts (dir @ [keystore_filename now key_id]) = [show_nat now, key_id]"
proof -
  have ne: "key_id \<noteq> []" using assms by (auto simp: is_keystore_id_def ID_SIZE_def)
  have "last key_id \<notin> set ''.priv''"
    using hex_not_special [of "last key_id"] last_in_set [OF ne] assms by (auto simp: is_keystore_id_def)
  then have "rstrip ''.priv'' (show_nat now @ ''-'' @ key_id) = show_nat now @ ''-'' @ key_id" using ne by (intro rstrip_id) auto
  moreover have "rstrip ''.priv'' ((show_nat now @ ''-'' @ key_id) @ ''.priv'') = rstrip ''.priv'' (show_nat now @ ''-'' @ key_id)"
    by (rule rstrip_append) simp
  ultimately have "rstrip ''.priv'' (keystore_filename now key_id) = show_nat now @ CHR ''-'' # key_id"
    by (simp add: keystore_filename_def)
  moreover have "CHR ''-'' \<notin> set (show_nat now)" using show_nat_digits(1) [of now] digit_not_special by blast
  moreover have "CHR ''-'' \<notin> set key_id" using assms hex_not_special by (auto simp: is_keystore_id_def)
  ultimately show ?thesis
    by (simp add: filename_parts_def path_name_def SUFFIX_def FILENAME_DELIMITER_def split_char_append split_char_absent)
qed

lemma parse_keystore_path:
  assumes "is_keystore_id key_id" "is_file fs (dir @ [keystore_filename now key_id])"
  shows "parse_path fs (dir @ [keystore_filename now key_id]) = Inr (show_nat now, key_id)"
proof -
  have "list_all (\<lambda>c. c \<in> set string_hexdigits) key_id" "length key_id = ID_SIZE"
    using assms(1) hex_digits_subset by (auto simp: is_keystore_id_def list_all_iff)
  with assms keystore_filename_parts [OF assms(1), of dir now] is_file_exists [OF assms(2)] show ?thesis
    by (simp add: parse_path_def validate_keystore_filename_def)
qed

lemma write_file_existing:
  "dict_get (entries fs) p = Some (File m c) \<Longrightarrow> p \<noteq> [] \<Longrightarrow> write_file p c' fs = Inr (put_node p (File m c') fs)"
  by (simp add: write_file_def is_dir_def)

lemma put_node_twice: "put_node p n' (set_umask m (put_node p n fs)) = set_umask m (put_node p n' fs)"
  by (simp add: put_node_def set_umask_def)

lemma write_keystore_ok:
  assumes "\<not> path_exists fs p" "is_dir fs (butlast p)"
  shows "write_keystore p (assemble_keystore created key psalt wsalt) fs =
    (Inr p, set_umask 0 (put_node p (File (PRIVATE_MODE AND NOT (umask fs)) (stored_payload created key psalt wsalt)) fs))"
proof -
  let ?m = "PRIVATE_MODE AND NOT (umask fs)"
  have p: "p \<noteq> []" using assms(1) by (auto simp: path_exists_def)
  have c: "create_file PRIVATE_MODE p NotJson fs = Inr (put_node p (File ?m NotJson) fs)"
    using assms by (simp add: create_file_def parent_error_def)
  have g: "dict_get (entries (set_umask 0 (put_node p (File ?m NotJson) fs))) p = Some (File ?m NotJson)"
    by (simp add: put_node_def dict_get_set)
  show ?thesis
    using assms(1) by (simp add: write_keystore_def c serialize_assembled write_file_existing [OF g p] put_node_twice)
qed


subsection \<open>Saving and unlocking\<close>

lemma keystore_id_ok:
  assumes "length (um_key_bytes um (um_public_key um (um_make_key um f SIGNING_INFO))) \<ge> 16"
  shows "is_keystore_id (keystore_id_of um f)"
proof -
  let ?h = "hex (um_key_bytes um (um_public_key um (um_make_key um f SIGNING_INFO)))"
  have "set (take ID_SIZE ?h) \<subseteq> set hex_digits" using set_take_subset [of ID_SIZE ?h] hex_chars by blast
  with assms show ?thesis by (simp add: is_keystore_id_def keystore_id_of_def ID_SIZE_def)
qed

lemma password_rules: "validate_keystore_password password = [] \<longleftrightarrow> length password \<ge> MINIMUM_PASSWORD_LENGTH"
  by (auto simp: validate_keystore_password_def MINIMUM_PASSWORD_LENGTH_def)

text \<open>What the libraries promise: keys have at least 16 bytes, and a box opens with the key that sealed it.\<close>

definition crypto_laws :: "('sk, 'pk, 'f, 'cert, 'sig) umbral \<Rightarrow> password_lib \<Rightarrow> bool" where
  "crypto_laws um pl \<longleftrightarrow> (\<forall>pk. length (um_key_bytes um pk) \<ge> 16) \<and>
     (\<forall>k n m. pl_box_decrypt pl k (pl_box_encrypt pl k n m) = Some m)"

text \<open>
  A save that can go through: a password that is long enough, a seed, scrypt has its memory,
  no file where the directory goes, and no key file of this second and id.
\<close>

definition can_save ::
  "('sk, 'pk, 'f, 'cert, 'sig) umbral \<Rightarrow> password_lib \<Rightarrow> save_env \<Rightarrow> bytes \<Rightarrow> string \<Rightarrow> path \<Rightarrow> 'f \<Rightarrow> bytes \<Rightarrow> text_file fs \<Rightarrow> bool" where
  "can_save um pl env secret password dir f material fs \<longleftrightarrow>
     length password \<ge> MINIMUM_PASSWORD_LENGTH \<and> um_factory_from um secret = Some f \<and>
     pl_scrypt pl (se_password_salt env) (encode password) = ScryptKey material \<and>
     (\<forall>n \<le> length dir. \<not> is_file fs (take n dir)) \<and>
     \<not> path_exists fs (dir @ [keystore_filename (se_now env) (keystore_id_of um f)])"

lemma save_ok:
  assumes laws: "crypto_laws um pl" and can: "can_save um pl env secret password dir f material fs"
    and dir: "dir = (case keystore_dir of Some d \<Rightarrow> d | None \<Rightarrow> default_dir)"
  obtains fs' where "save um pl env default_dir secret password keystore_dir fs =
      (Inr (dir @ [keystore_filename (se_now env) (keystore_id_of um f)]), fs')"
    and "dict_get (entries fs') (dir @ [keystore_filename (se_now env) (keystore_id_of um f)]) =
      Some (File (PRIVATE_MODE AND NOT (umask fs)) (stored_payload (se_created env)
         (secret_box_encrypt pl (se_nonce env) material (se_wrapper_salt env) secret) (se_password_salt env) (se_wrapper_salt env)))"
    and "\<forall>q. is_file fs q \<longrightarrow> read_file fs' q = read_file fs q" and "wf_fs fs \<longrightarrow> wf_fs fs'"
    and "\<forall>n. n \<noteq> keystore_filename (se_now env) (keystore_id_of um f) \<longrightarrow> path_exists fs' (dir @ [n]) = path_exists fs (dir @ [n])"
proof -
  let ?id = "keystore_id_of um f"
  let ?p = "dir @ [keystore_filename (se_now env) ?id]"
  let ?key = "secret_box_encrypt pl (se_nonce env) material (se_wrapper_salt env) secret"
  from can have pw: "validate_keystore_password password = []" by (simp add: can_save_def password_rules)
  obtain fs1 where mk: "makedirs True 0x1C0 dir fs = Inr fs1" using can makedirs_total [of dir fs] by (auto simp: can_save_def)
  have only: "dirs_only fs fs1" and d: "is_dir fs1 dir" using makedirs_Inr [OF mk] by auto
  have free: "\<not> path_exists fs1 ?p" using can makedirs_below [OF mk] by (simp add: can_save_def)
  have gp: "generate_keystore_filepath (se_now env) dir ?id = ?p"
    using laws by (intro keystore_filepath keystore_id_ok) (simp add: crypto_laws_def)
  let ?n = "File (PRIVATE_MODE AND NOT (umask fs)) (stored_payload (se_created env) ?key (se_password_salt env) (se_wrapper_salt env))"
  let ?fs' = "set_umask 0 (put_node ?p ?n fs1)"
  have "save um pl env default_dir secret password keystore_dir fs = (Inr ?p, ?fs')"
    using can write_keystore_ok [OF free, of "se_created env" ?key "se_password_salt env" "se_wrapper_salt env"] d only
    by (simp add: save_def Let_def pw can_save_def mk gp dir [symmetric] derive_key_material_from_password_def dirs_only_def)
  moreover have "dict_get (entries ?fs') ?p = Some ?n" by (simp add: put_node_def dict_get_set)
  moreover have "\<forall>q. is_file fs q \<longrightarrow> read_file ?fs' q = read_file fs q"
  proof (intro allI impI)
    fix q assume q: "is_file fs q"
    then have "q \<noteq> ?p" using can is_file_exists [OF q] by (auto simp: can_save_def)
    with q only show "read_file ?fs' q = read_file fs q" by (simp add: fs_simps dirs_only_read)
  qed
  moreover have "wf_fs fs \<longrightarrow> wf_fs ?fs'"
    using only d free wf_put_node [of fs1 ?p ?n] by (auto simp: dirs_only_def fs_simps)
  moreover have "\<forall>n. n \<noteq> keystore_filename (se_now env) ?id \<longrightarrow> path_exists ?fs' (dir @ [n]) = path_exists fs (dir @ [n])"
    using makedirs_below [OF mk] by (simp add: fs_simps)
  ultimately show thesis by (rule that)
qed

lemma read_file_entry: "dict_get (entries fs) p = Some (File m c) \<Longrightarrow> p \<noteq> [] \<Longrightarrow> read_file fs p = Inr c \<and> is_file fs p"
  by (simp add: node_defs)


text \<open>
  C23. A keystore made from seed words, once its file is written, starts locked; the password it was saved with unlocks
  exactly the secret of the words, and the signing key derived from it is the one the keystore's
  id abbreviates. No other file changes.
\<close>

theorem restore_unlock_roundtrip:
  assumes "crypto_laws um pl" and "pl_to_entropy pl words = Some secret"
    and "can_save um pl env secret password dir f material fs"
  shows "\<exists>ks fs'. restore um pl env default_dir words password (Some dir) fs = (Inr ks, fs') \<and> \<not> is_unlocked ks \<and>
    kst_id ks = keystore_id_of um f \<and>
    unlock pl fs' password ks = (None, ks\<lparr>kst_secret := Some secret\<rparr>) \<and>
    (\<exists>kp. derive_crypto_power um (ks\<lparr>kst_secret := Some secret\<rparr>) SigningPower host = Inr (Signing kp) \<and>
       take ID_SIZE (hex (um_key_bytes um (kp_pubkey kp))) = kst_id ks) \<and>
    (\<forall>q. is_file fs q \<longrightarrow> read_file fs' q = read_file fs q)"
proof -
  let ?id = "keystore_id_of um f"
  let ?p = "dir @ [keystore_filename (se_now env) ?id]"
  let ?key = "secret_box_encrypt pl (se_nonce env) material (se_wrapper_salt env) secret"
  let ?ks = "\<lparr>kst_path = ?p, kst_created = show_nat (se_now env), kst_id = ?id, kst_secret = None\<rparr>"
  have dir: "dir = (case Some dir of Some d \<Rightarrow> d | None \<Rightarrow> default_dir)" by simp
  obtain fs' where sv: "save um pl env default_dir secret password (Some dir) fs = (Inr ?p, fs')"
    and ent: "dict_get (entries fs') ?p = Some (File (PRIVATE_MODE AND NOT (umask fs))
        (stored_payload (se_created env) ?key (se_password_salt env) (se_wrapper_salt env)))"
    and others: "\<forall>q. is_file fs q \<longrightarrow> read_file fs' q = read_file fs q"
    by (rule save_ok [OF assms(1,3) dir]) (rule that; assumption)
  have wr: "read_file fs' ?p = Inr (stored_payload (se_created env) ?key (se_password_salt env) (se_wrapper_salt env))" "is_file fs' ?p"
    using read_file_entry [OF ent] by auto
  have okid: "is_keystore_id ?id" using assms(1) by (intro keystore_id_ok) (simp add: crypto_laws_def)
  have new: "restore um pl env default_dir words password (Some dir) fs = (Inr ?ks, fs')"
    using assms(2) sv parse_keystore_path [OF okid wr(2)] by (simp add: restore_def save_and_open_def new_keystore_def)
  have "open_keystore pl fs' ?p password = Inr secret"
    using assms(1,3) by (simp add: open_stored [OF wr(1)] can_save_def crypto_laws_def derive_key_material_from_password_def
        secret_box_decrypt_def secret_box_encrypt_def)
  then have "unlock pl fs' password ?ks = (None, ?ks\<lparr>kst_secret := Some secret\<rparr>)" by (simp add: unlock_def)
  with new others assms(3) show ?thesis
    by (intro exI [of _ ?ks] exI [of _ fs'])
       (simp add: is_unlocked_def derive_crypto_power_def HKDF_INFO_def can_save_def own_keypair_def keystore_id_of_def Let_def)
qed

text \<open>A toy library: keys of 16 bytes, and a box that prepends its key.\<close>

definition toy_umbral :: "(bytes, bytes, bytes, nat, nat) umbral" where
  "toy_umbral = \<lparr>um_public_key = id, um_key_bytes = (\<lambda>k. take 16 (k @ replicate 16 0)), um_key_from_bytes = Some, um_sign = (\<lambda>k m. 0),
     um_decrypt_kit = (\<lambda>k m. Some m), um_make_key = (\<lambda>f b. f @ b), um_make_factory = (\<lambda>f b. f),
     um_factory_from = Some, um_kfrags = (\<lambda>_ _ _ m n. []), um_cert_key = (\<lambda>_. []), um_self_signed = (\<lambda>h k. (0, []))\<rparr>"

definition toy_passwords :: password_lib where
  "toy_passwords = \<lparr>pl_scrypt = (\<lambda>salt pw. ScryptKey pw), pl_hkdf = (\<lambda>salt info m. m), pl_box_encrypt = (\<lambda>k n m. k @ m),
     pl_box_decrypt = (\<lambda>k c. if take (length k) c = k then Some (drop (length k) c) else None),
     pl_to_entropy = (\<lambda>w. Some (encode w)), pl_secret_key_size = 32\<rparr>"

definition toy_env :: save_env where
  "toy_env = \<lparr>se_now = 5, se_created = ''5.0'', se_password_salt = [1], se_wrapper_salt = [2], se_nonce = []\<rparr>"

definition empty_fs :: "text_file fs" where
  "empty_fs = \<lparr>entries = [], umask = 0\<rparr>"

lemma toy_laws: "crypto_laws toy_umbral toy_passwords"
  by (auto simp: crypto_laws_def toy_umbral_def toy_passwords_def min_def)

lemma toy_can_save:
  "can_save toy_umbral toy_passwords toy_env (encode ''word'') ''password'' [''ks''] (encode ''word'') (encode ''password'') empty_fs"
  by (simp add: can_save_def toy_umbral_def toy_passwords_def empty_fs_def MINIMUM_PASSWORD_LENGTH_def is_file_def path_exists_def)

theorem restore_unlock_roundtrip_witness:
  "\<exists>ks fs'. restore toy_umbral toy_passwords toy_env [] ''word'' ''password'' (Some [''ks'']) empty_fs = (Inr ks, fs') \<and>
     unlock toy_passwords fs' ''password'' ks = (None, ks\<lparr>kst_secret := Some (encode ''word'')\<rparr>)"
proof -
  have "pl_to_entropy toy_passwords ''word'' = Some (encode ''word'')" by (simp add: toy_passwords_def)
  from restore_unlock_roundtrip [OF toy_laws this toy_can_save] show ?thesis by blast
qed

subsection \<open>Private files\<close>

text \<open>\<open>private_additions fs fs'\<close>: nothing is lost, and a file of the second is one of the first or closed to everyone but its owner.\<close>

definition private_additions :: "'c fs \<Rightarrow> 'c fs \<Rightarrow> bool" where
  "private_additions fs fs' \<longleftrightarrow>
     (\<forall>q. dict_get (entries fs') q = None \<longrightarrow> dict_get (entries fs) q = None) \<and>
     (\<forall>q m c. dict_get (entries fs') q = Some (File m c) \<longrightarrow>
        dict_get (entries fs) q = Some (File m c) \<or> dict_get (entries fs) q = None \<and> m AND 0x3F = 0)"

lemma private_refl: "private_additions fs fs" "private_additions fs (set_umask m fs)"
  by (simp_all add: private_additions_def)

lemma private_trans: "private_additions a b \<Longrightarrow> private_additions b c \<Longrightarrow> private_additions a c"
  unfolding private_additions_def by blast

lemma dirs_only_private:
  assumes "wf_fs fs" "dirs_only fs fs1"
  shows "private_additions fs fs1"
proof -
  have same: "dict_get (entries fs1) q = dict_get (entries fs) q" if "dict_get (entries fs) q \<noteq> None" for q
    using assms(2) that by (simp add: dirs_only_def path_exists_def)
  moreover have "dict_get (entries fs) q \<noteq> None" if "dict_get (entries fs1) q = Some (File m c)" for q m c
  proof -
    have "q \<noteq> []" using assms that by (auto simp: dirs_only_def wf_fs_def dest: dict_get_in_set)
    with that have "is_file fs1 q" by (simp add: is_file_def)
    with assms(2) show ?thesis using dirs_only_exists(3) [OF assms(2), of q] by (auto simp: is_file_def split: option.splits)
  qed
  ultimately show ?thesis unfolding private_additions_def by metis
qed

lemma private_mode: "(PRIVATE_MODE AND NOT u) AND 0x3F = 0"
proof -
  have "(PRIVATE_MODE AND NOT u) AND 0x3F = (PRIVATE_MODE AND 0x3F) AND NOT u" by (simp only: ac_simps)
  then show ?thesis by (simp add: PRIVATE_MODE_def)
qed

lemma private_put:
  assumes "\<not> path_exists fs p"
  shows "private_additions fs (set_umask 0 (put_node p (File (PRIVATE_MODE AND NOT u) c) fs))"
  using assms by (auto simp: private_additions_def put_node_def dict_get_set path_exists_def private_mode)

lemma write_keystore_private: "private_additions fs (snd (write_keystore p payload fs))"
proof (cases "path_exists fs p")
  case True
  then show ?thesis by (simp add: write_keystore_def private_refl)
next
  case free: False
  show ?thesis
  proof (cases "create_file PRIVATE_MODE p NotJson fs")
    case (Inl e)
    with free show ?thesis by (simp add: write_keystore_def private_refl)
  next
    case (Inr fs1)
    let ?m = "PRIVATE_MODE AND NOT (umask fs)"
    have fs1: "fs1 = put_node p (File ?m NotJson) fs" and p: "p \<noteq> []" using create_file_Inr [OF Inr] by auto
    have g: "dict_get (entries (set_umask 0 fs1)) p = Some (File ?m NotJson)" by (simp add: fs1 put_node_def dict_get_set)
    show ?thesis using free private_put [OF free]
      by (auto simp: write_keystore_def Inr write_file_existing [OF g p, unfolded fs1] fs1 put_node_twice Let_def split: sum.split)
  qed
qed

text \<open>
  C24. Whether or not a secret can be saved, and whatever the process's \<^verbatim>\<open>umask\<close>: no file is lost or
  changed, and a file that is new is readable and writable by no one but its owner.
\<close>

theorem saved_secret_private:
  assumes "wf_fs fs"
  shows "private_additions fs (snd (save um pl env default_dir secret password keystore_dir fs))"
proof -
  have mk: "private_additions fs fs1" if "makedirs True m dir fs = Inr fs1" for m dir fs1
    using dirs_only_private [OF assms] makedirs_Inr [OF that] by blast
  show ?thesis
    unfolding save_def Let_def
    by (auto simp: private_refl split: option.split sum.split dest!: mk intro: private_trans write_keystore_private)
qed

theorem saved_secret_private_witness:
  "wf_fs empty_fs \<and> private_additions empty_fs
     (snd (save toy_umbral toy_passwords toy_env [] (encode ''word'') ''password'' (Some [''ks'']) empty_fs))"
proof -
  have "wf_fs empty_fs" by (simp add: wf_fs_def empty_fs_def)
  then show ?thesis using saved_secret_private [of empty_fs] by blast
qed

subsection \<open>Locked and unlocked\<close>

text \<open>What can happen to a keystore object while its file stays as it is.\<close>

inductive keystore_step :: "password_lib \<Rightarrow> text_file fs \<Rightarrow> keystore \<Rightarrow> keystore \<Rightarrow> bool" for pl fs where
  step_unlock_keystore: "keystore_step pl fs ks (snd (unlock pl fs password ks))"
| step_lock_keystore: "keystore_step pl fs ks (lock ks)"

definition opened_by_password :: "password_lib \<Rightarrow> text_file fs \<Rightarrow> keystore \<Rightarrow> bool" where
  "opened_by_password pl fs ks \<longleftrightarrow>
     (\<forall>secret. kst_secret ks = Some secret \<longrightarrow> (\<exists>password. open_keystore pl fs (kst_path ks) password = Inr secret))"

lemma unlock_path: "kst_path (snd (unlock pl fs pw ks)) = kst_path ks" "kst_id (snd (unlock pl fs pw ks)) = kst_id ks"
  by (simp_all add: unlock_def split: sum.split keystore_error.split)

lemma unlock_opened: "opened_by_password pl fs ks \<Longrightarrow> opened_by_password pl fs (snd (unlock pl fs pw ks))"
  by (auto simp: unlock_def opened_by_password_def split: sum.split keystore_error.split)

lemma opened_lock: "opened_by_password pl fs (lock ks)"
  by (simp add: opened_by_password_def lock_def)

interpretation kso: step_invariant "\<lambda>ks. kst_secret ks = None" "keystore_step pl fs" "opened_by_password pl fs" for pl fs
  by unfold_locales (auto simp: opened_lock elim!: keystore_step.cases intro: unlock_opened, simp add: opened_by_password_def)

lemma keystore_steps_id: "(keystore_step pl fs)\<^sup>*\<^sup>* ks t \<Longrightarrow> kst_path t = kst_path ks \<and> kst_id t = kst_id ks"
  by (induction rule: rtranclp_induct) (auto elim!: keystore_step.cases simp: unlock_path lock_def)

text \<open>
  C25. Through any sequence of unlocks and locks a keystore object keeps its file and id, holds a secret only if
  some password opens its file to that secret, and derives powers exactly when it holds one; a
  failed authentication leaves it locked, even if it was unlocked before.
\<close>

theorem keystore_lock_discipline:
  assumes "new_keystore fs p = Inr ks" and "(keystore_step pl fs)\<^sup>*\<^sup>* ks t"
  shows "kst_path t = p \<and> kst_id t = kst_id ks \<and>
    (kst_secret t = Some secret \<longrightarrow> (\<exists>password. open_keystore pl fs p password = Inr secret)) \<and>
    (derive_crypto_power um t c host = Inl KsLocked \<longleftrightarrow> \<not> is_unlocked t) \<and>
    (open_keystore pl fs p password = Inl SecretBoxAuthenticationError \<longrightarrow>
       unlock pl fs password t = (Some KsAuthenticationFailed, lock t) \<and> \<not> is_unlocked (lock t))"
proof -
  have ks: "kst_secret ks = None" "kst_path ks = p" using assms(1) by (auto simp: new_keystore_def split: sum.splits)
  then have inv: "opened_by_password pl fs t"
    using kso.steps_inv [OF assms(2)] by (simp add: opened_by_password_def)
  have t: "kst_path t = p" "kst_id t = kst_id ks" using keystore_steps_id [OF assms(2)] ks by auto
  have "derive_crypto_power um t c host = Inl KsLocked \<longleftrightarrow> \<not> is_unlocked t"
    by (cases c) (auto simp: derive_crypto_power_def is_unlocked_def HKDF_INFO_def Let_def map_sum_def split: option.splits sum.splits)
  with t inv show ?thesis
    by (auto simp: opened_by_password_def unlock_def lock_def is_unlocked_def)
qed


definition toy_fs :: "text_file fs" where
  "toy_fs = \<lparr>entries = [([''5-00112233445566778899aabbccddeeff.priv''], File 0x180 (stored_payload ''5.0'' (encode ''password'' @ [7]) [1] [2]))], umask = 0\<rparr>"

definition toy_path :: path where
  "toy_path = [''5-00112233445566778899aabbccddeeff.priv'']"

definition toy_keystore :: keystore where
  "toy_keystore = \<lparr>kst_path = toy_path, kst_created = ''5'', kst_id = ''00112233445566778899aabbccddeeff'', kst_secret = None\<rparr>"

lemma toy_keystore_new: "new_keystore toy_fs toy_path = Inr toy_keystore"
  by (simp add: new_keystore_def parse_path_def toy_fs_def toy_path_def toy_keystore_def path_exists_def is_file_def
      validate_keystore_filename_def filename_parts_def rstrip_def path_name_def SUFFIX_def FILENAME_DELIMITER_def ID_SIZE_def string_hexdigits_def)

lemma toy_open:
  "open_keystore toy_passwords toy_fs toy_path ''password'' = Inr [7]"
  "open_keystore toy_passwords toy_fs toy_path ''passwort'' = Inl SecretBoxAuthenticationError"
proof -
  have "read_file toy_fs toy_path = Inr (stored_payload ''5.0'' (encode ''password'' @ [7]) [1] [2])"
    by (simp add: read_file_def toy_fs_def toy_path_def is_dir_def)
  then show "open_keystore toy_passwords toy_fs toy_path ''password'' = Inr [7]"
    "open_keystore toy_passwords toy_fs toy_path ''passwort'' = Inl SecretBoxAuthenticationError"
    by (simp_all add: open_stored toy_passwords_def derive_key_material_from_password_def secret_box_decrypt_def
        derive_wrapping_key_from_key_material_def encode_def)
qed

theorem keystore_lock_discipline_witness:
  "let t = toy_keystore\<lparr>kst_secret := Some [7]\<rparr>
   in (\<exists>password. open_keystore toy_passwords toy_fs toy_path password = Inr [7]) \<and>
      unlock toy_passwords toy_fs ''passwort'' t = (Some KsAuthenticationFailed, lock t)"
proof -
  let ?t = "toy_keystore\<lparr>kst_secret := Some [7]\<rparr>"
  have "kst_path toy_keystore = toy_path" by (simp add: toy_keystore_def)
  then have "snd (unlock toy_passwords toy_fs ''password'' toy_keystore) = ?t"
    by (simp add: unlock_def toy_open)
  then have "keystore_step toy_passwords toy_fs toy_keystore ?t"
    using step_unlock_keystore [of toy_passwords toy_fs toy_keystore "''password''"] by simp
  then have "(keystore_step toy_passwords toy_fs)\<^sup>*\<^sup>* toy_keystore ?t" by (rule r_into_rtranclp)
  from keystore_lock_discipline [OF toy_keystore_new this, of "[7]" toy_umbral SigningPower None "''passwort''"] show ?thesis
    by (simp add: Let_def toy_open)
qed

subsection \<open>Loading by id\<close>

lemma show_nat_inject: "show_nat m = show_nat n \<Longrightarrow> m = n"
  by (metis decimal_show_nat)

text \<open>
  \<^verbatim>\<open>load\<close> looks for a file of the current second: a keystore made in one second is not found by its id
  in another.
\<close>

lemma load_other_second_not_found:
  assumes "crypto_laws um pl" "can_save um pl env secret password dir f material fs" "now \<noteq> se_now env"
    and "\<not> path_exists fs (dir @ [keystore_filename now (keystore_id_of um f)])"
  shows "\<exists>p fs'. save um pl env default_dir secret password (Some dir) fs = (Inr p, fs') \<and>
    load_keystore now dir (keystore_id_of um f) fs' = Inl KsNotFound"
proof -
  let ?id = "keystore_id_of um f"
  have dir: "dir = (case Some dir of Some d \<Rightarrow> d | None \<Rightarrow> default_dir)" by simp
  obtain fs' where sv: "save um pl env default_dir secret password (Some dir) fs = (Inr (dir @ [keystore_filename (se_now env) ?id]), fs')"
    and other: "\<forall>n. n \<noteq> keystore_filename (se_now env) ?id \<longrightarrow> path_exists fs' (dir @ [n]) = path_exists fs (dir @ [n])"
    by (rule save_ok [OF assms(1,2) dir]) (rule that; assumption)
  have "keystore_filename now ?id \<noteq> keystore_filename (se_now env) ?id"
    using assms(3) show_nat_inject [of now "se_now env"] by (auto simp: keystore_filename_def)
  with other assms(4) have "\<not> path_exists fs' (dir @ [keystore_filename now ?id])" by simp
  moreover have "generate_keystore_filepath now dir ?id = dir @ [keystore_filename now ?id]"
    using assms(1) by (intro keystore_filepath keystore_id_ok) (simp add: crypto_laws_def)
  ultimately show ?thesis using sv by (simp add: load_keystore_def new_keystore_def parse_path_def)
qed


end
