(* ===== verification/Porter.thy ===== *)
theory Porter
  imports Policy Retrieval Py_Text
begin

text \<open>
  Porter, the service that finds nodes for clients and retrieves for them:
  \<^verbatim>\<open>nulink/utilities/porter/porter.py\<close>.

  It composes the reservoirs, the prefetch strategy, the worker pool under an arbitrary schedule, the wait for
  known nodes and the retrieval client. What a request meets is a record of parameters: the turns of
  the two waits, the nodes known when the reservoir is made and while the pool works, the registered
  providers, the answers to pings, the order \<^verbatim>\<open>random.shuffle\<close> leaves, and the schedule.
\<close>

subsection \<open>Data\<close>

record 'k ursula_info =
  ui_checksum_address :: address
  ui_uri :: string
  ui_encrypting_key :: 'k

datatype porter_error =
    PorterUnknownNode | PorterPing string | PorterKeyError | PorterTimedOut | PorterOutOfValues
  | PorterSampling sample_error | PorterReservoir agent_error | PorterLearning learner_error | PorterNoProvider

definition DEFAULT_EXECUTION_TIMEOUT :: int where "DEFAULT_EXECUTION_TIMEOUT = 15"

text \<open>The three workers of the network that are written into the module: address, URI, encrypting key.\<close>

definition nulink_workers :: "(address, string \<times> string) dict" where
  "nulink_workers =
     [(''0x8a4471142f0d635D29BFd2634E1cD8f439677072'',
        (''https://8.222.131.226:9151'', ''037f6e0bb9456a0f7093ac1ca3a46365baf401c9d77807a34ccfc3b21862b89d9b'')),
      (''0x5058339Ca16a2ef04aFE34aaE507209A67B0c067'',
        (''https://8.222.146.98:9151'', ''023dde62beba5e8cceed29b4e96fb1b9d67da06ff53ad0d3ae3e19eb4c5b5c86ae'')),
      (''0xC5FD9Ca4Ce6C8BBf0dA3355D8941E411638786C4'',
        (''https://8.222.155.168:9151'', ''02d76fa2b7058f6d8e69cd767c54694493ed6c77ebc9a301741045450834763cbf''))]"

record ('g, 'k) porter =
  pt_federated_only :: bool
  pt_execution_timeout :: int
  pt_rng :: "'g rng"
  pt_seed :: 'g
  pt_active :: "agent_error + int \<times> (address, int) dict"
  pt_checksum :: "address \<Rightarrow> address"
  pt_key_from_bytes :: "bytes \<Rightarrow> 'k option"
  pt_shuffle :: "address list \<Rightarrow> address list"
  pt_uri :: "node \<Rightarrow> string"
  pt_key :: "node \<Rightarrow> 'k"
  pt_ping :: "node \<Rightarrow> porter_error + unit"
  pt_reservoir_turns :: "nat \<Rightarrow> turn"
  pt_turns :: "nat \<Rightarrow> turn"
  pt_known_at_reservoir :: known_nodes
  pt_known :: known_nodes
  pt_blocking :: "('k ursula_info, porter_error) pool_action list"
  pt_returning :: "('k ursula_info, porter_error) pool_action list"

text \<open>The check of \<^verbatim>\<open>__init__\<close>: a decentralized Porter needs a provider.\<close>

definition porter_init :: "bool \<Rightarrow> string option \<Rightarrow> porter_error option" where
  "porter_init federated_only eth_provider_uri =
     (if \<not> federated_only \<and> (eth_provider_uri = None \<or> eth_provider_uri = Some []) then Some PorterNoProvider else None)"

subsection \<open>The workers of the network\<close>

text \<open>\<^verbatim>\<open>random_dic\<close> of \<^verbatim>\<open>nulink/cli/utils.py\<close>: the entries in the shuffled order of the keys.\<close>

definition random_dic :: "('a list \<Rightarrow> 'a list) \<Rightarrow> ('a, 'b) dict \<Rightarrow> ('a, 'b) dict" where
  "random_dic shuffle d = foldl (\<lambda>acc k. dict_set acc k (the (dict_get d k))) [] (shuffle (dict_keys d))"

fun worker_infos :: "('g, 'k) porter \<Rightarrow> (address, string \<times> string) dict \<Rightarrow> (address, 'k ursula_info) dict
    \<Rightarrow> porter_error + (address, 'k ursula_info) dict" where
  "worker_infos pt [] acc = Inr acc"
| "worker_infos pt ((a, uri, key) # rest) acc =
     (case fromhex key of
        None \<Rightarrow> Inl PorterKeyError
      | Some b \<Rightarrow>
          (case pt_key_from_bytes pt b of
             None \<Rightarrow> Inl PorterKeyError
           | Some k \<Rightarrow>
               worker_infos pt rest
                 (dict_set acc (pt_checksum pt a) \<lparr>ui_checksum_address = pt_checksum pt a, ui_uri = uri, ui_encrypting_key = k\<rparr>)))"

definition get_nulink_workers :: "('g, 'k) porter \<Rightarrow> porter_error + (address, 'k ursula_info) dict" where
  "get_nulink_workers pt =
     (case worker_infos pt nulink_workers [] of Inl e \<Rightarrow> Inl e | Inr d \<Rightarrow> Inr (random_dic (pt_shuffle pt) d))"

definition get_nulink_worker_addresses :: "('g, 'k) porter \<Rightarrow> address set" where
  "get_nulink_worker_addresses pt = set (map (pt_checksum pt) (dict_keys nulink_workers))"

text \<open>The loops with \<^verbatim>\<open>popitem\<close>, which takes the last entry.\<close>

function pop_down_to :: "nat \<Rightarrow> ('a, 'b) dict \<Rightarrow> ('a, 'b) dict" where
  "pop_down_to n d = (if length d > n then pop_down_to n (butlast d) else d)"
  by auto
termination by (relation "measure (length \<circ> snd)") auto

declare pop_down_to.simps [simp del]

definition porter_enough_ursulas ::
  "('g, 'k) porter \<Rightarrow> (address, 'k ursula_info, porter_error, 'f) worker_pool \<Rightarrow> porter_error + (address, 'k ursula_info) dict" where
  "porter_enough_ursulas pt pool =
     (case get_nulink_workers pt of
        Inl e \<Rightarrow> Inl e
      | Inr ws \<Rightarrow> Inr (pop_down_to (get_target_successes pool) (dict_update (get_successes pool) ws)))"

definition get_enough_ursulas_from_nulink_worker :: "('g, 'k) porter \<Rightarrow> nat \<Rightarrow> porter_error + (address, 'k ursula_info) dict" where
  "get_enough_ursulas_from_nulink_worker pt quantity =
     (case get_nulink_workers pt of
        Inl e \<Rightarrow> Inl e
      | Inr ws \<Rightarrow> if quantity > length ws then Inr [] else Inr (pop_down_to quantity ws))"

subsection \<open>Finding nodes\<close>

definition get_ursula_info :: "('g, 'k) porter \<Rightarrow> address \<Rightarrow> ('k ursula_info, porter_error) outcome" where
  "get_ursula_info pt a =
     (case dict_get (pt_known pt) (pt_checksum pt a) of
        None \<Rightarrow> WorkerRaises PorterUnknownNode
      | Some ursula \<Rightarrow>
          (case pt_ping pt ursula of
             Inl e \<Rightarrow> WorkerRaises e
           | Inr _ \<Rightarrow> WorkerReturns \<lparr>ui_checksum_address = pt_checksum pt a, ui_uri = pt_uri pt ursula, ui_encrypting_key = pt_key pt ursula\<rparr>))"

definition porter_reservoir ::
  "('g, 'k) porter \<Rightarrow> nat \<Rightarrow> address list option \<Rightarrow> address list option \<Rightarrow> (porter_error + 'g merged_reservoir) option" where
  "porter_reservoir pt quantity exclude_ursulas include_ursulas =
     (if pt_federated_only pt then
        (let sample_size = int quantity - int (length (opt_list include_ursulas))
         in case block_until_number_of_known_nodes_is (pt_reservoir_turns pt) sample_size (pt_execution_timeout pt) True 0 of
              None \<Rightarrow> None
            | Some (Inl e) \<Rightarrow> Some (Inl (PorterLearning e))
            | Some (Inr _) \<Rightarrow>
                Some (Inr (make_federated_staker_reservoir (pt_seed pt)
                  (map n_checksum_address (dict_values (pt_known_at_reservoir pt))) exclude_ursulas include_ursulas)))
      else Some (map_sum PorterReservoir id
             (make_decentralized_staking_provider_reservoir (pt_seed pt) (pt_active pt) exclude_ursulas include_ursulas)))"

definition porter_factory :: "'g rng \<Rightarrow> nat \<Rightarrow> (address, porter_error, 'g merged_reservoir) value_factory" where
  "porter_factory rng quantity k m =
     (case prefetch_call (merged_call rng) (int quantity) k m of
        (Inl e, m') \<Rightarrow> (Inl (PorterSampling e), m')
      | (Inr batch, m') \<Rightarrow> (Inr batch, m'))"

text \<open>
  The pool of \<^verbatim>\<open>get_ursulas\<close>. The schedules are what it does until the blocking call returns, and from then
  until the successes are read; the pool is cancelled after that and not joined.
\<close>

definition find_ursulas :: "('g, 'k) porter \<Rightarrow> nat \<Rightarrow> 'g merged_reservoir \<Rightarrow> (porter_error + 'k ursula_info list) option" where
  "find_ursulas pt quantity reservoir =
     (let factory = porter_factory (pt_rng pt) quantity; worker = (\<lambda>a out. out = get_ursula_info pt a) in
      case run_pool factory worker (pt_blocking pt) (start_pool (new_worker_pool quantity reservoir)) of
        None \<Rightarrow> None
      | Some s \<Rightarrow>
          (case block_until_target_successes s of
             None \<Rightarrow> None
           | Some (Inr successes) \<Rightarrow> Some (Inr (dict_values successes))
           | Some (Inl (ProducerError e)) \<Rightarrow> Some (Inl e)
           | Some (Inl ex) \<Rightarrow>
               (case run_pool factory worker (pt_returning pt) s of
                  None \<Rightarrow> None
                | Some t \<Rightarrow>
                    (case porter_enough_ursulas pt t of
                       Inl e \<Rightarrow> Some (Inl e)
                     | Inr ws \<Rightarrow>
                         if length ws \<ge> get_target_successes t then Some (Inr (dict_values ws))
                         else Some (Inl (case ex of TimedOut _ \<Rightarrow> PorterTimedOut | _ \<Rightarrow> PorterOutOfValues))))))"

definition get_ursulas ::
  "('g, 'k) porter \<Rightarrow> nat \<Rightarrow> address list option \<Rightarrow> address list option \<Rightarrow> (porter_error + 'k ursula_info list) option" where
  "get_ursulas pt quantity exclude_ursulas include_ursulas =
     (case porter_reservoir pt quantity exclude_ursulas include_ursulas of
        None \<Rightarrow> None
      | Some (Inl e) \<Rightarrow> Some (Inl e)
      | Some (Inr reservoir) \<Rightarrow>
          (case block_until_number_of_known_nodes_is (pt_turns pt) (int quantity) (pt_execution_timeout pt) True 0 of
             None \<Rightarrow> None
           | Some (Inl e) \<Rightarrow> Some (Inl (PorterLearning e))
           | Some (Inr _) \<Rightarrow> find_ursulas pt quantity reservoir))"

definition get_ursulas_total :: "('g, 'k) porter \<Rightarrow> bool \<Rightarrow> nat \<times> (address \<times> string) list option" where
  "get_ursulas_total pt return_list =
     (length (pt_known pt),
      if return_list then Some (map (\<lambda>n. (n_checksum_address n, pt_uri pt n)) (dict_values (pt_known pt))) else None)"

subsection \<open>Where the values of a pool come from\<close>

fun msg_values :: "('v, 'r, 'e) pool_msg \<Rightarrow> 'v set" where
  "msg_values (Success v r) = {v}"
| "msg_values (Failure v e) = {v}"
| "msg_values _ = {}"

definition holds_values :: "('f \<Rightarrow> bool) \<Rightarrow> 'v set \<Rightarrow> ('v, 'r, 'e, 'f) worker_pool \<Rightarrow> bool" where
  "holds_values source V s \<longleftrightarrow> source (wp_factory_state s) \<and> set (launching s) \<subseteq> V \<and> set (wp_tp_queue s) \<subseteq> V \<and>
     set (wp_tp_running s) \<subseteq> V \<and> (\<forall>m \<in> set (wp_result_queue s). msg_values m \<subseteq> V) \<and> (\<forall>p \<in> set (wp_successes s). fst p \<in> V)"

lemma launching_same:
  "launching (s\<lparr>wp_result_queue := q\<rparr>) = launching s" "launching (s\<lparr>wp_tp_queue := vs\<rparr>) = launching s"
  "launching (s\<lparr>wp_tp_running := vs\<rparr>) = launching s" "launching (s\<lparr>wp_producer_stopped := b\<rparr>) = launching s"
  "launching (s\<lparr>wp_processor := pc\<rparr>) = launching s" "launching (s\<lparr>wp_finished_tasks := n\<rparr>) = launching s"
  "launching (s\<lparr>wp_failures := fl\<rparr>) = launching s" "launching (s\<lparr>wp_successes := d\<rparr>) = launching s"
  "launching (s\<lparr>wp_success_event_reached := b\<rparr>) = launching s"
  by (simp_all add: launching_def)

definition same_values :: "('v, 'r, 'e, 'f) worker_pool \<Rightarrow> ('v, 'r, 'e, 'f) worker_pool \<Rightarrow> bool" where
  "same_values s t \<longleftrightarrow> wp_producer t = wp_producer s \<and> wp_factory_state t = wp_factory_state s \<and> wp_tp_queue t = wp_tp_queue s \<and>
     wp_tp_running t = wp_tp_running s \<and> wp_result_queue t = wp_result_queue s \<and> wp_successes t = wp_successes s"

lemma same_values_holds: "same_values s t \<Longrightarrow> holds_values source V s \<Longrightarrow> holds_values source V t"
  by (simp add: same_values_def holds_values_def launching_def)

text \<open>A factory that only ever hands out values of a set; the pool then holds no others.\<close>

locale drawn_values =
  fixes factory :: "('v, 'e, 'f) value_factory"
    and source :: "'f \<Rightarrow> bool"
    and V :: "'v set"
  assumes factory_source: "source f \<Longrightarrow> factory k f = (r, f') \<Longrightarrow> source f'"
    and factory_values: "source f \<Longrightarrow> factory k f = (Inr (Some vs), f') \<Longrightarrow> set vs \<subseteq> V"
begin

lemma produce_values_holds:
  assumes "holds_values source V s" "produce_values factory s = Some t"
  shows "holds_values source V t"
proof (cases "wp_producer s")
  case PrDraw
  obtain r f' where f: "factory (length (wp_successes s)) (wp_factory_state s) = (r, f')" by fastforce
  have src: "source (wp_factory_state s)" using assms(1) by (simp add: holds_values_def)
  have "set vs \<subseteq> V" if "r = Inr (Some vs)" for vs using factory_values [OF src, of _ vs] f that by blast
  with factory_source [OF src f] f PrDraw assms show ?thesis
    by (auto simp: produce_values_def holds_values_def launching_def Let_def split: sum.splits option.splits list.splits)
next
  case (PrLaunch vs)
  with assms show ?thesis
    by (cases vs) (auto simp: produce_values_def holds_values_def launching_def split: if_splits)
qed (use assms in \<open>auto simp: produce_values_def holds_values_def launching_def cancel_pool_def split: if_splits\<close>)

lemma process_result_holds:
  "holds_values source V s \<Longrightarrow> msg_values m \<subseteq> V \<Longrightarrow> holds_values source V (process_result m s)"
  by (cases m) (auto simp: holds_values_def launching_same Let_def dest!: in_dict_setD)

lemma process_results_holds:
  assumes "holds_values source V s" "process_results s = Some t"
  shows "holds_values source V t"
proof (cases "wp_processor s = PcGet")
  case True
  with assms(2) obtain m q where q: "wp_result_queue s = m # q" "t = process_result m (s\<lparr>wp_result_queue := q\<rparr>)"
    by (auto simp: process_results_def split: list.splits)
  with assms(1) have "holds_values source V (s\<lparr>wp_result_queue := q\<rparr>)" "msg_values m \<subseteq> V"
    by (auto simp: holds_values_def launching_same)
  with q(2) show ?thesis by (simp add: process_result_holds)
next
  case False
  with assms(2) have "same_values s t"
    by (cases "wp_processor s") (auto simp: process_results_def same_values_def cancel_pool_def stop_threadpool_def split: if_splits)
  then show ?thesis using assms(1) by (rule same_values_holds)
qed

lemma worker_report_values: "msg_values (worker_report v out) \<subseteq> {v}"
  by (cases out) auto

lemma pool_step_holds:
  assumes "holds_values source V s" "pool_step factory worker s t"
  shows "holds_values source V t"
  using assms(2)
proof cases
  case step_produce
  with assms(1) show ?thesis by (rule produce_values_holds)
next
  case step_process
  with assms(1) show ?thesis by (rule process_results_holds)
next
  case (step_bail timed_out)
  then have "same_values s t" by (cases "wp_bail s") (auto simp: bail_on_timeout_def same_values_def cancel_pool_def split: if_splits)
  then show ?thesis using assms(1) by (rule same_values_holds)
next
  case step_begin
  with assms(1) show ?thesis
    by (auto simp: worker_wrapper_begin_def holds_values_def launching_same split: list.splits if_splits)
next
  case (step_end i out)
  then have "wp_tp_running s ! i \<in> V" using assms(1) nth_mem [of i "wp_tp_running s"] by (auto simp: holds_values_def)
  then have "msg_values (worker_report (wp_tp_running s ! i) out) \<subseteq> V"
    using worker_report_values [of "wp_tp_running s ! i" out] by blast
  moreover have "set (take i (wp_tp_running s)) \<subseteq> V" "set (drop (Suc i) (wp_tp_running s)) \<subseteq> V"
    using assms(1) set_take_subset [of i "wp_tp_running s"] set_drop_subset [of "Suc i" "wp_tp_running s"]
    unfolding holds_values_def by blast+
  moreover from step_end have "t = s\<lparr>wp_tp_running := take i (wp_tp_running s) @ drop (Suc i) (wp_tp_running s),
      wp_result_queue := wp_result_queue s @ [worker_report (wp_tp_running s ! i) out]\<rparr>" by (simp add: worker_wrapper_end_def)
  ultimately show ?thesis using assms(1) by (simp add: holds_values_def launching_same)
next
  case step_cancel
  then have "same_values s t" by (simp add: same_values_def cancel_pool_def)
  then show ?thesis using assms(1) by (rule same_values_holds)
qed

lemma run_pool_holds:
  assumes "source f" "run_pool factory worker as (start_pool (new_worker_pool n f)) = Some t"
  shows "fst ` set (get_successes t) \<subseteq> V"
proof -
  have "holds_values source V (start_pool (new_worker_pool n f))"
    using assms(1) by (simp add: holds_values_def start_pool_def new_worker_pool_def launching_def)
  moreover have "(pool_step factory worker)\<^sup>*\<^sup>* s u \<Longrightarrow> holds_values source V s \<Longrightarrow> holds_values source V u" for s u
    by (induction rule: rtranclp_induct) (auto intro: pool_step_holds)
  ultimately have "holds_values source V t" using run_pool_steps [OF assms(2)] by blast
  then show ?thesis by (auto simp: holds_values_def get_successes_def)
qed

end

subsection \<open>What the pieces give\<close>

lemma pop_down_to_take: "pop_down_to n d = take n d"
proof (induction n d rule: pop_down_to.induct)
  case (1 n d)
  show ?case
  proof (cases "length d > n")
    case True
    with 1 have "pop_down_to n d = take n (butlast d)" by (subst pop_down_to.simps) simp
    with True show ?thesis by (simp add: take_butlast)
  next
    case False
    then show ?thesis by (subst pop_down_to.simps) simp
  qed
qed

definition proper_shuffle :: "('a list \<Rightarrow> 'a list) \<Rightarrow> bool" where
  "proper_shuffle sh \<longleftrightarrow> (\<forall>xs. mset (sh xs) = mset xs)"

lemma foldl_dict_set: "distinct ks \<Longrightarrow> set ks \<inter> set (dict_keys acc) = {} \<Longrightarrow>
  foldl (\<lambda>acc k. dict_set acc k (f k)) acc ks = acc @ map (\<lambda>k. (k, f k)) ks"
proof (induction ks arbitrary: acc)
  case (Cons k ks)
  then have "k \<notin> set (dict_keys acc)" by simp
  then have "dict_set acc k (f k) = acc @ [(k, f k)]" by (induction acc) auto
  with Cons show ?case by auto
qed simp

lemma random_dic_eq:
  assumes "proper_shuffle sh" "wf_dict d"
  shows "random_dic sh d = map (\<lambda>k. (k, the (dict_get d k))) (sh (dict_keys d))"
proof -
  have "mset (sh (dict_keys d)) = mset (dict_keys d)" using assms(1) by (simp only: proper_shuffle_def)
  then have "distinct (sh (dict_keys d))" using assms(2) mset_eq_imp_distinct_iff by blast
  then show ?thesis by (simp add: random_dic_def foldl_dict_set)
qed

text \<open>Shuffling changes the order of the entries only.\<close>

lemma random_dic_spec:
  assumes "proper_shuffle sh" "wf_dict d"
  shows "wf_dict (random_dic sh d)" "length (random_dic sh d) = length d" "dict_get (random_dic sh d) = dict_get d"
proof -
  let ?ks = "sh (dict_keys d)"
  have ms: "mset ?ks = mset (dict_keys d)" using assms(1) by (simp only: proper_shuffle_def)
  then have dist: "distinct ?ks" using assms(2) mset_eq_imp_distinct_iff by blast
  have keys: "dict_keys (random_dic sh d) = ?ks" unfolding random_dic_eq [OF assms] by (simp add: comp_def)
  with dist show "wf_dict (random_dic sh d)" by simp
  have "length ?ks = length (dict_keys d)" using ms by (rule mset_eq_length)
  with keys show "length (random_dic sh d) = length d" by (metis length_map)
  show "dict_get (random_dic sh d) = dict_get d"
  proof
    fix k
    have set_ks: "set ?ks = set (dict_keys d)" using ms by (rule mset_eq_setD)
    show "dict_get (random_dic sh d) k = dict_get d k"
      unfolding random_dic_eq [OF assms] map_of_map_restrict set_ks
      by (auto simp: restrict_map_def dict_get_None_iff) (metis domIff option.collapse dom_map_of_conv_image_fst)
  qed
qed

lemma worker_infos_spec:
  "worker_infos pt ws acc = Inr d \<Longrightarrow> wf_dict acc \<Longrightarrow> \<forall>(a, i) \<in> set acc. ui_checksum_address i = a \<and> a \<in> range (pt_checksum pt) \<Longrightarrow>
   wf_dict d \<and> (\<forall>(a, i) \<in> set d. ui_checksum_address i = a \<and> a \<in> range (pt_checksum pt))"
proof (induction pt ws acc rule: worker_infos.induct)
  case (2 pt a uri key rest acc)
  then obtain b k where b: "fromhex key = Some b" "pt_key_from_bytes pt b = Some k" by (auto split: option.splits)
  show ?case
    by (rule "2.IH" [OF b]) (use 2(2-) b in \<open>auto dest!: in_dict_setD\<close>)
qed simp

lemma nulink_workers_spec:
  assumes "proper_shuffle (pt_shuffle pt)" "get_nulink_workers pt = Inr ws"
  shows "wf_dict ws \<and> (\<forall>(a, i) \<in> set ws. ui_checksum_address i = a \<and> a \<in> range (pt_checksum pt))"
proof -
  from assms(2) obtain d where d: "worker_infos pt nulink_workers [] = Inr d" "ws = random_dic (pt_shuffle pt) d"
    by (auto simp: get_nulink_workers_def split: sum.splits)
  from worker_infos_spec [OF d(1)] have wf: "wf_dict d" and inf: "\<forall>(a, i) \<in> set d. ui_checksum_address i = a \<and> a \<in> range (pt_checksum pt)"
    by auto
  note spec = random_dic_spec [OF assms(1) wf]
  have "(a, i) \<in> set d" if "(a, i) \<in> set ws" for a i
    using that spec wf unfolding d(2) by (metis map_of_eq_Some_iff)
  with inf spec(1) d(2) show ?thesis by auto
qed


text \<open>A reservoir in good order, whose values are in \<open>V\<close>, keeps the contract of the pool's factory.\<close>

definition reservoir_within :: "'g rng \<Rightarrow> address set \<Rightarrow> 'g merged_reservoir \<Rightarrow> bool" where
  "reservoir_within rng V m \<longleftrightarrow> merged_ok rng m \<and> set_mset (merged_avail m) \<subseteq> V"

lemma porter_factory_result:
  assumes "reservoir_within rng V m" "porter_factory rng q k m = (r, m')"
  shows "reservoir_within rng V m' \<and> (\<forall>vs. r = Inr (Some vs) \<longrightarrow> set vs \<subseteq> V)"
proof -
  have ok: "merged_ok rng m" and sub: "set_mset (merged_avail m) \<subseteq> V" using assms(1) by (auto simp: reservoir_within_def)
  from mr.prefetch_spec [OF ok, of "int q" k] obtain s' where "merged_ok rng s'" and
    "prefetch_call (merged_call rng) (int q) k m = (Inr None, s') \<and> merged_avail s' = merged_avail m \<or>
     (\<exists>vs. prefetch_call (merged_call rng) (int q) k m = (Inr (Some vs), s') \<and> merged_avail m = mset vs + merged_avail s')" by blast
  then show ?thesis
  proof (elim exE conjE disjE)
    assume "merged_ok rng s'" "prefetch_call (merged_call rng) (int q) k m = (Inr None, s')" "merged_avail s' = merged_avail m"
    with assms(2) sub show ?thesis by (auto simp: porter_factory_def reservoir_within_def)
  next
    fix vs assume "merged_ok rng s'" "prefetch_call (merged_call rng) (int q) k m = (Inr (Some vs), s')"
      "merged_avail m = mset vs + merged_avail s'"
    with assms(2) sub show ?thesis by (auto simp: porter_factory_def reservoir_within_def)
  qed
qed

interpretation pv: drawn_values "porter_factory rng q" "reservoir_within rng V" V for rng q V
  by unfold_locales (use porter_factory_result in blast)+

text \<open>The candidates of a request, and what the contract's answer has to be.\<close>

definition candidates :: "('g, 'k) porter \<Rightarrow> address set" where
  "candidates pt =
     (if pt_federated_only pt then set (map n_checksum_address (dict_values (pt_known_at_reservoir pt)))
      else case pt_active pt of Inr (_, d) \<Rightarrow> set (dict_keys d) | Inl _ \<Rightarrow> {})"

definition allowed :: "('g, 'k) porter \<Rightarrow> address list option \<Rightarrow> address list option \<Rightarrow> address set" where
  "allowed pt exclude include = set (opt_list include) \<union> (candidates pt - set (opt_list exclude))"

definition active_ok :: "('g, 'k) porter \<Rightarrow> bool" where
  "active_ok pt \<longleftrightarrow> (case pt_active pt of
     Inr (n, d) \<Rightarrow> wf_dict d \<and> n = sum_list (dict_values d) \<and> (\<forall>w \<in> set (dict_values d). 0 < w) | Inl _ \<Rightarrow> True)"

lemma set_avail_new:
  assumes "wf_dict d" "\<forall>w \<in> set (dict_values d). 0 < w" "rng_in_range rng"
  shows "reservoir_within rng (set vs \<union> set (dict_keys d)) \<lparr>mr_values = vs, mr_reservoir = new_providers_reservoir d g\<rparr>"
  using reservoir_ok_new [OF assms(1,2), of g] assms(3)
  by (simp add: reservoir_within_def merged_ok_def merged_avail_def)

lemma reservoir_within_mono: "reservoir_within rng V m \<Longrightarrow> V \<subseteq> W \<Longrightarrow> reservoir_within rng W m"
  by (auto simp: reservoir_within_def)

lemma federated_within:
  assumes "rng_in_range rng" and ix: "i = opt_list incl" "x = opt_list excl"
  shows "reservoir_within rng (set i \<union> (set known - set x)) (make_federated_staker_reservoir g known excl incl)"
proof -
  let ?ps = "map (\<lambda>a. (a, 1 :: int)) (filter (\<lambda>a. a \<notin> set i \<union> set x) known)"
  have "set (dict_keys (dict_of ?ps)) = set (map fst ?ps)" by (simp only: set_keys_dict_of)
  then have keys: "set (dict_keys (dict_of ?ps)) \<subseteq> set known - set x" by auto
  have "\<forall>w \<in> set (dict_values (dict_of ?ps)). 0 < w" using dict_values_dict_of [of "[]" ?ps] by auto
  from set_avail_new [OF _ this assms(1), of i g] have "reservoir_within rng (set i \<union> set (dict_keys (dict_of ?ps)))
      \<lparr>mr_values = i, mr_reservoir = new_providers_reservoir (dict_of ?ps) g\<rparr>" by simp
  moreover have "make_federated_staker_reservoir g known excl incl = \<lparr>mr_values = i, mr_reservoir = new_providers_reservoir (dict_of ?ps) g\<rparr>"
    by (simp only: make_federated_staker_reservoir_def Let_def ix)
  moreover have "set i \<union> set (dict_keys (dict_of ?ps)) \<subseteq> set i \<union> (set known - set x)" using keys by blast
  ultimately show ?thesis by (metis reservoir_within_mono)
qed

lemma decentralized_within:
  assumes "rng_in_range rng" "wf_dict d" "n = sum_list (dict_values d)" "\<forall>w \<in> set (dict_values d). 0 < w"
    and m: "make_decentralized_staking_provider_reservoir g (Inr (n, d)) excl incl = Inr m"
    and ix: "i = opt_list incl" "x = opt_list excl"
  shows "reservoir_within rng (set i \<union> (set (dict_keys d) - set x)) m"
proof -
  obtain n' d' where rem: "remove_without (remdups (i @ x)) (n, d) = (n', d')" by fastforce
  from remove_without_spec [OF assms(2,3) rem] have d': "wf_dict d'" "set (dict_keys d') = set (dict_keys d) - set (remdups (i @ x))" "set d' \<subseteq> set d"
    by auto
  have pos: "\<forall>w \<in> set (dict_values d'). 0 < w" using assms(4) d'(3) by auto
  let ?d = "if n' = 0 then [] else d'"
  have "m = \<lparr>mr_values = i, mr_reservoir = new_providers_reservoir ?d g\<rparr>"
    using m rem unfolding make_decentralized_staking_provider_reservoir_def get_staking_provider_reservoir_def Let_def ix [symmetric]
    by (auto split: if_splits)
  moreover have "wf_dict ?d" "\<forall>w \<in> set (dict_values ?d). 0 < w" using d'(1) pos by auto
  ultimately have within: "reservoir_within rng (set i \<union> set (dict_keys ?d)) m"
    using set_avail_new [OF _ _ assms(1)] by blast
  have "set (dict_keys ?d) \<subseteq> set (dict_keys d) - set x"
    using d'(2) by (cases "n' = 0") (auto simp del: set_map)
  then have "set i \<union> set (dict_keys ?d) \<subseteq> set i \<union> (set (dict_keys d) - set x)" by blast
  with within show ?thesis by (rule reservoir_within_mono)
qed

lemma porter_reservoir_within:
  assumes "rng_in_range (pt_rng pt)" "active_ok pt" "porter_reservoir pt q excl incl = Some (Inr m)"
  shows "reservoir_within (pt_rng pt) (allowed pt excl incl) m"
proof (cases "pt_federated_only pt")
  case True
  with assms(3) have "m = make_federated_staker_reservoir (pt_seed pt)
      (map n_checksum_address (dict_values (pt_known_at_reservoir pt))) excl incl"
    by (auto simp: porter_reservoir_def Let_def split: option.splits sum.splits)
  with federated_within [OF assms(1) refl refl] True show ?thesis by (simp only: allowed_def candidates_def if_True)
next
  case False
  with assms(3) have m: "make_decentralized_staking_provider_reservoir (pt_seed pt) (pt_active pt) excl incl = Inr m"
    by (auto simp: porter_reservoir_def map_sum_def split: sum.splits)
  show ?thesis
  proof (cases "pt_active pt")
    case (Inl e)
    with m have "m = \<lparr>mr_values = opt_list incl, mr_reservoir = new_providers_reservoir [] (pt_seed pt)\<rparr>"
      by (auto simp: make_decentralized_staking_provider_reservoir_def get_staking_provider_reservoir_def Let_def split: agent_error.splits)
    with set_avail_new [of "[]" "pt_rng pt" "opt_list incl"] assms(1) show ?thesis
      by (auto simp: allowed_def intro: reservoir_within_mono)
  next
    case (Inr x)
    obtain n d where x: "x = (n, d)" by fastforce
    with Inr assms(2) have "wf_dict d" "n = sum_list (dict_values d)" "\<forall>w \<in> set (dict_values d). 0 < w" by (auto simp: active_ok_def)
    from decentralized_within [OF assms(1) this _ refl refl] m Inr x False show ?thesis
      by (simp only: allowed_def candidates_def if_False sum.case prod.case)
  qed
qed


subsection \<open>The nodes a client gets\<close>

text \<open>An info that comes from a node that answered, or one of the workers written into the module.\<close>

definition reached_info :: "('g, 'k) porter \<Rightarrow> address set \<Rightarrow> address \<Rightarrow> 'k ursula_info \<Rightarrow> bool" where
  "reached_info pt V a i \<longleftrightarrow> a \<in> V \<and> (\<exists>u. dict_get (pt_known pt) (pt_checksum pt a) = Some u \<and> pt_ping pt u = Inr () \<and>
     i = \<lparr>ui_checksum_address = pt_checksum pt a, ui_uri = pt_uri pt u, ui_encrypting_key = pt_key pt u\<rparr>)"

lemma get_ursula_info_returns:
  "get_ursula_info pt a = WorkerReturns i \<longleftrightarrow> reached_info pt UNIV a i"
  by (auto simp: get_ursula_info_def reached_info_def split: option.splits sum.splits)

lemma porter_pool:
  assumes "reservoir_within (pt_rng pt) V m" "0 < q"
    and run: "run_pool (porter_factory (pt_rng pt) q) (\<lambda>a out. out = get_ursula_info pt a) as (start_pool (new_worker_pool q m)) = Some s"
  shows "get_target_successes s = q" "wf_dict (get_successes s)" "length (get_successes s) \<le> q"
    "(a, i) \<in> set (get_successes s) \<Longrightarrow> reached_info pt V a i"
    "block_until_target_successes s = Some (Inr d) \<Longrightarrow> d = get_successes s \<and> length d = q"
proof -
  let ?w = "\<lambda>a out. out = get_ursula_info pt a"
  have reach: "pool_reachable (porter_factory (pt_rng pt) q) ?w s" using run by (rule run_pool_reachable)
  have inv: "pool_inv ?w s" using wp.reaches_inv [OF reach] .
  show target: "get_target_successes s = q" using run by (rule run_pool_target)
  note succ = pool_successes_bounded [OF inv, unfolded target, OF assms(2)]
  from succ(1,2) show "wf_dict (get_successes s)" "length (get_successes s) \<le> q" by auto
  have V: "fst ` set (get_successes s) \<subseteq> V" using pv.run_pool_holds [OF assms(1) run] .
  show "reached_info pt V a i" if "(a, i) \<in> set (get_successes s)"
  proof -
    from succ(3) [OF that] have "get_ursula_info pt a = WorkerReturns i" by simp
    moreover have "a \<in> V" using V that by force
    ultimately show ?thesis by (simp add: get_ursula_info_returns reached_info_def)
  qed
  show "d = get_successes s \<and> length d = q" if blocked: "block_until_target_successes s = Some (Inr d)"
    using inv block_until_reached [OF blocked] target
    by (auto simp: pool_inv_def inv_target_def inv_processor_def get_successes_def get_target_successes_def)
qed

lemma enough_ursulas_spec:
  assumes "proper_shuffle (pt_shuffle pt)" "porter_enough_ursulas pt s = Inr d" "wf_dict (get_successes s)"
  shows "wf_dict d \<and> length d \<le> get_target_successes s \<and>
    (\<forall>(a, i) \<in> set d. (a, i) \<in> set (get_successes s) \<or> (\<exists>ws. get_nulink_workers pt = Inr ws \<and> (a, i) \<in> set ws))"
proof -
  from assms(2) obtain ws where ws: "get_nulink_workers pt = Inr ws"
    and d: "d = take (get_target_successes s) (dict_update (get_successes s) ws)"
    by (auto simp: porter_enough_ursulas_def pop_down_to_take split: sum.splits)
  have wf: "wf_dict (dict_update (get_successes s) ws)" using assms(3) by blast
  have wfw: "wf_dict ws" using nulink_workers_spec [OF assms(1) ws] by simp
  have "(a, i) \<in> set (get_successes s) \<or> (a, i) \<in> set ws" if "(a, i) \<in> set d" for a i
  proof -
    have "(a, i) \<in> set (dict_update (get_successes s) ws)" using that d by (meson in_set_takeD)
    then have "dict_get (dict_update (get_successes s) ws) a = Some i" using wf by simp
    with dict_get_update [OF wfw] show ?thesis by (auto split: option.splits dest: dict_get_in_set)
  qed
  moreover have "wf_dict d" using wf d by (simp add: take_map [symmetric] distinct_take)
  ultimately show ?thesis using ws d by auto
qed

text \<open>The result of a request is the values of a dictionary with these entries.\<close>

lemma find_ursulas_spec:
  assumes "reservoir_within (pt_rng pt) V m" "0 < q" "proper_shuffle (pt_shuffle pt)" "find_ursulas pt q m = Some (Inr infos)"
  shows "\<exists>d. infos = dict_values d \<and> wf_dict d \<and> length d = q \<and>
    (\<forall>(a, i) \<in> set d. reached_info pt V a i \<or> (\<exists>ws. get_nulink_workers pt = Inr ws \<and> (a, i) \<in> set ws))"
proof -
  let ?run = "run_pool (porter_factory (pt_rng pt) q) (\<lambda>a out. out = get_ursula_info pt a)"
  from assms(4) obtain s where s: "?run (pt_blocking pt) (start_pool (new_worker_pool q m)) = Some s"
    by (auto simp: find_ursulas_def Let_def split: option.splits)
  note pool_s = porter_pool [OF assms(1,2) s]
  consider (reached) d where "block_until_target_successes s = Some (Inr d)" "infos = dict_values d"
    | (fallback) t d where "?run (pt_returning pt) s = Some t" "porter_enough_ursulas pt t = Inr d"
        "get_target_successes t \<le> length d" "infos = dict_values d"
    using assms(4) s by (auto simp: find_ursulas_def Let_def split: option.splits sum.splits pool_error.splits if_splits)
  then show ?thesis
  proof cases
    case reached
    with pool_s(2,4) pool_s(5) [OF reached(1)] show ?thesis by blast
  next
    case fallback
    have t: "?run (pt_blocking pt @ pt_returning pt) (start_pool (new_worker_pool q m)) = Some t"
      using s fallback(1) by (simp add: run_pool_append)
    note pool_t = porter_pool [OF assms(1,2) t]
    from enough_ursulas_spec [OF assms(3) fallback(2) pool_t(2)] fallback(3,4) pool_t(1,4) show ?thesis
      by (intro exI [of _ d]) fastforce
  qed
qed

text \<open>
  C29. The answer to a request for nodes, under every schedule of the worker pool: it has exactly as many entries
  as were asked for, of different addresses; each is either a node that was included, or a
  candidate that was not excluded, that is known and answered a ping, or one of the three workers written
  into the module. (Addresses are in checksum form.)
\<close>

theorem porter_answer:
  assumes "rng_in_range (pt_rng pt)" "active_ok pt" "proper_shuffle (pt_shuffle pt)" "0 < quantity"
    and "\<forall>a. pt_checksum pt (pt_checksum pt a) = pt_checksum pt a" "\<forall>a \<in> allowed pt excl incl. pt_checksum pt a = a"
    and "get_ursulas pt quantity excl incl = Some (Inr infos)"
  shows "length infos = quantity \<and> distinct (map ui_checksum_address infos) \<and>
    (\<forall>i \<in> set infos. reached_info pt (allowed pt excl incl) (ui_checksum_address i) i \<or>
       (\<exists>ws. get_nulink_workers pt = Inr ws \<and> i \<in> set (dict_values ws)))"
proof -
  from assms(7) obtain m where m: "porter_reservoir pt quantity excl incl = Some (Inr m)" "find_ursulas pt quantity m = Some (Inr infos)"
    by (auto simp: get_ursulas_def split: option.splits sum.splits)
  from find_ursulas_spec [OF porter_reservoir_within [OF assms(1,2) m(1)] assms(4,3) m(2)] obtain d where
    d: "infos = dict_values d" "wf_dict d" "length d = quantity" and
    ent: "\<And>a i. (a, i) \<in> set d \<Longrightarrow> reached_info pt (allowed pt excl incl) a i \<or> (\<exists>ws. get_nulink_workers pt = Inr ws \<and> (a, i) \<in> set ws)"
    by blast
  have addr: "ui_checksum_address i = a" if "(a, i) \<in> set d" for a i
    using ent [OF that] assms(6) nulink_workers_spec [OF assms(3)] by (fastforce simp: reached_info_def)
  then have "map ui_checksum_address infos = dict_keys d" using d(1) by (auto simp: case_prod_beta)
  then have "distinct (map ui_checksum_address infos)" using d(2) by simp
  moreover have "reached_info pt (allowed pt excl incl) (ui_checksum_address i) i \<or>
      (\<exists>ws. get_nulink_workers pt = Inr ws \<and> i \<in> set (dict_values ws))" if "i \<in> set infos" for i
  proof -
    from that d(1) obtain a where "(a, i) \<in> set d" by auto
    with ent addr show ?thesis by force
  qed
  ultimately show ?thesis using d(1,3) by simp
qed


text \<open>A Porter that knows one node, which answers.\<close>

definition demo_info :: "nat ursula_info" where
  "demo_info = \<lparr>ui_checksum_address = ''a'', ui_uri = ''u'', ui_encrypting_key = 1\<rparr>"

definition demo_porter :: "(nat, nat) porter" where
  "demo_porter = \<lparr>pt_federated_only = True, pt_execution_timeout = DEFAULT_EXECUTION_TIMEOUT, pt_rng = demo_rng, pt_seed = 0, pt_active = Inr (0, []),
     pt_checksum = (\<lambda>a. a), pt_key_from_bytes = (\<lambda>b. Some (length b)), pt_shuffle = (\<lambda>xs. xs), pt_uri = (\<lambda>_. ''u''), pt_key = (\<lambda>_. 1),
     pt_ping = (\<lambda>_. Inr ()), pt_reservoir_turns = (\<lambda>_. demo_turn), pt_turns = (\<lambda>_. demo_turn),
     pt_known_at_reservoir = [(''a'', demo_node)], pt_known = [(''a'', demo_node)],
     pt_blocking = [ActProduce, ActProduce, ActBegin, ActEnd 0 (WorkerReturns demo_info), ActProcess, ActProcess], pt_returning = []\<rparr>"

lemma demo_porter_answer: "get_ursulas demo_porter 1 None None = Some (Inr [demo_info])"
  by code_simp

theorem porter_answer_witness:
  "get_ursulas demo_porter 1 None None = Some (Inr [demo_info]) \<and>
   (reached_info demo_porter (allowed demo_porter None None) ''a'' demo_info \<or>
    (\<exists>ws. get_nulink_workers demo_porter = Inr ws \<and> demo_info \<in> set (dict_values ws)))"
proof -
  have "rng_in_range (pt_rng demo_porter)" using demo_rng_in_range by (simp add: demo_porter_def)
  moreover have "active_ok demo_porter" by (simp add: active_ok_def demo_porter_def)
  moreover have "proper_shuffle (pt_shuffle demo_porter)" by (simp add: proper_shuffle_def demo_porter_def)
  moreover have "\<forall>a. pt_checksum demo_porter (pt_checksum demo_porter a) = pt_checksum demo_porter a"
    "\<forall>a \<in> allowed demo_porter None None. pt_checksum demo_porter a = a" by (simp_all add: demo_porter_def)
  ultimately have "\<forall>i \<in> set [demo_info]. reached_info demo_porter (allowed demo_porter None None) (ui_checksum_address i) i \<or>
      (\<exists>ws. get_nulink_workers demo_porter = Inr ws \<and> i \<in> set (dict_values ws))"
    using porter_answer [of demo_porter 1 None None "[demo_info]"] demo_porter_answer by auto
  then show ?thesis using demo_porter_answer by (simp add: demo_info_def)
qed

text \<open>
  When the pool gives up, the workers of the module are handed out even if the client excluded them, and without
  a ping.
\<close>

definition demo_stranded :: "(nat, nat) porter" where
  "demo_stranded = demo_porter\<lparr>pt_ping := (\<lambda>_. Inl (PorterPing ''down'')), pt_blocking := [ActBail True, ActBail True]\<rparr>"

lemma excluded_worker_handed_out:
  "map_option (map_sum id (map ui_checksum_address)) (get_ursulas demo_stranded 1 (Some [''0x8a4471142f0d635D29BFd2634E1cD8f439677072'']) None)
   = Some (Inr [''0x8a4471142f0d635D29BFd2634E1cD8f439677072''])"
  by code_simp


end
