(* ===== verification/Chain_Access.thy ===== *)
theory Chain_Access
  imports Complex_Main Py_Text
begin

text \<open>
  How the program talks to an Ethereum provider: the repeated RPC requests of
  \<^verbatim>\<open>nulink/blockchain/middleware/retry.py\<close> and the gas prices of \<^verbatim>\<open>nulink/utilities/datafeeds.py\<close> and
  \<^verbatim>\<open>nulink/utilities/gas_strategies.py\<close>.

  What the provider and the price services answer are arguments; so are the conversion to Wei (\<^verbatim>\<open>Web3.toWei\<close>),
  the strategies of web3, and Python's \<^verbatim>\<open>int(n / 2)\<close>, which goes through a floating point number. Time is the
  number of seconds slept.
\<close>

subsection \<open>Requests that are repeated\<close>

text \<open>The \<^verbatim>\<open>error\<close> entry of a response: text, or a dictionary with a code and a message.\<close>

datatype rpc_error = ErrorText string | ErrorDict "int option" "string option"

datatype 'r rpc_result = HttpError nat | OtherException string | Response "rpc_error option" 'r

text \<open>The three predicates; \<open>None\<close> is the \<^verbatim>\<open>TypeError\<close> of looking into a message that is not there.\<close>

fun is_request_result_retry :: "'r rpc_result \<Rightarrow> bool option" where
  "is_request_result_retry (HttpError status_code) = Some (status_code = 429)"
| "is_request_result_retry (OtherException _) = Some False"
| "is_request_result_retry (Response (Some (ErrorDict code _)) _) = Some (code = Some 429)"
| "is_request_result_retry (Response _ _) = Some False"

definition alchemy_retry :: "'r rpc_result \<Rightarrow> bool option" where
  "alchemy_retry result =
     (case is_request_result_retry result of
        Some False \<Rightarrow>
          (case result of
             Response (Some (ErrorText e)) _ \<Rightarrow> Some (contains_text ''retries'' e)
           | Response (Some (ErrorDict _ m)) _ \<Rightarrow> map_option (contains_text ''retries'') m
           | _ \<Rightarrow> Some False)
      | r \<Rightarrow> r)"

definition infura_retry :: "'r rpc_result \<Rightarrow> bool option" where
  "infura_retry result =
     (case is_request_result_retry result of
        Some False \<Rightarrow>
          (case result of
             Response (Some (ErrorDict code m)) _ \<Rightarrow>
               if code = Some (- 32005) then map_option (contains_text ''rate exceeded'') m else Some False
           | _ \<Rightarrow> Some False)
      | r \<Rightarrow> r)"

text \<open>
  \<^verbatim>\<open>__call__\<close>: \<open>answers i\<close> is what the \<open>i\<close>-th request gives. The result is that of the last request (raised if it is
  an exception), or \<open>None\<close> for the \<^verbatim>\<open>TypeError\<close>, with the number of requests and the seconds slept.
\<close>

function retry_loop ::
  "('r rpc_result \<Rightarrow> bool option) \<Rightarrow> (nat \<Rightarrow> 'r rpc_result) \<Rightarrow> nat \<Rightarrow> bool \<Rightarrow> nat \<Rightarrow> nat \<Rightarrow> 'r rpc_result option \<times> nat \<times> nat" where
  "retry_loop is_retry answers retries exponential_backoff i slept =
     (case is_retry (answers i) of
        None \<Rightarrow> (None, Suc i, slept)
      | Some False \<Rightarrow> (Some (answers i), Suc i, slept)
      | Some True \<Rightarrow>
          if i \<ge> retries then (Some (answers i), Suc i, slept)
          else retry_loop is_retry answers retries exponential_backoff (Suc i)
                 (if exponential_backoff then slept + 2 ^ (i + 1) else slept))"
  by pat_completeness auto
termination by (relation "measure (\<lambda>(_, _, retries, _, i, _). retries - i)") auto

declare retry_loop.simps [simp del]

definition retry_call ::
  "('r rpc_result \<Rightarrow> bool option) \<Rightarrow> (nat \<Rightarrow> 'r rpc_result) \<Rightarrow> nat \<Rightarrow> bool \<Rightarrow> 'r rpc_result option \<times> nat \<times> nat" where
  "retry_call is_retry answers retries exponential_backoff = retry_loop is_retry answers retries exponential_backoff 0 0"

lemma retry_loop_spec:
  assumes "i \<le> k" "k \<le> retries" "\<forall>j. i \<le> j \<and> j < k \<longrightarrow> is_retry (answers j) = Some True"
    and "is_retry (answers k) = Some False \<or> (is_retry (answers k) = Some True \<and> k = retries)"
  shows "retry_loop is_retry answers retries b i slept =
    (Some (answers k), Suc k, slept + (if b then 2 ^ (k + 1) - 2 ^ (i + 1) else 0))"
  using assms
proof (induction "k - i" arbitrary: i slept)
  case 0
  then show ?case by (subst retry_loop.simps) auto
next
  case (Suc d)
  then have i: "i < k" by simp
  let ?slept = "if b then slept + 2 ^ (i + 1) else slept"
  have "retry_loop is_retry answers retries b i slept = retry_loop is_retry answers retries b (Suc i) ?slept"
    using Suc i by (subst retry_loop.simps) auto
  also have "\<dots> = (Some (answers k), Suc k, ?slept + (if b then 2 ^ (k + 1) - 2 ^ (Suc i + 1) else 0))"
    using Suc i by (intro Suc.hyps) auto
  finally show ?case using i power_increasing [of "i + 2" "k + 1" "2 :: nat"] by auto
qed

text \<open>
  C30. A request to the provider is repeated while the answer asks for it, at most \<^verbatim>\<open>retries\<close> times: the caller gets
  the first answer that does not ask for a repetition, or the last one when all of them do. With \<open>k\<close>
  repetitions, \<open>k + 1\<close> requests are made and the waits add up to \<open>2 ^ (k + 1) - 2\<close> seconds.
\<close>

theorem retry_call_exact:
  assumes "k \<le> retries" "\<forall>j < k. is_retry (answers j) = Some True"
    and "is_retry (answers k) = Some False \<or> (is_retry (answers k) = Some True \<and> k = retries)"
  shows "retry_call is_retry answers retries backoff =
    (Some (answers k), k + 1, if backoff then 2 ^ (k + 1) - 2 else 0)"
  using retry_loop_spec [of 0 k retries is_retry answers backoff 0] assms by (simp add: retry_call_def)

theorem retry_call_exact_witness:
  "let answers = (\<lambda>i. if i < 2 then HttpError 429 else Response None ''ok'')
   in retry_call is_request_result_retry answers 7 True = (Some (Response None ''ok''), 3, 6)"
  using retry_call_exact [of 2 7 is_request_result_retry "\<lambda>i. if i < 2 then HttpError 429 else Response None ''ok''" True]
  by simp

text \<open>Unless a message is missing, one of the two cases of the theorem applies.\<close>

lemma retry_cases:
  fixes retries :: nat
  assumes "\<forall>j \<le> retries. is_retry (answers j) \<noteq> None"
  obtains k where "k \<le> retries" "\<forall>j < k. is_retry (answers j) = Some True"
    "is_retry (answers k) = Some False \<or> (is_retry (answers k) = Some True \<and> k = retries)"
proof (cases "\<exists>j \<le> retries. is_retry (answers j) = Some False")
  case True
  let ?P = "\<lambda>j. j \<le> retries \<and> is_retry (answers j) = Some False"
  define k where "k = (LEAST j. ?P j)"
  from True obtain j where "?P j" by blast
  then have k: "?P k" unfolding k_def by (rule LeastI [of ?P])
  have least: "\<not> ?P j" if "j < k" for j using that not_less_Least unfolding k_def by blast
  have "is_retry (answers j) = Some True" if "j < k" for j
  proof -
    have "j \<le> retries" using k that by simp
    with assms obtain v where "is_retry (answers j) = Some v" by blast
    with least [OF that] \<open>j \<le> retries\<close> show ?thesis by (cases v) auto
  qed
  then show thesis using k by (intro that [of k]) auto
next
  case False
  then have "is_retry (answers j) = Some True" if "j \<le> retries" for j
    using assms that by (metis (full_types) not_None_eq)
  then show thesis by (intro that [of retries]) auto
qed

lemma retry_bounds:
  assumes "\<forall>j \<le> retries. is_retry (answers j) \<noteq> None"
  shows "fst (snd (retry_call is_retry answers retries b)) \<le> retries + 1"
    "snd (snd (retry_call is_retry answers retries b)) \<le> 2 ^ (retries + 1) - 2"
proof -
  obtain k where k: "k \<le> retries" "\<forall>j < k. is_retry (answers j) = Some True"
    "is_retry (answers k) = Some False \<or> (is_retry (answers k) = Some True \<and> k = retries)"
    using retry_cases [of retries is_retry answers] assms by blast
  have eq: "retry_call is_retry answers retries b = (Some (answers k), k + 1, if b then 2 ^ (k + 1) - 2 else 0)"
    using retry_loop_spec [of 0 k retries is_retry answers b 0] k by (simp add: retry_call_def)
  have "(2 :: nat) ^ (k + 1) - 2 \<le> 2 ^ (retries + 1) - 2" using k(1) by (intro diff_le_mono power_increasing) auto
  with eq k(1) show "fst (snd (retry_call is_retry answers retries b)) \<le> retries + 1"
    "snd (snd (retry_call is_retry answers retries b)) \<le> 2 ^ (retries + 1) - 2" by auto
qed

subsection \<open>Price feeds\<close>

datatype speed = SLOW | MEDIUM | FAST | FASTEST

definition speed_equivalence_classes :: "(speed, string list) dict" where
  "speed_equivalence_classes =
     [(SLOW, [''slow'', ''safeLow'', ''low'']), (MEDIUM, [''medium'', ''standard'', ''average'']),
      (FAST, [''fast'', ''high'']), (FASTEST, [''fastest''])]"

definition lower_char :: "char \<Rightarrow> char" where
  "lower_char c = (if CHR ''A'' \<le> c \<and> c \<le> CHR ''Z'' then char_of (of_char c + 32 :: nat) else c)"

definition lower :: "string \<Rightarrow> string" where
  "lower = map lower_char"

datatype feed_error = DatafeedError | SpeedLookupError | FeedKeyError | FeedTypeError | FeedAttributeError | FeedValueError

definition get_canonical_speed :: "string \<Rightarrow> feed_error + speed" where
  "get_canonical_speed s =
     (case filter (\<lambda>(_, names). lower s \<in> set (map lower names)) speed_equivalence_classes of
        (c, _) # _ \<Rightarrow> Inr c
      | [] \<Rightarrow> Inl SpeedLookupError)"

text \<open>What a service answers: no connection, a status without use, or JSON.\<close>

datatype feed_json = FeedNumber rat | FeedText string | FeedObject "(string \<times> feed_json) list"

datatype feed_answer = NoConnection | Answer nat feed_json

definition probe_feed :: "feed_answer \<Rightarrow> feed_error + feed_json" where
  "probe_feed a = (case a of NoConnection \<Rightarrow> Inl DatafeedError | Answer status j \<Rightarrow> if status \<noteq> 200 then Inl DatafeedError else Inr j)"

text \<open>\<open>to_wei\<close> is the conversion of a number or text in Gwei; \<open>None\<close> is its exception.\<close>

fun speed_prices :: "(feed_json \<Rightarrow> int option) \<Rightarrow> (string \<times> feed_json) list \<Rightarrow> (speed, int) dict \<Rightarrow> feed_error + (speed, int) dict" where
  "speed_prices to_wei [] acc = Inr acc"
| "speed_prices to_wei ((k, v) # rest) acc =
     (case get_canonical_speed k of
        Inl e \<Rightarrow> Inl e
      | Inr c \<Rightarrow> (case to_wei v of None \<Rightarrow> Inl FeedValueError | Some p \<Rightarrow> speed_prices to_wei rest (dict_set acc c p)))"

definition etherchain_prices :: "(feed_json \<Rightarrow> int option) \<Rightarrow> feed_answer \<Rightarrow> feed_error + (speed, int) dict" where
  "etherchain_prices to_wei a =
     (case probe_feed a of
        Inl e \<Rightarrow> Inl e
      | Inr (FeedObject d) \<Rightarrow> speed_prices to_wei d []
      | Inr _ \<Rightarrow> Inl FeedAttributeError)"

definition upvest_prices :: "(feed_json \<Rightarrow> int option) \<Rightarrow> feed_answer \<Rightarrow> feed_error + (speed, int) dict" where
  "upvest_prices to_wei a =
     (case probe_feed a of
        Inl e \<Rightarrow> Inl e
      | Inr (FeedObject d) \<Rightarrow>
          (case dict_get d ''estimates'' of
             None \<Rightarrow> Inl FeedKeyError
           | Some (FeedObject est) \<Rightarrow> speed_prices to_wei est []
           | Some _ \<Rightarrow> Inl FeedAttributeError)
      | Inr _ \<Rightarrow> Inl FeedTypeError)"

definition zoltu_speed_names :: "(speed, string) dict" where
  "zoltu_speed_names = [(SLOW, ''percentile_40''), (MEDIUM, ''percentile_75''), (FAST, ''percentile_95''), (FASTEST, ''percentile_98'')]"

fun zoltu_loop :: "(feed_json \<Rightarrow> int option) \<Rightarrow> (string \<times> feed_json) list \<Rightarrow> (speed, string) dict \<Rightarrow> (speed, int) dict \<Rightarrow> feed_error + (speed, int) dict" where
  "zoltu_loop to_wei d [] acc = Inr acc"
| "zoltu_loop to_wei d ((c, name) # rest) acc =
     (case dict_get d name of
        None \<Rightarrow> Inl FeedKeyError
      | Some (FeedText s) \<Rightarrow>
          (case to_wei (FeedText (hd (split_char (CHR '' '') s))) of
             None \<Rightarrow> Inl FeedValueError
           | Some p \<Rightarrow> zoltu_loop to_wei d rest (dict_set acc c p))
      | Some _ \<Rightarrow> Inl FeedAttributeError)"

definition zoltu_prices :: "(feed_json \<Rightarrow> int option) \<Rightarrow> feed_answer \<Rightarrow> feed_error + (speed, int) dict" where
  "zoltu_prices to_wei a =
     (case probe_feed a of
        Inl e \<Rightarrow> Inl e
      | Inr (FeedObject d) \<Rightarrow> zoltu_loop to_wei d zoltu_speed_names []
      | Inr _ \<Rightarrow> Inl FeedTypeError)"

text \<open>\<^verbatim>\<open>get_gas_price\<close>: an empty speed counts as none.\<close>

definition get_gas_price :: "feed_error + (speed, int) dict \<Rightarrow> string \<Rightarrow> string option \<Rightarrow> feed_error + int" where
  "get_gas_price prices default_speed speed_name =
     (case prices of
        Inl e \<Rightarrow> Inl e
      | Inr d \<Rightarrow>
          (case get_canonical_speed (case speed_name of Some (c # cs) \<Rightarrow> c # cs | _ \<Rightarrow> default_speed) of
             Inl e \<Rightarrow> Inl e
           | Inr c \<Rightarrow> (case dict_get d c of Some p \<Rightarrow> Inr p | None \<Rightarrow> Inl FeedKeyError)))"

subsection \<open>Strategies\<close>

definition max_price_gas_strategy_wrapper :: "('e + int) \<Rightarrow> int \<Rightarrow> 'e + int" where
  "max_price_gas_strategy_wrapper gas_strategy max_gas_price_wei =
     (case gas_strategy of Inl e \<Rightarrow> Inl e | Inr p \<Rightarrow> Inr (if p > max_gas_price_wei then max_gas_price_wei else p))"

text \<open>\<^verbatim>\<open>int(statistics.median(prices))\<close>; \<open>half n\<close> is \<^verbatim>\<open>int(n / 2)\<close>.\<close>

definition int_median :: "(int \<Rightarrow> int) \<Rightarrow> int list \<Rightarrow> int" where
  "int_median half prices =
     (let data = sort prices; n = length data
      in if odd n then data ! (n div 2) else half (data ! (n div 2 - 1) + data ! (n div 2)))"

definition collect_prices :: "(feed_error + int) list \<Rightarrow> int list" where
  "collect_prices feeds = concat (map (\<lambda>r. case r of Inr p \<Rightarrow> [p] | Inl _ \<Rightarrow> []) feeds)"

definition datafeed_median_gas_price_strategy ::
  "(int \<Rightarrow> int) \<Rightarrow> (feed_json \<Rightarrow> int option) \<Rightarrow> string option \<Rightarrow> feed_answer \<Rightarrow> feed_answer \<Rightarrow> feed_error + int \<Rightarrow> feed_error + int" where
  "datafeed_median_gas_price_strategy half to_wei speed_name upvest zoltu rpc =
     (let prices = collect_prices [get_gas_price (upvest_prices to_wei upvest) ''fastest'' speed_name,
                                   get_gas_price (zoltu_prices to_wei zoltu) ''fast'' speed_name]
      in if prices \<noteq> [] then Inr (int_median half prices) else rpc)"

datatype web3_outcome = Web3Price int | Web3ValidationError | Web3Raises string

datatype gas_strategy_error = GasStrategyError | Web3Exception string

definition web3_gas_strategy_wrapper :: "web3_outcome \<Rightarrow> gas_strategy_error + int" where
  "web3_gas_strategy_wrapper r =
     (case r of Web3Price p \<Rightarrow> Inr p | Web3ValidationError \<Rightarrow> Inl GasStrategyError | Web3Raises e \<Rightarrow> Inl (Web3Exception e))"

definition construct_fixed_price_gas_strategy :: "(rat \<Rightarrow> string \<Rightarrow> int) \<Rightarrow> rat \<Rightarrow> string \<Rightarrow> unit \<Rightarrow> int" where
  "construct_fixed_price_gas_strategy to_wei gas_price denomination = (let p = to_wei gas_price denomination in (\<lambda>_. p))"

subsection \<open>The median is between the prices\<close>

text \<open>Halving is exact, rounded towards zero, below \<open>2 ^ 53\<close>.\<close>

definition float_half :: "(int \<Rightarrow> int) \<Rightarrow> bool" where
  "float_half half \<longleftrightarrow> (\<forall>n. 0 \<le> n \<and> n < 2 ^ 53 \<longrightarrow> half n = n div 2)"

lemma int_median_between:
  assumes "float_half half" "prices \<noteq> []" "\<forall>p \<in> set prices. 0 \<le> p \<and> p < 2 ^ 52"
  shows "Min (set prices) \<le> int_median half prices \<and> int_median half prices \<le> Max (set prices)"
proof -
  let ?d = "sort prices" and ?n = "length prices"
  have n: "0 < ?n" using assms(2) by simp
  have mem: "?d ! i \<in> set prices" if "i < ?n" for i using nth_mem [of i ?d] that by simp
  have bounds: "Min (set prices) \<le> ?d ! i" "?d ! i \<le> Max (set prices)" if "i < ?n" for i using mem [OF that] by simp_all
  show ?thesis
  proof (cases "odd ?n")
    case True
    have "?n div 2 < ?n" using n by simp
    with bounds True show ?thesis by (simp add: int_median_def Let_def)
  next
    case False
    let ?i = "?n div 2 - 1" and ?j = "?n div 2"
    have i: "?i < ?n" and j: "?j < ?n" using n by linarith+
    let ?s = "?d ! ?i + ?d ! ?j"
    have b: "0 \<le> ?d ! ?i" "0 \<le> ?d ! ?j" "?d ! ?i < 2 ^ 52" "?d ! ?j < 2 ^ 52" using mem [OF i] mem [OF j] assms(3) by blast+
    then have "0 \<le> ?s" "?s < 2 ^ 53" using power_Suc [of "2 :: int" 52] by simp_all
    then have "half ?s = ?s div 2" using assms(1) by (simp add: float_half_def)
    moreover have "Min (set prices) \<le> ?s div 2" "?s div 2 \<le> Max (set prices)"
      using bounds [OF i] bounds [OF j] by linarith+
    ultimately show ?thesis using False by (simp add: int_median_def Let_def)
  qed
qed

lemma set_collect_prices: "set (collect_prices feeds) = {p. Inr p \<in> set feeds}"
  by (auto simp: collect_prices_def split: sum.splits)

text \<open>
  The capped median strategy asks for a price that is never above the cap; as long as it is below, it lies between
  the lowest and the highest price of the feeds that answered, and it is the price of the node when no feed did.
\<close>

theorem capped_median_price:
  fixes upvest zoltu :: feed_answer and to_wei :: "feed_json \<Rightarrow> int option" and speed_name :: "string option"
  defines "prices \<equiv> collect_prices [get_gas_price (upvest_prices to_wei upvest) ''fastest'' speed_name,
      get_gas_price (zoltu_prices to_wei zoltu) ''fast'' speed_name]"
  assumes "float_half half" "\<forall>p \<in> set prices. 0 \<le> p \<and> p < 2 ^ 52"
    and "max_price_gas_strategy_wrapper (datafeed_median_gas_price_strategy half to_wei speed_name upvest zoltu rpc) cap = Inr price"
  shows "price \<le> cap \<and> (prices \<noteq> [] \<longrightarrow> price \<le> Max (set prices) \<and> (price < cap \<longrightarrow> Min (set prices) \<le> price)) \<and>
    (prices = [] \<longrightarrow> (\<exists>p. rpc = Inr p \<and> price = min p cap))"
proof (cases "prices = []")
  case True
  with assms(4) show ?thesis
    by (auto simp: max_price_gas_strategy_wrapper_def datafeed_median_gas_price_strategy_def prices_def Let_def split: sum.splits if_splits)
next
  case False
  then have "price = min (int_median half prices) cap"
    using assms(4) by (auto simp: max_price_gas_strategy_wrapper_def datafeed_median_gas_price_strategy_def prices_def Let_def)
  with int_median_between [OF assms(2) False assms(3)] False show ?thesis by auto
qed

definition demo_to_wei :: "feed_json \<Rightarrow> int option" where
  "demo_to_wei v = (case v of FeedNumber r \<Rightarrow> Some (floor (r * 10 ^ 9)) | FeedText s \<Rightarrow> map_option (\<lambda>i. i * 10 ^ 9) (parse_int s) | _ \<Rightarrow> None)"

definition demo_upvest :: feed_answer where
  "demo_upvest = Answer 200 (FeedObject [(''estimates'', FeedObject [(''fastest'', FeedNumber 21), (''slow'', FeedNumber 5)])])"

theorem capped_median_price_witness:
  "max_price_gas_strategy_wrapper (datafeed_median_gas_price_strategy (\<lambda>n. n div 2) demo_to_wei None demo_upvest NoConnection (Inl DatafeedError))
     (10 ^ 10) = Inr (10 ^ 10) \<and> (10 ^ 10 :: int) \<le> 21 * 10 ^ 9"
proof -
  let ?ps = "collect_prices [get_gas_price (upvest_prices demo_to_wei demo_upvest) ''fastest'' None,
      get_gas_price (zoltu_prices demo_to_wei NoConnection) ''fast'' None]"
  have ps: "?ps = [21 * 10 ^ 9]"
  proof -
    have speeds: "get_canonical_speed ''fastest'' = Inr FASTEST" "get_canonical_speed ''slow'' = Inr SLOW" by code_simp+
    show ?thesis
      by (simp add: collect_prices_def get_gas_price_def upvest_prices_def zoltu_prices_def probe_feed_def demo_upvest_def demo_to_wei_def speeds)
  qed
  have run: "max_price_gas_strategy_wrapper (datafeed_median_gas_price_strategy (\<lambda>n. n div 2) demo_to_wei None demo_upvest NoConnection
      (Inl DatafeedError)) (10 ^ 10) = Inr (10 ^ 10)"
    unfolding max_price_gas_strategy_wrapper_def datafeed_median_gas_price_strategy_def Let_def ps by (simp add: int_median_def)
  have "float_half (\<lambda>n. n div 2)" by (simp add: float_half_def)
  from capped_median_price [OF this _ run] ps run show ?thesis by simp
qed


end
