(* ===== verification/Node_Storage.thy ===== *)
theory Node_Storage
  imports Files
begin

text \<open>
  Where a learner keeps the nodes it knows: \<^verbatim>\<open>nulink/config/storages.py\<close>, in memory
  (\<^verbatim>\<open>ForgetfulNodeStorage\<close>) and in files (\<^verbatim>\<open>LocalFileBasedNodeStorage\<close>).

  Reading a node from bytes and writing its metadata are parameters; a node is told apart by the bytes of
  its stamp. The interface of the two is the locale \<open>node_storage\<close>, which both keep.
\<close>

record 'n node_lib =
  nl_stamp :: "'n \<Rightarrow> bytes"
  nl_metadata :: "'n \<Rightarrow> bytes"
  nl_from_metadata :: "bytes \<Rightarrow> 'n option"

datatype storage_error =
    UnknownNode | NoNodeMetadataFileFound | InvalidNodeMetadata | NodeStorageError
  | StorageValueError | StorageTypeError | StorageKeyError | StorageOsError os_error | CertificateExists

subsection \<open>The interface\<close>

locale node_storage =
  fixes stamp :: "'n \<Rightarrow> bytes"
    and wf :: "'s \<Rightarrow> bool"
    and store :: "'n \<Rightarrow> 's \<Rightarrow> (storage_error + 'r) \<times> 's"
    and get :: "bytes \<Rightarrow> 's \<Rightarrow> storage_error + 'n"
    and get_all :: "'s \<Rightarrow> 'n set"
    and clear :: "'s \<Rightarrow> 's"
  assumes store_works: "wf s \<Longrightarrow> \<exists>r s'. store n s = (Inr r, s') \<and> wf s'"
    and get_stored: "wf s \<Longrightarrow> store n s = (Inr r, s') \<Longrightarrow> get (stamp n) s' = Inr n"
    and get_other: "wf s \<Longrightarrow> store n s = (Inr r, s') \<Longrightarrow> k \<noteq> stamp n \<Longrightarrow> get k s' = get k s"
    and all_stored: "wf s \<Longrightarrow> get_all s = {n. get (stamp n) s = Inr n}"
    and clear_wf: "wf s \<Longrightarrow> wf (clear s)"
    and clear_get: "wf s \<Longrightarrow> \<exists>e. get k (clear s) = Inl e"
begin

lemma all_after_store:
  assumes "wf s" "store n s = (Inr r, s')"
  shows "get_all s' = insert n {m \<in> get_all s. stamp m \<noteq> stamp n}"
proof -
  have "wf s'" using store_works [OF assms(1), of n] assms(2) by auto
  have "m \<in> get_all s' \<longleftrightarrow> m = n \<or> m \<in> get_all s \<and> stamp m \<noteq> stamp n" for m
  proof (cases "stamp m = stamp n")
    case True
    with get_stored [OF assms] show ?thesis by (auto simp: all_stored [OF \<open>wf s'\<close>])
  next
    case False
    with get_other [OF assms False] show ?thesis by (auto simp: all_stored [OF \<open>wf s'\<close>] all_stored [OF assms(1)])
  qed
  then show ?thesis by auto
qed

lemma all_after_clear: "wf s \<Longrightarrow> get_all (clear s) = {}"
proof -
  assume wf: "wf s"
  have "n \<notin> get_all (clear s)" for n using clear_get [OF wf, of "stamp n"] by (auto simp: all_stored [OF clear_wf [OF wf]])
  then show ?thesis by blast
qed

text \<open>Storing nodes one after the other: of each stamp the last one stays.\<close>

lemma store_many:
  assumes "wf s" "distinct (map stamp ns)" "\<forall>m \<in> get_all s. stamp m \<notin> stamp ` set ns"
  shows "get_all (foldl (\<lambda>t n. snd (store n t)) s ns) = get_all s \<union> set ns"
  using assms
proof (induction ns arbitrary: s)
  case (Cons n ns)
  from store_works [OF Cons.prems(1), of n] obtain r s' where st: "store n s = (Inr r, s')" "wf s'" by blast
  note al = all_after_store [OF Cons.prems(1) st(1)]
  have "get_all s' = insert n (get_all s)" using al Cons.prems(3) by auto
  moreover have "\<forall>m \<in> get_all s'. stamp m \<notin> stamp ` set ns" using calculation Cons.prems(2,3) by auto
  ultimately show ?case using Cons.IH [OF st(2)] Cons.prems(2) st(1) by auto
qed simp

end

subsection \<open>In memory\<close>

record ('n, 'cert) forgetful =
  fg_metadata :: "(bytes, 'n) dict"
  fg_certificates :: "(bytes, 'cert) dict"
  fg_temp_dir :: path

definition new_forgetful :: "path \<Rightarrow> ('n, 'cert) forgetful" where
  "new_forgetful tmp = \<lparr>fg_metadata = [], fg_certificates = [], fg_temp_dir = tmp\<rparr>"

definition forgetful_store_metadata ::
  "'n node_lib \<Rightarrow> 'n \<Rightarrow> ('n, 'cert) forgetful \<Rightarrow> (storage_error + 'n) \<times> ('n, 'cert) forgetful" where
  "forgetful_store_metadata nl n s = (Inr n, s\<lparr>fg_metadata := dict_set (fg_metadata s) (nl_stamp nl n) n\<rparr>)"

text \<open>
  \<^verbatim>\<open>get\<close>: a stamp or a host, not both; a stamp always counts as given, an empty host does not. Metadata is never
  stored under a host.
\<close>

definition forgetful_get ::
  "string option \<Rightarrow> bytes option \<Rightarrow> bool \<Rightarrow> ('n, 'cert) forgetful \<Rightarrow> storage_error + ('n + 'cert)" where
  "forgetful_get host stamp certificate_only s =
     (let has_host = (host \<noteq> None \<and> host \<noteq> Some [])
      in if (stamp \<noteq> None) = has_host then Inl StorageValueError
         else if certificate_only
              then (case Option.bind stamp (dict_get (fg_certificates s)) of Some c \<Rightarrow> Inr (Inr c) | None \<Rightarrow> Inl UnknownNode)
              else (case Option.bind stamp (dict_get (fg_metadata s)) of Some n \<Rightarrow> Inr (Inl n) | None \<Rightarrow> Inl UnknownNode))"

definition forgetful_get_node :: "bytes \<Rightarrow> ('n, 'cert) forgetful \<Rightarrow> storage_error + 'n" where
  "forgetful_get_node k s =
     (case forgetful_get None (Some k) False s of Inl e \<Rightarrow> Inl e | Inr (Inl n) \<Rightarrow> Inr n | Inr (Inr _) \<Rightarrow> Inl StorageTypeError)"

definition forgetful_all :: "('n, 'cert) forgetful \<Rightarrow> 'n set" where
  "forgetful_all s = set (dict_values (fg_metadata s))"

definition forgetful_all_certificates :: "('n, 'cert) forgetful \<Rightarrow> 'cert set" where
  "forgetful_all_certificates s = set (dict_values (fg_certificates s))"

definition forgetful_clear :: "bool \<Rightarrow> bool \<Rightarrow> ('n, 'cert) forgetful \<Rightarrow> ('n, 'cert) forgetful" where
  "forgetful_clear metadata certificates s =
     (let s1 = (if metadata then s\<lparr>fg_metadata := []\<rparr> else s)
      in if certificates then s1\<lparr>fg_certificates := []\<rparr> else s1)"

definition certificate_filename :: "string \<Rightarrow> int \<Rightarrow> string" where
  "certificate_filename host port = host @ ''_'' @ show_int port @ ''.pem''"

definition forgetful_certificate_filepath :: "string \<Rightarrow> int \<Rightarrow> ('n, 'cert) forgetful \<Rightarrow> path" where
  "forgetful_certificate_filepath host port s = path_join (fg_temp_dir s) (certificate_filename host port)"

definition forgetful_wf :: "'n node_lib \<Rightarrow> ('n, 'cert) forgetful \<Rightarrow> bool" where
  "forgetful_wf nl s \<longleftrightarrow> wf_dict (fg_metadata s) \<and> (\<forall>(k, n) \<in> set (fg_metadata s). k = nl_stamp nl n)"

lemma forgetful_get_node_eq:
  "forgetful_get_node k s = (case dict_get (fg_metadata s) k of Some n \<Rightarrow> Inr n | None \<Rightarrow> Inl UnknownNode)"
  by (simp add: forgetful_get_node_def forgetful_get_def Let_def split: option.split)

interpretation fgs: node_storage "nl_stamp nl" "forgetful_wf nl" "forgetful_store_metadata nl" forgetful_get_node forgetful_all
  "forgetful_clear True True" for nl :: "'n node_lib"
proof unfold_locales
  fix s :: "('n, 'cert) forgetful"
  assume wf: "forgetful_wf nl s"
  have "forgetful_wf nl (s\<lparr>fg_metadata := dict_set (fg_metadata s) (nl_stamp nl n) n\<rparr>)" for n
    using wf by (auto simp: forgetful_wf_def dest!: in_dict_setD)
  then show "\<exists>r s'. forgetful_store_metadata nl n s = (Inr r, s') \<and> forgetful_wf nl s'" for n
    by (simp add: forgetful_store_metadata_def)
  show "forgetful_all s = {n. forgetful_get_node (nl_stamp nl n) s = Inr n}"
  proof (rule set_eqI)
    fix n
    have "n \<in> forgetful_all s \<longleftrightarrow> (nl_stamp nl n, n) \<in> set (fg_metadata s)"
      using wf by (force simp: forgetful_all_def forgetful_wf_def)
    also have "\<dots> \<longleftrightarrow> dict_get (fg_metadata s) (nl_stamp nl n) = Some n" using wf by (simp add: forgetful_wf_def)
    also have "\<dots> \<longleftrightarrow> forgetful_get_node (nl_stamp nl n) s = Inr n" by (simp add: forgetful_get_node_eq split: option.split)
    finally show "n \<in> forgetful_all s \<longleftrightarrow> n \<in> {n. forgetful_get_node (nl_stamp nl n) s = Inr n}" by simp
  qed
qed (auto simp: forgetful_store_metadata_def forgetful_get_node_eq dict_get_set forgetful_clear_def forgetful_wf_def split: option.splits)

subsection \<open>In files\<close>

record local_storage =
  lo_root :: path
  lo_metadata_dir :: path
  lo_certificates_dir :: path

text \<open>\<^verbatim>\<open>_generate_storage_filepaths\<close>, with the default configuration root as an argument.\<close>

definition generate_storage_filepaths ::
  "path \<Rightarrow> path option \<Rightarrow> path option \<Rightarrow> path option \<Rightarrow> path option \<Rightarrow> local_storage" where
  "generate_storage_filepaths default_config_root config_root storage_root metadata_dir certificates_dir =
     (let root = (case storage_root of Some r \<Rightarrow> r | None \<Rightarrow> (case config_root of Some c \<Rightarrow> c | None \<Rightarrow> default_config_root) @ [''known_nodes''])
      in \<lparr>lo_root = root,
          lo_metadata_dir = (case metadata_dir of Some d \<Rightarrow> d | None \<Rightarrow> root @ [''metadata'']),
          lo_certificates_dir = (case certificates_dir of Some d \<Rightarrow> d | None \<Rightarrow> root @ [''certificates''])\<rparr>)"

definition metadata_filename :: "bytes \<Rightarrow> string" where
  "metadata_filename stamp = hex stamp @ ''.node''"

text \<open>The stamp comes as bytes or as hexadecimal text. A path that is given is taken as it is.\<close>

datatype stamp_arg = StampBytes bytes | StampText string

definition generate_metadata_filepath :: "local_storage \<Rightarrow> stamp_arg \<Rightarrow> path option \<Rightarrow> storage_error + path" where
  "generate_metadata_filepath lo stamp given =
     (case (case stamp of StampBytes b \<Rightarrow> Some b | StampText t \<Rightarrow> fromhex t) of
        None \<Rightarrow> Inl StorageValueError
      | Some b \<Rightarrow> Inr (case given of Some p \<Rightarrow> p | None \<Rightarrow> path_join (lo_metadata_dir lo) (metadata_filename b)))"

definition read_metadata :: "'n node_lib \<Rightarrow> bytes fs \<Rightarrow> path \<Rightarrow> storage_error + 'n" where
  "read_metadata nl fs p =
     (case read_file fs p of
        Inl FileNotFound \<Rightarrow> Inl NoNodeMetadataFileFound
      | Inl _ \<Rightarrow> Inl InvalidNodeMetadata
      | Inr b \<Rightarrow> (case nl_from_metadata nl b of Some n \<Rightarrow> Inr n | None \<Rightarrow> Inl InvalidNodeMetadata))"

definition write_metadata :: "'n node_lib \<Rightarrow> path \<Rightarrow> 'n \<Rightarrow> bytes fs \<Rightarrow> (storage_error + path) \<times> bytes fs" where
  "write_metadata nl p n fs =
     (case makedirs True 0x1FF (butlast p) fs of
        Inl e \<Rightarrow> (Inl (StorageOsError e), fs)
      | Inr fs1 \<Rightarrow>
          (case write_file p (nl_metadata nl n) fs1 of
             Inl e \<Rightarrow> (Inl (StorageOsError e), fs1)
           | Inr fs2 \<Rightarrow> (Inr p, fs2)))"

definition local_store_metadata ::
  "'n node_lib \<Rightarrow> local_storage \<Rightarrow> path option \<Rightarrow> 'n \<Rightarrow> bytes fs \<Rightarrow> (storage_error + path) \<times> bytes fs" where
  "local_store_metadata nl lo given n fs =
     (case generate_metadata_filepath lo (StampBytes (nl_stamp nl n)) given of
        Inl e \<Rightarrow> (Inl e, fs)
      | Inr p \<Rightarrow> write_metadata nl p n fs)"

text \<open>\<^verbatim>\<open>get\<close>: the call for a certificate passes an argument its function does not have.\<close>

definition local_get :: "'n node_lib \<Rightarrow> local_storage \<Rightarrow> stamp_arg \<Rightarrow> bool \<Rightarrow> bytes fs \<Rightarrow> storage_error + 'n" where
  "local_get nl lo stamp certificate_only fs =
     (if certificate_only then Inl StorageTypeError
      else case generate_metadata_filepath lo stamp None of
             Inl e \<Rightarrow> Inl e
           | Inr p \<Rightarrow> read_metadata nl fs p)"

definition iterdir :: "bytes fs \<Rightarrow> path \<Rightarrow> storage_error + path list" where
  "iterdir fs p =
     (if is_dir fs p then Inr (listdir fs p)
      else if path_exists fs p then Inl (StorageOsError NotADirectory) else Inl (StorageOsError FileNotFound))"

definition local_all :: "'n node_lib \<Rightarrow> local_storage \<Rightarrow> bytes fs \<Rightarrow> storage_error + 'n set" where
  "local_all nl lo fs =
     (case iterdir fs (lo_metadata_dir lo) of
        Inl e \<Rightarrow> Inl e
      | Inr ps \<Rightarrow> Inr (set (concat (map (\<lambda>p. case read_metadata nl fs p of Inr n \<Rightarrow> [n] | Inl _ \<Rightarrow> []) ps))))"

definition unlink_file :: "'c fs \<Rightarrow> path \<Rightarrow> 'c fs" where
  "unlink_file fs p = (if is_file fs p then case remove_file p fs of Inr fs' \<Rightarrow> fs' | Inl _ \<Rightarrow> fs else fs)"

definition destroy_dir_contents :: "path \<Rightarrow> 'c fs \<Rightarrow> 'c fs" where
  "destroy_dir_contents p fs = (if \<not> is_dir fs p then fs else foldl unlink_file fs (listdir fs p))"

definition local_clear :: "local_storage \<Rightarrow> bool \<Rightarrow> bool \<Rightarrow> 'c fs \<Rightarrow> 'c fs" where
  "local_clear lo metadata certificates fs =
     (let fs1 = (if metadata then destroy_dir_contents (lo_metadata_dir lo) fs else fs)
      in if certificates then destroy_dir_contents (lo_certificates_dir lo) fs1 else fs1)"

text \<open>\<^verbatim>\<open>initialize\<close>: the directories, with mode \<^verbatim>\<open>0o755\<close>; those that exist are left.\<close>

fun make_storage_dirs :: "path list \<Rightarrow> bytes fs \<Rightarrow> (storage_error + unit) \<times> bytes fs" where
  "make_storage_dirs [] fs = (Inr (), fs)"
| "make_storage_dirs (p # ps) fs =
     (case mkdir 0x1ED p fs of
        Inr fs' \<Rightarrow> make_storage_dirs ps fs'
      | Inl FileExists \<Rightarrow> make_storage_dirs ps fs
      | Inl FileNotFound \<Rightarrow> (Inl NodeStorageError, fs)
      | Inl e \<Rightarrow> (Inl (StorageOsError e), fs))"

definition local_initialize :: "local_storage \<Rightarrow> bytes fs \<Rightarrow> (storage_error + unit) \<times> bytes fs" where
  "local_initialize lo = make_storage_dirs [lo_root lo, lo_metadata_dir lo, lo_certificates_dir lo]"

text \<open>\<^verbatim>\<open>payload\<close> and \<^verbatim>\<open>from_payload\<close>, which removes the type from the dictionary it is given.\<close>

definition local_payload :: "(path \<Rightarrow> string) \<Rightarrow> local_storage \<Rightarrow> (string, string) dict" where
  "local_payload show_path lo =
     [(''storage_type'', ''local''), (''storage_root'', show_path (lo_root lo)),
      (''metadata_dir'', show_path (lo_metadata_dir lo)), (''certificates_dir'', show_path (lo_certificates_dir lo))]"

definition local_from_payload ::
  "(string \<Rightarrow> path) \<Rightarrow> path \<Rightarrow> (string, string) dict \<Rightarrow> (storage_error + local_storage) \<times> (string, string) dict" where
  "local_from_payload read_path default_config_root payload =
     (case dict_get payload ''storage_type'' of
        None \<Rightarrow> (Inl StorageKeyError, payload)
      | Some t \<Rightarrow>
          if t \<noteq> ''local'' then (Inl NodeStorageError, payload)
          else let payload' = dict_del payload ''storage_type''
               in (Inr (generate_storage_filepaths default_config_root None
                     (map_option read_path (dict_get payload' ''storage_root''))
                     (map_option read_path (dict_get payload' ''metadata_dir''))
                     (map_option read_path (dict_get payload' ''certificates_dir''))), payload'))"

subsection \<open>Certificates\<close>

text \<open>What the TLS library says of a certificate: its common name, its PEM form, and what DER bytes hold.\<close>

record 'cert cert_lib =
  cl_common_name :: "'cert \<Rightarrow> string"
  cl_pem :: "'cert \<Rightarrow> bytes"
  cl_from_der :: "bytes \<Rightarrow> 'cert option"

definition write_tls_certificate ::
  "'cert cert_lib \<Rightarrow> (string \<Rightarrow> path) \<Rightarrow> bool \<Rightarrow> 'cert \<Rightarrow> bytes fs \<Rightarrow> (storage_error + path) \<times> bytes fs" where
  "write_tls_certificate cl filepath_of force cert fs =
     (let p = filepath_of (cl_common_name cl cert)
      in if \<not> force \<and> is_file fs p then (Inl CertificateExists, fs)
         else case makedirs True 0x1FF (butlast p) fs of
                Inl e \<Rightarrow> (Inl (StorageOsError e), fs)
              | Inr fs1 \<Rightarrow>
                  (case write_file p (cl_pem cl cert) fs1 of
                     Inl e \<Rightarrow> (Inl (StorageOsError e), fs1)
                   | Inr fs2 \<Rightarrow> (Inr p, fs2)))"

definition local_certificate_filepath :: "local_storage \<Rightarrow> int \<Rightarrow> string \<Rightarrow> path" where
  "local_certificate_filepath lo port host = path_join (lo_certificates_dir lo) (certificate_filename host port)"

definition local_store_certificate ::
  "'cert cert_lib \<Rightarrow> local_storage \<Rightarrow> bool \<Rightarrow> int \<Rightarrow> 'cert \<Rightarrow> bytes fs \<Rightarrow> (storage_error + path) \<times> bytes fs" where
  "local_store_certificate cl lo force port cert fs = write_tls_certificate cl (local_certificate_filepath lo port) force cert fs"

definition forgetful_store_certificate ::
  "'cert cert_lib \<Rightarrow> ('n, 'c) forgetful \<Rightarrow> int \<Rightarrow> 'cert \<Rightarrow> bytes fs \<Rightarrow> (storage_error + path) \<times> bytes fs" where
  "forgetful_store_certificate cl s port cert fs = write_tls_certificate cl (\<lambda>host. forgetful_certificate_filepath host port s) True cert fs"

text \<open>Certificates are written as PEM and read as DER.\<close>

definition read_node_tls_certificate :: "'cert cert_lib \<Rightarrow> bytes fs \<Rightarrow> path \<Rightarrow> storage_error + 'cert" where
  "read_node_tls_certificate cl fs p =
     (case read_file fs p of
        Inl e \<Rightarrow> Inl (StorageOsError e)
      | Inr b \<Rightarrow> (case cl_from_der cl b of Some c \<Rightarrow> Inr c | None \<Rightarrow> Inl StorageValueError))"

fun read_certificates :: "'cert cert_lib \<Rightarrow> bytes fs \<Rightarrow> path list \<Rightarrow> 'cert set \<Rightarrow> storage_error + 'cert set" where
  "read_certificates cl fs [] acc = Inr acc"
| "read_certificates cl fs (p # ps) acc =
     (case read_node_tls_certificate cl fs p of Inl e \<Rightarrow> Inl e | Inr c \<Rightarrow> read_certificates cl fs ps (insert c acc))"

definition local_all_certificates :: "'cert cert_lib \<Rightarrow> local_storage \<Rightarrow> bytes fs \<Rightarrow> storage_error + 'cert set" where
  "local_all_certificates cl lo fs =
     (case iterdir fs (lo_certificates_dir lo) of Inl e \<Rightarrow> Inl e | Inr ps \<Rightarrow> read_certificates cl fs ps {})"


subsection \<open>Files keep the contract\<close>

lemma hex_inject: "hex a = hex b \<Longrightarrow> a = b"
  by (metis fromhex_hex option.inject)

lemma metadata_filename_inject: "metadata_filename a = metadata_filename b \<longleftrightarrow> a = b"
  using hex_inject by (auto simp: metadata_filename_def)

lemma metadata_path: "path_join dir (metadata_filename b) = dir @ [metadata_filename b]"
proof -
  have "list_all (\<lambda>c. c \<noteq> CHR ''/'') hex_digits" by code_simp
  then have "CHR ''/'' \<notin> set (hex b)" using hex_chars [of b] by (auto simp: list_all_iff)
  then have "CHR ''/'' \<notin> set (metadata_filename b)" by (simp add: metadata_filename_def)
  then have "split_char (CHR ''/'') (metadata_filename b) = [metadata_filename b]" by (rule split_char_absent)
  moreover have "metadata_filename b \<noteq> ''''" "metadata_filename b \<noteq> ''.''" by (auto simp: metadata_filename_def append_eq_Cons_conv)
  ultimately show ?thesis by (simp add: path_join_def)
qed

lemma wf_fs_parent: "wf_fs fs \<Longrightarrow> path_exists fs p \<Longrightarrow> is_dir fs (butlast p)"
  by (cases "p = []") (auto simp: wf_fs_def path_exists_def is_dir_def [of fs "[]"] dest: dict_get_in_set)

lemma makedirs_existing: "wf_fs fs \<Longrightarrow> is_dir fs p \<Longrightarrow> makedirs True m p fs = Inr fs"
proof -
  assume wf: "wf_fs fs" and d: "is_dir fs p"
  have ok: "mkdir_ok True m p fs = Inr fs" using d is_dir_exists [OF d] by (simp add: mkdir_ok_def mkdir_def)
  show ?thesis
  proof (cases p rule: rev_cases)
    case Nil
    with ok show ?thesis by (simp add: makedirs_def)
  next
    case (snoc up x)
    with wf_fs_parent [OF wf is_dir_exists [OF d]] ok is_dir_exists [of fs up] show ?thesis by (simp add: makedirs_def)
  qed
qed

text \<open>
  A storage in order: its directory is there and holds only files; a file in it that is the metadata of a node
  has the name of that node; and reading the metadata of a node gives the node.
\<close>

definition local_wf :: "'n node_lib \<Rightarrow> local_storage \<Rightarrow> bytes fs \<Rightarrow> bool" where
  "local_wf nl lo fs \<longleftrightarrow> wf_fs fs \<and> is_dir fs (lo_metadata_dir lo) \<and>
     (\<forall>n. nl_from_metadata nl (nl_metadata nl n) = Some n) \<and>
     (\<forall>p. p \<noteq> [] \<longrightarrow> butlast p = lo_metadata_dir lo \<longrightarrow> path_exists fs p \<longrightarrow> is_file fs p \<and>
        (\<forall>n. read_metadata nl fs p = Inr n \<longrightarrow> last p = metadata_filename (nl_stamp nl n)))"

definition local_get_node :: "'n node_lib \<Rightarrow> local_storage \<Rightarrow> bytes \<Rightarrow> bytes fs \<Rightarrow> storage_error + 'n" where
  "local_get_node nl lo k fs = local_get nl lo (StampBytes k) False fs"

definition local_nodes :: "'n node_lib \<Rightarrow> local_storage \<Rightarrow> bytes fs \<Rightarrow> 'n set" where
  "local_nodes nl lo fs = (case local_all nl lo fs of Inr ns \<Rightarrow> ns | Inl _ \<Rightarrow> {})"

lemma local_get_node_eq: "local_get_node nl lo k fs = read_metadata nl fs (lo_metadata_dir lo @ [metadata_filename k])"
  by (simp add: local_get_node_def local_get_def generate_metadata_filepath_def metadata_path)

lemma local_all_eq:
  assumes "is_dir fs (lo_metadata_dir lo)"
  shows "local_all nl lo fs = Inr {n. \<exists>p \<in> set (listdir fs (lo_metadata_dir lo)). read_metadata nl fs p = Inr n}"
  using assms by (auto simp: local_all_def iterdir_def split: sum.splits)

lemma in_listdir: "p \<in> set (listdir fs d) \<longleftrightarrow> p \<noteq> [] \<and> butlast p = d \<and> dict_get (entries fs) p \<noteq> None"
  by (auto simp: listdir_def dict_get_None_iff)

lemma read_metadata_exists: "read_metadata nl fs p = Inr n \<Longrightarrow> is_file fs p"
  by (auto simp: read_metadata_def node_defs split: sum.splits os_error.splits option.splits if_splits file_node.splits)

lemma local_all_wf:
  assumes "local_wf nl lo fs"
  shows "local_all nl lo fs = Inr {n. local_get_node nl lo (nl_stamp nl n) fs = Inr n}"
proof -
  let ?d = "lo_metadata_dir lo"
  have d: "is_dir fs ?d" using assms by (simp add: local_wf_def)
  have "(\<exists>p \<in> set (listdir fs ?d). read_metadata nl fs p = Inr n) \<longleftrightarrow> local_get_node nl lo (nl_stamp nl n) fs = Inr n" for n
  proof
    assume "\<exists>p \<in> set (listdir fs ?d). read_metadata nl fs p = Inr n"
    then obtain p where p: "p \<noteq> []" "butlast p = ?d" "path_exists fs p" "read_metadata nl fs p = Inr n"
      by (auto simp: in_listdir path_exists_def)
    with assms have "last p = metadata_filename (nl_stamp nl n)" by (auto simp: local_wf_def)
    with p(1,2) have "p = ?d @ [metadata_filename (nl_stamp nl n)]" by (metis append_butlast_last_id)
    with p(4) show "local_get_node nl lo (nl_stamp nl n) fs = Inr n" by (simp add: local_get_node_eq)
  next
    let ?p = "?d @ [metadata_filename (nl_stamp nl n)]"
    assume r: "local_get_node nl lo (nl_stamp nl n) fs = Inr n"
    then have "is_file fs ?p" by (auto simp: local_get_node_eq dest: read_metadata_exists)
    then have "?p \<in> set (listdir fs ?d)" by (auto simp: in_listdir is_file_def split: option.splits)
    with r show "\<exists>p \<in> set (listdir fs ?d). read_metadata nl fs p = Inr n" by (auto simp: local_get_node_eq)
  qed
  then show ?thesis by (simp only: local_all_eq [OF d])
qed

lemma local_store_result:
  assumes "local_wf nl lo fs"
  shows "\<exists>m. local_store_metadata nl lo None n fs =
      (Inr (lo_metadata_dir lo @ [metadata_filename (nl_stamp nl n)]),
       put_node (lo_metadata_dir lo @ [metadata_filename (nl_stamp nl n)]) (File m (nl_metadata nl n)) fs) \<and>
    local_wf nl lo (put_node (lo_metadata_dir lo @ [metadata_filename (nl_stamp nl n)]) (File m (nl_metadata nl n)) fs)"
proof -
  let ?d = "lo_metadata_dir lo"
  let ?p = "?d @ [metadata_filename (nl_stamp nl n)]"
  have wf: "wf_fs fs" "is_dir fs ?d" "\<And>n. nl_from_metadata nl (nl_metadata nl n) = Some n" using assms by (auto simp: local_wf_def)
  have "\<not> is_dir fs ?p"
  proof
    assume p: "is_dir fs ?p"
    then have "is_file fs ?p" using assms is_dir_exists [OF p] unfolding local_wf_def by (metis butlast_snoc snoc_eq_iff_butlast)
    with p show False by (auto dest: is_file_exists)
  qed
  from write_file_into_dir [OF wf(1,2) this] obtain m where
    w: "write_file ?p (nl_metadata nl n) fs = Inr (put_node ?p (File m (nl_metadata nl n)) fs)"
    and wf': "wf_fs (put_node ?p (File m (nl_metadata nl n)) fs)" by blast
  let ?fs = "put_node ?p (File m (nl_metadata nl n)) fs"
  have "local_store_metadata nl lo None n fs = (Inr ?p, ?fs)"
    using w makedirs_existing [OF wf(1,2)] by (simp add: local_store_metadata_def generate_metadata_filepath_def write_metadata_def metadata_path)
  moreover have "local_wf nl lo ?fs"
    unfolding local_wf_def
  proof (intro conjI allI impI)
    show "wf_fs ?fs" by (fact wf')
    have "?d \<noteq> ?p" by simp
    then show "is_dir ?fs ?d" using wf(2) put_node_other(1) by blast
    show "nl_from_metadata nl (nl_metadata nl k) = Some k" for k by (fact wf(3))
    fix q assume q: "q \<noteq> []" "butlast q = ?d" "path_exists ?fs q"
    show "is_file ?fs q"
    proof (cases "q = ?p")
      case False
      with q assms show ?thesis by (auto simp: fs_simps local_wf_def)
    qed (simp add: fs_simps)
    fix k assume k: "read_metadata nl ?fs q = Inr k"
    show "last q = metadata_filename (nl_stamp nl k)"
    proof (cases "q = ?p")
      case True
      with k have "k = n" by (simp add: read_metadata_def read_put_same wf(3))
      with True show ?thesis by simp
    next
      case False
      with k q assms show ?thesis by (auto simp: read_metadata_def fs_simps local_wf_def)
    qed
  qed
  ultimately show ?thesis by blast
qed


text \<open>Removing files: what goes, and that the tree stays a tree.\<close>

lemma unlink_file_get:
  "dict_get (entries (unlink_file fs p)) q = (if q = p \<and> is_file fs p then None else dict_get (entries fs) q)"
  using is_file_exists [of fs p] by (auto simp: unlink_file_def remove_file_def dict_get_del)

lemma unlink_file_kinds:
  "is_dir (unlink_file fs p) q = is_dir fs q" "is_file (unlink_file fs p) q \<longleftrightarrow> is_file fs q \<and> q \<noteq> p"
  by (auto simp: is_dir_def is_file_def unlink_file_get split: option.splits file_node.splits)

lemma unlink_file_entries: "entries (unlink_file fs p) = (if is_file fs p then dict_del (entries fs) p else entries fs)"
  using is_file_exists [of fs p] by (auto simp: unlink_file_def remove_file_def)

lemma wf_unlink_file: "wf_fs fs \<Longrightarrow> wf_fs (unlink_file fs p)"
proof -
  assume wf: "wf_fs fs"
  have "set (dict_keys (entries (unlink_file fs p))) \<subseteq> set (dict_keys (entries fs))"
    unfolding unlink_file_entries using set_keys_del [of p "entries fs"] by auto
  moreover have "wf_dict (entries (unlink_file fs p))"
    using wf wf_dict_del [of "entries fs" p] by (simp add: unlink_file_entries wf_fs_def del: delete_keys)
  ultimately show ?thesis using wf unfolding wf_fs_def unlink_file_kinds by blast
qed

lemma unlink_all:
  "is_dir (foldl unlink_file fs ps) q = is_dir fs q"
  "dict_get (entries (foldl unlink_file fs ps)) q = (if q \<in> set ps \<and> is_file fs q then None else dict_get (entries fs) q)"
  "wf_fs fs \<Longrightarrow> wf_fs (foldl unlink_file fs ps)"
proof (induction ps arbitrary: fs)
  case (Cons p ps)
  { case 1 then show ?case using Cons(1) [of "unlink_file fs p"] by (simp add: unlink_file_kinds)
  next
    case 2 show ?case using Cons(2) [of "unlink_file fs p"] by (auto simp: unlink_file_get unlink_file_kinds)
  next
    case 3 then show ?case using Cons(3) [OF wf_unlink_file] by simp }
qed simp_all

lemma destroy_keeps:
  "is_dir (destroy_dir_contents d fs) q = is_dir fs q"
  "dict_get (entries (destroy_dir_contents d fs)) q \<in> {None, dict_get (entries fs) q}"
  "wf_fs fs \<Longrightarrow> wf_fs (destroy_dir_contents d fs)"
  by (auto simp: destroy_dir_contents_def unlink_all)

lemma destroy_empties:
  assumes "is_dir fs d" "q \<noteq> []" "butlast q = d" "path_exists fs q \<longrightarrow> is_file fs q"
  shows "dict_get (entries (destroy_dir_contents d fs)) q = None"
  using assms by (auto simp: destroy_dir_contents_def unlink_all in_listdir path_exists_def)

lemma local_clear_empty:
  assumes "local_wf nl lo fs" "q \<noteq> []" "butlast q = lo_metadata_dir lo"
  shows "dict_get (entries (local_clear lo True True fs)) q = None"
proof -
  let ?fs1 = "destroy_dir_contents (lo_metadata_dir lo) fs"
  have "dict_get (entries ?fs1) q = None" using assms by (intro destroy_empties) (auto simp: local_wf_def)
  with destroy_keeps(2) [of "lo_certificates_dir lo" ?fs1 q] show ?thesis by (simp add: local_clear_def)
qed

interpretation los: node_storage "nl_stamp nl" "local_wf nl lo" "local_store_metadata nl lo None" "local_get_node nl lo"
  "local_nodes nl lo" "local_clear lo True True" for nl :: "'n node_lib" and lo
proof unfold_locales
  fix s :: "bytes fs" and n :: 'n and r and s' :: "bytes fs" and k
  let ?p = "\<lambda>k. lo_metadata_dir lo @ [metadata_filename k]"
  assume wf: "local_wf nl lo s"
  from local_store_result [OF wf] show "\<exists>r s'. local_store_metadata nl lo None n s = (Inr r, s') \<and> local_wf nl lo s'" by blast
  show "local_nodes nl lo s = {n. local_get_node nl lo (nl_stamp nl n) s = Inr n}"
    by (simp add: local_nodes_def local_all_wf [OF wf])
  have gone: "dict_get (entries (local_clear lo True True s)) q = None" if "q \<noteq> []" "butlast q = lo_metadata_dir lo" for q
    using local_clear_empty [OF wf that] .
  show "local_wf nl lo (local_clear lo True True s)"
    using wf gone by (auto simp: local_wf_def local_clear_def destroy_keeps path_exists_def)
  have "read_file (local_clear lo True True s) (?p k) = Inl FileNotFound"
    using gone [of "?p k"] by (simp add: node_defs)
  then show "\<exists>e. local_get_node nl lo k (local_clear lo True True s) = Inl e" by (simp add: local_get_node_eq read_metadata_def)
  assume st: "local_store_metadata nl lo None n s = (Inr r, s')"
  from local_store_result [OF wf, of n] st obtain m where s': "s' = put_node (?p (nl_stamp nl n)) (File m (nl_metadata nl n)) s" by auto
  have "nl_from_metadata nl (nl_metadata nl n) = Some n" using wf by (simp add: local_wf_def)
  then show "local_get_node nl lo (nl_stamp nl n) s' = Inr n"
    by (simp add: local_get_node_eq read_metadata_def s' read_put_same)
  assume "k \<noteq> nl_stamp nl n"
  then have "?p k \<noteq> ?p (nl_stamp nl n)" by (simp add: metadata_filename_inject)
  then show "local_get_node nl lo k s' = local_get_node nl lo k s"
    by (simp add: local_get_node_eq read_metadata_def s' fs_simps)
qed

text \<open>
  C31. Nodes stored in files, in a storage that is in order: each is found by its stamp; of nodes with different
  stamps all are listed, beside those that were there; and a cleared storage lists none and finds none.
\<close>

theorem local_storage_roundtrip:
  assumes "local_wf nl lo fs" "distinct (map (nl_stamp nl) ns)" "\<forall>m \<in> local_nodes nl lo fs. nl_stamp nl m \<notin> nl_stamp nl ` set ns"
  shows "local_nodes nl lo (foldl (\<lambda>t n. snd (local_store_metadata nl lo None n t)) fs ns) = local_nodes nl lo fs \<union> set ns \<and>
    (\<exists>p fs'. local_store_metadata nl lo None n fs = (Inr p, fs') \<and> local_get_node nl lo (nl_stamp nl n) fs' = Inr n) \<and>
    local_nodes nl lo (local_clear lo True True fs) = {} \<and> (\<exists>e. local_get_node nl lo k (local_clear lo True True fs) = Inl e)"
  using los.store_many [OF assms] los.store_works [OF assms(1), of n] los.get_stored [OF assms(1), of n]
    los.all_after_clear [OF assms(1)] los.clear_get [OF assms(1), of k] by blast

definition demo_node_lib :: "nat node_lib" where
  "demo_node_lib = \<lparr>nl_stamp = (\<lambda>n. replicate n 7), nl_metadata = (\<lambda>n. replicate n 7), nl_from_metadata = (\<lambda>b. if b = replicate (length b) 7 then Some (length b) else None)\<rparr>"

definition demo_storage :: local_storage where
  "demo_storage = \<lparr>lo_root = [''r''], lo_metadata_dir = [''r'', ''m''], lo_certificates_dir = [''r'', ''c'']\<rparr>"

definition demo_storage_fs :: "bytes fs" where
  "demo_storage_fs = \<lparr>entries = [([''r''], Dir 0), ([''r'', ''m''], Dir 0)], umask = 0\<rparr>"

lemma demo_storage_wf: "local_wf demo_node_lib demo_storage demo_storage_fs"
proof -
  have "\<not> path_exists demo_storage_fs p" if "p \<noteq> []" "butlast p = [''r'', ''m'']" for p
    using that by (auto simp: demo_storage_fs_def path_exists_def)
  moreover have "wf_fs demo_storage_fs" "is_dir demo_storage_fs [''r'', ''m'']" by (simp_all add: wf_fs_def demo_storage_fs_def is_dir_def)
  ultimately show ?thesis by (simp add: local_wf_def demo_storage_def demo_node_lib_def)
qed

theorem local_storage_roundtrip_witness:
  "local_nodes demo_node_lib demo_storage
     (foldl (\<lambda>t n. snd (local_store_metadata demo_node_lib demo_storage None n t)) demo_storage_fs [1, 2]) = {1, 2}"
proof -
  have none: "local_nodes demo_node_lib demo_storage demo_storage_fs = {}"
    by (simp add: local_nodes_def local_all_def iterdir_def is_dir_def listdir_def demo_storage_def demo_storage_fs_def)
  have "distinct (map (nl_stamp demo_node_lib) [1, 2])" by (simp add: demo_node_lib_def numeral_2_eq_2)
  with local_storage_roundtrip [OF demo_storage_wf, of "[1, 2]"] none show ?thesis by simp
qed

text \<open>
  A certificate that was stored is not read back when its PEM form is no DER, as with every certificate of the TLS library:
  listing certificates then raises.
\<close>

lemma stored_certificate_unreadable:
  assumes "cl_from_der cl (cl_pem cl c) = None" "p \<noteq> []" "read_file fs p = Inr (cl_pem cl c)"
  shows "read_certificates cl fs (p # ps) acc = Inl StorageValueError"
  using assms by (simp add: read_node_tls_certificate_def)

text \<open>A payload gives the storage back, once: the dictionary has lost its type after the first use.\<close>

lemma local_payload_roundtrip:
  assumes "\<forall>p. read_path (show_path p) = p"
  shows "local_from_payload read_path croot (local_payload show_path lo) =
      (Inr lo, dict_del (local_payload show_path lo) ''storage_type'')"
    "fst (local_from_payload read_path croot (dict_del (local_payload show_path lo) ''storage_type'')) = Inl StorageKeyError"
  using assms by (simp_all add: local_from_payload_def local_payload_def generate_storage_filepaths_def)


end
