(* ===== verification/Contract_Registry.thy ===== *)
theory Contract_Registry
  imports Py_Text Files
begin

text \<open>
  The registry of contracts of \<^verbatim>\<open>nulink/blockchain/eth/registry.py\<close> (in a file and in memory, with the sources it
  is fetched from), and what \<^verbatim>\<open>nulink/blockchain/eth/interfaces.py\<close> looks up in it: a contract
  by name, through a proxy or not, the proxy of a target, and a compiled contract by version.

  A registry holds JSON; \<^verbatim>\<open>json.loads\<close> undoes \<^verbatim>\<open>json.dumps\<close>, so a file holds the value. The hash of a registry, what a
  source publishes and the target a proxy reports on the chain are arguments. The locale \<open>contract_registry\<close> is what
  enrolling and searching rely on; both kinds of registry meet it.
\<close>

subsection \<open>Data\<close>

datatype reg_json = RNull | RText string | RAtom string | RList "reg_json list" | RDict "(string \<times> reg_json) list"

datatype registry_error =
  RegValueError | RegTypeError | RegAttributeError | RegistryError | NoRegistry | UnknownContract | InvalidRegistry |
  CantOverwriteRegistry | RegUnicodeError | RegOsError os_error

text \<open>The subclasses of \<^verbatim>\<open>RegistryError\<close>.\<close>

fun is_registry_error :: "registry_error \<Rightarrow> bool" where
  "is_registry_error RegistryError = True"
| "is_registry_error NoRegistry = True"
| "is_registry_error UnknownContract = True"
| "is_registry_error InvalidRegistry = True"
| "is_registry_error CantOverwriteRegistry = True"
| "is_registry_error _ = False"

text \<open>Python's iteration over a JSON value, and the unpacking of four fields.\<close>

fun iterate :: "reg_json \<Rightarrow> registry_error + reg_json list" where
  "iterate (RList xs) = Inr xs"
| "iterate (RText s) = Inr (map (\<lambda>c. RText [c]) s)"
| "iterate (RDict d) = Inr (map (\<lambda>(k, _). RText k) d)"
| "iterate _ = Inl RegTypeError"

definition unpack4 :: "reg_json \<Rightarrow> registry_error + reg_json \<times> reg_json \<times> reg_json \<times> reg_json" where
  "unpack4 contract =
     (case iterate contract of
        Inl e \<Rightarrow> Inl e
      | Inr [name, version, address, abi] \<Rightarrow> Inr (name, version, address, abi)
      | Inr _ \<Rightarrow> Inl RegValueError)"

text \<open>An argument: \<^verbatim>\<open>None\<close> or text. Only text that is not empty counts as given.\<close>

definition given_text :: "string option \<Rightarrow> bool" where
  "given_text a \<longleftrightarrow> a \<noteq> None \<and> a \<noteq> Some []"

fun equals_arg :: "string option \<Rightarrow> reg_json \<Rightarrow> bool" where
  "equals_arg None v \<longleftrightarrow> v = RNull"
| "equals_arg (Some s) v \<longleftrightarrow> v = RText s"

subsection \<open>Searching\<close>

definition record_matches :: "string option \<Rightarrow> string option \<Rightarrow> string option \<Rightarrow> reg_json \<times> reg_json \<times> reg_json \<times> reg_json \<Rightarrow> bool" where
  "record_matches contract_name contract_version contract_address = (\<lambda>(name, version, address, abi).
     equals_arg contract_address address \<or>
     (equals_arg contract_name name \<and> (contract_version = None \<or> equals_arg contract_version version)))"

fun matching :: "string option \<Rightarrow> string option \<Rightarrow> string option \<Rightarrow> reg_json list \<Rightarrow> registry_error + reg_json list" where
  "matching name version address [] = Inr []"
| "matching name version address (contract # rest) =
     (case unpack4 contract of
        Inl RegValueError \<Rightarrow> Inl InvalidRegistry
      | Inl e \<Rightarrow> Inl e
      | Inr rec \<Rightarrow>
          (case matching name version address rest of
             Inl e \<Rightarrow> Inl e
           | Inr ms \<Rightarrow> Inr (if record_matches name version address rec then contract # ms else ms)))"

datatype search_result = Records "reg_json list" | OneRecord reg_json

definition search ::
  "registry_error + reg_json \<Rightarrow> string option \<Rightarrow> string option \<Rightarrow> string option \<Rightarrow> registry_error + search_result" where
  "search registry_data contract_name contract_version contract_address =
     (if given_text contract_name = given_text contract_address then Inl RegValueError
      else if given_text contract_version \<and> \<not> given_text contract_name then Inl RegValueError
      else case registry_data of
             Inl e \<Rightarrow> Inl e
           | Inr v \<Rightarrow>
               (case iterate v of
                  Inl e \<Rightarrow> Inl e
                | Inr contracts \<Rightarrow>
                    (case matching contract_name contract_version contract_address contracts of
                       Inl e \<Rightarrow> Inl e
                     | Inr [] \<Rightarrow> Inl UnknownContract
                     | Inr (c # cs) \<Rightarrow>
                         if given_text contract_address \<and> cs \<noteq> [] then Inl InvalidRegistry
                         else Inr (if given_text contract_name then Records (c # cs) else OneRecord c))))"

text \<open>\<^verbatim>\<open>enroll\<close>, over what a registry reads and writes.\<close>

definition contract_record :: "string \<Rightarrow> string \<Rightarrow> string \<Rightarrow> reg_json \<Rightarrow> reg_json" where
  "contract_record name version address abi = RList [RText name, RText version, RText address, abi]"

definition enroll ::
  "('s \<Rightarrow> registry_error + reg_json) \<Rightarrow> (reg_json \<Rightarrow> 's \<Rightarrow> (registry_error + unit) \<times> 's) \<Rightarrow>
   string \<Rightarrow> string \<Rightarrow> reg_json \<Rightarrow> string \<Rightarrow> 's \<Rightarrow> (registry_error + unit) \<times> 's" where
  "enroll read write contract_name contract_address contract_abi contract_version s =
     (let contract_data = contract_record contract_name contract_version contract_address contract_abi
      in case (case read s of Inl e \<Rightarrow> if is_registry_error e then Inr (RList []) else Inl e | Inr v \<Rightarrow> Inr v) of
           Inl e \<Rightarrow> (Inl e, s)
         | Inr (RList registry_data) \<Rightarrow> write (RList (registry_data @ [contract_data])) s
         | Inr _ \<Rightarrow> (Inl RegAttributeError, s))"

subsection \<open>In a file\<close>

datatype reg_text = RegEmpty | RegNotJson | RegUndecodable | RegJson reg_json

record local_registry =
  lr_filepath :: path
  lr_id :: "string option"

type_synonym local_state = "local_registry \<times> reg_text fs"

definition new_local_registry :: "path \<Rightarrow> local_registry" where
  "new_local_registry filepath = \<lparr>lr_filepath = filepath, lr_id = None\<rparr>"

definition local_read :: "local_state \<Rightarrow> registry_error + reg_json" where
  "local_read = (\<lambda>(r, fs).
     (case read_file fs (lr_filepath r) of
        Inl FileNotFound \<Rightarrow> Inl NoRegistry
      | Inl e \<Rightarrow> Inl (RegOsError e)
      | Inr RegEmpty \<Rightarrow> Inr (RList [])
      | Inr RegNotJson \<Rightarrow> Inl RegistryError
      | Inr RegUndecodable \<Rightarrow> Inl RegUnicodeError
      | Inr (RegJson v) \<Rightarrow> Inr v))"

definition local_write :: "reg_json \<Rightarrow> local_state \<Rightarrow> (registry_error + unit) \<times> local_state" where
  "local_write registry_data = (\<lambda>(r, fs).
     (case makedirs True 0x1FF (butlast (lr_filepath r)) fs of
        Inl e \<Rightarrow> (Inl (RegOsError e), (r, fs))
      | Inr fs1 \<Rightarrow>
          (case write_file (lr_filepath r) (RegJson registry_data) fs1 of
             Inl e \<Rightarrow> (Inl (RegOsError e), (r, fs1))
           | Inr fs2 \<Rightarrow> (Inr (), (r\<lparr>lr_id := None\<rparr>, fs2)))))"

definition swap_registry :: "path \<Rightarrow> local_registry \<Rightarrow> local_registry" where
  "swap_registry filepath r = r\<lparr>lr_filepath := filepath\<rparr>"

definition local_destroy :: "local_state \<Rightarrow> (registry_error + unit) \<times> local_state" where
  "local_destroy = (\<lambda>(r, fs).
     (case remove_file (lr_filepath r) fs of
        Inl e \<Rightarrow> (Inl (RegOsError e), (r, fs))
      | Inr fs' \<Rightarrow> (Inr (), (r, fs'))))"

text \<open>
  \<^verbatim>\<open>TemporaryContractRegistry\<close>: the path that \<^verbatim>\<open>mkstemp\<close> returns is a text without a parent, so writing fails until
  a path is committed. Committing empties what is at the path and copies the temporary file there.
\<close>

record temporary_registry =
  tr_registry :: local_registry
  tr_temp_filepath :: "path option"
  tr_path_object :: bool

definition temporary_write :: "reg_json \<Rightarrow> temporary_registry \<times> reg_text fs \<Rightarrow> (registry_error + unit) \<times> temporary_registry \<times> reg_text fs" where
  "temporary_write registry_data = (\<lambda>(t, fs).
     (if \<not> tr_path_object t then (Inl RegAttributeError, (t, fs))
      else case local_write registry_data (tr_registry t, fs) of
             (res, (r, fs')) \<Rightarrow> (res, (t\<lparr>tr_registry := r\<rparr>, fs'))))"

definition temporary_commit :: "path \<Rightarrow> temporary_registry \<times> reg_text fs \<Rightarrow> (registry_error + path) \<times> temporary_registry \<times> reg_text fs" where
  "temporary_commit filepath = (\<lambda>(t, fs).
     (let t1 = t\<lparr>tr_registry := swap_registry filepath (tr_registry t), tr_path_object := True\<rparr>
      in case (if path_exists fs filepath then write_file filepath RegEmpty fs else Inr fs) of
           Inl e \<Rightarrow> (Inl (RegOsError e), (t1, fs))
         | Inr fs1 \<Rightarrow>
             (case tr_temp_filepath t1 of
                None \<Rightarrow> (Inl RegTypeError, (t1, fs1))
              | Some temp \<Rightarrow>
                  (case read_file fs1 temp of
                     Inl e \<Rightarrow> (Inl (RegOsError e), (t1, fs1))
                   | Inr c \<Rightarrow>
                       (case write_file filepath c fs1 of
                          Inl e \<Rightarrow> (Inl (RegOsError e), (t1, fs1))
                        | Inr fs2 \<Rightarrow> (Inr filepath, (t1\<lparr>tr_temp_filepath := None\<rparr>, fs2)))))))"

subsection \<open>In memory\<close>

text \<open>The data of a registry in memory: nothing, the text of a value, or the dictionary that \<^verbatim>\<open>_destroy\<close> puts there.\<close>

datatype memory_data = NoData | DataText reg_json | DataDict

record memory_registry =
  mr_registry_data :: memory_data
  mr_id :: "string option"

definition new_memory_registry :: memory_registry where
  "new_memory_registry = \<lparr>mr_registry_data = NoData, mr_id = None\<rparr>"

definition memory_read :: "memory_registry \<Rightarrow> registry_error + reg_json" where
  "memory_read r = (case mr_registry_data r of NoData \<Rightarrow> Inr (RList []) | DataText v \<Rightarrow> Inr v | DataDict \<Rightarrow> Inl RegTypeError)"

definition memory_write :: "reg_json \<Rightarrow> memory_registry \<Rightarrow> (registry_error + unit) \<times> memory_registry" where
  "memory_write registry_data r = (Inr (), r\<lparr>mr_registry_data := DataText registry_data, mr_id := None\<rparr>)"

definition memory_clear :: "memory_registry \<Rightarrow> memory_registry" where
  "memory_clear r = r\<lparr>mr_registry_data := NoData\<rparr>"

definition memory_destroy :: "memory_registry \<Rightarrow> memory_registry" where
  "memory_destroy r = r\<lparr>mr_registry_data := DataDict\<rparr>"

text \<open>\<^verbatim>\<open>id\<close>, which is computed once and forgotten by a write.\<close>

definition memory_id :: "(reg_json \<Rightarrow> string) \<Rightarrow> memory_registry \<Rightarrow> (registry_error + string) \<times> memory_registry" where
  "memory_id blake r =
     (case mr_id r of
        Some i \<Rightarrow> (Inr i, r)
      | None \<Rightarrow> (case memory_read r of Inl e \<Rightarrow> (Inl e, r) | Inr v \<Rightarrow> (Inr (blake v), r\<lparr>mr_id := Some (blake v)\<rparr>)))"

definition local_id :: "(reg_json \<Rightarrow> string) \<Rightarrow> local_state \<Rightarrow> (registry_error + string) \<times> local_state" where
  "local_id blake = (\<lambda>(r, fs).
     (case lr_id r of
        Some i \<Rightarrow> (Inr i, (r, fs))
      | None \<Rightarrow> (case local_read (r, fs) of Inl e \<Rightarrow> (Inl e, (r, fs)) | Inr v \<Rightarrow> (Inr (blake v), (r\<lparr>lr_id := Some (blake v)\<rparr>, fs)))))"

text \<open>
  \<^verbatim>\<open>commit\<close>: a file that exists is left unless it may be overwritten (its id, for the message, may raise first).
  Opening the file for writing empties it before the data, which may not be text, is written.
\<close>

definition memory_commit ::
  "(reg_json \<Rightarrow> string) \<Rightarrow> path \<Rightarrow> path option \<Rightarrow> bool \<Rightarrow> memory_registry \<times> reg_text fs \<Rightarrow> (registry_error + path) \<times> memory_registry \<times> reg_text fs" where
  "memory_commit blake default_path filepath overwrite = (\<lambda>(r, fs).
     (let p = (case filepath of Some q \<Rightarrow> q | None \<Rightarrow> default_path)
      in if path_exists fs p \<and> \<not> overwrite then
           (case local_id blake (new_local_registry p, fs) of
              (Inl e, _) \<Rightarrow> (Inl e, (r, fs))
            | (Inr _, _) \<Rightarrow>
                (case memory_id blake r of (Inl e, r') \<Rightarrow> (Inl e, (r', fs)) | (Inr _, r') \<Rightarrow> (Inl CantOverwriteRegistry, (r', fs))))
         else case write_file p RegEmpty fs of
                Inl e \<Rightarrow> (Inl (RegOsError e), (r, fs))
              | Inr fs1 \<Rightarrow>
                  (case mr_registry_data r of
                     DataText v \<Rightarrow>
                       (case write_file p (RegJson v) fs1 of
                          Inl e \<Rightarrow> (Inl (RegOsError e), (r, fs1))
                        | Inr fs2 \<Rightarrow> (Inr p, (r, fs2)))
                   | _ \<Rightarrow> (Inl RegTypeError, (r, fs1)))))"


subsection \<open>Sources\<close>

text \<open>
  A source publishes a registry, is unavailable, or fails otherwise. The chain holds instances, with the name and network they
  were made for, and classes, which are instantiated here.
\<close>

datatype publication = Publication string | SourceUnavailable | SourceFails

datatype registry_source =
  SourceInstance string string publication
| SourceClass bool "string \<Rightarrow> publication"

datatype source_error = SourceValueError | RegistrySourceError | NoSourcesAvailable

definition REGISTRY_NAME :: string where "REGISTRY_NAME = ''contract_registry.json''"

definition NETWORKS :: "string list" where
  "NETWORKS = [''mainnet'', ''oryx'', ''ibex'', ''lynx'', ''polygon'', ''mumbai'', ''heco'', ''heco_testnet'',
     ''bsc'', ''bsc_testnet'', ''horus'', ''conflux_espace'', ''conflux_espace_testnet'']"

fun source_publication :: "string \<Rightarrow> registry_source \<Rightarrow> source_error + publication" where
  "source_publication network (SourceInstance name net p) =
     (if (name, net) \<noteq> (REGISTRY_NAME, network) then Inl SourceValueError else Inr p)"
| "source_publication network (SourceClass is_primary fetch) =
     (if network \<notin> set NETWORKS then Inl SourceValueError else Inr (fetch network))"

fun fetch_latest_publication :: "string \<Rightarrow> registry_source list \<Rightarrow> source_error + string" where
  "fetch_latest_publication network [] = Inl NoSourcesAvailable"
| "fetch_latest_publication network (s # sources) =
     (case source_publication network s of
        Inl e \<Rightarrow> Inl e
      | Inr SourceUnavailable \<Rightarrow> fetch_latest_publication network sources
      | Inr SourceFails \<Rightarrow> Inl RegistrySourceError
      | Inr (Publication text) \<Rightarrow> Inr text)"

text \<open>\<^verbatim>\<open>from_latest_publication\<close>: \<open>loads\<close> is \<^verbatim>\<open>json.loads\<close>; the data goes into a new registry.\<close>

definition from_latest_publication ::
  "(string \<Rightarrow> reg_json option) \<Rightarrow> (reg_json \<Rightarrow> 's \<Rightarrow> (registry_error + unit) \<times> 's) \<Rightarrow> string \<Rightarrow> registry_source list \<Rightarrow> 's \<Rightarrow>
   (source_error + (registry_error + unit)) \<times> 's" where
  "from_latest_publication loads write network sources s =
     (case fetch_latest_publication network sources of
        Inl e \<Rightarrow> (Inl e, s)
      | Inr registry_data \<Rightarrow>
          (case loads registry_data of
             None \<Rightarrow> (Inr (Inl RegValueError), s)
           | Some v \<Rightarrow> (case write v s of (res, s') \<Rightarrow> (Inr res, s'))))"

text \<open>The sources of a manager; the chain of the package is the embedded source, which is not primary.\<close>

fun is_primary_source :: "registry_source \<Rightarrow> bool" where
  "is_primary_source (SourceClass is_primary _) = is_primary"
| "is_primary_source (SourceInstance _ _ _) = False"

definition source_manager :: "registry_source list \<Rightarrow> registry_source list option \<Rightarrow> bool \<Rightarrow> source_error + registry_source list" where
  "source_manager fallback_chain sources only_primary =
     (let has_sources = (case sources of Some (_ # _) \<Rightarrow> True | _ \<Rightarrow> False)
      in if only_primary \<and> has_sources then Inl SourceValueError
         else if only_primary then Inr (filter is_primary_source fallback_chain)
         else Inr (if has_sources then the sources else fallback_chain))"

lemma only_primary_embedded_has_none:
  "source_manager [SourceClass False fetch] None True = Inr []" "fetch_latest_publication network [] = Inl NoSourcesAvailable"
  by (simp_all add: source_manager_def)

subsection \<open>Looking up contracts\<close>

datatype interface_error =
  FromRegistry registry_error | InterfaceError | IfUnknownContract | IfValueError | IfIndexError | IfTypeError

text \<open>A Python list indexed with an integer, and the index of an enrollment.\<close>

definition py_item :: "'a list \<Rightarrow> int \<Rightarrow> 'a option" where
  "py_item xs i =
     (if 0 \<le> i \<and> i < int (length xs) then Some (xs ! nat i)
      else if - int (length xs) \<le> i \<and> i < 0 then Some (xs ! nat (int (length xs) + i))
      else None)"

datatype enrollment = EnrollmentNumber int | EnrollmentName string

fun get_enrollment_version_index :: "enrollment \<Rightarrow> nat \<Rightarrow> interface_error + int" where
  "get_enrollment_version_index (EnrollmentNumber i) enrollments =
     (if i > int enrollments - 1 then Inl IfValueError else Inr i)"
| "get_enrollment_version_index (EnrollmentName s) enrollments =
     (if s = ''latest'' then Inr (- 1)
      else if s = ''earliest'' then Inr 0
      else case parse_int s of
             None \<Rightarrow> Inl IfValueError
           | Some i \<Rightarrow> if i > int enrollments - 1 then Inl IfValueError else Inr i)"

text \<open>
  A search by name, as the interface calls it, with the records unpacked. (The registry has checked that they have
  four fields, so unpacking cannot fail.)
\<close>

type_synonym contract_fields = "reg_json \<times> reg_json \<times> reg_json \<times> reg_json"

definition search_name :: "registry_error + reg_json \<Rightarrow> string \<Rightarrow> string option \<Rightarrow> interface_error + contract_fields list" where
  "search_name registry_data name version =
     (case search registry_data (Some name) version None of
        Inl e \<Rightarrow> Inl (FromRegistry e)
      | Inr (Records rs) \<Rightarrow> Inr (map (\<lambda>r. case unpack4 r of Inr f \<Rightarrow> f | Inl _ \<Rightarrow> (RNull, RNull, RNull, RNull)) rs)
      | Inr (OneRecord _) \<Rightarrow> Inl IfTypeError)"

text \<open>
  The pairs of a proxy and a record it targets on the chain: the address, version and interface of the contract
  they make. With a version, the version and interface are those of the record that was asked for.
\<close>

definition proxy_results ::
  "(reg_json \<Rightarrow> reg_json \<Rightarrow> reg_json) \<Rightarrow> bool \<Rightarrow> contract_fields option \<Rightarrow> contract_fields list \<Rightarrow> contract_fields list \<Rightarrow> (reg_json \<times> reg_json \<times> reg_json) list" where
  "proxy_results target use_proxy_address versioned all_records proxy_records =
     concat (map (\<lambda>(_, _, proxy_address, proxy_abi).
       let live = target proxy_abi proxy_address
       in concat (map (\<lambda>(_, target_version, target_address, target_abi).
            if target_address = live then
              let (v, abi) = (case versioned of Some (_, rv, _, rabi) \<Rightarrow> (rv, rabi) | None \<Rightarrow> (target_version, target_abi))
              in [(if use_proxy_address then proxy_address else target_address, v, abi)]
            else []) all_records)) proxy_records)"

definition get_contract_by_name ::
  "(reg_json \<Rightarrow> reg_json \<Rightarrow> reg_json) \<Rightarrow> registry_error + reg_json \<Rightarrow> string \<Rightarrow> string option \<Rightarrow> enrollment option \<Rightarrow> string option \<Rightarrow> bool \<Rightarrow>
   interface_error + (reg_json \<times> reg_json \<times> reg_json)" where
  "get_contract_by_name target registry_data contract_name contract_version enrollment_version proxy_name use_proxy_address =
     (case search_name registry_data contract_name contract_version of
        Inl e \<Rightarrow> Inl e
      | Inr [] \<Rightarrow> Inl IfUnknownContract
      | Inr records \<Rightarrow>
          if given_text contract_version \<and> length records \<noteq> 1 then Inl InterfaceError
          else if given_text proxy_name then
            (case (if given_text contract_version then search_name registry_data contract_name None else Inr records) of
               Inl e \<Rightarrow> Inl e
             | Inr all_records \<Rightarrow>
                 (case search_name registry_data (the proxy_name) None of
                    Inl e \<Rightarrow> Inl e
                  | Inr proxies \<Rightarrow>
                      (case proxy_results target use_proxy_address (if given_text contract_version then Some (hd records) else None) all_records proxies of
                         [] \<Rightarrow> Inl IfUnknownContract
                       | [result] \<Rightarrow> Inr result
                       | _ \<Rightarrow> Inl InterfaceError)))
          else
            (case (if length records \<noteq> 1 then
                     (case enrollment_version of
                        None \<Rightarrow> Inl InterfaceError
                      | Some ev \<Rightarrow> get_enrollment_version_index ev (length records))
                   else Inr (- 1)) of
               Inl e \<Rightarrow> Inl e
             | Inr i \<Rightarrow>
                 (case py_item records i of
                    None \<Rightarrow> Inl IfIndexError
                  | Some (_, v, a, abi) \<Rightarrow> Inr (a, v, abi))))"

definition get_proxy_contract ::
  "(reg_json \<Rightarrow> reg_json \<Rightarrow> reg_json) \<Rightarrow> registry_error + reg_json \<Rightarrow> reg_json \<Rightarrow> string \<Rightarrow> interface_error + contract_fields" where
  "get_proxy_contract target registry_data target_address proxy_name =
     (case search_name registry_data proxy_name None of
        Inl e \<Rightarrow> Inl e
      | Inr records \<Rightarrow>
          (case filter (\<lambda>(_, _, address, abi). target abi address = target_address) records of
             [] \<Rightarrow> Inl IfUnknownContract
           | [dispatcher] \<Rightarrow> Inr dispatcher
           | _ \<Rightarrow> Inl InterfaceError))"

text \<open>
  \<^verbatim>\<open>find_raw_contract_data\<close>: the compiled contracts by name and version, \<open>None\<close> before a compilation. A version is \<^verbatim>\<open>v\<close> and
  three numbers.
\<close>

definition parse_version :: "string \<Rightarrow> (int \<times> int \<times> int) option" where
  "parse_version version =
     (case split_char (CHR ''.'') (drop 1 version) of
        [a, b, c] \<Rightarrow>
          (case (parse_int a, parse_int b, parse_int c) of
             (Some major, Some minor, Some patch) \<Rightarrow> Some (major, minor, patch)
           | _ \<Rightarrow> None)
      | _ \<Rightarrow> None)"

definition triple_less :: "int \<times> int \<times> int \<Rightarrow> int \<times> int \<times> int \<Rightarrow> bool" where
  "triple_less = (\<lambda>(a, b, c) (x, y, z). a < x \<or> (a = x \<and> (b < y \<or> (b = y \<and> c < z))))"

fun best_version :: "bool \<Rightarrow> (string, 'd) dict \<Rightarrow> (int \<times> int \<times> int) \<times> (string \<times> 'd) option \<Rightarrow> interface_error + (string \<times> 'd) option" where
  "best_version latest [] (current, found) = Inr found"
| "best_version latest ((version, d) # rest) (current, found) =
     (case parse_version version of
        None \<Rightarrow> Inl IfValueError
      | Some v \<Rightarrow>
          best_version latest rest
            (if fst current = - 1 \<or> (latest \<and> triple_less current v) \<or> (\<not> latest \<and> triple_less v current)
             then (v, Some (version, d)) else (current, found)))"

definition find_raw_contract_data ::
  "(string, (string, 'd) dict) dict option \<Rightarrow> string \<Rightarrow> string \<Rightarrow> interface_error + (string \<times> 'd) option" where
  "find_raw_contract_data cache contract_name requested_version =
     (case cache of
        None \<Rightarrow> Inl InterfaceError
      | Some contracts \<Rightarrow>
          (case dict_get contracts contract_name of
             None \<Rightarrow> Inl IfUnknownContract
           | Some contract_data \<Rightarrow>
               (case dict_get contract_data requested_version of
                  Some d \<Rightarrow> Inr (Some (requested_version, d))
                | None \<Rightarrow>
                    if requested_version \<noteq> ''latest'' \<and> requested_version \<noteq> ''earliest'' then Inl IfUnknownContract
                    else (case contract_data of
                            [vd] \<Rightarrow> Inr (Some vd)
                          | _ \<Rightarrow> best_version (requested_version = ''latest'') contract_data ((- 1, - 1, - 1), None)))))"


subsection \<open>A contract for registries\<close>

definition registry_contents :: "('s \<Rightarrow> registry_error + reg_json) \<Rightarrow> 's \<Rightarrow> reg_json list option" where
  "registry_contents read s =
     (case read s of
        Inr (RList xs) \<Rightarrow> Some xs
      | Inl e \<Rightarrow> if is_registry_error e then Some [] else None
      | Inr _ \<Rightarrow> None)"

type_synonym enrolment = "string \<times> string \<times> string \<times> reg_json"

definition record_of :: "enrolment \<Rightarrow> reg_json" where
  "record_of = (\<lambda>(name, version, address, abi). contract_record name version address abi)"

definition enroll_all ::
  "('s \<Rightarrow> registry_error + reg_json) \<Rightarrow> (reg_json \<Rightarrow> 's \<Rightarrow> (registry_error + unit) \<times> 's) \<Rightarrow> enrolment list \<Rightarrow> 's \<Rightarrow> 's" where
  "enroll_all read write cs s = foldl (\<lambda>t (name, version, address, abi). snd (enroll read write name address abi version t)) s cs"

lemma unpack_record: "unpack4 (record_of (n, v, a, abi)) = Inr (RText n, RText v, RText a, abi)"
  by (simp add: unpack4_def record_of_def contract_record_def)

lemma equals_arg_text [simp]: "equals_arg x (RText s) \<longleftrightarrow> x = Some s"
  by (cases x) auto

lemma matching_records:
  "matching name version address (map record_of cs) =
   Inr (map record_of (filter (\<lambda>(n, v, a, _). address = Some a \<or> (name = Some n \<and> (version = None \<or> version = Some v))) cs))"
proof (induction cs)
  case (Cons c cs)
  then show ?case by (cases c) (simp add: unpack_record record_matches_def)
qed simp

lemma search_by_name:
  assumes "name \<noteq> []"
  shows "search (Inr (RList (map record_of cs))) (Some name) version None =
    (case filter (\<lambda>(n, v, _). n = name \<and> (version = None \<or> version = Some v)) cs of
       [] \<Rightarrow> Inl UnknownContract
     | m # ms \<Rightarrow> Inr (Records (map record_of (m # ms))))"
proof -
  let ?ms = "filter (\<lambda>(n, v, _). n = name \<and> (version = None \<or> version = Some v)) cs"
  have "matching (Some name) version None (map record_of cs) = Inr (map record_of ?ms)"
    by (auto simp: matching_records intro!: filter_cong arg_cong [where f = "map record_of"])
  then show ?thesis using assms by (cases ?ms) (simp_all add: search_def given_text_def)
qed

lemma search_by_address:
  assumes "address \<noteq> []"
  shows "search (Inr (RList (map record_of cs))) None None (Some address) =
    (case filter (\<lambda>(_, _, a, _). a = address) cs of
       [] \<Rightarrow> Inl UnknownContract
     | [m] \<Rightarrow> Inr (OneRecord (record_of m))
     | _ \<Rightarrow> Inl InvalidRegistry)"
proof -
  let ?ms = "filter (\<lambda>(_, _, a, _). a = address) cs"
  have "matching None None (Some address) (map record_of cs) = Inr (map record_of ?ms)"
    by (auto simp: matching_records intro!: filter_cong arg_cong [where f = "map record_of"])
  then show ?thesis
    using assms by (cases ?ms; cases "tl ?ms") (simp_all add: search_def given_text_def)
qed

locale contract_registry =
  fixes load :: "'s \<Rightarrow> registry_error + reg_json"
    and store :: "reg_json \<Rightarrow> 's \<Rightarrow> (registry_error + unit) \<times> 's"
    and inv :: "'s \<Rightarrow> bool"
  assumes write_ok: "inv s \<Longrightarrow> \<exists>s'. store v s = (Inr (), s') \<and> inv s' \<and> load s' = Inr v"
begin

lemma enroll_appends:
  assumes "inv s" "registry_contents load s = Some xs"
  shows "\<exists>s'. enroll load store name address abi version s = (Inr (), s') \<and> inv s' \<and>
    load s' = Inr (RList (xs @ [contract_record name version address abi]))"
proof -
  have "(case load s of Inl e \<Rightarrow> if is_registry_error e then Inr (RList []) else Inl e | Inr v \<Rightarrow> Inr v) = Inr (RList xs)"
    using assms(2) by (auto simp: registry_contents_def split: sum.splits reg_json.splits if_splits)
  then show ?thesis
    using write_ok [OF assms(1), of "RList (xs @ [contract_record name version address abi])"] by (simp add: enroll_def)
qed

lemma enroll_all_contents:
  assumes "inv s" "registry_contents load s = Some xs"
  shows "inv (enroll_all load store cs s)"
    "registry_contents load (enroll_all load store cs s) = Some (xs @ map record_of cs)"
proof -
  have "inv (enroll_all load store cs s) \<and> registry_contents load (enroll_all load store cs s) = Some (xs @ map record_of cs)"
    using assms
  proof (induction cs arbitrary: s xs)
    case (Cons c cs)
    obtain n v a abi where c: "c = (n, v, a, abi)" by (cases c)
    from enroll_appends [OF Cons.prems, of n a abi v] obtain s' where
      s': "enroll load store n a abi v s = (Inr (), s')" "inv s'" "load s' = Inr (RList (xs @ [record_of c]))"
      by (auto simp: c record_of_def)
    then have "registry_contents load s' = Some (xs @ [record_of c])" by (simp add: registry_contents_def)
    from Cons.IH [OF s'(2) this] show ?case by (simp add: enroll_all_def c s'(1))
  qed (simp add: enroll_all_def)
  then show "inv (enroll_all load store cs s)"
    "registry_contents load (enroll_all load store cs s) = Some (xs @ map record_of cs)" by auto
qed

lemma enroll_all_read:
  assumes "inv s" "registry_contents load s = Some []" "cs \<noteq> []"
  shows "load (enroll_all load store cs s) = Inr (RList (map record_of cs))"
proof -
  have "registry_contents load (enroll_all load store cs s) = Some (map record_of cs)"
    using enroll_all_contents(2) [OF assms(1,2)] by simp
  then show ?thesis using assms(3) by (auto simp: registry_contents_def split: sum.splits reg_json.splits if_splits)
qed

end

interpretation mrg: contract_registry memory_read memory_write "\<lambda>_. True"
  by unfold_locales (simp add: memory_read_def memory_write_def)

definition local_ok :: "local_state \<Rightarrow> bool" where
  "local_ok = (\<lambda>(r, fs). writable_path (lr_filepath r) fs)"

lemma local_write_ok: "local_ok s \<Longrightarrow> \<exists>s'. local_write v s = (Inr (), s') \<and> local_ok s' \<and> local_read s' = Inr v"
  using makedirs_and_write [of "lr_filepath (fst s)" "snd s" "0x1FF" "RegJson v"]
  by (cases s) (auto simp: local_ok_def local_write_def local_read_def)

interpretation lrg: contract_registry local_read local_write local_ok
  by unfold_locales (rule local_write_ok)

text \<open>
  C37. Contracts enrolled one after the other in a new registry file: a search by name (and version) gives exactly the
  records with it, in the order they were enrolled, or raises \<^verbatim>\<open>UnknownContract\<close>; a search by address gives its record,
  raises \<^verbatim>\<open>UnknownContract\<close> when there is none and \<^verbatim>\<open>InvalidRegistry\<close> when there are several.
\<close>

theorem enrolled_contracts_found:
  assumes "writable_path p fs" "\<not> path_exists fs p" "cs \<noteq> []" "name \<noteq> []" "address \<noteq> []"
  shows "search (local_read (enroll_all local_read local_write cs (new_local_registry p, fs))) (Some name) version None =
      (case filter (\<lambda>(n, v, _). n = name \<and> (version = None \<or> version = Some v)) cs of
         [] \<Rightarrow> Inl UnknownContract
       | m # ms \<Rightarrow> Inr (Records (map record_of (m # ms)))) \<and>
    search (local_read (enroll_all local_read local_write cs (new_local_registry p, fs))) None None (Some address) =
      (case filter (\<lambda>(_, _, a, _). a = address) cs of
         [] \<Rightarrow> Inl UnknownContract
       | [m] \<Rightarrow> Inr (OneRecord (record_of m))
       | _ \<Rightarrow> Inl InvalidRegistry)"
proof -
  have "read_file fs p = Inl FileNotFound" using assms(1,2) by (auto simp: node_defs writable_path_def split: option.splits)
  then have "registry_contents local_read (new_local_registry p, fs) = Some []"
    by (simp add: registry_contents_def local_read_def new_local_registry_def)
  moreover have "local_ok (new_local_registry p, fs)" using assms(1) by (simp add: local_ok_def new_local_registry_def)
  ultimately have "local_read (enroll_all local_read local_write cs (new_local_registry p, fs)) = Inr (RList (map record_of cs))"
    using lrg.enroll_all_read assms(3) by blast
  then show ?thesis using search_by_name [OF assms(4)] search_by_address [OF assms(5)] by simp
qed


definition demo_contracts :: "enrolment list" where
  "demo_contracts = [(''Staking'', ''v1'', ''0xA'', RNull), (''Proxy'', ''v1'', ''0xB'', RNull), (''Staking'', ''v2'', ''0xC'', RNull)]"

definition demo_registry_fs :: "reg_text fs" where
  "demo_registry_fs = \<lparr>entries = [], umask = 0\<rparr>"

lemma demo_registry_path: "writable_path [''etc'', ''reg.json''] demo_registry_fs" "\<not> path_exists demo_registry_fs [''etc'', ''reg.json'']"
  by (simp_all add: writable_path_def demo_registry_fs_def wf_fs_def node_defs)

theorem enrolled_contracts_found_witness:
  "let s = enroll_all local_read local_write demo_contracts (new_local_registry [''etc'', ''reg.json''], demo_registry_fs)
   in search (local_read s) (Some ''Staking'') None None =
        Inr (Records [contract_record ''Staking'' ''v1'' ''0xA'' RNull, contract_record ''Staking'' ''v2'' ''0xC'' RNull]) \<and>
      search (local_read s) None None (Some ''0xB'') = Inr (OneRecord (contract_record ''Proxy'' ''v1'' ''0xB'' RNull))"
  using enrolled_contracts_found [OF demo_registry_path, of demo_contracts "''Staking''" "''0xB''" None]
  by (simp add: demo_contracts_def record_of_def Let_def)

text \<open>The same holds of a registry in memory.\<close>

lemma memory_enrolled_found:
  assumes "cs \<noteq> []" "name \<noteq> []"
  shows "search (memory_read (enroll_all memory_read memory_write cs new_memory_registry)) (Some name) version None =
    (case filter (\<lambda>(n, v, _). n = name \<and> (version = None \<or> version = Some v)) cs of
       [] \<Rightarrow> Inl UnknownContract
     | m # ms \<Rightarrow> Inr (Records (map record_of (m # ms))))"
proof -
  have "registry_contents memory_read new_memory_registry = Some []"
    by (simp add: registry_contents_def memory_read_def new_memory_registry_def)
  from mrg.enroll_all_read [OF _ this assms(1)] show ?thesis using search_by_name [OF assms(2)] by simp
qed

text \<open>
  Three things the code does not mean: a temporary registry cannot be written before it is committed; committing a
  registry without data over a file empties the file; and clearing a registry does not forget its id.
\<close>

lemma temporary_not_writable: "\<not> tr_path_object t \<Longrightarrow> temporary_write v (t, fs) = (Inl RegAttributeError, (t, fs))"
  by (simp add: temporary_write_def)

lemma blank_commit_empties:
  assumes "is_file fs p" "p \<noteq> []"
  shows "\<exists>fs'. memory_commit blake dp (Some p) True (new_memory_registry, fs) = (Inl RegTypeError, (new_memory_registry, fs')) \<and>
    read_file fs' p = Inr RegEmpty"
proof -
  from assms obtain m c where "dict_get (entries fs) p = Some (File m c)" by (auto simp: is_file_def split: option.splits file_node.splits)
  moreover from assms have "\<not> is_dir fs p" by (auto dest: is_file_exists)
  ultimately have "write_file p RegEmpty fs = Inr (put_node p (File m RegEmpty) fs)" by (simp add: write_file_def)
  then show ?thesis using assms(2) by (simp add: memory_commit_def new_memory_registry_def Let_def read_put_same)
qed

lemma cleared_registry_keeps_id:
  assumes "memory_id blake r = (Inr i, r')"
  shows "fst (memory_id blake (memory_clear r')) = Inr i"
  using assms by (auto simp: memory_id_def memory_clear_def split: option.splits sum.splits)

subsection \<open>Proxies\<close>

definition targets :: "(reg_json \<Rightarrow> reg_json \<Rightarrow> reg_json) \<Rightarrow> contract_fields \<times> contract_fields \<Rightarrow> bool" where
  "targets target = (\<lambda>((_, _, proxy_address, proxy_abi), (_, _, target_address, _)). target_address = target proxy_abi proxy_address)"

definition contract_of :: "bool \<Rightarrow> contract_fields option \<Rightarrow> contract_fields \<times> contract_fields \<Rightarrow> reg_json \<times> reg_json \<times> reg_json" where
  "contract_of use_proxy_address versioned = (\<lambda>((_, _, proxy_address, _), (tn, tv, target_address, tabi)).
     let (_, v, _, abi) = (case versioned of Some r \<Rightarrow> r | None \<Rightarrow> (tn, tv, target_address, tabi))
     in (if use_proxy_address then proxy_address else target_address, v, abi))"

lemma proxy_results_pairs:
  "proxy_results target upa versioned all_records proxies =
   map (contract_of upa versioned) (filter (targets target) (List.product proxies all_records))"
proof (induction proxies)
  case (Cons q proxies)
  obtain a b c d where q: "q = (a, b, c, d)" by (cases q)
  have "concat (map (\<lambda>(_, target_version, target_address, target_abi).
            if target_address = target d c then
              let (v, abi) = (case versioned of Some (_, rv, _, rabi) \<Rightarrow> (rv, rabi) | None \<Rightarrow> (target_version, target_abi))
              in [(if upa then c else target_address, v, abi)]
            else []) ts) =
        map (contract_of upa versioned) (filter (targets target) (map (Pair q) ts))" for ts
    by (induction ts) (auto simp: q targets_def contract_of_def split: option.splits)
  with Cons show ?case by (simp add: proxy_results_def q)
qed (simp add: proxy_results_def)

text \<open>
  A contract that is found through a proxy: of all the enrolled proxies of that name and all the enrolled records of the
  contract exactly one pair belongs together on the chain. The result has the address of that proxy (or of its target), and the version
  and interface of the target, or of the one record of the version that was asked for.
\<close>

theorem contract_through_proxy:
  assumes "given_text proxy_name"
    and "get_contract_by_name target rd name version ev proxy_name upa = Inr (address, v, abi)"
  shows "\<exists>proxies records q t. search_name rd (the proxy_name) None = Inr proxies \<and>
    search_name rd name (if given_text version then None else version) = Inr records \<and>
    filter (targets target) (List.product proxies records) = [(q, t)] \<and>
    address = fst (snd (snd (if upa then q else t))) \<and>
    (\<exists>r. (if given_text version then search_name rd name version = Inr [r] else r = t) \<and> v = fst (snd r) \<and> abi = snd (snd (snd r)))"
proof -
  obtain r0 rs where rs: "search_name rd name version = Inr (r0 # rs)" "given_text version \<longrightarrow> rs = []"
    using assms(2) by (auto simp: get_contract_by_name_def split: sum.splits list.splits if_splits)
  define vr where "vr = (if given_text version then Some r0 else None)"
  obtain records proxies where lists: "search_name rd name (if given_text version then None else version) = Inr records"
    "search_name rd (the proxy_name) None = Inr proxies"
    and res: "proxy_results target upa vr records proxies = [(address, v, abi)]"
    using assms rs unfolding get_contract_by_name_def vr_def
    by (auto split: sum.splits list.splits if_splits)
  from res obtain q t where pair: "filter (targets target) (List.product proxies records) = [(q, t)]"
    and c: "contract_of upa vr (q, t) = (address, v, abi)"
    unfolding proxy_results_pairs by (auto simp: map_eq_Cons_conv)
  have "address = fst (snd (snd (if upa then q else t)))"
    using c by (cases q; cases t) (auto simp: contract_of_def split: option.splits prod.splits)
  moreover have "\<exists>r. (if given_text version then search_name rd name version = Inr [r] else r = t) \<and> v = fst (snd r) \<and> abi = snd (snd (snd r))"
    using c rs by (cases q; cases t; cases "given_text version") (auto simp: contract_of_def vr_def split: prod.splits)
  ultimately show ?thesis using lists pair by blast
qed

theorem contract_through_proxy_witness:
  "get_contract_by_name (\<lambda>_ _. RText ''0xC'') (Inr (RList (map record_of demo_contracts))) ''Staking'' None None (Some ''Proxy'') True =
     Inr (RText ''0xB'', RText ''v2'', RNull) \<and>
   (\<exists>proxies records q t. search_name (Inr (RList (map record_of demo_contracts))) ''Proxy'' None = Inr proxies \<and>
     search_name (Inr (RList (map record_of demo_contracts))) ''Staking'' None = Inr records \<and>
     filter (targets (\<lambda>_ _. RText ''0xC'')) (List.product proxies records) = [(q, t)] \<and> RText ''0xB'' = fst (snd (snd q)))"
proof -
  let ?rd = "Inr (RList (map record_of demo_contracts)) :: registry_error + reg_json"
  have s: "search_name ?rd ''Staking'' None = Inr [(RText ''Staking'', RText ''v1'', RText ''0xA'', RNull), (RText ''Staking'', RText ''v2'', RText ''0xC'', RNull)]"
    "search_name ?rd ''Proxy'' None = Inr [(RText ''Proxy'', RText ''v1'', RText ''0xB'', RNull)]"
    by (simp_all add: search_name_def search_by_name) (simp_all add: demo_contracts_def unpack_record)
  then have g: "get_contract_by_name (\<lambda>_ _. RText ''0xC'') ?rd ''Staking'' None None (Some ''Proxy'') True = Inr (RText ''0xB'', RText ''v2'', RNull)"
    by (simp add: get_contract_by_name_def given_text_def proxy_results_def)
  have "given_text (Some ''Proxy'')" by (simp add: given_text_def)
  from contract_through_proxy [OF this g] g show ?thesis by (auto simp: given_text_def)
qed


subsection \<open>Versions\<close>

lemma triple_not_less_trans: "\<not> triple_less a b \<Longrightarrow> \<not> triple_less b c \<Longrightarrow> \<not> triple_less a c"
  by (auto simp: triple_less_def split: prod.splits)

lemma triple_less_asym: "triple_less a b \<Longrightarrow> \<not> triple_less b a"
  by (auto simp: triple_less_def split: prod.splits)

definition beats :: "bool \<Rightarrow> int \<times> int \<times> int \<Rightarrow> int \<times> int \<times> int \<Rightarrow> bool" where
  "beats latest a b \<longleftrightarrow> (if latest then triple_less b a else triple_less a b)"

lemma beats_order: "\<not> beats l a b \<Longrightarrow> \<not> beats l b c \<Longrightarrow> \<not> beats l a c" "beats l a b \<Longrightarrow> \<not> beats l b a"
  using triple_not_less_trans [of a b c] triple_not_less_trans [of c b a] triple_less_asym [of a b] triple_less_asym [of b a]
  by (simp_all add: beats_def split: if_splits)

definition proper_version :: "string \<Rightarrow> bool" where
  "proper_version v \<longleftrightarrow> (\<exists>t. parse_version v = Some t \<and> 0 \<le> fst t)"

lemma best_version_from:
  assumes "\<forall>(v, d) \<in> set cd. proper_version v" "parse_version v0 = Some cur" "0 \<le> fst cur"
  shows "\<exists>v d. best_version latest cd (cur, Some (v0, d0)) = Inr (Some (v, d)) \<and> (v, d) \<in> insert (v0, d0) (set cd) \<and>
    (\<forall>(v', d') \<in> insert (v0, d0) (set cd). \<not> beats latest (the (parse_version v')) (the (parse_version v)))"
  using assms
proof (induction cd arbitrary: v0 d0 cur)
  case Nil
  then show ?case using beats_order(2) [of latest cur cur] by auto
next
  case (Cons x cd)
  obtain v1 d1 where x: "x = (v1, d1)" by (cases x)
  from Cons.prems(1) obtain new where new: "parse_version v1 = Some new" "0 \<le> fst new"
    by (auto simp: x proper_version_def)
  have proper: "\<forall>(v, d) \<in> set cd. proper_version v" using Cons.prems(1) by simp
  have step: "best_version latest (x # cd) (cur, Some (v0, d0)) =
      best_version latest cd (if beats latest new cur then (new, Some (v1, d1)) else (cur, Some (v0, d0)))"
    using Cons.prems(3) by (auto simp: x new(1) beats_def)
  show ?case
  proof (cases "beats latest new cur")
    case True
    from Cons.IH [OF proper new, of d1] obtain v d where
      r: "best_version latest cd (new, Some (v1, d1)) = Inr (Some (v, d))" "(v, d) \<in> insert (v1, d1) (set cd)"
        "\<forall>(v', d') \<in> insert (v1, d1) (set cd). \<not> beats latest (the (parse_version v')) (the (parse_version v))" by blast
    from r(3) have "\<not> beats latest new (the (parse_version v))" by (simp add: new(1))
    with beats_order [of latest] True have "\<not> beats latest cur (the (parse_version v))" by blast
    with r step True Cons.prems(2) show ?thesis by (intro exI [of _ v] exI [of _ d]) (auto simp: x)
  next
    case False
    from Cons.IH [OF proper Cons.prems(2,3), of d0] obtain v d where
      r: "best_version latest cd (cur, Some (v0, d0)) = Inr (Some (v, d))" "(v, d) \<in> insert (v0, d0) (set cd)"
        "\<forall>(v', d') \<in> insert (v0, d0) (set cd). \<not> beats latest (the (parse_version v')) (the (parse_version v))" by blast
    from r(3) have "\<not> beats latest cur (the (parse_version v))" by (simp add: Cons.prems(2))
    with beats_order(1) False have "\<not> beats latest new (the (parse_version v))" by blast
    with r step False new(1) show ?thesis by (intro exI [of _ v] exI [of _ d]) (auto simp: x)
  qed
qed

text \<open>
  Asked for the latest or the earliest version of a compiled contract that has several, none of them of that name, the interface
  returns one of them, and none of the others is later or earlier.
\<close>

theorem extreme_version_found:
  assumes "dict_get contracts name = Some cd" "2 \<le> length cd" "\<forall>(v, d) \<in> set cd. proper_version v"
    and "which = (if latest then ''latest'' else ''earliest'')" "dict_get cd which = None"
  shows "\<exists>v d. find_raw_contract_data (Some contracts) name which = Inr (Some (v, d)) \<and> (v, d) \<in> set cd \<and>
    (\<forall>(v', d') \<in> set cd. \<not> beats latest (the (parse_version v')) (the (parse_version v)))"
proof -
  from assms(2) obtain v1 d1 x cd' where cd: "cd = (v1, d1) # x # cd'" by (cases cd; cases "tl cd") auto
  from assms(3) cd obtain t where t: "parse_version v1 = Some t" "0 \<le> fst t" by (auto simp: proper_version_def)
  have "find_raw_contract_data (Some contracts) name which = best_version latest (x # cd') (t, Some (v1, d1))"
    using assms(1,4,5) t by (simp add: find_raw_contract_data_def cd)
  with best_version_from [of "x # cd'" v1 t latest d1] assms(3) t show ?thesis by (auto simp: cd)
qed

theorem extreme_version_found_witness:
  "\<exists>v d. find_raw_contract_data (Some [(''C'', [(''v1.2.0'', 1 :: nat), (''v1.10.0'', 2)])]) ''C'' ''latest'' = Inr (Some (v, d)) \<and>
     (v, d) \<in> {(''v1.2.0'', 1), (''v1.10.0'', 2)} \<and> \<not> beats True (1, 10, 0) (the (parse_version v))"
proof -
  have p: "parse_version ''v1.2.0'' = Some (1, 2, 0)" "parse_version ''v1.10.0'' = Some (1, 10, 0)"
    by code_simp+
  from extreme_version_found [of "[(''C'', [(''v1.2.0'', 1 :: nat), (''v1.10.0'', 2)])]" "''C''" "[(''v1.2.0'', 1 :: nat), (''v1.10.0'', 2)]" "''latest''" True] p
  show ?thesis by (auto simp: proper_version_def)
qed

end
