(* ===== verification/Eth_Client.thy ===== *)
theory Eth_Client
  imports Complex_Main Py_Text Contract_Registry
begin

text \<open>
  The client of an Ethereum node, \<^verbatim>\<open>nulink/blockchain/eth/clients.py\<close>, the networks of
  \<^verbatim>\<open>nulink/blockchain/eth/networks.py\<close> and the retrieval of events in batches of \<^verbatim>\<open>nulink/blockchain/eth/events.py\<close>.

  What the node answers is an argument. A \<open>chain_view\<close> gives, for the moments at which the client looks, the time and what
  the node says then, and the moment after a sleep or a wait; \<open>clock_ok\<close> says that a sleep lasts as long as it was asked to and that time does
  not run backwards during a wait.
\<close>

subsection \<open>Networks and clients\<close>

definition PUBLIC_CHAINS :: "(int, string) dict" where
  "PUBLIC_CHAINS = [(0, ''Olympic''), (1, ''Mainnet''), (2, ''Morden''), (3, ''Ropsten''), (4, ''Rinkeby''), (5, ''Goerli''),
     (6, ''Kotti''), (42, ''Kovan''), (77, ''Sokol''), (100, ''xDai''), (137, ''Polygon/Mainnet''), (80001, ''Polygon/Mumbai''),
     (128, ''Heco''), (256, ''Heco/Testnet''), (56, ''Bsc''), (97, ''Bsc/Testnet''), (1030, ''Conflux Espace''), (71, ''Conflux Espace/Testnet'')]"

definition LOCAL_CHAINS :: "(int, string) dict" where
  "LOCAL_CHAINS = [(1337, ''GethDev''), (5777, ''Ganache/TestRPC'')]"

definition POA_CHAINS :: "int set" where
  "POA_CHAINS = {4, 5, 42, 77, 100}"

definition chain_ids :: "(string, int) dict" where
  "chain_ids =
     [(''mainnet'', 1), (''oryx'', 3), (''ibex'', 4), (''lynx'', 5),
      (''polygon'', 137), (''mumbai'', 80001),
      (''bsc'', 56), (''bsc_testnet'', 97), (''horus'', 97),
      (''conflux_espace'', 1030), (''conflux_espace_testnet'', 71),
      (''heco'', 128), (''heco_testnet'', 256)]"

definition get_ethereum_chain_id :: "string \<Rightarrow> int" where
  "get_ethereum_chain_id network = (case dict_get chain_ids network of Some i \<Rightarrow> i | None \<Rightarrow> 1337)"

text \<open>The chain of every network of the inventory is known to the client.\<close>

lemma networks_public: "\<forall>n \<in> set NETWORKS. dict_get PUBLIC_CHAINS (get_ethereum_chain_id n) \<noteq> None"
  by code_simp

datatype client_kind = GethClient | BorClient | ParityClient | GanacheClient | InfuraClient | AlchemyClient | EthereumTesterClient

datatype client_error = UnsupportedClient | ClientIndexError

record client_info =
  ci_kind :: client_kind
  ci_node_technology :: string
  ci_version :: string
  ci_platform :: "string option"
  ci_backend :: string

definition client_classes :: "(string, client_kind) dict" where
  "client_classes =
     [(''Geth'', GethClient), (''bor'', BorClient), (''conflux-rust'', GethClient), (''Parity'', ParityClient),
      (''Parity-Ethereum'', ParityClient), (''EthereumJS TestRPC'', GanacheClient), (''EthereumTester'', EthereumTesterClient)]"

text \<open>The variants of a Geth client by the endpoint of its provider.\<close>

definition get_variant :: "string \<Rightarrow> client_kind \<Rightarrow> client_kind" where
  "get_variant endpoint_uri k =
     (if k = GethClient \<or> k = BorClient then
        if contains_text ''infura'' endpoint_uri then InfuraClient
        else if contains_text ''alchemyapi.io'' endpoint_uri then AlchemyClient
        else k
      else k)"

definition from_w3 :: "string \<Rightarrow> string \<Rightarrow> client_error + client_info" where
  "from_w3 client_version endpoint_uri =
     (let client_data = split_char (CHR ''/'') client_version; node_technology = hd client_data
      in case dict_get client_classes node_technology of
           None \<Rightarrow> Inl UnsupportedClient
         | Some k \<Rightarrow>
             if length client_data < 2 then Inl ClientIndexError
             else Inr \<lparr>ci_kind = get_variant endpoint_uri k, ci_node_technology = node_technology, ci_version = client_data ! 1,
                       ci_platform = (if length client_data = 4 then Some (client_data ! 2) else None), ci_backend = last client_data\<rparr>)"

definition is_local :: "client_kind \<Rightarrow> int \<Rightarrow> bool" where
  "is_local k chain_id =
     (case k of
        GethClient \<Rightarrow> dict_get PUBLIC_CHAINS chain_id = None
      | BorClient \<Rightarrow> dict_get PUBLIC_CHAINS chain_id = None
      | GanacheClient \<Rightarrow> True
      | EthereumTesterClient \<Rightarrow> True
      | _ \<Rightarrow> False)"

definition chain_name :: "client_kind \<Rightarrow> int \<Rightarrow> string option" where
  "chain_name k chain_id = dict_get (if is_local k chain_id then LOCAL_CHAINS else PUBLIC_CHAINS) chain_id"

text \<open>Locking and unlocking an account: answered by the client, forwarded to the node, or not implemented.\<close>

datatype account_answer = AnswerTrue | ForwardedToNode | AnswerNotImplemented

definition client_unlock_account :: "client_kind \<Rightarrow> int \<Rightarrow> bool \<Rightarrow> account_answer" where
  "client_unlock_account k chain_id known_account =
     (case k of
        GethClient \<Rightarrow> if is_local k chain_id then AnswerTrue else ForwardedToNode
      | BorClient \<Rightarrow> if is_local k chain_id then AnswerTrue else ForwardedToNode
      | ParityClient \<Rightarrow> ForwardedToNode
      | GanacheClient \<Rightarrow> AnswerTrue
      | InfuraClient \<Rightarrow> AnswerTrue
      | AlchemyClient \<Rightarrow> AnswerNotImplemented
      | EthereumTesterClient \<Rightarrow> if known_account then AnswerTrue else ForwardedToNode)"

definition client_lock_account :: "client_kind \<Rightarrow> int \<Rightarrow> bool \<Rightarrow> account_answer" where
  "client_lock_account k chain_id known_account =
     (case k of
        GethClient \<Rightarrow> ForwardedToNode
      | BorClient \<Rightarrow> ForwardedToNode
      | ParityClient \<Rightarrow> ForwardedToNode
      | EthereumTesterClient \<Rightarrow> if known_account then AnswerTrue else ForwardedToNode
      | _ \<Rightarrow> if is_local k chain_id then AnswerTrue else AnswerNotImplemented)"

subsection \<open>Waiting for a receipt\<close>

record 'h receipt =
  rc_transaction_hash :: 'h
  rc_block_hash :: 'h
  rc_block_number :: int
  rc_status :: "int option"
  rc_gas_used :: int

text \<open>
  What the node answers at a moment, to questions about one transaction. The wait of web3 gives a receipt, or raises
  \<^verbatim>\<open>TimeExhausted\<close>, or another exception; asking for the receipt gives it, or raises \<^verbatim>\<open>TransactionNotFound\<close>
  (\<open>Inr None\<close>), or another exception; asking for the number of the last block can raise too.
\<close>

datatype 'h receipt_wait = Got "'h receipt" | WaitExhausted | WaitRaised string

record 'h chain_view =
  cv_now :: "nat \<Rightarrow> rat"
  cv_sleep :: "rat \<Rightarrow> nat \<Rightarrow> nat"
  cv_receipt :: "nat \<Rightarrow> string + 'h receipt option"
  cv_block_number :: "nat \<Rightarrow> string + int"
  cv_wait :: "nat \<Rightarrow> 'h receipt_wait \<times> nat"

definition clock_ok :: "'h chain_view \<Rightarrow> bool" where
  "clock_ok cv \<longleftrightarrow> (\<forall>s n. 0 \<le> s \<longrightarrow> cv_now cv n + s \<le> cv_now cv (cv_sleep cv s n)) \<and> (\<forall>n. cv_now cv n \<le> cv_now cv (snd (cv_wait cv n)))"

text \<open>\<open>RpcError\<close> is an exception of the node's provider that nothing in these methods handles.\<close>

datatype wait_error = NotEnoughConfirmations | ChainReorganizationDetected | TimeExhausted | TransactionTimeout | RpcError string

definition BLOCK_CONFIRMATIONS_POLLING_TIME :: rat where "BLOCK_CONFIRMATIONS_POLLING_TIME = 3"
definition COOLING_TIME :: rat where "COOLING_TIME = 5"

definition calculate_confirmations_timeout :: "int \<Rightarrow> int" where
  "calculate_confirmations_timeout confirmations = 3 * AVERAGE_BLOCK_TIME_IN_SECONDS * confirmations"

definition check_transaction_is_on_chain :: "'h chain_view \<Rightarrow> 'h receipt \<Rightarrow> nat \<Rightarrow> wait_error + bool" where
  "check_transaction_is_on_chain cv r n =
     (case cv_receipt cv n of
        Inl e \<Rightarrow> Inl (RpcError e)
      | Inr None \<Rightarrow> Inl ChainReorganizationDetected
      | Inr (Some r') \<Rightarrow> if rc_block_hash r \<noteq> rc_block_hash r' then Inl ChainReorganizationDetected else Inr True)"

partial_function (option) confirmation_loop ::
  "'h chain_view \<Rightarrow> 'h receipt \<Rightarrow> int \<Rightarrow> rat \<Rightarrow> nat \<Rightarrow> ((wait_error + 'h receipt) \<times> nat) option" where
  "confirmation_loop cv r confirmations deadline n =
     (let n1 = cv_sleep cv BLOCK_CONFIRMATIONS_POLLING_TIME n
      in if cv_now cv n1 > deadline then Some (Inl NotEnoughConfirmations, n1)
         else case check_transaction_is_on_chain cv r n1 of
                Inl e \<Rightarrow> Some (Inl e, n1)
              | Inr _ \<Rightarrow>
                  (case cv_block_number cv n1 of
                     Inl e \<Rightarrow> Some (Inl (RpcError e), n1)
                   | Inr block_number \<Rightarrow>
                       if block_number - rc_block_number r < confirmations then confirmation_loop cv r confirmations deadline n1
                       else Some (Inr r, n1)))"

definition block_until_enough_confirmations :: "'h chain_view \<Rightarrow> int \<Rightarrow> nat \<Rightarrow> ((wait_error + 'h receipt) \<times> nat) option" where
  "block_until_enough_confirmations cv confirmations n =
     (case cv_wait cv n of
        (WaitExhausted, n') \<Rightarrow> Some (Inl TimeExhausted, n')
      | (WaitRaised e, n') \<Rightarrow> Some (Inl (RpcError e), n')
      | (Got r, n') \<Rightarrow>
          if \<not> 0 < confirmations then Some (Inr r, n')
          else confirmation_loop cv r confirmations (cv_now cv n' + rat_of_int (calculate_confirmations_timeout confirmations)) n')"

text \<open>Of the exceptions of one attempt, three lead to another attempt; any other escapes.\<close>

definition retried :: "wait_error \<Rightarrow> bool" where
  "retried e \<longleftrightarrow> e \<in> {ChainReorganizationDetected, NotEnoughConfirmations, TimeExhausted}"

partial_function (option) receipt_loop :: "'h chain_view \<Rightarrow> int \<Rightarrow> rat \<Rightarrow> nat \<Rightarrow> ((wait_error + 'h receipt) \<times> nat) option" where
  "receipt_loop cv confirmations deadline n =
     Option.bind (block_until_enough_confirmations cv confirmations n) (\<lambda>(res, n').
       case res of
         Inr r \<Rightarrow> Some (Inr r, n')
       | Inl e \<Rightarrow>
           if \<not> retried e then Some (Inl e, n')
           else let n1 = cv_sleep cv BLOCK_CONFIRMATIONS_POLLING_TIME n'
                in if cv_now cv n1 > deadline then Some (Inl TransactionTimeout, n1) else receipt_loop cv confirmations deadline n1)"

definition wait_for_receipt :: "'h chain_view \<Rightarrow> rat \<Rightarrow> int \<Rightarrow> nat \<Rightarrow> ((wait_error + 'h receipt) \<times> nat) option" where
  "wait_for_receipt cv timeout confirmations n =
     (if confirmations \<noteq> 0 then
        let n1 = cv_sleep cv COOLING_TIME n in receipt_loop cv confirmations (cv_now cv n1 + timeout) n1
      else case cv_wait cv n of
             (WaitExhausted, n') \<Rightarrow> Some (Inl TimeExhausted, n')
           | (WaitRaised e, n') \<Rightarrow> Some (Inl (RpcError e), n')
           | (Got r, n') \<Rightarrow> Some (Inr r, n'))"

text \<open>
  A receipt was given by the node when it was asked for this transaction; it is confirmed at some moment: the transaction is on
  the chain in its block, with enough blocks above. An exception of the provider: one that it raised for one of the questions.
\<close>

definition given_by_node :: "'h chain_view \<Rightarrow> 'h receipt \<Rightarrow> bool" where
  "given_by_node cv r \<longleftrightarrow> (\<exists>n. fst (cv_wait cv n) = Got r)"

definition confirmed :: "'h chain_view \<Rightarrow> 'h receipt \<Rightarrow> int \<Rightarrow> bool" where
  "confirmed cv r confirmations \<longleftrightarrow> (\<exists>n r' b. cv_receipt cv n = Inr (Some r') \<and> rc_block_hash r' = rc_block_hash r
     \<and> cv_block_number cv n = Inr b \<and> b - rc_block_number r \<ge> confirmations)"

definition raised_by_node :: "'h chain_view \<Rightarrow> wait_error \<Rightarrow> bool" where
  "raised_by_node cv e \<longleftrightarrow> (\<exists>x n. e = RpcError x \<and>
     (cv_receipt cv n = Inl x \<or> cv_block_number cv n = Inl x \<or> fst (cv_wait cv n) = WaitRaised x))"

text \<open>What one attempt promises, and what the whole wait promises.\<close>

definition attempt_ok :: "'h chain_view \<Rightarrow> int \<Rightarrow> wait_error + 'h receipt \<Rightarrow> bool" where
  "attempt_ok cv confirmations res = (case res of
     Inr r \<Rightarrow> given_by_node cv r \<and> (0 < confirmations \<longrightarrow> confirmed cv r confirmations)
   | Inl e \<Rightarrow> retried e \<or> raised_by_node cv e)"

definition wait_ok :: "'h chain_view \<Rightarrow> int \<Rightarrow> wait_error + 'h receipt \<Rightarrow> bool" where
  "wait_ok cv confirmations res = (case res of
     Inr r \<Rightarrow> given_by_node cv r \<and> (0 < confirmations \<longrightarrow> confirmed cv r confirmations)
   | Inl e \<Rightarrow> e = (if confirmations = 0 then TimeExhausted else TransactionTimeout) \<or> raised_by_node cv e)"

lemma attempt_errors [simp]:
  "attempt_ok cv confirmations (Inl NotEnoughConfirmations)" "attempt_ok cv confirmations (Inl ChainReorganizationDetected)"
  "attempt_ok cv confirmations (Inl TimeExhausted)"
  by (simp_all add: attempt_ok_def retried_def)

lemma check_is_on_chain_cases:
  "(\<exists>r'. check_transaction_is_on_chain cv r n = Inr True \<and> cv_receipt cv n = Inr (Some r') \<and> rc_block_hash r' = rc_block_hash r)
    \<or> (\<exists>e. check_transaction_is_on_chain cv r n = Inl e \<and> attempt_ok cv confirmations (Inl e))"
  by (auto simp: check_transaction_is_on_chain_def attempt_ok_def retried_def raised_by_node_def split: sum.splits option.splits)

lemma clock_sleep: "clock_ok cv \<Longrightarrow> cv_now cv n + 3 \<le> cv_now cv (cv_sleep cv BLOCK_CONFIRMATIONS_POLLING_TIME n)"
  by (simp add: clock_ok_def BLOCK_CONFIRMATIONS_POLLING_TIME_def)

lemma confirmation_loop_returns:
  assumes "clock_ok cv" "given_by_node cv r" "deadline - cv_now cv n \<le> 3 * rat_of_nat k"
  shows "\<exists>res n'. confirmation_loop cv r confirmations deadline n = Some (res, n') \<and> cv_now cv n \<le> cv_now cv n' \<and>
    attempt_ok cv confirmations res"
  using assms(3)
proof (induction k arbitrary: n)
  case 0
  let ?n = "cv_sleep cv BLOCK_CONFIRMATIONS_POLLING_TIME n"
  have "cv_now cv ?n > deadline" "cv_now cv n \<le> cv_now cv ?n" using 0 clock_sleep [OF assms(1), of n] by auto
  then show ?case by (subst confirmation_loop.simps) (simp add: Let_def)
next
  case (Suc k)
  let ?n = "cv_sleep cv BLOCK_CONFIRMATIONS_POLLING_TIME n"
  have le: "cv_now cv n \<le> cv_now cv ?n" and "deadline - cv_now cv ?n \<le> 3 * rat_of_nat k"
    using Suc.prems clock_sleep [OF assms(1), of n] by (auto simp: algebra_simps)
  from Suc.IH [OF this(2)] obtain res n' where
    ih: "confirmation_loop cv r confirmations deadline ?n = Some (res, n')" "cv_now cv ?n \<le> cv_now cv n'"
      "attempt_ok cv confirmations res" by blast
  have rpc: "attempt_ok cv confirmations (Inl (RpcError e))" if "cv_block_number cv ?n = Inl e" for e
    using that by (auto simp: attempt_ok_def raised_by_node_def)
  have conf: "attempt_ok cv confirmations (Inr r)" if "cv_receipt cv ?n = Inr (Some r')" "rc_block_hash r' = rc_block_hash r"
      "cv_block_number cv ?n = Inr b" "\<not> b - rc_block_number r < confirmations" for r' b
    using that assms(2) by (force simp: attempt_ok_def confirmed_def)
  from check_is_on_chain_cases [of cv r ?n confirmations] show ?case
  proof (elim disjE exE conjE)
    fix r' assume "check_transaction_is_on_chain cv r ?n = Inr True" "cv_receipt cv ?n = Inr (Some r')" "rc_block_hash r' = rc_block_hash r"
    then show ?case using ih le rpc conf
      by (subst confirmation_loop.simps) (cases "cv_block_number cv ?n"; auto simp: Let_def)
  qed (use le in \<open>subst confirmation_loop.simps, auto simp: Let_def\<close>)
qed

lemma rat_below_multiple: "\<exists>k. x \<le> 3 * rat_of_nat k"
proof -
  obtain k where "x / 3 \<le> rat_of_nat k" using real_arch_simple by blast
  then show ?thesis by (intro exI [of _ k]) (simp add: field_simps)
qed

lemma block_until_returns:
  assumes "clock_ok cv"
  shows "\<exists>res n'. block_until_enough_confirmations cv confirmations n = Some (res, n') \<and> cv_now cv n \<le> cv_now cv n' \<and>
    attempt_ok cv confirmations res"
proof -
  obtain ro n1 where w: "cv_wait cv n = (ro, n1)" by (cases "cv_wait cv n")
  have le: "cv_now cv n \<le> cv_now cv n1" using assms w unfolding clock_ok_def by (metis snd_conv)
  show ?thesis
  proof (cases ro)
    case (Got r)
    with w have given: "given_by_node cv r" unfolding given_by_node_def by (metis fst_conv)
    let ?d = "cv_now cv n1 + rat_of_int (calculate_confirmations_timeout confirmations)"
    obtain k where "?d - cv_now cv n1 \<le> 3 * rat_of_nat k" using rat_below_multiple by blast
    from confirmation_loop_returns [OF assms given this, of confirmations] show ?thesis
      using le Got w given by (auto simp: block_until_enough_confirmations_def attempt_ok_def intro: order_trans)
  next
    case WaitExhausted
    with w le show ?thesis by (auto simp: block_until_enough_confirmations_def)
  next
    case (WaitRaised e)
    with w have "raised_by_node cv (RpcError e)" unfolding raised_by_node_def by (metis fst_conv)
    with w le WaitRaised show ?thesis by (auto simp: block_until_enough_confirmations_def attempt_ok_def)
  qed
qed

lemma attempt_decides:
  assumes "attempt_ok cv confirmations res" "confirmations \<noteq> 0"
  shows "(\<exists>e. res = Inl e \<and> retried e) \<or> wait_ok cv confirmations res \<and> (\<forall>e. res = Inl e \<longrightarrow> \<not> retried e)"
  using assms by (cases res) (auto simp: attempt_ok_def wait_ok_def retried_def)

lemma receipt_loop_returns:
  assumes "clock_ok cv" "confirmations \<noteq> 0" "deadline - cv_now cv n \<le> 3 * rat_of_nat k"
  shows "\<exists>res n'. receipt_loop cv confirmations deadline n = Some (res, n') \<and> wait_ok cv confirmations res"
  using assms(3)
proof (induction k arbitrary: n rule: nat.induct)
  case (zero n)
  from block_until_returns [OF assms(1), of confirmations n] obtain res n' where
    b: "block_until_enough_confirmations cv confirmations n = Some (res, n')" "cv_now cv n \<le> cv_now cv n'"
      "attempt_ok cv confirmations res" by blast
  have "cv_now cv (cv_sleep cv BLOCK_CONFIRMATIONS_POLLING_TIME n') > deadline"
    using zero b(2) clock_sleep [OF assms(1), of n'] by auto
  with b(1) attempt_decides [OF b(3) assms(2)] assms(2) show ?case
    by (subst receipt_loop.simps) (cases res; auto simp: Let_def wait_ok_def)
next
  case (Suc k)
  from block_until_returns [OF assms(1), of confirmations n] obtain res n' where
    b: "block_until_enough_confirmations cv confirmations n = Some (res, n')" "cv_now cv n \<le> cv_now cv n'"
      "attempt_ok cv confirmations res" by blast
  have "deadline - cv_now cv (cv_sleep cv BLOCK_CONFIRMATIONS_POLLING_TIME n') \<le> 3 * rat_of_nat k"
    using Suc.prems b(2) clock_sleep [OF assms(1), of n'] by (auto simp: algebra_simps)
  from Suc.IH [OF this] b(1) attempt_decides [OF b(3) assms(2)] assms(2) show ?case
    by (subst receipt_loop.simps) (cases res; auto simp: Let_def wait_ok_def)
qed

lemma wait_for_receipt_ends:
  assumes "clock_ok cv"
  shows "\<exists>res n'. wait_for_receipt cv timeout confirmations n = Some (res, n') \<and> wait_ok cv confirmations res"
proof (cases "confirmations = 0")
  case True
  obtain ro n' where w: "cv_wait cv n = (ro, n')" by (cases "cv_wait cv n")
  then have "fst (cv_wait cv n) = ro" by simp
  with True w show ?thesis
    by (cases ro) (auto simp: wait_for_receipt_def wait_ok_def given_by_node_def raised_by_node_def intro!: exI [of _ n])
next
  case False
  let ?n = "cv_sleep cv COOLING_TIME n"
  obtain k where "(cv_now cv ?n + timeout) - cv_now cv ?n \<le> 3 * rat_of_nat k" using rat_below_multiple by blast
  from receipt_loop_returns [OF assms False this] False show ?thesis by (auto simp: wait_for_receipt_def Let_def)
qed

text \<open>
  C35. Waiting for the receipt of a transaction ends, whatever the chain does, given that sleeping lets the clock advance and that
  web3's own wait comes back. A receipt that is returned is one that the node gave for the transaction; with confirmations asked
  for it was, at some moment, on the chain in its block with at least that many blocks above it, so receipts that a reorganization
  took back are not returned. An error is the timeout of the wait (that of web3 without confirmations) or an exception that the
  node's provider raised for one of the questions it was asked; in particular reorganizations and missing confirmations are not
  passed on.
\<close>

theorem receipt_wait_ends:
  assumes "clock_ok cv"
  shows "\<exists>res n'. wait_for_receipt cv timeout confirmations n = Some (res, n') \<and>
    (\<forall>r. res = Inr r \<longrightarrow> given_by_node cv r \<and> (0 < confirmations \<longrightarrow> confirmed cv r confirmations)) \<and>
    (\<forall>e. res = Inl e \<longrightarrow> e = (if confirmations = 0 then TimeExhausted else TransactionTimeout) \<or> raised_by_node cv e)"
  using wait_for_receipt_ends [OF assms] by (fastforce simp: wait_ok_def)

text \<open>A chain that forgets the block of the transaction once and then keeps it.\<close>

definition demo_receipt :: "string \<Rightarrow> string receipt" where
  "demo_receipt b = \<lparr>rc_transaction_hash = ''t'', rc_block_hash = b, rc_block_number = 7, rc_status = Some 1, rc_gas_used = 21000\<rparr>"

definition demo_view :: "string chain_view" where
  "demo_view = \<lparr>cv_now = (\<lambda>n. rat_of_nat n), cv_sleep = (\<lambda>s n. n + nat \<lceil>s\<rceil>), cv_receipt = (\<lambda>n. Inr (Some (demo_receipt (if n < 8 then ''a'' else ''b'')))),
     cv_block_number = (\<lambda>n. Inr (6 + int (n div 3))), cv_wait = (\<lambda>n. (Got (demo_receipt (if n < 8 then ''a'' else ''b'')), n))\<rparr>"

lemma demo_clock: "clock_ok demo_view"
proof -
  have "s \<le> rat_of_nat (nat \<lceil>s\<rceil>)" if "0 \<le> s" for s :: rat
    using that le_of_int_ceiling [of s] by (simp add: of_nat_nat)
  then show ?thesis by (simp add: clock_ok_def demo_view_def)
qed

lemma demo_ceiling: "\<lceil>3 :: rat\<rceil> = 3" "\<lceil>5 :: rat\<rceil> = 5"
  by (simp_all add: ceiling_unique)

lemma demo_first_attempt: "block_until_enough_confirmations demo_view 2 5 = Some (Inl ChainReorganizationDetected, 8)"
  by (simp add: block_until_enough_confirmations_def demo_view_def confirmation_loop.simps Let_def BLOCK_CONFIRMATIONS_POLLING_TIME_def
      demo_ceiling check_transaction_is_on_chain_def demo_receipt_def calculate_confirmations_timeout_def AVERAGE_BLOCK_TIME_IN_SECONDS_def)

lemma demo_second_attempt: "block_until_enough_confirmations demo_view 2 11 = Some (Inr (demo_receipt ''b''), 14)"
  by (simp add: block_until_enough_confirmations_def demo_view_def confirmation_loop.simps Let_def BLOCK_CONFIRMATIONS_POLLING_TIME_def
      demo_ceiling check_transaction_is_on_chain_def demo_receipt_def calculate_confirmations_timeout_def AVERAGE_BLOCK_TIME_IN_SECONDS_def)

lemma demo_receipt_found: "wait_for_receipt demo_view 600 2 0 = Some (Inr (demo_receipt ''b''), 14)"
proof -
  have ticks: "cv_sleep demo_view BLOCK_CONFIRMATIONS_POLLING_TIME 8 = 11" "cv_sleep demo_view COOLING_TIME 0 = 5"
    "cv_now demo_view 5 + 600 = 605" "cv_now demo_view 11 = 11"
    by (simp_all add: demo_view_def BLOCK_CONFIRMATIONS_POLLING_TIME_def COOLING_TIME_def demo_ceiling)
  have "receipt_loop demo_view 2 605 11 = Some (Inr (demo_receipt ''b''), 14)"
    by (subst receipt_loop.simps) (simp add: demo_second_attempt)
  then have "receipt_loop demo_view 2 605 5 = Some (Inr (demo_receipt ''b''), 14)"
    by (subst receipt_loop.simps) (simp add: demo_first_attempt ticks retried_def)
  then show ?thesis by (simp add: wait_for_receipt_def ticks)
qed

theorem receipt_wait_ends_witness:
  "wait_for_receipt demo_view 600 2 0 = Some (Inr (demo_receipt ''b''), 14) \<and> confirmed demo_view (demo_receipt ''b'') 2"
  using receipt_wait_ends [OF demo_clock, of 600 2 0] demo_receipt_found by auto


subsection \<open>Events in batches\<close>

text \<open>
  \<^verbatim>\<open>ContractEventsThrottler\<close>: the block ranges, both ends included, that its iterator asks for. A range that would not begin is
  the end, so a negative size gives no range at all.
\<close>

datatype throttler_error = InvalidBlockRange

function block_ranges :: "int \<Rightarrow> int \<Rightarrow> int \<Rightarrow> (int \<times> int) list" where
  "block_ranges max_blocks to_block current_from =
     (let current_to = min (current_from + max_blocks) to_block
      in if current_from \<le> current_to then (current_from, current_to) # block_ranges max_blocks to_block (current_to + 1) else [])"
  by pat_completeness auto
termination by (relation "measure (\<lambda>(_, to_block, current_from). nat (to_block + 1 - current_from))") (auto simp: Let_def)

declare block_ranges.simps [simp del]

definition throttled_events ::
  "(int \<Rightarrow> int \<Rightarrow> 'e list) \<Rightarrow> int \<Rightarrow> int option \<Rightarrow> int \<Rightarrow> int \<Rightarrow> throttler_error + 'e list" where
  "throttled_events event_filter from_block to_block latest_block max_blocks_per_call =
     (let last_block = (case to_block of Some b \<Rightarrow> b | None \<Rightarrow> latest_block)
      in if last_block < from_block then Inl InvalidBlockRange
         else Inr (concat (map (\<lambda>(a, b). event_filter a b) (block_ranges max_blocks_per_call last_block from_block))))"

lemma block_ranges_cover:
  assumes "0 \<le> max_blocks"
  shows "concat (map (\<lambda>(a, b). [a..b]) (block_ranges max_blocks to_block from_block)) = [from_block..to_block]"
    "(a, b) \<in> set (block_ranges max_blocks to_block from_block) \<Longrightarrow> from_block \<le> a \<and> a \<le> b \<and> b \<le> to_block \<and> b - a \<le> max_blocks"
proof -
  have "concat (map (\<lambda>(a, b). [a..b]) (block_ranges max_blocks to_block from_block)) = [from_block..to_block] \<and>
    (\<forall>(a, b) \<in> set (block_ranges max_blocks to_block from_block). from_block \<le> a \<and> a \<le> b \<and> b \<le> to_block \<and> b - a \<le> max_blocks)"
    using assms
  proof (induction max_blocks to_block from_block rule: block_ranges.induct)
    case (1 max_blocks to_block current_from)
    let ?to = "min (current_from + max_blocks) to_block"
    show ?case
    proof (cases "current_from \<le> ?to")
      case True
      have split: "[current_from..?to] @ [?to + 1..to_block] = [current_from..to_block]"
        using upto_split2 [of current_from ?to to_block] True by simp
      show ?thesis
        using 1 True split by (subst (1 2) block_ranges.simps) (fastforce simp: Let_def)
    next
      case False
      with 1(2) have "to_block < current_from" by auto
      then show ?thesis using False by (subst (1 2) block_ranges.simps) (auto simp: Let_def)
    qed
  qed
  then show "concat (map (\<lambda>(a, b). [a..b]) (block_ranges max_blocks to_block from_block)) = [from_block..to_block]"
    "(a, b) \<in> set (block_ranges max_blocks to_block from_block) \<Longrightarrow> from_block \<le> a \<and> a \<le> b \<and> b \<le> to_block \<and> b - a \<le> max_blocks"
    by blast+
qed

text \<open>
  C36. Retrieving events in batches gives the same events in the same order as one call over all the blocks, when a call gives the
  events block by block; every call is within the range and spans at most one block more than the maximum.
\<close>

theorem throttled_events_complete:
  assumes "0 \<le> max_blocks" "from_block \<le> to_block" "\<forall>a b. event_filter a b = concat (map events_of [a..b])"
  shows "throttled_events event_filter from_block (Some to_block) latest_block max_blocks = Inr (event_filter from_block to_block) \<and>
    (\<forall>(a, b) \<in> set (block_ranges max_blocks to_block from_block). from_block \<le> a \<and> b \<le> to_block \<and> b - a + 1 \<le> max_blocks + 1)"
proof -
  let ?rs = "block_ranges max_blocks to_block from_block"
  have "concat (map (\<lambda>(a, b). event_filter a b) rs) = concat (map events_of (concat (map (\<lambda>(a, b). [a..b]) rs)))" for rs
    using assms(3) by (induction rs) auto
  then have "concat (map (\<lambda>(a, b). event_filter a b) ?rs) = concat (map events_of (concat (map (\<lambda>(a, b). [a..b]) ?rs)))" .
  also have "\<dots> = event_filter from_block to_block" using assms(3) block_ranges_cover(1) [OF assms(1)] by simp
  finally show ?thesis
    using assms(2) block_ranges_cover(2) [OF assms(1)] by (fastforce simp: throttled_events_def)
qed

theorem throttled_events_complete_witness:
  "throttled_events (\<lambda>a b. concat (map (\<lambda>n. [n]) [a..b])) 3 (Some 9) 0 2 = Inr (concat (map (\<lambda>n. [n]) [3..9])) \<and>
   list_all (\<lambda>(a, b). 3 \<le> a \<and> b \<le> 9 \<and> b - a + 1 \<le> 3) (block_ranges 2 9 3)"
  using throttled_events_complete [of 2 3 9 "\<lambda>a b. concat (map (\<lambda>n. [n]) [a..b])" "\<lambda>n. [n]" 0]
  by (simp add: list_all_iff)

text \<open>The first call does span one block more, when there are that many blocks.\<close>

lemma first_range_too_long: "0 \<le> m \<Longrightarrow> from_block + m \<le> to_block \<Longrightarrow> (from_block, from_block + m) \<in> set (block_ranges m to_block from_block)"
  by (subst block_ranges.simps) (simp add: Let_def)

end
