(* ===== verification/Transactions.thy ===== *)
theory Transactions
  imports Signers Chain_Access Eth_Client
begin

text \<open>
  Transactions, as \<^verbatim>\<open>nulink/blockchain/eth/interfaces.py\<close> builds, signs and broadcasts them, and the
  factory that keeps the connections.

  The contract function (its estimation of gas and its transaction), the node and the ceiling of a floating point product are
  arguments. The signer is the function that \<open>Signers\<close> gives; the wait for a receipt is that of \<open>Eth_Client\<close>. What was sent to the network is
  part of every result. Amounts that are only printed are left out.
\<close>

subsection \<open>Gas strategy\<close>

definition configure_gas_strategy ::
  "(int \<Rightarrow> int) \<Rightarrow> (feed_error + int) option \<Rightarrow> client_kind \<Rightarrow> feed_error + int \<Rightarrow> feed_error + int \<Rightarrow> int option \<Rightarrow> feed_error + int" where
  "configure_gas_strategy gwei_to_wei gas_strategy kind datafeed_strategy web3_strategy max_gas_price =
     (let strategy = (case gas_strategy of
            Some g \<Rightarrow> g
          | None \<Rightarrow> if kind = InfuraClient then datafeed_strategy else web3_strategy)
      in case max_gas_price of
           Some m \<Rightarrow> if m \<noteq> 0 then max_price_gas_strategy_wrapper strategy (gwei_to_wei m) else strategy
         | None \<Rightarrow> strategy)"

subsection \<open>Building\<close>

text \<open>
  An exception of the contract function: one of the three kinds that the interface handles, with the code and message of
  an RPC error, with another first argument, or with no argument at all; or an exception of another kind.
\<close>

datatype web3_failure = Refused "(int \<times> string) option" | RefusedWithoutArguments | Unexpected string

record contract_function =
  cf_estimate_gas :: "tx \<Rightarrow> web3_failure + int"
  cf_build_transaction :: "tx \<Rightarrow> web3_failure + tx"

datatype sending_error =
    TxValueError | TransactionFailed string | Reraised web3_failure | TxKeyError | TxTypeError | TxBadAddress
  | TxSigner signer_error | TxNotBroadcast string | TxWait wait_error | TxInterfaceError
  | TxIndexError | TxRpc string

definition IPC_CODE :: int where "IPC_CODE = - 32000"

fun handle_failed_transaction :: "web3_failure \<Rightarrow> sending_error" where
  "handle_failed_transaction (Refused (Some (code, message))) =
     (if code \<noteq> IPC_CODE then Reraised (Refused (Some (code, message))) else TransactionFailed message)"
| "handle_failed_transaction (Refused None) = Reraised (Refused None)"
| "handle_failed_transaction RefusedWithoutArguments = TxIndexError"
| "handle_failed_transaction (Unexpected e) = Reraised (Unexpected e)"

definition limit_given :: "int option \<Rightarrow> bool" where
  "limit_given l \<longleftrightarrow> l \<noteq> None \<and> l \<noteq> Some 0"

text \<open>The node is asked for the nonce, which can fail.\<close>

definition build_payload :: "(bool \<Rightarrow> string + int) \<Rightarrow> address \<Rightarrow> tx option \<Rightarrow> int option \<Rightarrow> bool \<Rightarrow> string + tx" where
  "build_payload transaction_count sender_address payload transaction_gas_limit use_pending_nonce =
     (case transaction_count use_pending_nonce of
        Inl e \<Rightarrow> Inl e
      | Inr nonce \<Rightarrow>
          let base_payload = [(''nonce'', TxInt nonce), (''from'', TxStr sender_address)];
              p = dict_update (case payload of None \<Rightarrow> [] | Some q \<Rightarrow> q) base_payload
          in Inr (if limit_given transaction_gas_limit then dict_set p ''gas'' (TxInt (the transaction_gas_limit)) else p))"

text \<open>The gas is estimated unless the payload has it; \<open>scale g m\<close> is \<^verbatim>\<open>int(math.ceil(g * m))\<close>.\<close>

definition payload_with_gas :: "contract_function \<Rightarrow> tx \<Rightarrow> web3_failure + tx" where
  "payload_with_gas cf p =
     (if dict_get p ''gas'' \<noteq> None then Inr p
      else case cf_estimate_gas cf p of Inl f \<Rightarrow> Inl f | Inr g \<Rightarrow> Inr (dict_set p ''gas'' (TxInt g)))"

definition increase_gas :: "(int \<Rightarrow> rat \<Rightarrow> int) \<Rightarrow> rat option \<Rightarrow> int option \<Rightarrow> tx \<Rightarrow> sending_error + tx" where
  "increase_gas scale gas_estimation_multiplier transaction_gas_limit t =
     (case gas_estimation_multiplier of
        None \<Rightarrow> Inr t
      | Some m \<Rightarrow>
          if limit_given transaction_gas_limit then Inr t
          else (case dict_get t ''gas'' of
                  None \<Rightarrow> Inl TxKeyError
                | Some (TxInt g) \<Rightarrow> Inr (dict_set t ''gas'' (TxInt (scale g m)))
                | Some _ \<Rightarrow> Inl TxTypeError))"

definition multiplier_ok :: "rat option \<Rightarrow> bool" where
  "multiplier_ok m = (case m of None \<Rightarrow> True | Some r \<Rightarrow> 1 \<le> r \<and> r \<le> 3)"

definition build_contract_transaction ::
  "(int \<Rightarrow> rat \<Rightarrow> int) \<Rightarrow> (address \<Rightarrow> bool) \<Rightarrow> contract_function \<Rightarrow> (bool \<Rightarrow> string + int) \<Rightarrow> address \<Rightarrow> tx option \<Rightarrow> int option \<Rightarrow> rat option \<Rightarrow> bool \<Rightarrow> sending_error + tx" where
  "build_contract_transaction scale is_ck cf transaction_count sender_address payload transaction_gas_limit gas_estimation_multiplier use_pending_nonce =
     (if \<not> is_ck sender_address then Inl TxBadAddress
      else if \<not> multiplier_ok gas_estimation_multiplier then Inl TxValueError
      else case build_payload transaction_count sender_address payload transaction_gas_limit use_pending_nonce of
             Inl e \<Rightarrow> Inl (TxRpc e)
           | Inr q \<Rightarrow>
               (case payload_with_gas cf q of
                  Inl f \<Rightarrow> Inl (handle_failed_transaction f)
                | Inr p \<Rightarrow>
                    (case cf_build_transaction cf p of
                       Inl f \<Rightarrow> Inl (handle_failed_transaction f)
                     | Inr t \<Rightarrow> increase_gas scale gas_estimation_multiplier transaction_gas_limit t)))"

subsection \<open>Signing and broadcasting\<close>

record ('raw, 'h) node_access =
  na_gas_price :: "string + int"
  na_transaction_count :: "address \<Rightarrow> bool \<Rightarrow> string + int"
  na_send_raw :: "'raw \<Rightarrow> string + 'h"
  na_view :: "'h \<Rightarrow> 'h chain_view"
  na_transaction_gas :: "'h \<Rightarrow> string + int"

datatype 'h tx_result = TxHash 'h | TxReceipt "'h receipt"

definition TIMEOUT :: rat where "TIMEOUT = 600"

definition signable_fields :: "string list" where
  "signable_fields = [''value'', ''nonce'', ''from'', ''gas'', ''to'', ''data'', ''chainId'']"

text \<open>What is signed: some fields of the transaction, and the price of the node, as the price of the transaction is not among them.\<close>

definition to_be_signed :: "int \<Rightarrow> tx \<Rightarrow> tx" where
  "to_be_signed node_price t =
     (let s = filter (\<lambda>(k, _). k \<in> set signable_fields) t
      in if dict_get s ''gasPrice'' = None then dict_set s ''gasPrice'' (TxInt node_price) else s)"

text \<open>\<^verbatim>\<open>json.dumps\<close> of a transaction, which is printed, raises on bytes.\<close>

fun is_tx_bytes :: "tx_value \<Rightarrow> bool" where
  "is_tx_bytes (TxBytes _) = True"
| "is_tx_bytes _ = False"

definition json_serializable :: "tx \<Rightarrow> bool" where
  "json_serializable t \<longleftrightarrow> list_all (\<lambda>(_, v). \<not> is_tx_bytes v) t"

definition check_receipt :: "('raw, 'h) node_access \<Rightarrow> 'h \<Rightarrow> 'h receipt \<Rightarrow> sending_error + 'h tx_result" where
  "check_receipt na txhash r =
     (case rc_status r of
        Some status \<Rightarrow> if status = 0 then Inl TxInterfaceError else Inr (TxReceipt r)
      | None \<Rightarrow>
          (case na_transaction_gas na txhash of
             Inl e \<Rightarrow> Inl (TxRpc e)
           | Inr gas \<Rightarrow> if gas = rc_gas_used r then Inl TxInterfaceError else Inr (TxReceipt r)))"

text \<open>
  The unit price that is displayed: the fee or the price of the transaction, and that of the node when there is neither.
\<close>

definition max_unit_price :: "string + int \<Rightarrow> tx \<Rightarrow> string + tx_value" where
  "max_unit_price node_price t =
     (case dict_get t ''maxFeePerGas'' of
        Some v \<Rightarrow> Inr v
      | None \<Rightarrow>
          (case dict_get t ''gasPrice'' of
             None \<Rightarrow> map_sum id TxInt node_price
           | Some v \<Rightarrow> if v = TxInt 0 then map_sum id TxInt node_price else Inr v))"

definition sign_and_broadcast_transaction ::
  "('raw, 'h) node_access \<Rightarrow> (tx \<Rightarrow> signer_error + 'raw) \<Rightarrow> tx \<Rightarrow> int \<Rightarrow> bool \<Rightarrow> nat \<Rightarrow> ((sending_error + 'h tx_result) \<times> 'raw list) option" where
  "sign_and_broadcast_transaction na sign t confirmations fire_and_forget now =
     (case max_unit_price (na_gas_price na) t of
        Inl e \<Rightarrow> Some (Inl (TxRpc e), [])
      | Inr _ \<Rightarrow>
      if dict_get t ''gas'' = None then Some (Inl TxKeyError, [])
      else if \<not> json_serializable t then Some (Inl TxTypeError, [])
      else case na_gas_price na of
        Inl e \<Rightarrow> Some (Inl (TxRpc e), [])
      | Inr gas_price \<Rightarrow>
          (case sign (to_be_signed gas_price t) of
             Inl e \<Rightarrow> Some (Inl (TxSigner e), [])
           | Inr raw \<Rightarrow>
               (case na_send_raw na raw of
                  Inl e \<Rightarrow> Some (Inl (TxNotBroadcast e), [raw])
                | Inr txhash \<Rightarrow>
                    if fire_and_forget then Some (Inr (TxHash txhash), [raw])
                    else (case wait_for_receipt (na_view na txhash) TIMEOUT confirmations now of
                            None \<Rightarrow> None
                          | Some (Inl e, _) \<Rightarrow> Some (Inl (TxWait e), [raw])
                          | Some (Inr r, _) \<Rightarrow> Some (check_receipt na txhash r, [raw])))))"

definition send_transaction ::
  "(int \<Rightarrow> rat \<Rightarrow> int) \<Rightarrow> (address \<Rightarrow> bool) \<Rightarrow> ('raw, 'h) node_access \<Rightarrow> (tx \<Rightarrow> signer_error + 'raw) \<Rightarrow> contract_function \<Rightarrow> address \<Rightarrow>
   tx option \<Rightarrow> int option \<Rightarrow> rat option \<Rightarrow> int \<Rightarrow> bool \<Rightarrow> bool \<Rightarrow> nat \<Rightarrow> ((sending_error + 'h tx_result) \<times> 'raw list) option" where
  "send_transaction scale is_ck na sign cf account payload transaction_gas_limit gas_estimation_multiplier confirmations fire_and_forget replace now =
     (if fire_and_forget \<and> confirmations > 0 then Some (Inl TxValueError, [])
      else let use_pending_nonce = (if fire_and_forget then False else replace)
           in case build_contract_transaction scale is_ck cf (na_transaction_count na account) account payload transaction_gas_limit
                     gas_estimation_multiplier use_pending_nonce of
                Inl e \<Rightarrow> Some (Inl e, [])
              | Inr t \<Rightarrow> sign_and_broadcast_transaction na sign t confirmations fire_and_forget now)"

subsection \<open>The factory of interfaces\<close>

record interface_factory =
  fa_interfaces :: "(string, nat) dict"
  fa_connected :: "nat list"

datatype factory_error = InterfaceAlreadyInitialized | InterfaceNotInitialized | NoRegisteredInterfaces | UnsupportedProvider | ConnectError

text \<open>Interfaces are objects, here numbers. \<open>create uri\<close> is the new object, \<open>connects i\<close> whether connecting it succeeds.\<close>

definition is_interface_initialized :: "string \<Rightarrow> interface_factory \<Rightarrow> bool" where
  "is_interface_initialized uri fa \<longleftrightarrow> dict_get (fa_interfaces fa) uri \<noteq> None"

definition register_interface :: "string \<Rightarrow> nat \<Rightarrow> bool \<Rightarrow> interface_factory \<Rightarrow> factory_error + interface_factory" where
  "register_interface uri i force fa =
     (if dict_get (fa_interfaces fa) uri \<noteq> None \<and> \<not> force then Inl InterfaceAlreadyInitialized
      else Inr (fa\<lparr>fa_interfaces := dict_set (fa_interfaces fa) uri i\<rparr>))"

definition initialize_interface :: "(string \<Rightarrow> nat) \<Rightarrow> string \<Rightarrow> interface_factory \<Rightarrow> factory_error + interface_factory" where
  "initialize_interface create uri fa =
     (if uri = [] then Inl UnsupportedProvider
      else if dict_get (fa_interfaces fa) uri \<noteq> None then Inl InterfaceAlreadyInitialized
      else Inr (fa\<lparr>fa_interfaces := dict_set (fa_interfaces fa) uri (create uri)\<rparr>))"

definition get_interface :: "(nat \<Rightarrow> bool) \<Rightarrow> string option \<Rightarrow> interface_factory \<Rightarrow> (factory_error + nat) \<times> interface_factory" where
  "get_interface connects uri fa =
     (case (if given_text uri
            then (case dict_get (fa_interfaces fa) (the uri) of None \<Rightarrow> Inl InterfaceNotInitialized | Some i \<Rightarrow> Inr i)
            else (if fa_interfaces fa = [] then Inl NoRegisteredInterfaces else Inr (snd (last (fa_interfaces fa))))) of
        Inl e \<Rightarrow> (Inl e, fa)
      | Inr i \<Rightarrow>
          if i \<in> set (fa_connected fa) then (Inr i, fa)
          else if connects i then (Inr i, fa\<lparr>fa_connected := i # fa_connected fa\<rparr>)
          else (Inl ConnectError, fa))"

definition get_or_create_interface ::
  "(string \<Rightarrow> nat) \<Rightarrow> (nat \<Rightarrow> bool) \<Rightarrow> string \<Rightarrow> interface_factory \<Rightarrow> (factory_error + nat) \<times> interface_factory" where
  "get_or_create_interface create connects uri fa =
     (case get_interface connects (Some uri) fa of
        (Inl e, fa') \<Rightarrow>
          if e = InterfaceNotInitialized \<or> e = NoRegisteredInterfaces
          then (case initialize_interface create uri fa' of
                  Inl e' \<Rightarrow> (Inl e', fa')
                | Inr fa2 \<Rightarrow> get_interface connects (Some uri) fa2)
          else (Inl e, fa')
      | r \<Rightarrow> r)"


subsection \<open>Gas\<close>

text \<open>
  What is documented of the arguments: the product rounds, so that it stays between one and three times the estimate for an estimate that a
  floating point number holds; and the contract function fills in only the fields that are missing.
\<close>

definition scale_ok :: "(int \<Rightarrow> rat \<Rightarrow> int) \<Rightarrow> bool" where
  "scale_ok scale \<longleftrightarrow> (\<forall>g m. 0 \<le> g \<and> g < 2 ^ 51 \<and> 1 \<le> m \<and> m \<le> 3 \<longrightarrow> g \<le> scale g m \<and> scale g m \<le> 3 * g)"

definition fills_missing :: "contract_function \<Rightarrow> bool" where
  "fills_missing cf \<longleftrightarrow> (\<forall>p t k. cf_build_transaction cf p = Inr t \<longrightarrow> dict_get p k \<noteq> None \<longrightarrow> dict_get t k = dict_get p k)"

text \<open>The gas that the caller put into the payload.\<close>

definition payload_gas :: "tx option \<Rightarrow> tx_value option" where
  "payload_gas payload = (case payload of None \<Rightarrow> None | Some q \<Rightarrow> dict_get q ''gas'')"

lemma build_payload_fields:
  assumes "build_payload tc a p l b = Inr q"
  shows "dict_get q ''from'' = Some (TxStr a)"
    "\<exists>nonce. tc b = Inr nonce \<and> dict_get q ''nonce'' = Some (TxInt nonce)"
    "limit_given l \<Longrightarrow> dict_get q ''gas'' = Some (TxInt (the l))"
    "\<not> limit_given l \<Longrightarrow> dict_get q ''gas'' = payload_gas p"
  using assms by (auto simp: build_payload_def payload_gas_def Let_def dict_get_set split: option.split sum.splits)

lemma build_Inr:
  assumes "build_contract_transaction scale is_ck cf tc a payload l m b = Inr t"
  obtains q p t0 where "build_payload tc a payload l b = Inr q" "payload_with_gas cf q = Inr p" "cf_build_transaction cf p = Inr t0"
    "increase_gas scale m l t0 = Inr t" "multiplier_ok m" "is_ck a"
  using assms by (auto simp: build_contract_transaction_def split: if_splits sum.splits)

lemma increase_gas_other: "increase_gas scale m l t0 = Inr t \<Longrightarrow> k \<noteq> ''gas'' \<Longrightarrow> dict_get t k = dict_get t0 k"
  by (auto simp: increase_gas_def dict_get_set split: option.splits if_splits tx_value.splits)

lemma increase_gas_gas:
  assumes "increase_gas scale m l t0 = Inr t" "multiplier_ok m" "scale_ok scale" "dict_get t0 ''gas'' = Some (TxInt g)"
  shows "\<exists>g'. dict_get t ''gas'' = Some (TxInt g') \<and> (m = None \<or> limit_given l \<longrightarrow> g' = g) \<and> (0 \<le> g \<and> g < 2 ^ 51 \<longrightarrow> g \<le> g' \<and> g' \<le> 3 * g)"
  using assms by (cases m) (auto simp: increase_gas_def multiplier_ok_def scale_ok_def dict_get_set split: if_splits)

lemma payload_with_gas_Inr:
  assumes "payload_with_gas cf q = Inr p"
  shows "dict_get p ''gas'' \<noteq> None" "k \<noteq> ''gas'' \<Longrightarrow> dict_get p k = dict_get q k"
    "dict_get q ''gas'' \<noteq> None \<Longrightarrow> p = q"
    "dict_get q ''gas'' = None \<Longrightarrow> \<exists>g. cf_estimate_gas cf q = Inr g \<and> dict_get p ''gas'' = Some (TxInt g)"
  using assms by (auto simp: payload_with_gas_def dict_get_set split: if_splits sum.splits)

lemma built_names:
  assumes "build_contract_transaction scale is_ck cf tc a payload l m b = Inr t" "fills_missing cf"
  shows "dict_get t ''from'' = Some (TxStr a)" "\<exists>nonce. tc b = Inr nonce \<and> dict_get t ''nonce'' = Some (TxInt nonce)"
proof -
  from build_Inr [OF assms(1)] obtain q p t0 where
    b: "build_payload tc a payload l b = Inr q" "payload_with_gas cf q = Inr p" "cf_build_transaction cf p = Inr t0" "increase_gas scale m l t0 = Inr t" .
  from build_payload_fields(2) [OF b(1)] obtain nonce where n: "tc b = Inr nonce" "dict_get q ''nonce'' = Some (TxInt nonce)" by blast
  have p: "dict_get p ''from'' = Some (TxStr a)" "dict_get p ''nonce'' = Some (TxInt nonce)"
    using payload_with_gas_Inr(2) [OF b(2)] build_payload_fields(1) [OF b(1)] n(2) by auto
  with assms(2) b(3) have "dict_get t0 ''from'' = Some (TxStr a)" "dict_get t0 ''nonce'' = Some (TxInt nonce)"
    by (auto simp: fills_missing_def)
  with increase_gas_other [OF b(4)] n(1)
  show "dict_get t ''from'' = Some (TxStr a)" "\<exists>nonce. tc b = Inr nonce \<and> dict_get t ''nonce'' = Some (TxInt nonce)" by auto
qed

text \<open>
  C34. The gas limit of a transaction that is built, when the contract function fills in only missing fields. A limit that is
  asked for (an argument that is not zero) is the limit, exactly, whatever the payload says. Without one, the limit follows from
  the gas in the payload or, when the payload has none, from what the contract function estimates for it: it is that number when
  there is no multiplier; and with a multiplier, which is then between one and three, it is at least that number and at most
  three times that number, for numbers below \<open>2 ^ 51\<close>, where the product of floating point numbers cannot round across these
  bounds. The sender and the nonce are those of the account.
\<close>

theorem gas_limit_bounds:
  assumes "build_contract_transaction scale is_ck cf tc a payload l m b = Inr t" "fills_missing cf" "scale_ok scale"
  shows "dict_get t ''from'' = Some (TxStr a) \<and> (\<exists>nonce. tc b = Inr nonce \<and> dict_get t ''nonce'' = Some (TxInt nonce)) \<and>
    (limit_given l \<longrightarrow> dict_get t ''gas'' = Some (TxInt (the l))) \<and>
    (\<not> limit_given l \<and> payload_gas payload = None \<longrightarrow>
      (\<exists>q g g'. build_payload tc a payload l b = Inr q \<and> cf_estimate_gas cf q = Inr g \<and> dict_get t ''gas'' = Some (TxInt g') \<and>
        (m = None \<longrightarrow> g' = g) \<and> (0 \<le> g \<and> g < 2 ^ 51 \<longrightarrow> g \<le> g' \<and> g' \<le> 3 * g))) \<and>
    (\<forall>g. \<not> limit_given l \<and> payload_gas payload = Some (TxInt g) \<longrightarrow>
      (\<exists>g'. dict_get t ''gas'' = Some (TxInt g') \<and>
        (m = None \<longrightarrow> g' = g) \<and> (0 \<le> g \<and> g < 2 ^ 51 \<longrightarrow> g \<le> g' \<and> g' \<le> 3 * g)))"
proof -
  from build_Inr [OF assms(1)] obtain q p t0 where
    b: "build_payload tc a payload l b = Inr q" "payload_with_gas cf q = Inr p" "cf_build_transaction cf p = Inr t0" "increase_gas scale m l t0 = Inr t"
      "multiplier_ok m" .
  note pw = payload_with_gas_Inr [OF b(2)] and gas = increase_gas_gas [OF b(4,5) assms(3)]
  note q = build_payload_fields [OF b(1)]
  have t0: "dict_get t0 ''gas'' = dict_get p ''gas''" using assms(2) b(3) pw(1) by (simp add: fills_missing_def)
  have "dict_get t ''gas'' = Some (TxInt (the l))" if "limit_given l"
    using gas [of "the l"] that pw(3) t0 q(3) by auto
  moreover have "\<exists>g g'. cf_estimate_gas cf q = Inr g \<and> dict_get t ''gas'' = Some (TxInt g') \<and>
        (m = None \<longrightarrow> g' = g) \<and> (0 \<le> g \<and> g < 2 ^ 51 \<longrightarrow> g \<le> g' \<and> g' \<le> 3 * g)" if no: "\<not> limit_given l" "payload_gas payload = None"
  proof -
    from pw(4) q(4) no obtain g where g: "cf_estimate_gas cf q = Inr g" "dict_get t0 ''gas'' = Some (TxInt g)" using t0 by auto
    with gas [OF g(2)] show ?thesis by blast
  qed
  moreover have "\<exists>g'. dict_get t ''gas'' = Some (TxInt g') \<and>
        (m = None \<longrightarrow> g' = g) \<and> (0 \<le> g \<and> g < 2 ^ 51 \<longrightarrow> g \<le> g' \<and> g' \<le> 3 * g)" if "\<not> limit_given l" "payload_gas payload = Some (TxInt g)" for g
    using gas [of g] that pw(3) t0 q(4) by auto
  ultimately show ?thesis using built_names [OF assms(1,2)] b(1) by blast
qed

text \<open>The exact ceiling of the product, and a contract function that estimates 100000 and builds the payload itself.\<close>

definition exact_scale :: "int \<Rightarrow> rat \<Rightarrow> int" where
  "exact_scale g m = \<lceil>rat_of_int g * m\<rceil>"

definition demo_function :: contract_function where
  "demo_function = \<lparr>cf_estimate_gas = (\<lambda>_. Inr 100000), cf_build_transaction = (\<lambda>p. Inr (p @ [(''to'', TxStr ''0xC''), (''gasPrice'', TxInt 7)]))\<rparr>"

lemma exact_scale_ok: "scale_ok exact_scale"
proof -
  have "g \<le> exact_scale g m \<and> exact_scale g m \<le> 3 * g" if "0 \<le> g" "1 \<le> m" "m \<le> 3" for g m
  proof -
    have "rat_of_int g \<le> rat_of_int g * m" "rat_of_int g * m \<le> rat_of_int (3 * g)"
      using that mult_left_mono [of 1 m "rat_of_int g"] mult_left_mono [of m 3 "rat_of_int g"] by auto
    then show ?thesis unfolding exact_scale_def by (meson ceiling_le_iff le_of_int_ceiling of_int_le_iff order_trans)
  qed
  then show ?thesis by (simp add: scale_ok_def)
qed

lemma demo_function_fills: "fills_missing demo_function"
  by (auto simp: fills_missing_def demo_function_def map_add_def)

theorem gas_limit_bounds_witness:
  "\<exists>t q g g'. build_contract_transaction exact_scale (\<lambda>_. True) demo_function (\<lambda>_. Inr 5) ''0xA'' None None (Some (23 / 20)) False = Inr t \<and>
     dict_get t ''from'' = Some (TxStr ''0xA'') \<and> dict_get t ''nonce'' = Some (TxInt 5) \<and>
     build_payload (\<lambda>_. Inr 5) ''0xA'' None None False = Inr q \<and> cf_estimate_gas demo_function q = Inr g \<and>
     dict_get t ''gas'' = Some (TxInt g') \<and> g \<le> g' \<and> g' \<le> 3 * g"
proof -
  obtain t where t: "build_contract_transaction exact_scale (\<lambda>_. True) demo_function (\<lambda>_. Inr 5) ''0xA'' None None (Some (23 / 20)) False = Inr t"
    by (simp add: build_contract_transaction_def multiplier_ok_def payload_with_gas_def build_payload_def limit_given_def
        demo_function_def increase_gas_def)
  from gas_limit_bounds [OF t demo_function_fills exact_scale_ok] t show ?thesis
    by (auto simp: limit_given_def demo_function_def payload_gas_def)
qed

subsection \<open>What is sent\<close>

lemma dict_get_filter_keys: "dict_get (filter (\<lambda>(k, _). P k) d) k = (if P k then dict_get d k else None)"
  by (induction d) auto

lemma signed_fields:
  "dict_get (to_be_signed price t) ''gasPrice'' = Some (TxInt price)"
  "dict_get (to_be_signed price t) ''from'' = dict_get t ''from''"
  "dict_get (to_be_signed price t) ''nonce'' = dict_get t ''nonce''"
  by (simp_all add: to_be_signed_def Let_def dict_get_set dict_get_filter_keys signable_fields_def)

text \<open>
  What a result says of what was sent: at most one transaction; a receipt is one that the node gave for the hash of the transaction
  that was sent, and a hash is that hash.
\<close>

definition result_of_sent :: "('raw, 'h) node_access \<Rightarrow> int \<Rightarrow> bool \<Rightarrow> sending_error + 'h tx_result \<Rightarrow> 'raw list \<Rightarrow> bool" where
  "result_of_sent na confirmations fire res sent \<longleftrightarrow> length sent \<le> 1 \<and>
     (\<forall>r. res = Inr (TxReceipt r) \<longrightarrow> rc_status r \<noteq> Some 0 \<and> \<not> fire \<and>
       (\<exists>raw h. sent = [raw] \<and> na_send_raw na raw = Inr h \<and> given_by_node (na_view na h) r
          \<and> (0 < confirmations \<longrightarrow> confirmed (na_view na h) r confirmations))) \<and>
     (\<forall>h. res = Inr (TxHash h) \<longrightarrow> fire \<and> (\<exists>raw. sent = [raw] \<and> na_send_raw na raw = Inr h))"

lemma check_receipt_Inr: "check_receipt na h r = Inr x \<Longrightarrow> x = TxReceipt r \<and> rc_status r \<noteq> Some 0"
  by (auto simp: check_receipt_def split: option.splits if_splits sum.splits)

lemma result_of_error [simp]:
  "result_of_sent na confirmations fire (Inl e) []" "result_of_sent na confirmations fire (Inl e) [raw]"
  by (simp_all add: result_of_sent_def)

lemma broadcast_outcome:
  assumes "\<forall>h. clock_ok (na_view na h)"
  shows "\<exists>res sent. sign_and_broadcast_transaction na sign t confirmations fire now = Some (res, sent) \<and>
    result_of_sent na confirmations fire res sent \<and>
    (\<forall>raw \<in> set sent. \<exists>price. sign (to_be_signed price t) = Inr raw)"
proof (cases "\<exists>v price raw h. max_unit_price (na_gas_price na) t = Inr v \<and> dict_get t ''gas'' \<noteq> None \<and> json_serializable t \<and>
    na_gas_price na = Inr price \<and> sign (to_be_signed price t) = Inr raw \<and> na_send_raw na raw = Inr h")
  case True
  then obtain v price raw h where
    ok: "max_unit_price (na_gas_price na) t = Inr v" "dict_get t ''gas'' \<noteq> None" "json_serializable t" "na_gas_price na = Inr price"
      "sign (to_be_signed price t) = Inr raw" "na_send_raw na raw = Inr h" by blast
  from wait_for_receipt_ends [of "na_view na h" TIMEOUT confirmations now] assms obtain w n' where
    w: "wait_for_receipt (na_view na h) TIMEOUT confirmations now = Some (w, n')" "wait_ok (na_view na h) confirmations w" by blast
  have run: "sign_and_broadcast_transaction na sign t confirmations fire now =
      (if fire then Some (Inr (TxHash h), [raw])
       else Some (case w of Inl e \<Rightarrow> (Inl (TxWait e), [raw]) | Inr r \<Rightarrow> (check_receipt na h r, [raw])))"
    using ok w(1) by (auto simp: sign_and_broadcast_transaction_def split: sum.splits)
  have "result_of_sent na confirmations False (check_receipt na h r) [raw]" if "w = Inr r" for r
    using that w(2) ok(6) check_receipt_Inr [of na h r] by (auto simp: result_of_sent_def wait_ok_def)
  moreover have "result_of_sent na confirmations True (Inr (TxHash h)) [raw]"
    using ok(6) by (simp add: result_of_sent_def)
  ultimately show ?thesis unfolding run using ok(5) by (cases w) auto
next
  case False
  then show ?thesis by (auto simp: sign_and_broadcast_transaction_def split: sum.splits)
qed


text \<open>
  C32. Sending a transaction ends, and broadcasts at most one signed transaction, from the account and with the nonce that the node
  counts for it. A receipt is returned only without fire-and-forget; it is one that the node gave for the hash of the transaction
  that was broadcast, also when no confirmations are asked for; its status is not a failure, and it has the confirmations asked
  for. A hash is returned only with fire-and-forget and is that of the transaction that was broadcast. Asking for confirmations and
  not waiting at once is refused before anything is sent. Assumed are a clock that advances while the client sleeps and a contract
  function that fills in only missing fields.
\<close>

theorem send_transaction_outcome:
  assumes "\<forall>h. clock_ok (na_view na h)" "fills_missing cf"
  shows "\<exists>res sent. send_transaction scale is_ck na sign cf a payload l m confirmations fire replace now = Some (res, sent) \<and>
    length sent \<le> 1 \<and>
    (\<forall>raw \<in> set sent. \<exists>t nonce. sign t = Inr raw \<and> dict_get t ''from'' = Some (TxStr a) \<and>
       na_transaction_count na a (\<not> fire \<and> replace) = Inr nonce \<and> dict_get t ''nonce'' = Some (TxInt nonce)) \<and>
    (\<forall>r. res = Inr (TxReceipt r) \<longrightarrow> rc_status r \<noteq> Some 0 \<and> \<not> fire \<and>
       (\<exists>raw h. sent = [raw] \<and> na_send_raw na raw = Inr h \<and> given_by_node (na_view na h) r
          \<and> (0 < confirmations \<longrightarrow> confirmed (na_view na h) r confirmations))) \<and>
    (\<forall>h. res = Inr (TxHash h) \<longrightarrow> fire \<and> (\<exists>raw. sent = [raw] \<and> na_send_raw na raw = Inr h)) \<and>
    (fire \<and> 0 < confirmations \<longrightarrow> res = Inl TxValueError \<and> sent = [])"
proof (cases "fire \<and> 0 < confirmations")
  case False
  let ?b = "build_contract_transaction scale is_ck cf (na_transaction_count na a) a payload l m (\<not> fire \<and> replace)"
  have pend: "(if fire then False else replace) = (\<not> fire \<and> replace)" by simp
  show ?thesis
  proof (cases ?b)
    case (Inl e)
    with False show ?thesis by (auto simp: send_transaction_def Let_def pend)
  next
    case (Inr t)
    from broadcast_outcome [OF assms(1), of sign t confirmations fire now] obtain res sent where
      b: "sign_and_broadcast_transaction na sign t confirmations fire now = Some (res, sent)" "result_of_sent na confirmations fire res sent"
        "\<forall>raw \<in> set sent. \<exists>price. sign (to_be_signed price t) = Inr raw" by blast
    have "send_transaction scale is_ck na sign cf a payload l m confirmations fire replace now = Some (res, sent)"
      using False Inr b(1) by (auto simp: send_transaction_def Let_def pend)
    moreover have "\<exists>t nonce. sign t = Inr raw \<and> dict_get t ''from'' = Some (TxStr a) \<and>
        na_transaction_count na a (\<not> fire \<and> replace) = Inr nonce \<and> dict_get t ''nonce'' = Some (TxInt nonce)" if "raw \<in> set sent" for raw
      using b(3) that built_names [OF Inr assms(2)] signed_fields by metis
    ultimately show ?thesis using b(2) False unfolding result_of_sent_def
      by (intro exI [of _ res] exI [of _ sent] conjI) blast+
  qed
qed (simp add: send_transaction_def)

definition demo_node_access :: "('raw, string) node_access" where
  "demo_node_access = \<lparr>na_gas_price = Inr 30, na_transaction_count = (\<lambda>_ pending. Inr (if pending then 6 else 5)), na_send_raw = (\<lambda>_. Inr ''t''),
     na_view = (\<lambda>_. demo_view), na_transaction_gas = (\<lambda>_. Inr 0)\<rparr>"

lemma demo_built:
  "build_contract_transaction exact_scale (\<lambda>_. True) demo_function (na_transaction_count demo_node_access ''0xA'') ''0xA'' None None (Some 2) False =
     Inr [(''nonce'', TxInt 5), (''from'', TxStr ''0xA''), (''gas'', TxInt 200000), (''to'', TxStr ''0xC''), (''gasPrice'', TxInt 7)]"
proof -
  have "exact_scale 100000 2 = 200000" by (simp add: exact_scale_def)
  then show ?thesis
    by (simp add: build_contract_transaction_def multiplier_ok_def payload_with_gas_def build_payload_def limit_given_def
        demo_function_def increase_gas_def demo_node_access_def)
qed

lemma demo_sent:
  "send_transaction exact_scale (\<lambda>_. True) demo_node_access (\<lambda>t. Inr t) demo_function ''0xA'' None None (Some 2) 2 False False 0 =
     Some (Inr (TxReceipt (demo_receipt ''b'')),
       [[(''nonce'', TxInt 5), (''from'', TxStr ''0xA''), (''gas'', TxInt 200000), (''to'', TxStr ''0xC''), (''gasPrice'', TxInt 30)]])"
  by (simp add: send_transaction_def demo_built Let_def sign_and_broadcast_transaction_def json_serializable_def)
    (simp add: demo_node_access_def max_unit_price_def to_be_signed_def signable_fields_def TIMEOUT_def demo_receipt_found check_receipt_def demo_receipt_def)

theorem send_transaction_outcome_witness:
  "\<exists>r raw t. send_transaction exact_scale (\<lambda>_. True) demo_node_access (\<lambda>t. Inr t) demo_function ''0xA'' None None (Some 2) 2 False False 0 =
       Some (Inr (TxReceipt r), [raw]) \<and> confirmed demo_view r 2 \<and> rc_status r \<noteq> Some 0 \<and>
     (Inr t :: signer_error + tx) = Inr raw \<and> dict_get t ''from'' = Some (TxStr ''0xA'') \<and> dict_get t ''nonce'' = Some (TxInt 5)"
proof -
  have "\<forall>h. clock_ok (na_view demo_node_access h)" by (simp add: demo_node_access_def demo_clock)
  from send_transaction_outcome [OF this demo_function_fills, of exact_scale "\<lambda>_. True" "\<lambda>t. Inr t" "''0xA''" None None "Some 2" 2 False False 0]
  show ?thesis unfolding demo_sent by (auto simp: demo_node_access_def)
qed

text \<open>
  The price that the gas strategy and its maximum gave to the transaction is not the price that is signed: the signed price does not depend on
  it.
\<close>

lemma signed_price_ignores_strategy:
  assumes "sign_and_broadcast_transaction na sign t confirmations fire now = Some (res, [raw])"
  shows "\<exists>s price. sign s = Inr raw \<and> na_gas_price na = Inr price \<and> dict_get s ''gasPrice'' = Some (TxInt price)"
  using assms signed_fields(1) [of _ t]
  by (auto simp: sign_and_broadcast_transaction_def split: if_splits sum.splits option.splits prod.splits)

text \<open>A transaction that creates a contract has no bytes in its \<^verbatim>\<open>to\<close>, or else printing it raises before it is signed.\<close>

lemma creation_not_sent:
  assumes "(''to'', TxBytes []) \<in> set t"
  shows "\<exists>e. sign_and_broadcast_transaction na sign t confirmations fire now = Some (Inl e, [])"
proof -
  have "\<not> json_serializable t" using assms by (fastforce simp: json_serializable_def list_all_iff)
  then show ?thesis by (auto simp: sign_and_broadcast_transaction_def split: sum.split)
qed

subsection \<open>Sending with a key file signer\<close>

lemma sent_is_signed:
  assumes "fills_missing cf"
    and "send_transaction scale is_ck na sign cf a payload l m confirmations fire replace now = Some (res, sent)" "raw \<in> set sent"
  shows "\<exists>t. sign t = Inr raw \<and> dict_get t ''from'' = Some (TxStr a)"
proof -
  from assms(2,3) obtain b t where t: "build_contract_transaction scale is_ck cf (na_transaction_count na a) a payload l m b = Inr t"
    and s: "sign_and_broadcast_transaction na sign t confirmations fire now = Some (res, sent)"
    by (auto simp: send_transaction_def Let_def split: if_splits sum.splits)
  from s assms(3) obtain price where "sign (to_be_signed price t) = Inr raw"
    by (auto simp: sign_and_broadcast_transaction_def split: if_splits sum.splits option.splits)
  with signed_fields(2) [of price t] built_names(1) [OF t assms(1)] show ?thesis by metis
qed

lemma ks_sign_transaction_Inr:
  assumes "ks_sign_transaction lib t s = Inr raw" "dict_get t ''from'' = Some (TxStr a)"
  shows "\<exists>k t'. dict_get (ks_signers s) a = Some k \<and> raw = el_sign_transaction lib k t'"
  using assms by (auto simp: ks_sign_transaction_def ks_get_signer_def split: option.splits if_splits)

text \<open>
  C33. Whatever happened to a key file signer since it read its files, a transaction from an account is broadcast only while the account is
  unlocked, and it is signed with a key that a password took out of the key file of that account.
\<close>

theorem only_unlocked_accounts_send:
  assumes "\<forall>j. el_is_address lib j \<longrightarrow> el_is_checksum lib (el_to_checksum lib j)"
    and "new_keystore_signer lib fs p = Inr s0" "(ks_step lib)\<^sup>*\<^sup>* s0 s"
    and "fills_missing cf"
    and "send_transaction scale is_ck na (\<lambda>t. ks_sign_transaction lib t s) cf a payload l m confirmations fire replace now = Some (res, sent)"
    and "raw \<in> set sent"
  shows "\<exists>md pw k t. dict_get (ks_signers s) a = Some k \<and> dict_get (ks_keys s0) a = Some md \<and> el_decrypt lib md pw = Decrypted k \<and>
    raw = el_sign_transaction lib k t"
proof -
  have "ks_inv lib s0" using ks_start_inv [OF assms(1)] assms(2) by (simp add: ks_start_def)
  with assms(3) have "ks_inv lib s" by (rule kst.steps_inv)
  then have dec: "ks_keys_decrypted lib s" by (simp add: ks_inv_def)
  from sent_is_signed [OF assms(4-6)] obtain k t' where k: "dict_get (ks_signers s) a = Some k" "raw = el_sign_transaction lib k t'"
    using ks_sign_transaction_Inr by metis
  with dec obtain md pw where "dict_get (ks_keys s) a = Some md" "el_decrypt lib md pw = Decrypted k"
    unfolding ks_keys_decrypted_def by blast
  with k ks_steps_keys [OF assms(3)] show ?thesis by auto
qed


theorem only_unlocked_accounts_send_witness:
  "let s = demo_signer\<lparr>ks_signers := [(''0xA'', 7)]\<rparr>
   in send_transaction exact_scale (\<lambda>_. True) demo_node_access (\<lambda>t. ks_sign_transaction demo_lib t s) demo_function ''0xA'' None None (Some 2) 0 True False 0 =
        Some (Inr (TxHash ''t''), [(7, [])]) \<and>
      (\<exists>md pw k t. dict_get (ks_signers s) ''0xA'' = Some k \<and> dict_get (ks_keys demo_signer) ''0xA'' = Some md \<and>
         el_decrypt demo_lib md pw = Decrypted k \<and> (7, []) = el_sign_transaction demo_lib k t)"
proof -
  let ?s = "demo_signer\<lparr>ks_signers := [(''0xA'', 7)]\<rparr>"
  have "ks_step demo_lib demo_signer ?s"
    using step_unlock [of demo_lib demo_signer "''0xA''" "Some ''pw''"] by (simp add: demo_unlock)
  then have reach: "(ks_step demo_lib)\<^sup>*\<^sup>* demo_signer ?s" by blast
  have law: "\<forall>j. el_is_address demo_lib j \<longrightarrow> el_is_checksum demo_lib (el_to_checksum demo_lib j)" by (simp add: demo_lib_def)
  have sent: "send_transaction exact_scale (\<lambda>_. True) demo_node_access (\<lambda>t. ks_sign_transaction demo_lib t ?s) demo_function ''0xA'' None None (Some 2) 0 True False 0 =
      Some (Inr (TxHash ''t''), [(7, [])])"
    by (simp add: send_transaction_def demo_built Let_def sign_and_broadcast_transaction_def json_serializable_def to_be_signed_def
        signable_fields_def ks_sign_transaction_def ks_get_signer_def)
      (simp add: demo_lib_def demo_node_access_def max_unit_price_def to_be_signed_def signable_fields_def ks_get_signer_def)
  from only_unlocked_accounts_send [OF law demo_signer_new reach demo_function_fills sent, of "(7, [])"] sent show ?thesis by (simp add: Let_def)
qed

subsection \<open>Connections\<close>

text \<open>Asking for an interface twice gives the same one, and other interfaces stay as they are.\<close>

lemma get_or_create_again:
  assumes "uri \<noteq> []" "get_or_create_interface create connects uri fa = (Inr i, fa')"
  shows "dict_get (fa_interfaces fa') uri = Some i" "get_or_create_interface create connects uri fa' = (Inr i, fa')"
    "u \<noteq> uri \<Longrightarrow> dict_get (fa_interfaces fa') u = dict_get (fa_interfaces fa) u"
proof -
  have g: "given_text (Some uri)" using assms(1) by (simp add: given_text_def)
  have "dict_get (fa_interfaces fa') uri = Some i \<and> i \<in> set (fa_connected fa') \<and> (u \<noteq> uri \<longrightarrow> dict_get (fa_interfaces fa') u = dict_get (fa_interfaces fa) u)"
    using assms g by (auto simp: get_or_create_interface_def get_interface_def initialize_interface_def dict_get_set split: option.splits if_splits sum.splits)
  then show "dict_get (fa_interfaces fa') uri = Some i" "get_or_create_interface create connects uri fa' = (Inr i, fa')"
    "u \<noteq> uri \<Longrightarrow> dict_get (fa_interfaces fa') u = dict_get (fa_interfaces fa) u"
    using g by (auto simp: get_or_create_interface_def get_interface_def)
qed

text \<open>
  An interface that is registered again, by force, keeps its place among the others: the interface that is used by default is still the one
  that was registered last under a new URI, not the one created last.
\<close>

lemma forced_interface_not_default:
  assumes "register_interface ''a'' 3 True \<lparr>fa_interfaces = [(''a'', 1), (''b'', 2)], fa_connected = []\<rparr> = Inr fa"
  shows "fst (get_interface (\<lambda>_. True) None fa) = Inr 2"
  using assms by (auto simp: register_interface_def get_interface_def given_text_def)

end
