(* ===== verification/Configuration.thy ===== *)
theory Configuration
  imports Keystore Node_Storage
begin

text \<open>
  The configuration of a character and the file it is kept in: \<^verbatim>\<open>nulink/config/base.py\<close>,
  \<^verbatim>\<open>nulink/config/characters.py\<close> and \<^verbatim>\<open>nulink/config/util.py\<close>.

  A configuration object is the dictionary of its attributes, as Python keeps it: an attribute that no branch of the
  constructor set is missing from it. The constructor takes the dictionary of its keyword arguments. What the chain, the registry
  publication and the signers answer are parameters, as is the text of a decimal number. Paths are absolute; a relative text is a path below the working directory.
  The directory that the storage in memory makes for certificates, and logging, are left out.
\<close>

subsection \<open>Values\<close>

text \<open>
  \<open>PyConst\<close> is one of the constants of \<^verbatim>\<open>constant_sorrow\<close> that the module makes false,
  \<open>PyDecimal\<close> a decimal with its text and whether it differs from zero, \<open>PyObject\<close> any other object.
\<close>

datatype py_value =
    PyJson json | PyPath path | PyDecimal string bool | PyConst string | PyKeystore keystore | PyLocalRegistry py_value | PyObject string

type_synonym py_dict = "(string, py_value) dict"

abbreviation "PyNone \<equiv> PyJson JNull"
abbreviation "PyStr s \<equiv> PyJson (JStr s)"
abbreviation "PyBool b \<equiv> PyJson (JBool b)"
abbreviation "PyInt n \<equiv> PyJson (JInt n)"

abbreviation "UNINITIALIZED_CONFIGURATION \<equiv> PyConst ''UNINITIALIZED_CONFIGURATION''"
abbreviation "NO_BLOCKCHAIN_CONNECTION \<equiv> PyConst ''NO_BLOCKCHAIN_CONNECTION''"
abbreviation "NO_KEYSTORE_ATTACHED \<equiv> PyConst ''NO_KEYSTORE_ATTACHED''"
abbreviation "FORGETFUL_NODE_STORAGE \<equiv> PyObject ''ForgetfulNodeStorage''"

fun json_true :: "json \<Rightarrow> bool" where
  "json_true (JStr s) \<longleftrightarrow> s \<noteq> []"
| "json_true (JObj d) \<longleftrightarrow> d \<noteq> []"
| "json_true JNull \<longleftrightarrow> False"
| "json_true (JBool b) \<longleftrightarrow> b"
| "json_true (JInt n) \<longleftrightarrow> n \<noteq> 0"
| "json_true (JFloat r) \<longleftrightarrow> r \<noteq> 0"
| "json_true (JList l) \<longleftrightarrow> l \<noteq> []"

fun is_true :: "py_value \<Rightarrow> bool" where
  "is_true (PyJson j) = json_true j"
| "is_true (PyDecimal _ nonzero) = nonzero"
| "is_true (PyConst _) = False"
| "is_true _ = True"

text \<open>Python's \<^verbatim>\<open>a or b\<close>.\<close>

definition or_else :: "py_value \<Rightarrow> py_value \<Rightarrow> py_value" where
  "or_else a b = (if is_true a then a else b)"

text \<open>Going on with a result unless it is an exception.\<close>

definition and_then :: "'e + 'a \<Rightarrow> ('a \<Rightarrow> 'e + 'b) \<Rightarrow> 'e + 'b" where
  "and_then r f = (case r of Inl e \<Rightarrow> Inl e | Inr x \<Rightarrow> f x)"

lemma and_then_simps [simp]: "and_then (Inl e) f = Inl e" "and_then (Inr x) f = f x"
  by (simp_all add: and_then_def)

lemma and_then_Inr: "and_then r f = Inr y \<longleftrightarrow> (\<exists>x. r = Inr x \<and> f x = Inr y)"
  by (cases r) simp_all

text \<open>A keyword argument, with its default.\<close>

definition kwarg :: "py_dict \<Rightarrow> string \<Rightarrow> py_value \<Rightarrow> py_value" where
  "kwarg kw k otherwise = (case dict_get kw k of Some v \<Rightarrow> v | None \<Rightarrow> otherwise)"

definition show_path :: "path \<Rightarrow> string" where
  "show_path p = (if p = [] then ''/'' else concat (map (\<lambda>c. CHR ''/'' # c) p))"

definition read_path :: "path \<Rightarrow> string \<Rightarrow> path" where
  "read_path cwd s = path_join (if take 1 s = ''/'' then [] else cwd) s"

datatype config_error =
    ConfigurationError | OldVersion | InvalidConfiguration | CfgTypeError | CfgValueError | CfgRuntimeError
  | CfgKeyError string | CfgAttributeError string | CfgFileExistsError | CfgOsError os_error
  | CfgUnicodeError | CfgJsonError | CfgKeystoreError keystore_error | CfgStorageError | CfgServiceError string

record config_env =
  ce_default_root :: path
  ce_cwd :: path
  ce_temp_dir :: path
  ce_str :: "py_value \<Rightarrow> string"
  ce_decimal :: "json \<Rightarrow> config_error + string \<times> bool"
  ce_initialized :: "py_value \<Rightarrow> bool"
  ce_initialize :: "py_value \<Rightarrow> config_error option"
  ce_publication :: "py_value \<Rightarrow> config_error + string"
  ce_signer :: "py_value \<Rightarrow> bool \<Rightarrow> config_error + string"
  ce_registry_filepath :: "string \<Rightarrow> py_value"

subsection \<open>The classes\<close>

datatype config_class = UrsulaConfiguration | AliceConfiguration | BobConfiguration

fun config_name :: "config_class \<Rightarrow> string" where
  "config_name UrsulaConfiguration = ''ursula''"
| "config_name AliceConfiguration = ''alice''"
| "config_name BobConfiguration = ''bob''"

definition CONFIG_VERSION :: int where "CONFIG_VERSION = 4"
definition DEFAULT_DOMAIN :: string where "DEFAULT_DOMAIN = ''mainnet''"
definition DEFAULT_GAS_STRATEGY :: string where "DEFAULT_GAS_STRATEGY = ''fast''"
definition DEFAULT_PAYMENT_METHOD :: string where "DEFAULT_PAYMENT_METHOD = ''SubscriptionManager''"
definition DEFAULT_PAYMENT_NETWORK :: string where "DEFAULT_PAYMENT_NETWORK = ''bsc_testnet''"
definition DEFAULT_FEDERATED_PAYMENT_METHOD :: string where "DEFAULT_FEDERATED_PAYMENT_METHOD = ''Free''"

fun DEFAULT_CONTROLLER_PORT :: "config_class \<Rightarrow> py_value" where
  "DEFAULT_CONTROLLER_PORT UrsulaConfiguration = PyObject ''NotImplemented''"
| "DEFAULT_CONTROLLER_PORT AliceConfiguration = PyInt 8151"
| "DEFAULT_CONTROLLER_PORT BobConfiguration = PyInt 7151"

fun CONFIG_FIELDS :: "config_class \<Rightarrow> string list" where
  "CONFIG_FIELDS UrsulaConfiguration =
     [''config_root'', ''poa'', ''light'', ''registry_filepath'', ''gas_strategy'', ''max_gas_price'', ''signer_uri'',
      ''keystore_path'', ''payment_provider'', ''payment_network'']"
| "CONFIG_FIELDS _ =
     [''config_root'', ''poa'', ''light'', ''registry_filepath'', ''gas_strategy'', ''max_gas_price'', ''signer_uri'',
      ''keystore_path'', ''payment_provider'', ''payment_network'', ''store_policies'', ''store_cards'']"

definition character_parameters :: "string list" where
  "character_parameters =
     [''emitter'', ''config_root'', ''filepath'', ''dev_mode'', ''federated_only'', ''checksum_address'', ''crypto_power'', ''keystore'',
      ''keystore_path'', ''learn_on_same_thread'', ''abort_on_learning_error'', ''start_learning_now'', ''controller_port'', ''domain'',
      ''network_middleware'', ''lonely'', ''known_nodes'', ''node_storage'', ''reload_metadata'', ''save_metadata'', ''poa'', ''light'',
      ''eth_provider_uri'', ''gas_strategy'', ''max_gas_price'', ''signer_uri'', ''payment_method'', ''payment_provider'',
      ''payment_network'', ''registry'', ''registry_filepath'', ''policy_registry'', ''policy_registry_filepath'', ''worker_data'']"

fun own_parameters :: "config_class \<Rightarrow> string list" where
  "own_parameters UrsulaConfiguration =
     [''rest_host'', ''operator_address'', ''dev_mode'', ''db_filepath'', ''keystore_path'', ''rest_port'', ''certificate'', ''availability_check'']"
| "own_parameters AliceConfiguration = [''threshold'', ''shares'', ''rate'', ''duration'', ''store_policies'', ''store_cards'']"
| "own_parameters BobConfiguration = [''store_policies'', ''store_cards'']"

subsection \<open>File names\<close>

text \<open>\<^verbatim>\<open>generate_filename\<close>; a modifier that is false counts as none.\<close>

definition generate_filename :: "config_env \<Rightarrow> config_class \<Rightarrow> py_value \<Rightarrow> string" where
  "generate_filename ce cl modifier =
     config_name cl @ (if is_true modifier then ''-'' @ (case modifier of PyJson (JStr s) \<Rightarrow> s | v \<Rightarrow> ce_str ce v) else []) @ ''.json''"

definition default_filepath :: "config_env \<Rightarrow> config_class \<Rightarrow> path option \<Rightarrow> path" where
  "default_filepath ce cl config_root =
     path_join (case config_root of Some r \<Rightarrow> r | None \<Rightarrow> ce_default_root ce) (generate_filename ce cl PyNone)"

text \<open>\<^verbatim>\<open>value / name\<close>: only a path has it.\<close>

definition below :: "py_value \<Rightarrow> string \<Rightarrow> config_error + path" where
  "below v name = (case v of PyPath p \<Rightarrow> Inr (path_join p name) | _ \<Rightarrow> Inl CfgTypeError)"

text \<open>\<^verbatim>\<open>cast_paths_from\<close>: the constructor arguments that are paths.\<close>

definition path_parameters :: "config_class \<Rightarrow> string list" where
  "path_parameters cl =
     (if cl = UrsulaConfiguration then [''db_filepath''] else []) @
     [''keystore_path'', ''config_root'', ''filepath'', ''registry_filepath'', ''policy_registry_filepath'']"

definition to_path :: "path \<Rightarrow> py_value \<Rightarrow> config_error + py_value" where
  "to_path cwd v =
     (case v of PyPath p \<Rightarrow> Inr v | PyJson (JStr s) \<Rightarrow> Inr (PyPath (read_path cwd s)) | _ \<Rightarrow> Inl CfgTypeError)"

fun cast_paths :: "path \<Rightarrow> string list \<Rightarrow> py_dict \<Rightarrow> config_error + py_dict" where
  "cast_paths cwd [] d = Inr d"
| "cast_paths cwd (k # ks) d =
     (case dict_get d k of
        None \<Rightarrow> cast_paths cwd ks d
      | Some v \<Rightarrow>
          if is_true v then (case to_path cwd v of Inl e \<Rightarrow> Inl e | Inr p \<Rightarrow> cast_paths cwd ks (dict_set d k p))
          else cast_paths cwd ks (dict_set d k PyNone))"

subsection \<open>The constructor\<close>

text \<open>The keystore, and the directory it is in.\<close>

definition keystore_and_dir :: "py_value \<Rightarrow> config_error + py_value \<times> py_value" where
  "keystore_and_dir v =
     (case v of
        PyKeystore ks \<Rightarrow> Inr (PyKeystore ks, PyPath (butlast (kst_path ks)))
      | _ \<Rightarrow> if is_true v then Inl (CfgAttributeError ''keystore_path'') else Inr (NO_KEYSTORE_ATTACHED, UNINITIALIZED_CONFIGURATION))"

definition init_keystore :: "py_dict \<Rightarrow> text_file fs \<Rightarrow> config_error + py_value \<times> py_value" where
  "init_keystore kw fs =
     (let keystore = kwarg kw ''keystore'' PyNone; keystore_path = kwarg kw ''keystore_path'' PyNone
      in and_then
           (if is_true keystore_path \<and> \<not> is_true keystore
            then (case keystore_path of
                    PyPath p \<Rightarrow> map_sum CfgKeystoreError PyKeystore (new_keystore fs p)
                  | _ \<Rightarrow> Inl (CfgAttributeError ''exists''))
            else Inr keystore)
           keystore_and_dir)"

fun registry_filepath_of :: "config_env \<Rightarrow> py_value \<Rightarrow> py_value" where
  "registry_filepath_of ce (PyLocalRegistry p) = p"
| "registry_filepath_of ce (PyObject n) = ce_registry_filepath ce n"
| "registry_filepath_of ce _ = PyNone"

definition registries_consistent :: "config_env \<Rightarrow> py_dict \<Rightarrow> bool" where
  "registries_consistent ce kw \<longleftrightarrow>
     (let registry = kwarg kw ''registry'' PyNone; registry_filepath = kwarg kw ''registry_filepath'' PyNone
      in is_true registry \<and> is_true registry_filepath \<longrightarrow> registry_filepath_of ce registry = registry_filepath)"

text \<open>The attributes that are set in both modes; the two private ones have the name that Python gives them.\<close>

definition basic_attrs :: "py_dict \<Rightarrow> py_value \<Rightarrow> py_value \<Rightarrow> py_dict" where
  "basic_attrs kw keystore keystore_dir =
     [(''is_me'', PyBool True),
      (''checksum_address'', kwarg kw ''checksum_address'' PyNone),
      (''crypto_power'', kwarg kw ''crypto_power'' PyNone),
      (''_CharacterConfiguration__keystore'', keystore),
      (''keystore_dir'', keystore_dir),
      (''registry'', or_else (kwarg kw ''registry'' PyNone) NO_BLOCKCHAIN_CONNECTION),
      (''registry_filepath'', or_else (kwarg kw ''registry_filepath'' PyNone) UNINITIALIZED_CONFIGURATION),
      (''policy_registry'', or_else (kwarg kw ''policy_registry'' PyNone) NO_BLOCKCHAIN_CONNECTION),
      (''policy_registry_filepath'', or_else (kwarg kw ''policy_registry_filepath'' PyNone) UNINITIALIZED_CONFIGURATION),
      (''poa'', kwarg kw ''poa'' PyNone),
      (''is_light'', kwarg kw ''light'' (PyBool False)),
      (''eth_provider_uri'', or_else (kwarg kw ''eth_provider_uri'' PyNone) NO_BLOCKCHAIN_CONNECTION),
      (''signer_uri'', or_else (kwarg kw ''signer_uri'' PyNone) PyNone),
      (''federated_only'', kwarg kw ''federated_only'' (PyBool False)),
      (''domain'', kwarg kw ''domain'' (PyStr DEFAULT_DOMAIN)),
      (''learn_on_same_thread'', kwarg kw ''learn_on_same_thread'' (PyBool False)),
      (''abort_on_learning_error'', kwarg kw ''abort_on_learning_error'' (PyBool False)),
      (''start_learning_now'', kwarg kw ''start_learning_now'' (PyBool True)),
      (''save_metadata'', kwarg kw ''save_metadata'' (PyBool True)),
      (''reload_metadata'', kwarg kw ''reload_metadata'' (PyBool True)),
      (''known_nodes'', or_else (kwarg kw ''known_nodes'' PyNone) (PyObject ''set'')),
      (''lonely'', kwarg kw ''lonely'' (PyBool False)),
      (''_CharacterConfiguration__dev_mode'', kwarg kw ''dev_mode'' (PyBool False)),
      (''config_file_location'', or_else (kwarg kw ''filepath'' PyNone) UNINITIALIZED_CONFIGURATION),
      (''config_root'', UNINITIALIZED_CONFIGURATION),
      (''worker_data'', kwarg kw ''worker_data'' PyNone)]"

text \<open>Federated: arguments for the chain are overridden, if there are any.\<close>

definition blockchain_args :: "py_dict \<Rightarrow> py_value list" where
  "blockchain_args kw =
     [kwarg kw ''registry_filepath'' PyNone, kwarg kw ''poa'' PyNone, kwarg kw ''eth_provider_uri'' PyNone,
      kwarg kw ''payment_provider'' PyNone, kwarg kw ''gas_strategy'' (PyStr DEFAULT_GAS_STRATEGY), kwarg kw ''max_gas_price'' PyNone]"

definition federated_attrs :: "py_dict \<Rightarrow> py_dict" where
  "federated_attrs kw =
     (if list_ex is_true (blockchain_args kw)
      then [(''poa'', PyBool False), (''is_light'', PyBool False), (''eth_provider_uri'', PyNone), (''registry_filepath'', PyNone),
            (''policy_registry_filepath'', PyNone), (''gas_strategy'', PyNone), (''max_gas_price'', PyNone)]
      else []) @
     [(''payment_method'', or_else (kwarg kw ''payment_method'' PyNone) (PyStr DEFAULT_FEDERATED_PAYMENT_METHOD)),
      (''payment_network'', kwarg kw ''payment_network'' PyNone),
      (''payment_provider'', kwarg kw ''payment_provider'' PyNone)]"

text \<open>Decentralized: the connection, the registries, the signer and, not for Bob, the payments.\<close>

definition choose_registry :: "config_env \<Rightarrow> py_value \<Rightarrow> py_value \<Rightarrow> py_value \<Rightarrow> config_error + py_value" where
  "choose_registry ce registry registry_filepath network =
     (if is_true registry then Inr registry
      else if \<not> is_true registry_filepath then map_sum id PyObject (ce_publication ce network)
      else Inr (PyLocalRegistry registry_filepath))"

definition connect :: "config_env \<Rightarrow> py_value \<Rightarrow> config_error option" where
  "connect ce eth_provider_uri =
     (if \<not> ce_initialized ce (or_else eth_provider_uri NO_BLOCKCHAIN_CONNECTION) \<and> is_true eth_provider_uri
      then ce_initialize ce eth_provider_uri else None)"

definition payment_attrs :: "config_env \<Rightarrow> py_dict \<Rightarrow> config_error + py_dict" where
  "payment_attrs ce kw =
     (let network = or_else (kwarg kw ''payment_network'' PyNone) (PyStr DEFAULT_PAYMENT_NETWORK)
      in case choose_registry ce (kwarg kw ''policy_registry'' PyNone) (kwarg kw ''policy_registry_filepath'' PyNone) network of
           Inl e \<Rightarrow> Inl e
         | Inr policy_registry \<Rightarrow>
             Inr [(''payment_method'', or_else (kwarg kw ''payment_method'' PyNone) (PyStr DEFAULT_PAYMENT_METHOD)),
                  (''payment_network'', network),
                  (''payment_provider'', or_else (kwarg kw ''payment_provider'' PyNone) (or_else (kwarg kw ''eth_provider_uri'' PyNone) PyNone)),
                  (''policy_registry'', policy_registry)])"

definition decentralized_attrs :: "config_env \<Rightarrow> config_class \<Rightarrow> py_dict \<Rightarrow> config_error + py_dict" where
  "decentralized_attrs ce cl kw =
     (let domain = kwarg kw ''domain'' (PyStr DEFAULT_DOMAIN); testnet = (domain \<noteq> PyStr ''mainnet'')
      in case connect ce (kwarg kw ''eth_provider_uri'' PyNone) of
           Some e \<Rightarrow> Inl e
         | None \<Rightarrow>
         (case choose_registry ce (kwarg kw ''registry'' PyNone) (kwarg kw ''registry_filepath'' PyNone) domain of
            Inl e \<Rightarrow> Inl e
          | Inr registry \<Rightarrow>
          (case ce_signer ce (or_else (kwarg kw ''signer_uri'' PyNone) PyNone) testnet of
             Inl e \<Rightarrow> Inl e
           | Inr signer_object \<Rightarrow>
           (case (if cl = BobConfiguration then Inr [] else payment_attrs ce kw) of
              Inl e \<Rightarrow> Inl e
            | Inr payments \<Rightarrow>
                Inr ([(''gas_strategy'', kwarg kw ''gas_strategy'' (PyStr DEFAULT_GAS_STRATEGY)),
                      (''max_gas_price'', kwarg kw ''max_gas_price'' PyNone), (''registry'', registry),
                      (''testnet'', PyBool testnet), (''signer'', PyObject signer_object)] @ payments)))))"

text \<open>\<^verbatim>\<open>_setup_node_storage\<close>: the files of known nodes are deleted, and the storage is in memory.\<close>

definition clear_known_nodes :: "config_env \<Rightarrow> py_value \<Rightarrow> 'c fs \<Rightarrow> 'c fs" where
  "clear_known_nodes ce config_root fs =
     local_clear (generate_storage_filepaths (ce_default_root ce) (case config_root of PyPath p \<Rightarrow> Some p | _ \<Rightarrow> None) None None None)
       True True fs"

text \<open>
  \<^verbatim>\<open>generate_runtime_filepaths\<close>: for Ursula this makes the directory of the database, and only prints when that fails.
\<close>

definition DEFAULT_DB_NAME :: string where "DEFAULT_DB_NAME = ''ursula.db''"

definition generate_runtime_filepaths :: "config_env \<Rightarrow> config_class \<Rightarrow> path \<Rightarrow> 'c fs \<Rightarrow> (string \<times> path) list \<times> 'c fs" where
  "generate_runtime_filepaths ce cl config_root fs =
     (let base = [(''config_root'', config_root), (''config_file_location'', path_join config_root (generate_filename ce cl PyNone)),
                  (''keystore_dir'', path_join config_root ''keystore'')];
          db = path_join config_root DEFAULT_DB_NAME
      in if cl \<noteq> UrsulaConfiguration then (base, fs)
         else (base @ [(''db_filepath'', db)],
               if path_exists fs db then fs else case makedirs True 0x1FF db fs of Inr fs' \<Rightarrow> fs' | Inl _ \<Rightarrow> fs))"

fun cache_filepaths :: "(string \<times> path) list \<Rightarrow> py_dict \<Rightarrow> config_error + py_dict" where
  "cache_filepaths [] self = Inr self"
| "cache_filepaths ((field, p) # rest) self =
     (case dict_get self field of
        None \<Rightarrow> Inl (CfgAttributeError field)
      | Some v \<Rightarrow> cache_filepaths rest (if v = UNINITIALIZED_CONFIGURATION then dict_set self field (PyPath p) else self))"

definition get_attr :: "py_dict \<Rightarrow> string \<Rightarrow> config_error + py_value" where
  "get_attr self field = (case dict_get self field of None \<Rightarrow> Inl (CfgAttributeError field) | Some v \<Rightarrow> Inr v)"

definition cache_runtime_filepaths :: "config_env \<Rightarrow> config_class \<Rightarrow> py_dict \<Rightarrow> 'c fs \<Rightarrow> (config_error + py_dict) \<times> 'c fs" where
  "cache_runtime_filepaths ce cl self fs =
     (case get_attr self ''config_root'' of
        Inl e \<Rightarrow> (Inl e, fs)
      | Inr (PyPath d) \<Rightarrow>
          (case generate_runtime_filepaths ce cl d fs of (filepaths, fs') \<Rightarrow> (cache_filepaths filepaths self, fs'))
      | Inr _ \<Rightarrow> (Inl CfgTypeError, fs))"

text \<open>
  The last part of the constructor. In the development mode the configuration is initialized in a temporary
  directory, after the storage was set up: the storage then is the one of the default root.
\<close>

definition init_files :: "config_env \<Rightarrow> config_class \<Rightarrow> py_dict \<Rightarrow> py_dict \<Rightarrow> 'c fs \<Rightarrow> (config_error + py_dict) \<times> 'c fs" where
  "init_files ce cl kw self fs =
     (if is_true (kwarg kw ''dev_mode'' (PyBool False))
      then (let fs1 = clear_known_nodes ce UNINITIALIZED_CONFIGURATION fs
            in case mkdir 0x1C0 (ce_temp_dir ce) fs1 of
                 Inl e \<Rightarrow> (Inl (CfgOsError e), fs1)
               | Inr fs2 \<Rightarrow>
                   cache_runtime_filepaths ce cl
                     (dict_update self [(''node_storage'', FORGETFUL_NODE_STORAGE), (''config_root'', PyPath (ce_temp_dir ce))]) fs2)
      else (let config_root = or_else (kwarg kw ''config_root'' PyNone) (PyPath (ce_default_root ce))
            in case cache_runtime_filepaths ce cl (dict_set self ''config_root'' config_root) fs of
                 (Inl e, fs1) \<Rightarrow> (Inl e, fs1)
               | (Inr self1, fs1) \<Rightarrow>
                   (Inr (dict_set self1 ''node_storage'' FORGETFUL_NODE_STORAGE), clear_known_nodes ce config_root fs1)))"

definition base_init :: "config_env \<Rightarrow> config_class \<Rightarrow> py_dict \<Rightarrow> config_error + py_dict" where
  "base_init ce cl self =
     (case get_attr self ''config_root'' of
        Inl e \<Rightarrow> Inl e
      | Inr r \<Rightarrow>
          (let r1 = or_else r (PyPath (ce_default_root ce)); self1 = dict_set self ''config_root'' r1
           in case get_attr self ''config_file_location'' of
                Inl e \<Rightarrow> Inl e
              | Inr location \<Rightarrow>
                  if is_true location then Inr (dict_set self1 ''filepath'' location)
                  else map_sum id (\<lambda>p. dict_set self1 ''filepath'' (PyPath p)) (below r1 (generate_filename ce cl PyNone))))"

definition character_init :: "config_env \<Rightarrow> config_class \<Rightarrow> py_dict \<Rightarrow> py_dict \<Rightarrow> text_file fs \<Rightarrow> (config_error + py_dict) \<times> text_file fs" where
  "character_init ce cl kw self fs =
     (if \<not> list_all (\<lambda>k. k \<in> set character_parameters) (dict_keys kw) then (Inl CfgTypeError, fs)
      else case init_keystore kw fs of
        Inl e \<Rightarrow> (Inl e, fs)
      | Inr (keystore, keystore_dir) \<Rightarrow>
          if \<not> registries_consistent ce kw then (Inl CfgValueError, fs)
          else (case (if is_true (kwarg kw ''federated_only'' (PyBool False)) then Inr (federated_attrs kw) else decentralized_attrs ce cl kw) of
                  Inl e \<Rightarrow> (Inl e, fs)
                | Inr mode_attrs \<Rightarrow>
                    (case init_files ce cl kw (dict_update (dict_update self (basic_attrs kw keystore keystore_dir)) mode_attrs) fs of
                       (Inl e, fs1) \<Rightarrow> (Inl e, fs1)
                     | (Inr self1, fs1) \<Rightarrow>
                         (base_init ce cl (dict_update self1
                            [(''controller_port'', or_else (kwarg kw ''controller_port'' PyNone) (DEFAULT_CONTROLLER_PORT cl)),
                             (''network_middleware'', or_else (kwarg kw ''network_middleware'' PyNone) (PyObject ''RestMiddleware''))]), fs1))))"

definition ursula_attrs :: "py_dict \<Rightarrow> py_dict" where
  "ursula_attrs kw =
     (let dev_mode = is_true (kwarg kw ''dev_mode'' (PyBool False)); rest_host = kwarg kw ''rest_host'' PyNone;
          availability_check = kwarg kw ''availability_check'' PyNone
      in [(''rest_port'', or_else (kwarg kw ''rest_port'' PyNone) (PyInt (if dev_mode then 10151 else 9151))),
          (''rest_host'', if dev_mode then or_else rest_host (PyStr ''127.0.0.1'') else rest_host),
          (''certificate'', kwarg kw ''certificate'' PyNone),
          (''db_filepath'', or_else (kwarg kw ''db_filepath'' PyNone) UNINITIALIZED_CONFIGURATION),
          (''operator_address'', kwarg kw ''operator_address'' PyNone),
          (''availability_check'', if availability_check = PyNone then PyBool False else availability_check)])"

definition alice_attrs :: "py_dict \<Rightarrow> py_dict" where
  "alice_attrs kw =
     [(''store_policies'', kwarg kw ''store_policies'' (PyBool True)), (''store_cards'', kwarg kw ''store_cards'' (PyBool True)),
      (''rate'', kwarg kw ''rate'' PyNone), (''duration'', kwarg kw ''duration'' PyNone),
      (''threshold'', or_else (kwarg kw ''threshold'' PyNone) (PyInt 2)), (''shares'', or_else (kwarg kw ''shares'' PyNone) (PyInt 3))]"

definition bob_attrs :: "py_dict \<Rightarrow> py_dict" where
  "bob_attrs kw =
     [(''store_policies'', kwarg kw ''store_policies'' (PyBool True)), (''store_cards'', kwarg kw ''store_cards'' (PyBool True))]"

text \<open>What a class passes on to \<^verbatim>\<open>CharacterConfiguration\<close>: all but its own arguments; Ursula passes two of hers.\<close>

definition passed_on :: "config_class \<Rightarrow> py_dict \<Rightarrow> py_dict" where
  "passed_on cl kw = filter (\<lambda>(k, _). k \<notin> set (own_parameters cl) \<or> k \<in> set character_parameters) kw"

definition new_config :: "config_env \<Rightarrow> config_class \<Rightarrow> py_dict \<Rightarrow> text_file fs \<Rightarrow> (config_error + py_dict) \<times> text_file fs" where
  "new_config ce cl kw fs =
     (case cl of
        UrsulaConfiguration \<Rightarrow>
          if \<not> is_true (kwarg kw ''dev_mode'' (PyBool False)) \<and> \<not> is_true (kwarg kw ''rest_host'' PyNone) then (Inl CfgValueError, fs)
          else character_init ce cl (passed_on cl kw) (ursula_attrs kw) fs
      | AliceConfiguration \<Rightarrow> map_prod (map_sum id (\<lambda>self. dict_update self (alice_attrs kw))) id (character_init ce cl (passed_on cl kw) [] fs)
      | BobConfiguration \<Rightarrow> map_prod (map_sum id (\<lambda>self. dict_update self (bob_attrs kw))) id (character_init ce cl (passed_on cl kw) [] fs))"

subsection \<open>The payload\<close>

text \<open>Entries of a payload with the attributes they are read from.\<close>

fun read_attrs :: "py_dict \<Rightarrow> (string \<times> string) list \<Rightarrow> config_error + py_dict" where
  "read_attrs self [] = Inr []"
| "read_attrs self ((key, field) # rest) = and_then (get_attr self field) (\<lambda>v. map_sum id ((#) (key, v)) (read_attrs self rest))"

definition same_names :: "string list \<Rightarrow> (string \<times> string) list" where
  "same_names ks = map (\<lambda>k. (k, k)) ks"

definition keystore_path_value :: "py_dict \<Rightarrow> config_error + py_value" where
  "keystore_path_value self =
     and_then (get_attr self ''_CharacterConfiguration__keystore'') (\<lambda>v. case v of
        PyKeystore ks \<Rightarrow> Inr (PyStr (show_path (kst_path ks)))
      | v \<Rightarrow> if is_true v then Inl (CfgAttributeError ''keystore_path'') else Inr PyNone)"

definition memory_storage_payload :: json where
  "memory_storage_payload = JObj [(''storage_type'', JStr '':memory:'')]"

definition storage_payload :: "py_dict \<Rightarrow> config_error + py_value" where
  "storage_payload self =
     and_then (get_attr self ''node_storage'') (\<lambda>v.
       if v = FORGETFUL_NODE_STORAGE then Inr (PyJson memory_storage_payload) else Inl (CfgAttributeError ''payload''))"

definition identity_payload :: "py_dict \<Rightarrow> config_error + py_dict" where
  "identity_payload self =
     and_then (keystore_path_value self) (\<lambda>kp.
     and_then (read_attrs self (same_names [''federated_only'', ''checksum_address''])) (\<lambda>a.
     and_then (read_attrs self (same_names [''domain'', ''learn_on_same_thread'', ''abort_on_learning_error'', ''start_learning_now'', ''save_metadata''])) (\<lambda>b.
     and_then (storage_payload self) (\<lambda>sp.
     and_then (read_attrs self (same_names [''lonely''])) (\<lambda>c.
       Inr (a @ [(''keystore_path'', kp)] @ b @ [(''node_storage'', sp)] @ c))))))"

text \<open>Without a signer, the provider is taken as the signer, also in the object.\<close>

definition with_signer :: "py_dict \<Rightarrow> py_dict" where
  "with_signer self =
     (case (dict_get self ''eth_provider_uri'', dict_get self ''signer_uri'') of
        (Some eth, Some s) \<Rightarrow> if is_true eth \<and> \<not> is_true s then dict_set self ''signer_uri'' eth else self
      | _ \<Rightarrow> self)"

definition provider_payload :: "py_dict \<Rightarrow> config_error + py_dict" where
  "provider_payload self =
     and_then (get_attr self ''eth_provider_uri'') (\<lambda>eth.
       if is_true eth
       then and_then (get_attr self ''signer_uri'') (\<lambda>_. read_attrs (with_signer self)
              [(''eth_provider_uri'', ''eth_provider_uri''), (''poa'', ''poa''), (''light'', ''is_light''), (''signer_uri'', ''signer_uri'')])
       else Inr [])"

definition str_of :: "config_env \<Rightarrow> py_value \<Rightarrow> string" where
  "str_of ce v =
     (case v of PyJson (JStr s) \<Rightarrow> s | PyJson (JInt n) \<Rightarrow> show_int n | PyDecimal t _ \<Rightarrow> t | PyPath p \<Rightarrow> show_path p | v \<Rightarrow> ce_str ce v)"

definition chain_payload :: "config_env \<Rightarrow> py_dict \<Rightarrow> config_error + py_dict" where
  "chain_payload ce self =
     and_then (provider_payload self) (\<lambda>a.
     and_then (get_attr self ''registry_filepath'') (\<lambda>rf.
     and_then (get_attr self ''max_gas_price'') (\<lambda>mp.
     and_then (get_attr self ''gas_strategy'') (\<lambda>gs.
       Inr (a @ (if is_true rf then [(''registry_filepath'', rf)] else []) @
            [(''gas_strategy'', gs), (''max_gas_price'', if is_true mp then PyStr (str_of ce mp) else PyNone)])))))"

definition character_static_payload :: "config_env \<Rightarrow> py_dict \<Rightarrow> config_error + py_dict" where
  "character_static_payload ce self =
     and_then (identity_payload self) (\<lambda>a.
     and_then (get_attr self ''federated_only'') (\<lambda>f.
       if is_true f then Inr a else and_then (chain_payload ce self) (\<lambda>b. Inr (a @ b))))"

text \<open>The entry \<^verbatim>\<open>config_root\<close> of the base class is merged into a dictionary that is not returned.\<close>

definition alice_policy_values :: "py_dict \<Rightarrow> config_error + py_dict" where
  "alice_policy_values self =
     and_then (get_attr self ''federated_only'') (\<lambda>f.
       if is_true f then Inr []
       else and_then (read_attrs self (same_names [''rate'', ''duration''])) (\<lambda>vs. Inr (filter (\<lambda>(_, v). is_true v) vs)))"

definition own_payload :: "config_class \<Rightarrow> py_dict \<Rightarrow> config_error + py_dict" where
  "own_payload cl self =
     (case cl of
        UrsulaConfiguration \<Rightarrow>
          read_attrs self (same_names [''operator_address'', ''rest_host'', ''rest_port'', ''db_filepath'', ''availability_check'',
            ''payment_method'', ''payment_provider'', ''payment_network''])
      | AliceConfiguration \<Rightarrow>
          and_then (read_attrs self (same_names [''threshold'', ''shares'', ''store_policies'', ''store_cards'',
            ''payment_network'', ''payment_provider'', ''payment_method''])) (\<lambda>a.
          and_then (alice_policy_values self) (\<lambda>b. Inr (a @ b)))
      | BobConfiguration \<Rightarrow> read_attrs self (same_names [''store_policies'', ''store_cards'']))"

definition static_payload :: "config_env \<Rightarrow> config_class \<Rightarrow> py_dict \<Rightarrow> config_error + py_dict" where
  "static_payload ce cl self =
     and_then (own_payload cl self) (\<lambda>own. and_then (character_static_payload ce self) (\<lambda>base. Inr (dict_update base own)))"

text \<open>What \<^verbatim>\<open>static_payload\<close> leaves of the object, when it gets to the signer.\<close>

definition after_payload :: "config_class \<Rightarrow> py_dict \<Rightarrow> py_dict" where
  "after_payload cl self =
     (case (own_payload cl self, identity_payload self, dict_get self ''federated_only'') of
        (Inr _, Inr _, Some f) \<Rightarrow> if is_true f then self else with_signer self
      | _ \<Rightarrow> self)"

subsection \<open>The file\<close>

fun json_values :: "py_dict \<Rightarrow> (string \<times> json) list option" where
  "json_values [] = Some []"
| "json_values ((k, PyJson j) # d) = map_option ((#) (k, j)) (json_values d)"
| "json_values (_ # d) = None"

definition text_of :: "py_value \<Rightarrow> py_value" where
  "text_of v = (case v of PyPath p \<Rightarrow> PyStr (show_path p) | _ \<Rightarrow> v)"

definition stringify_paths :: "py_dict \<Rightarrow> py_dict" where
  "stringify_paths d = map (\<lambda>(k, v). (k, text_of v)) d"

definition serialize :: "config_env \<Rightarrow> config_class \<Rightarrow> py_dict \<Rightarrow> config_error + text_file" where
  "serialize ce cl self =
     and_then (static_payload ce cl self) (\<lambda>payload.
       case json_values (dict_set (stringify_paths payload) ''version'' (PyInt CONFIG_VERSION)) of
         None \<Rightarrow> Inl CfgTypeError
       | Some d \<Rightarrow> Inr (Json (JObj d)))"

text \<open>The file is opened, and so emptied, before the configuration is serialized.\<close>

definition write_configuration_file ::
  "config_env \<Rightarrow> config_class \<Rightarrow> py_value \<Rightarrow> bool \<Rightarrow> py_dict \<Rightarrow> text_file fs \<Rightarrow> (config_error + path) \<times> py_dict \<times> text_file fs" where
  "write_configuration_file ce cl filepath override self fs =
     (case filepath of
        PyPath p \<Rightarrow>
          if path_exists fs p \<and> \<not> override then (Inl CfgFileExistsError, self, fs)
          else (case write_file p NotJson fs of
                  Inl e \<Rightarrow> (Inl (CfgOsError e), self, fs)
                | Inr fs1 \<Rightarrow>
                    (case serialize ce cl self of
                       Inl e \<Rightarrow> (Inl e, after_payload cl self, fs1)
                     | Inr t \<Rightarrow>
                         (case write_file p t fs1 of
                            Inl e \<Rightarrow> (Inl (CfgOsError e), after_payload cl self, fs1)
                          | Inr fs2 \<Rightarrow> (Inr p, after_payload cl self, fs2))))
      | _ \<Rightarrow> (Inl (CfgAttributeError ''exists''), self, fs))"

definition id_modifier :: "config_class \<Rightarrow> py_value \<Rightarrow> py_dict \<Rightarrow> config_error + py_value" where
  "id_modifier cl modifier self =
     (if cl = UrsulaConfiguration \<and> \<not> is_true modifier
      then and_then (get_attr self ''_CharacterConfiguration__keystore'') (\<lambda>v. case v of
             PyKeystore ks \<Rightarrow> Inr (PyStr (take 8 (kst_id ks)))
           | _ \<Rightarrow> Inl (CfgAttributeError ''id''))
      else Inr modifier)"

definition generate_filepath ::
  "config_env \<Rightarrow> config_class \<Rightarrow> path option \<Rightarrow> py_value \<Rightarrow> bool \<Rightarrow> py_dict \<Rightarrow> 'c fs \<Rightarrow> config_error + path" where
  "generate_filepath ce cl filepath modifier override self fs =
     and_then (id_modifier cl modifier self) (\<lambda>m.
     and_then (get_attr self ''checksum_address'') (\<lambda>address.
     and_then (get_attr self ''config_root'') (\<lambda>config_root.
     and_then (case filepath of Some p \<Rightarrow> Inr p | None \<Rightarrow> below config_root (generate_filename ce cl PyNone)) (\<lambda>p.
       if path_exists fs p \<and> \<not> override
       then if is_true (or_else m address) then below config_root (generate_filename ce cl (or_else m address)) else Inl CfgFileExistsError
       else Inr p))))"

definition ensure_config_root_exists :: "py_dict \<Rightarrow> 'c fs \<Rightarrow> config_error + 'c fs" where
  "ensure_config_root_exists self fs =
     and_then (get_attr self ''config_root'') (\<lambda>r. case r of
        PyPath p \<Rightarrow>
          if path_exists fs p then Inr fs
          else (case mkdir 0x1ED p fs of
                  Inr fs1 \<Rightarrow> Inr fs1
                | Inl FileNotFound \<Rightarrow> map_sum CfgOsError id (makedirs False 0x1ED p fs)
                | Inl e \<Rightarrow> Inl (CfgOsError e))
      | _ \<Rightarrow> Inl (CfgAttributeError ''exists''))"

definition to_configuration_file ::
  "config_env \<Rightarrow> config_class \<Rightarrow> path option \<Rightarrow> py_value \<Rightarrow> bool \<Rightarrow> py_dict \<Rightarrow> text_file fs \<Rightarrow> (config_error + path) \<times> py_dict \<times> text_file fs" where
  "to_configuration_file ce cl filepath modifier override self fs =
     (case generate_filepath ce cl filepath modifier override self fs of
        Inl e \<Rightarrow> (Inl e, self, fs)
      | Inr p \<Rightarrow>
          (let self1 = dict_set self ''filepath'' (PyPath p)
           in case ensure_config_root_exists self1 fs of
                Inl e \<Rightarrow> (Inl e, self1, fs)
              | Inr fs1 \<Rightarrow> write_configuration_file ce cl (PyPath p) override self1 fs1))"

subsection \<open>Updates\<close>

text \<open>
  Attributes are set one after the other, until a name is none of the object's. \<open>inherited\<close> tells the names of the
  methods and of the attributes of the class; the properties cannot be set.
\<close>

definition read_only_properties :: "string list" where
  "read_only_properties = [''keystore'', ''dev_mode'', ''runtime_filepaths'', ''dynamic_payload'']"

fun set_fields :: "(string \<Rightarrow> bool) \<Rightarrow> py_dict \<Rightarrow> py_dict \<Rightarrow> (config_error + unit) \<times> py_dict" where
  "set_fields inherited [] self = (Inr (), self)"
| "set_fields inherited ((field, v) # updates) self =
     (if field \<in> set read_only_properties then (Inl (CfgAttributeError field), self)
      else if field \<notin> set (dict_keys self) \<and> \<not> inherited field then (Inl ConfigurationError, self)
      else set_fields inherited updates (dict_set self field v))"

definition update_config ::
  "config_env \<Rightarrow> config_class \<Rightarrow> (string \<Rightarrow> bool) \<Rightarrow> py_dict \<Rightarrow> py_dict \<Rightarrow> text_file fs \<Rightarrow> (config_error + unit) \<times> py_dict \<times> text_file fs" where
  "update_config ce cl inherited updates self fs =
     (case get_attr self ''config_file_location'' of
        Inl e \<Rightarrow> (Inl e, self, fs)
      | Inr location \<Rightarrow>
          if ''filepath'' \<in> set (dict_keys updates) then (Inl CfgTypeError, self, fs)
          else (case set_fields inherited updates self of
                  (Inl e, self1) \<Rightarrow> (Inl e, self1, fs)
                | (Inr _, self1) \<Rightarrow> map_prod (map_sum id (\<lambda>_. ())) id (write_configuration_file ce cl location True self1 fs)))"

subsection \<open>Reading\<close>

definition is_version :: "json \<Rightarrow> bool" where
  "is_version j = (case j of JInt n \<Rightarrow> n = CONFIG_VERSION | JFloat r \<Rightarrow> r = of_int CONFIG_VERSION | _ \<Rightarrow> False)"

fun json_document :: "text_file \<Rightarrow> config_error + (string \<times> json) list" where
  "json_document Undecodable = Inl CfgUnicodeError"
| "json_document NotJson = Inl CfgJsonError"
| "json_document (Json (JObj d)) = Inr d"
| "json_document (Json (JList _)) = Inl CfgTypeError"
| "json_document (Json _) = Inl (CfgAttributeError ''pop'')"

definition item :: "py_dict \<Rightarrow> string \<Rightarrow> config_error + py_value" where
  "item d k = (case dict_get d k of None \<Rightarrow> Inl (CfgKeyError k) | Some v \<Rightarrow> Inr v)"

text \<open>Ursula's \<^verbatim>\<open>db_filepath\<close> is made a path once more.\<close>

definition cast_db :: "config_env \<Rightarrow> config_class \<Rightarrow> py_dict \<Rightarrow> config_error + py_dict" where
  "cast_db ce cl d =
     (if cl = UrsulaConfiguration
      then and_then (item d ''db_filepath'') (\<lambda>v. and_then (to_path (ce_cwd ce) v) (\<lambda>p. Inr (dict_set d ''db_filepath'' p)))
      else Inr d)"

definition deserialize :: "config_env \<Rightarrow> config_class \<Rightarrow> text_file \<Rightarrow> config_error + py_dict" where
  "deserialize ce cl t =
     and_then (json_document t) (\<lambda>d.
       case dict_get d ''version'' of
         Some v \<Rightarrow>
           if is_version v
           then and_then (cast_paths (ce_cwd ce) (path_parameters cl) (map (\<lambda>(k, j). (k, PyJson j)) (dict_del d ''version''))) (cast_db ce cl)
           else Inl OldVersion
       | None \<Rightarrow> Inl OldVersion)"

definition read_configuration_file :: "config_env \<Rightarrow> config_class \<Rightarrow> path \<Rightarrow> text_file fs \<Rightarrow> config_error + py_dict" where
  "read_configuration_file ce cl p fs = and_then (map_sum CfgOsError id (read_file fs p)) (deserialize ce cl)"

definition peek :: "config_env \<Rightarrow> config_class \<Rightarrow> path \<Rightarrow> string \<Rightarrow> text_file fs \<Rightarrow> config_error + py_value" where
  "peek ce cl p field fs =
     and_then (read_configuration_file ce cl p fs) (\<lambda>d. case dict_get d field of Some v \<Rightarrow> Inr v | None \<Rightarrow> Inl ConfigurationError)"

text \<open>
  \<^verbatim>\<open>load_node_storage\<close>: one of the two kinds of storage, from its entry. The arguments of the constructor of the storage
  in files are checked.
\<close>

fun is_text :: "json \<Rightarrow> bool" where
  "is_text (JStr _) = True"
| "is_text _ = False"

fun hashable :: "json \<Rightarrow> bool" where
  "hashable (JObj _) = False"
| "hashable (JList _) = False"
| "hashable _ = True"

definition load_node_storage :: "py_value \<Rightarrow> config_error + py_value" where
  "load_node_storage v =
     (case v of
        PyJson (JObj d) \<Rightarrow>
          (case dict_get d ''storage_type'' of
             None \<Rightarrow> Inl (CfgKeyError ''storage_type'')
           | Some t \<Rightarrow>
               if \<not> hashable t then Inl CfgTypeError
               else if t = JStr '':memory:'' then Inr FORGETFUL_NODE_STORAGE
               else if t = JStr ''local''
               then if list_all (\<lambda>(k, j). k \<in> {''storage_type'', ''registry'', ''character_class''} \<or>
                         k \<in> {''config_root'', ''storage_root'', ''metadata_dir'', ''certificates_dir''} \<and> (json_true j \<longrightarrow> is_text j)) d
                    then Inr (PyObject ''LocalFileBasedNodeStorage'') else Inl CfgTypeError
               else Inl (CfgKeyError ''storage_type''))
      | _ \<Rightarrow> Inl CfgTypeError)"

definition max_gas_price_of :: "config_env \<Rightarrow> py_dict \<Rightarrow> config_error + py_value" where
  "max_gas_price_of ce d =
     (let v = kwarg d ''max_gas_price'' PyNone
      in if \<not> is_true v then Inr v
         else case v of PyJson j \<Rightarrow> map_sum id (\<lambda>(t, nz). PyDecimal t nz) (ce_decimal ce j) | _ \<Rightarrow> Inl CfgTypeError)"

definition assemble :: "config_env \<Rightarrow> config_class \<Rightarrow> path \<Rightarrow> py_dict \<Rightarrow> text_file fs \<Rightarrow> config_error + py_dict" where
  "assemble ce cl p overrides fs =
     and_then (read_configuration_file ce cl p fs) (\<lambda>d.
     and_then (item d ''node_storage'') (\<lambda>sp.
     and_then (item d ''federated_only'') (\<lambda>_.
     and_then (load_node_storage sp) (\<lambda>storage.
     and_then (max_gas_price_of ce d) (\<lambda>mp.
     and_then (cast_paths (ce_cwd ce) (path_parameters cl) (dict_update d [(''node_storage'', storage), (''max_gas_price'', mp)])) (\<lambda>d.
       cast_db ce cl (dict_update d (filter (\<lambda>(_, v). v \<noteq> PyNone) overrides))))))))"

definition from_configuration_file ::
  "config_env \<Rightarrow> config_class \<Rightarrow> path option \<Rightarrow> py_dict \<Rightarrow> text_file fs \<Rightarrow> (config_error + py_dict) \<times> text_file fs" where
  "from_configuration_file ce cl filepath overrides fs =
     (let p = (case filepath of Some p \<Rightarrow> p | None \<Rightarrow> default_filepath ce cl None)
      in case assemble ce cl p overrides fs of
           Inl e \<Rightarrow> (Inl e, fs)
         | Inr params \<Rightarrow>
             if ''filepath'' \<in> set (dict_keys params) then (Inl CfgTypeError, fs)
             else new_config ce cl ((''filepath'', PyPath p) # params) fs)"

subsection \<open>Addresses in file names\<close>

text \<open>
  \<^verbatim>\<open>checksum_address_from_filepath\<close>: the pattern is a word, a hyphen, and \<^verbatim>\<open>0x\<close> with forty hexadecimal digits, at the start
  of the name. Ursula's file is always read.
\<close>

definition is_word_char :: "char \<Rightarrow> bool" where
  "is_word_char c \<longleftrightarrow> is_digit c \<or> (CHR ''a'' \<le> c \<and> c \<le> CHR ''z'') \<or> (CHR ''A'' \<le> c \<and> c \<le> CHR ''Z'') \<or> c = CHR ''_''"

definition match_address :: "string \<Rightarrow> string option" where
  "match_address name =
     (let word = takeWhile is_word_char name; found = take 42 (drop (Suc (length word)) name)
      in if word \<noteq> [] \<and> take 1 (drop (length word) name) = ''-'' \<and> take 2 found = ''0x'' \<and> length found = 42 \<and>
            list_all (\<lambda>c. c \<in> set string_hexdigits) (drop 2 found)
         then Some found else None)"

definition address_in_file :: "config_env \<Rightarrow> config_class \<Rightarrow> path \<Rightarrow> text_file fs \<Rightarrow> config_error + py_value" where
  "address_in_file ce cl p fs =
     (if cl = UrsulaConfiguration
      then and_then (peek ce cl p ''checksum_address'' fs) (\<lambda>a.
           and_then (peek ce cl p ''federated_only'' fs) (\<lambda>f.
             if is_true f then Inr a else peek ce cl p ''operator_address'' fs))
      else case match_address (path_name p) of
             Some a \<Rightarrow> Inr (PyStr a)
           | None \<Rightarrow>
               if path_name p = generate_filename ce cl PyNone then peek ce cl p ''checksum_address'' fs else Inl CfgValueError)"

definition checksum_address_from_filepath ::
  "config_env \<Rightarrow> (string \<Rightarrow> bool) \<Rightarrow> config_class \<Rightarrow> path \<Rightarrow> text_file fs \<Rightarrow> config_error + string" where
  "checksum_address_from_filepath ce is_checksum_address cl p fs =
     and_then (address_in_file ce cl p fs) (\<lambda>v. case v of
        PyJson (JStr a) \<Rightarrow> if is_checksum_address a then Inr a else Inl CfgRuntimeError
      | _ \<Rightarrow> Inl CfgRuntimeError)"

subsection \<open>Installing and removing\<close>

text \<open>
  \<^verbatim>\<open>validate\<close>: the error for a missing path looks for a text in the path, which is not possible.
\<close>

fun validate_paths :: "py_value list \<Rightarrow> 'c fs \<Rightarrow> config_error + bool" where
  "validate_paths [] fs = Inr True"
| "validate_paths (v # vs) fs =
     (if \<not> is_true v then validate_paths vs fs
      else case v of
             PyPath p \<Rightarrow> if path_exists fs p then validate_paths vs fs else Inl CfgTypeError
           | _ \<Rightarrow> Inl (CfgAttributeError ''exists''))"

definition validate_config :: "py_dict \<Rightarrow> 'c fs \<Rightarrow> config_error + bool" where
  "validate_config self fs =
     and_then (get_attr self ''config_root'') (\<lambda>r. case r of
        PyPath p \<Rightarrow>
          if \<not> path_exists fs p then Inl ConfigurationError
          else and_then (read_attrs self (same_names [''config_root'', ''keystore_dir'', ''registry_filepath''])) (\<lambda>d. validate_paths (map snd d) fs)
      | _ \<Rightarrow> Inl (CfgAttributeError ''exists''))"

fun MNEMONIC_KEYSTORE :: "config_class \<Rightarrow> bool" where
  "MNEMONIC_KEYSTORE UrsulaConfiguration = True"
| "MNEMONIC_KEYSTORE _ = False"

text \<open>The words for a new keystore, and what the user answers when asked to confirm them, are arguments.\<close>

definition config_write_keystore ::
  "('sk, 'pk, 'f, 'cert, 'sig) umbral \<Rightarrow> password_lib \<Rightarrow> save_env \<Rightarrow> path \<Rightarrow> string \<Rightarrow> bool \<times> string \<Rightarrow> config_class \<Rightarrow> string \<Rightarrow> bytes \<Rightarrow>
   py_dict \<Rightarrow> text_file fs \<Rightarrow> (config_error + py_dict) \<times> text_file fs" where
  "config_write_keystore um pl senv default_dir words answer cl password key_material self fs =
     (case get_attr self ''keystore_dir'' of
        Inl e \<Rightarrow> (Inl e, fs)
      | Inr v \<Rightarrow>
          (let dir = (case v of PyPath p \<Rightarrow> Some p | _ \<Rightarrow> None)
           in map_prod (map_sum CfgKeystoreError (\<lambda>ks. dict_set self ''_CharacterConfiguration__keystore'' (PyKeystore ks))) id
                (if key_material \<noteq> [] then import_secure um pl senv default_dir key_material password dir fs
                 else map_prod (map_sum id fst) id
                        (generate um pl senv default_dir words (if MNEMONIC_KEYSTORE cl then Some answer else None) password dir fs))))"

text \<open>\<^verbatim>\<open>initialize\<close> of a configuration that is not for development.\<close>

definition initialize_config ::
  "('sk, 'pk, 'f, 'cert, 'sig) umbral \<Rightarrow> password_lib \<Rightarrow> save_env \<Rightarrow> path \<Rightarrow> string \<Rightarrow> bool \<times> string \<Rightarrow> config_env \<Rightarrow> config_class \<Rightarrow> string \<Rightarrow> bytes \<Rightarrow>
   py_dict \<Rightarrow> text_file fs \<Rightarrow> (config_error + py_dict) \<times> text_file fs" where
  "initialize_config um pl senv default_dir words answer ce cl password key_material self fs =
     (case ensure_config_root_exists self fs of
        Inl e \<Rightarrow> (Inl e, fs)
      | Inr fs1 \<Rightarrow>
          (case config_write_keystore um pl senv default_dir words answer cl password key_material self fs1 of
             (Inl e, fs2) \<Rightarrow> (Inl e, fs2)
           | (Inr self2, fs2) \<Rightarrow>
               (case cache_runtime_filepaths ce cl self2 fs2 of
                  (Inl e, fs3) \<Rightarrow> (Inl e, fs3)
                | (Inr self3, fs3) \<Rightarrow> (and_then (validate_config self3 fs3) (\<lambda>_. Inr self3), fs3))))"

definition generate_config ::
  "('sk, 'pk, 'f, 'cert, 'sig) umbral \<Rightarrow> password_lib \<Rightarrow> save_env \<Rightarrow> path \<Rightarrow> string \<Rightarrow> bool \<times> string \<Rightarrow> config_env \<Rightarrow> config_class \<Rightarrow> string \<Rightarrow> bytes \<Rightarrow>
   py_dict \<Rightarrow> text_file fs \<Rightarrow> (config_error + py_dict) \<times> text_file fs" where
  "generate_config um pl senv default_dir words answer ce cl password key_material kw fs =
     (if ''dev_mode'' \<in> set (dict_keys kw) then (Inl CfgTypeError, fs)
      else case new_config ce cl ((''dev_mode'', PyBool False) # kw) fs of
             (Inl e, fs1) \<Rightarrow> (Inl e, fs1)
           | (Inr self, fs1) \<Rightarrow> initialize_config um pl senv default_dir words answer ce cl password key_material self fs1)"

text \<open>\<^verbatim>\<open>destroy\<close>: the file of the configuration; for Ursula also her database, if it is a file.\<close>

definition unlink :: "py_value \<Rightarrow> 'c fs \<Rightarrow> config_error + 'c fs" where
  "unlink v fs = (case v of PyPath p \<Rightarrow> map_sum CfgOsError id (remove_file p fs) | _ \<Rightarrow> Inl (CfgAttributeError ''unlink''))"

definition destroy_config :: "config_class \<Rightarrow> py_dict \<Rightarrow> 'c fs \<Rightarrow> (config_error + unit) \<times> 'c fs" where
  "destroy_config cl self fs =
     (case (if cl \<noteq> UrsulaConfiguration then Inr fs
            else and_then (get_attr self ''db_filepath'') (\<lambda>v. case v of
                   PyPath p \<Rightarrow> if is_file fs p then unlink v fs else Inr fs
                 | _ \<Rightarrow> Inl (CfgAttributeError ''is_file''))) of
        Inl e \<Rightarrow> (Inl e, fs)
      | Inr fs1 \<Rightarrow>
          (case and_then (get_attr self ''config_file_location'') (\<lambda>v. unlink v fs1) of
             Inl e \<Rightarrow> (Inl e, fs1)
           | Inr fs2 \<Rightarrow> (Inr (), fs2)))"

subsection \<open>Producing a character\<close>

fun default_crypto_powerups :: "config_class \<Rightarrow> power_class list" where
  "default_crypto_powerups AliceConfiguration = [SigningPower, DecryptingPower, DelegatingPower]"
| "default_crypto_powerups _ = [SigningPower, DecryptingPower]"

fun derive_powers ::
  "('sk, 'pk, 'f, 'cert, 'sig) umbral \<Rightarrow> keystore \<Rightarrow> power_class list \<Rightarrow> keystore_error + ('sk, 'pk, 'f, 'cert) power list" where
  "derive_powers um ks [] = Inr []"
| "derive_powers um ks (c # cs) = and_then (derive_crypto_power um ks c None) (\<lambda>p. map_sum id ((#) p) (derive_powers um ks cs))"

definition derive_node_power_ups ::
  "('sk, 'pk, 'f, 'cert, 'sig) umbral \<Rightarrow> config_class \<Rightarrow> py_dict \<Rightarrow> config_error + ('sk, 'pk, 'f, 'cert) power list" where
  "derive_node_power_ups um cl self =
     and_then (get_attr self ''is_me'') (\<lambda>me.
     and_then (get_attr self ''_CharacterConfiguration__dev_mode'') (\<lambda>dev.
       if is_true me \<and> \<not> is_true dev
       then and_then (get_attr self ''_CharacterConfiguration__keystore'') (\<lambda>v. case v of
              PyKeystore ks \<Rightarrow> map_sum CfgKeystoreError id (derive_powers um ks (default_crypto_powerups cl))
            | _ \<Rightarrow> Inl (CfgAttributeError ''derive_crypto_power''))
       else Inr []))"

text \<open>\<^verbatim>\<open>configure_payment_method\<close>, with the constructor of the payment through the contract as an argument.\<close>

definition configure_payment_method ::
  "(py_value \<Rightarrow> py_value \<Rightarrow> py_value \<Rightarrow> config_error + string) \<Rightarrow> py_dict \<Rightarrow> config_error + py_value" where
  "configure_payment_method subscription_manager_payment self =
     and_then (get_attr self ''payment_method'') (\<lambda>m.
       if m = PyStr ''Free'' then Inr (PyObject ''FreeReencryptions'')
       else if m = PyStr ''SubscriptionManager''
       then and_then (get_attr self ''payment_network'') (\<lambda>n.
            and_then (get_attr self ''payment_provider'') (\<lambda>p.
            and_then (get_attr self ''policy_registry'') (\<lambda>r. map_sum id PyObject (subscription_manager_payment n p r))))
       else Inl (CfgKeyError ''Unknown payment verifier''))"

definition character_dynamic_payload ::
  "('sk, 'pk, 'f, 'cert, 'sig) umbral \<Rightarrow> config_class \<Rightarrow> py_dict \<Rightarrow> config_error + py_dict" where
  "character_dynamic_payload um cl self =
     and_then (get_attr self ''federated_only'') (\<lambda>f.
     and_then (if is_true f then Inr [] else read_attrs self (same_names [''registry'', ''signer''])) (\<lambda>a.
     and_then (get_attr self ''network_middleware'') (\<lambda>mw.
     and_then (read_attrs self [(''known_nodes'', ''known_nodes''), (''node_storage'', ''node_storage''),
       (''keystore'', ''_CharacterConfiguration__keystore'')]) (\<lambda>b.
     and_then (derive_node_power_ups um cl self) (\<lambda>_.
       Inr (a @ [(''network_middleware'', or_else mw (PyObject ''RestMiddleware''))] @ b @ [(''crypto_power_ups'', PyObject ''crypto_power_ups'')]))))))"

definition dynamic_payload ::
  "('sk, 'pk, 'f, 'cert, 'sig) umbral \<Rightarrow> (py_value \<Rightarrow> py_value \<Rightarrow> py_value \<Rightarrow> config_error + string) \<Rightarrow> config_class \<Rightarrow> py_dict \<Rightarrow> config_error + py_dict" where
  "dynamic_payload um subscription_manager_payment cl self =
     and_then (if cl = UrsulaConfiguration then read_attrs self (same_names [''network_middleware'', ''certificate'']) else Inr []) (\<lambda>own.
     and_then (if cl = BobConfiguration then Inr []
               else map_sum id (\<lambda>m. [(''payment_method'', m)]) (configure_payment_method subscription_manager_payment self)) (\<lambda>pay.
     and_then (character_dynamic_payload um cl self) (\<lambda>base. Inr (dict_update base (own @ pay)))))"

definition generate_parameters ::
  "('sk, 'pk, 'f, 'cert, 'sig) umbral \<Rightarrow> (py_value \<Rightarrow> py_value \<Rightarrow> py_value \<Rightarrow> config_error + string) \<Rightarrow> config_env \<Rightarrow> config_class \<Rightarrow> py_dict \<Rightarrow> py_dict \<Rightarrow>
   config_error + py_dict" where
  "generate_parameters um subscription_manager_payment ce cl overrides self =
     and_then (static_payload ce cl self) (\<lambda>a.
     and_then (dynamic_payload um subscription_manager_payment cl (after_payload cl self)) (\<lambda>b.
       Inr (filter (\<lambda>(k, _). k \<notin> set (CONFIG_FIELDS cl)) (dict_update (dict_update a b) overrides))))"

subsection \<open>What is written where\<close>

lemma map_sum_Inr: "map_sum f g r = Inr y \<longleftrightarrow> (\<exists>x. r = Inr x \<and> y = g x)"
  by (cases r) auto

lemma read_attrs_Inr:
  "read_attrs self fs = Inr d \<longleftrightarrow> list_all (\<lambda>(k, f). dict_get self f \<noteq> None) fs \<and> d = map (\<lambda>(k, f). (k, the (dict_get self f))) fs"
  by (induction fs arbitrary: d) (auto simp: get_attr_def and_then_Inr map_sum_Inr split: option.splits)

lemma ensure_root_dirs:
  assumes "ensure_config_root_exists self fs = Inr fs1"
  shows "dirs_only fs fs1"
proof -
  from assms obtain p where p: "get_attr self ''config_root'' = Inr (PyPath p)"
    by (auto simp: ensure_config_root_exists_def and_then_def split: sum.splits py_value.splits)
  from assms p have "fs1 = fs \<or> mkdir 0x1ED p fs = Inr fs1 \<or> makedirs False 0x1ED p fs = Inr fs1"
    by (simp add: ensure_config_root_exists_def map_sum_Inr split: if_splits sum.splits os_error.splits)
  then show ?thesis using dirs_only_mkdir makedirs_Inr dirs_only_refl by metis
qed

lemma write_file_other: "write_file p c fs = Inr fs1 \<Longrightarrow> q \<noteq> p \<Longrightarrow> read_file fs1 q = read_file fs q"
  by (auto simp: write_file_def fs_simps dest!: create_file_Inr(4) split: if_splits option.splits file_node.splits)

lemma write_file_same: "write_file p c fs = Inr fs1 \<Longrightarrow> read_file fs1 p = Inr c"
  by (auto simp: write_file_def is_dir_def dest!: create_file_Inr split: if_splits option.splits file_node.splits intro: read_put_same)

lemma write_configuration_file_writes:
  assumes "write_configuration_file ce cl (PyPath p) override self fs = (r, self', fs')"
  shows "q \<noteq> p \<Longrightarrow> read_file fs' q = read_file fs q"
    and "\<not> override \<Longrightarrow> path_exists fs p \<Longrightarrow> fs' = fs"
    and "r = Inr p' \<Longrightarrow> p' = p \<and> self' = after_payload cl self \<and> (\<exists>t. serialize ce cl self = Inr t \<and> read_file fs' p = Inr t)"
  using assms
  by (auto simp: write_configuration_file_def write_file_other write_file_same split: if_splits sum.splits)

text \<open>
  C40. Saving a configuration without asking to override never changes a file that exists: whatever name is asked for and whatever goes
  wrong, each file reads as before.
\<close>

theorem saving_keeps_existing_files:
  assumes "to_configuration_file ce cl filepath modifier False self fs = (r, self', fs')" "is_file fs q"
  shows "read_file fs' q = read_file fs q"
proof (cases "generate_filepath ce cl filepath modifier False self fs")
  case (Inr p)
  let ?self = "dict_set self ''filepath'' (PyPath p)"
  show ?thesis
  proof (cases "ensure_config_root_exists ?self fs")
    case (Inr fs1)
    with \<open>generate_filepath ce cl filepath modifier False self fs = Inr p\<close> assms(1)
    have w: "write_configuration_file ce cl (PyPath p) False ?self fs1 = (r, self', fs')"
      by (simp add: to_configuration_file_def Let_def)
    have d: "dirs_only fs fs1" using Inr by (rule ensure_root_dirs)
    have "read_file fs' q = read_file fs1 q"
    proof (cases "q = p")
      case True
      have "path_exists fs1 p" using assms(2) True d dirs_only_exists(1) is_file_exists by blast
      with write_configuration_file_writes(2) [OF w] show ?thesis by simp
    qed (use write_configuration_file_writes(1) [OF w] in simp)
    then show ?thesis using dirs_only_read [OF d assms(2)] by simp
  qed (use assms Inr in \<open>auto simp: to_configuration_file_def Let_def\<close>)
qed (use assms in \<open>auto simp: to_configuration_file_def\<close>)

subsection \<open>What an update does\<close>

definition settable :: "(string \<Rightarrow> bool) \<Rightarrow> py_dict \<Rightarrow> string \<Rightarrow> bool" where
  "settable inherited self field \<longleftrightarrow> field \<notin> set read_only_properties \<and> (field \<in> set (dict_keys self) \<or> inherited field)"

abbreviation all_settable :: "(string \<Rightarrow> bool) \<Rightarrow> py_dict \<Rightarrow> py_dict \<Rightarrow> bool" where
  "all_settable inherited self updates \<equiv> list_all (\<lambda>(field, _). settable inherited self field) updates"

lemma settable_set: "settable inherited self f \<Longrightarrow> settable inherited (dict_set self f v) = settable inherited self"
  by (simp only: settable_def set_keys_set fun_eq_iff) blast

lemma set_fields_all: "all_settable inherited self updates \<Longrightarrow> set_fields inherited updates self = (Inr (), dict_update self updates)"
proof (induction updates arbitrary: self)
  case (Cons u updates)
  obtain f v where u: "u = (f, v)" by fastforce
  with Cons.prems have "settable inherited self f" by simp
  moreover from this Cons.prems have "all_settable inherited (dict_set self f v) updates" by (simp add: settable_set u)
  ultimately show ?case using Cons.IH by (auto simp: u settable_def)
qed simp

lemma set_fields_stops:
  "\<not> all_settable inherited self updates \<Longrightarrow>
   \<exists>e. set_fields inherited updates self = (Inl e, dict_update self (takeWhile (\<lambda>(field, _). settable inherited self field) updates))"
proof (induction updates arbitrary: self)
  case (Cons u updates)
  obtain f v where u: "u = (f, v)" by fastforce
  show ?case
  proof (cases "settable inherited self f")
    case True
    with Cons have "\<exists>e. set_fields inherited updates (dict_set self f v) =
        (Inl e, dict_update (dict_set self f v) (takeWhile (\<lambda>(field, _). settable inherited self field) updates))"
      using Cons.IH [of "dict_set self f v"] by (simp add: u settable_set)
    with True show ?thesis by (auto simp: u settable_def)
  qed (auto simp: u settable_def)
qed simp

lemma write_existing:
  assumes "is_file fs p"
  shows "\<exists>fs1. write_file p c fs = Inr fs1 \<and> is_file fs1 p"
proof -
  from assms obtain m c' where "dict_get (entries fs) p = Some (File m c')" "p \<noteq> []"
    by (auto simp: is_file_def split: option.splits file_node.splits)
  then have "write_file p c fs = Inr (put_node p (File m c) fs)" by (simp add: write_file_def is_dir_def)
  then show ?thesis using \<open>p \<noteq> []\<close> by (simp add: fs_simps)
qed

text \<open>
  C39. An update of a configuration whose file exists. A name that is not an attribute stops it with the files untouched and the attributes before that name set. Otherwise the
  file holds the serialized new configuration; or, if that cannot be serialized, the exception is raised and the file is empty. No other file changes.
\<close>

theorem update_outcome:
  assumes "dict_get self ''config_file_location'' = Some (PyPath p)" "is_file fs p" "''filepath'' \<notin> set (dict_keys updates)"
    and "update_config ce cl inherited updates self fs = (r, self', fs')"
  shows "(q \<noteq> p \<longrightarrow> read_file fs' q = read_file fs q) \<and>
    (if \<not> all_settable inherited self updates
     then fs' = fs \<and> r \<noteq> Inr () \<and> self' = dict_update self (takeWhile (\<lambda>(field, _). settable inherited self field) updates)
     else case serialize ce cl (dict_update self updates) of
            Inr t \<Rightarrow> r = Inr () \<and> self' = after_payload cl (dict_update self updates) \<and> read_file fs' p = Inr t
          | Inl e \<Rightarrow> r = Inl e \<and> read_file fs' p = Inr NotJson)"
proof (cases "all_settable inherited self updates")
  case False
  from set_fields_stops [OF this] obtain e where
    "set_fields inherited updates self = (Inl e, dict_update self (takeWhile (\<lambda>(field, _). settable inherited self field) updates))" by blast
  with assms False show ?thesis by (auto simp: update_config_def get_attr_def)
next
  case True
  let ?self = "dict_update self updates"
  from write_existing [OF assms(2), of NotJson] obtain fs1 where fs1: "write_file p NotJson fs = Inr fs1" "is_file fs1 p" by blast
  have w: "write_configuration_file ce cl (PyPath p) True ?self fs =
      (case serialize ce cl ?self of
         Inl e \<Rightarrow> (Inl e, after_payload cl ?self, fs1)
       | Inr t \<Rightarrow> (case write_file p t fs1 of
                  Inl e \<Rightarrow> (Inl (CfgOsError e), after_payload cl ?self, fs1)
                | Inr fs2 \<Rightarrow> (Inr p, after_payload cl ?self, fs2)))"
    by (simp add: write_configuration_file_def fs1)
  have u: "update_config ce cl inherited updates self fs = map_prod (map_sum id (\<lambda>_. ())) id (write_configuration_file ce cl (PyPath p) True ?self fs)"
    using assms(1,3) True by (simp add: update_config_def get_attr_def set_fields_all)
  show ?thesis
  proof (cases "serialize ce cl ?self")
    case (Inl e)
    with assms(4) u w True fs1 show ?thesis by (auto simp: write_file_other write_file_same)
  next
    case (Inr t)
    from write_existing [OF fs1(2), of t] obtain fs2 where fs2: "write_file p t fs1 = Inr fs2" by blast
    with Inr assms(4) u w True fs1 show ?thesis by (auto simp: write_file_other write_file_same)
  qed
qed

subsection \<open>An example\<close>

text \<open>A configuration of Alice that is not federated, and the file system after it was saved.\<close>

definition config_demo_env :: config_env where
  "config_demo_env = \<lparr>ce_default_root = [''root''], ce_cwd = [], ce_temp_dir = [''tmp''], ce_str = (\<lambda>_. ''?''),
     ce_decimal = (\<lambda>j. case j of JStr t \<Rightarrow> Inr (t, True) | _ \<Rightarrow> Inl CfgTypeError), ce_initialized = (\<lambda>_. False), ce_initialize = (\<lambda>_. None),
     ce_publication = (\<lambda>_. Inr ''published''), ce_signer = (\<lambda>_ _. Inr ''signer''), ce_registry_filepath = (\<lambda>_. PyNone)\<rparr>"

definition demo_kwargs :: py_dict where
  "demo_kwargs = [(''config_root'', PyPath [''data'']), (''eth_provider_uri'', PyStr ''http://x''), (''max_gas_price'', PyInt 7),
     (''registry_filepath'', PyPath [''data'', ''reg.json'']), (''shares'', PyInt 5)]"

definition config_demo_fs :: "text_file fs" where "config_demo_fs = \<lparr>entries = [], umask = 0\<rparr>"

definition config_demo_alice :: py_dict where
  "config_demo_alice = (case new_config config_demo_env AliceConfiguration demo_kwargs config_demo_fs of (Inr c, _) \<Rightarrow> c | _ \<Rightarrow> [])"

definition demo_saved :: "text_file fs" where
  "demo_saved = snd (snd (to_configuration_file config_demo_env AliceConfiguration None PyNone False config_demo_alice config_demo_fs))"

text \<open>Its attributes, for evaluation.\<close>

lemma config_demo_alice_eq [code]:
  "config_demo_alice =
     [(''is_me'', PyBool True), (''checksum_address'', PyNone),
     (''crypto_power'', PyNone),
     (''_CharacterConfiguration__keystore'', NO_KEYSTORE_ATTACHED),
     (''keystore_dir'', PyPath [''data'', ''keystore'']),
     (''registry'', PyLocalRegistry (PyPath [''data'', ''reg.json''])),
     (''registry_filepath'', PyPath [''data'', ''reg.json'']),
     (''policy_registry'', PyObject ''published''),
     (''policy_registry_filepath'', UNINITIALIZED_CONFIGURATION),
     (''poa'', PyNone), (''is_light'', PyBool False),
     (''eth_provider_uri'', PyStr ''http://x''), (''signer_uri'', PyNone),
     (''federated_only'', PyBool False), (''domain'', PyStr ''mainnet''),
     (''learn_on_same_thread'', PyBool False),
     (''abort_on_learning_error'', PyBool False),
     (''start_learning_now'', PyBool True), (''save_metadata'', PyBool True),
     (''reload_metadata'', PyBool True), (''known_nodes'', PyObject ''set''),
     (''lonely'', PyBool False),
     (''_CharacterConfiguration__dev_mode'', PyBool False),
     (''config_file_location'', PyPath [''data'', ''alice.json'']),
     (''config_root'', PyPath [''data'']), (''worker_data'', PyNone),
     (''gas_strategy'', PyStr ''fast''), (''max_gas_price'', PyInt 7),
     (''testnet'', PyBool False), (''signer'', PyObject ''signer''),
     (''payment_method'', PyStr ''SubscriptionManager''),
     (''payment_network'', PyStr ''bsc_testnet''),
     (''payment_provider'', PyStr ''http://x''),
     (''node_storage'', FORGETFUL_NODE_STORAGE),
     (''controller_port'', PyInt 8151),
     (''network_middleware'', PyObject ''RestMiddleware''),
     (''filepath'', PyPath [''data'', ''alice.json'']),
     (''store_policies'', PyBool True), (''store_cards'', PyBool True),
     (''rate'', PyNone), (''duration'', PyNone), (''threshold'', PyInt 2),
     (''shares'', PyInt 5)]"
  by code_simp

lemma demo_new: "\<exists>fs1. new_config config_demo_env AliceConfiguration demo_kwargs config_demo_fs = (Inr config_demo_alice, fs1)"
proof -
  have "\<not> isl (fst (new_config config_demo_env AliceConfiguration demo_kwargs config_demo_fs))" by code_simp
  then show ?thesis unfolding config_demo_alice_def by (auto split: prod.splits sum.splits)
qed

lemma demo_save: "\<exists>c1. to_configuration_file config_demo_env AliceConfiguration None PyNone False config_demo_alice config_demo_fs = (Inr [''data'', ''alice.json''], c1, demo_saved)"
proof -
  have "fst (to_configuration_file config_demo_env AliceConfiguration None PyNone False config_demo_alice config_demo_fs) = Inr [''data'', ''alice.json'']" by code_simp
  then show ?thesis unfolding demo_saved_def by (metis prod.collapse)
qed

theorem saving_keeps_existing_files_witness:
  "is_file demo_saved [''data'', ''alice.json''] \<and>
   read_file (snd (snd (to_configuration_file config_demo_env AliceConfiguration None (PyStr ''x'') False config_demo_alice demo_saved))) [''data'', ''alice.json''] =
   read_file demo_saved [''data'', ''alice.json'']"
proof -
  have f: "is_file demo_saved [''data'', ''alice.json'']" by code_simp
  obtain r c fs where "to_configuration_file config_demo_env AliceConfiguration None (PyStr ''x'') False config_demo_alice demo_saved = (r, c, fs)"
    by (metis prod.exhaust)
  with saving_keeps_existing_files [OF this f] f show ?thesis by simp
qed

theorem update_outcome_witness:
  "\<exists>t. fst (update_config config_demo_env AliceConfiguration (\<lambda>_. False) [(''shares'', PyInt 4)] config_demo_alice demo_saved) = Inr () \<and>
     serialize config_demo_env AliceConfiguration (dict_update config_demo_alice [(''shares'', PyInt 4)]) = Inr t \<and>
     read_file (snd (snd (update_config config_demo_env AliceConfiguration (\<lambda>_. False) [(''shares'', PyInt 4)] config_demo_alice demo_saved))) [''data'', ''alice.json''] = Inr t"
proof -
  have p: "dict_get config_demo_alice ''config_file_location'' = Some (PyPath [''data'', ''alice.json''])" by code_simp
  have f: "is_file demo_saved [''data'', ''alice.json'']" by code_simp
  have n: "''filepath'' \<notin> set (dict_keys [(''shares'', PyInt 4)])" by simp
  have s: "all_settable (\<lambda>_. False) config_demo_alice [(''shares'', PyInt 4)]" by code_simp
  obtain r c fs where u: "update_config config_demo_env AliceConfiguration (\<lambda>_. False) [(''shares'', PyInt 4)] config_demo_alice demo_saved = (r, c, fs)"
    by (metis prod.exhaust)
  have "\<not> isl (serialize config_demo_env AliceConfiguration (dict_update config_demo_alice [(''shares'', PyInt 4)]))" by code_simp
  then obtain t where "serialize config_demo_env AliceConfiguration (dict_update config_demo_alice [(''shares'', PyInt 4)]) = Inr t"
    by (metis isl_def sum.exhaust_sel)
  with update_outcome [OF p f n u, of "[]"] s u show ?thesis by simp
qed

text \<open>The option \<^verbatim>\<open>light\<close> is kept under another name, so that it cannot be updated.\<close>

lemma light_is_refused:
  "fst (update_config config_demo_env AliceConfiguration (\<lambda>_. False) [(''light'', PyBool True)] config_demo_alice demo_saved) = Inl ConfigurationError"
  by code_simp

text \<open>
  Saving under another name, because the first is taken, does not change where updates are written and what is destroyed.
\<close>

lemma with_signer_location: "dict_get (with_signer c) ''config_file_location'' = dict_get c ''config_file_location''"
  by (simp add: with_signer_def dict_get_set split: option.split)

lemma saving_keeps_location:
  assumes "to_configuration_file ce cl filepath modifier override c fs = (r, c1, fs1)"
  shows "dict_get c1 ''config_file_location'' = dict_get c ''config_file_location''"
proof -
  have "dict_get (after_payload cl self) ''config_file_location'' = dict_get self ''config_file_location''" for self
    by (simp add: after_payload_def with_signer_location split: sum.split option.split)
  with assms show ?thesis
    by (auto simp: to_configuration_file_def write_configuration_file_def Let_def dict_get_set split: sum.splits if_splits)
qed

text \<open>A configuration for development deletes the known nodes of the default root.\<close>

lemma development_clears_default_root:
  "clear_known_nodes ce UNINITIALIZED_CONFIGURATION fs = clear_known_nodes ce (PyPath (ce_default_root ce)) fs"
  by (simp add: clear_known_nodes_def generate_storage_filepaths_def)

end
