(* ===== verification/Config_Roundtrip.thy ===== *)
theory Config_Roundtrip
  imports Configuration
begin

text \<open>
  A configuration that was written to its file is read from it with the same payload. The theory describes what the constructor of
  \<open>Configuration\<close> sets in terms of its keyword arguments, what the payload of a new object is,
  and what the constructor is given when the file is read.
\<close>

subsection \<open>Paths and their texts\<close>

definition clean_path :: "path \<Rightarrow> bool" where
  "clean_path p \<longleftrightarrow> list_all (\<lambda>c. c \<noteq> [] \<and> c \<noteq> ''.'' \<and> CHR ''/'' \<notin> set c) p"

definition cast_path :: "path \<Rightarrow> py_value \<Rightarrow> py_value" where
  "cast_path cwd v =
     (if \<not> is_true v then PyNone else case v of PyJson (JStr s) \<Rightarrow> PyPath (read_path cwd s) | _ \<Rightarrow> v)"

definition castable :: "py_value \<Rightarrow> bool" where
  "castable v \<longleftrightarrow> \<not> is_true v \<or> (case v of PyJson (JStr _) \<Rightarrow> True | PyPath _ \<Rightarrow> True | _ \<Rightarrow> False)"

lemma cast_paths_step:
  "castable v \<Longrightarrow> dict_get d k = Some v \<Longrightarrow> cast_paths cwd (k # ks) d = cast_paths cwd ks (dict_set d k (cast_path cwd v))"
  by (auto simp: castable_def cast_path_def to_path_def split: py_value.splits json.splits)

lemma cast_paths_skip: "dict_get d k = None \<Longrightarrow> cast_paths cwd (k # ks) d = cast_paths cwd ks d"
  by simp

lemma cast_paths_get:
  assumes "distinct ks" "\<forall>k \<in> set ks. \<forall>v. dict_get d k = Some v \<longrightarrow> castable v"
  shows "\<exists>d'. cast_paths cwd ks d = Inr d' \<and>
    (\<forall>k. dict_get d' k = (if k \<in> set ks then map_option (cast_path cwd) (dict_get d k) else dict_get d k))"
  using assms
proof (induction ks arbitrary: d)
  case (Cons k ks)
  show ?case
  proof (cases "dict_get d k")
    case None
    with Cons.IH [of d] Cons.prems obtain d' where "cast_paths cwd ks d = Inr d'"
      "\<forall>x. dict_get d' x = (if x \<in> set ks then map_option (cast_path cwd) (dict_get d x) else dict_get d x)" by auto
    with None Cons.prems show ?thesis by (intro exI [of _ d']) (auto simp del: cast_paths.simps simp: cast_paths_skip)
  next
    case (Some v)
    let ?d = "dict_set d k (cast_path cwd v)"
    have "\<forall>x \<in> set ks. \<forall>v. dict_get ?d x = Some v \<longrightarrow> castable v" using Cons.prems by (auto simp: dict_get_set)
    with Cons.IH [of ?d] Cons.prems obtain d' where d': "cast_paths cwd ks ?d = Inr d'"
      "\<forall>x. dict_get d' x = (if x \<in> set ks then map_option (cast_path cwd) (dict_get ?d x) else dict_get ?d x)" by auto
    have "castable v" using Cons.prems(2) Some by simp
    with d' Some Cons.prems show ?thesis
      by (intro exI [of _ d']) (auto simp del: cast_paths.simps simp: cast_paths_step dict_get_set)
  qed
qed simp

lemma split_slashes:
  "CHR ''/'' \<notin> set c \<Longrightarrow> list_all (\<lambda>c. CHR ''/'' \<notin> set c) p \<Longrightarrow> split_char (CHR ''/'') (c @ concat (map (\<lambda>c. CHR ''/'' # c) p)) = c # p"
  by (induction p arbitrary: c) (simp_all add: split_char_absent split_char_append)

lemma read_show_path:
  assumes "clean_path p"
  shows "read_path cwd (show_path p) = p"
proof (cases p)
  case Nil
  then show ?thesis by (simp add: read_path_def show_path_def path_join_def)
next
  case (Cons c cs)
  have all: "list_all (\<lambda>c. CHR ''/'' \<notin> set c) (c # cs)" "list_all (\<lambda>c. c \<noteq> [] \<and> c \<noteq> ''.'') (c # cs)"
    using assms by (auto simp: clean_path_def Cons list_all_iff)
  have "split_char (CHR ''/'') (show_path p) = [] # c # cs"
    using split_slashes [of c cs] all(1) by (simp add: show_path_def Cons)
  moreover have "filter (\<lambda>c. c \<noteq> '''' \<and> c \<noteq> ''.'') (c # cs) = c # cs" using all(2) by (auto simp: list_all_iff intro: filter_True)
  moreover have "take 1 (show_path p) = ''/''" by (simp add: show_path_def Cons)
  ultimately show ?thesis by (simp add: read_path_def path_join_def Cons)
qed

lemma show_path_true [simp]: "show_path p \<noteq> []"
  by (auto simp: show_path_def neq_Nil_conv)

subsection \<open>What the constructor sets\<close>

lemma cache_filepaths_get:
  assumes "wf_dict fps" "\<forall>f \<in> set (dict_keys fps). dict_get self f \<noteq> None"
  shows "\<exists>s. cache_filepaths fps self = Inr s \<and>
    (\<forall>k. dict_get s k = (case (dict_get fps k, dict_get self k) of
       (Some p, Some v) \<Rightarrow> Some (if v = UNINITIALIZED_CONFIGURATION then PyPath p else v) | _ \<Rightarrow> dict_get self k))"
  using assms
proof (induction fps arbitrary: self)
  case (Cons x fps)
  obtain f p where x: "x = (f, p)" by fastforce
  obtain v where v: "dict_get self f = Some v" using Cons.prems(2) x by auto
  let ?self = "if v = UNINITIALIZED_CONFIGURATION then dict_set self f (PyPath p) else self"
  have get: "dict_get ?self k = (if k = f then Some (if v = UNINITIALIZED_CONFIGURATION then PyPath p else v) else dict_get self k)" for k
    using v by (simp add: dict_get_set)
  have "\<forall>g \<in> set (dict_keys fps). dict_get ?self g \<noteq> None" unfolding get using Cons.prems(2) by auto
  with Cons.IH [of ?self] Cons.prems(1) obtain s where s: "cache_filepaths fps ?self = Inr s"
    "\<forall>k. dict_get s k = (case (dict_get fps k, dict_get ?self k) of
       (Some p, Some v) \<Rightarrow> Some (if v = UNINITIALIZED_CONFIGURATION then PyPath p else v) | _ \<Rightarrow> dict_get ?self k)" by auto
  have "dict_get fps f = None" using Cons.prems(1) by (simp add: x dict_get_None_iff)
  with s v show ?case unfolding get by (intro exI [of _ s]) (auto simp: x split: option.splits)
qed simp

lemma wf_basic_attrs: "wf_dict (basic_attrs kw ks kd)"
  by (simp add: basic_attrs_def)

definition file_fields :: "string list" where
  "file_fields = [''config_root'', ''config_file_location'', ''keystore_dir'', ''db_filepath'', ''controller_port'', ''network_middleware'',
     ''filepath'', ''node_storage'']"

definition mode_attrs :: "config_env \<Rightarrow> config_class \<Rightarrow> py_dict \<Rightarrow> config_error + py_dict" where
  "mode_attrs ce cl kw =
     (if is_true (kwarg kw ''federated_only'' (PyBool False)) then Inr (federated_attrs kw) else decentralized_attrs ce cl kw)"

lemma decentralized_attrs_Inr:
  "decentralized_attrs ce cl kw = Inr m \<longleftrightarrow>
    (\<exists>r s p. connect ce (kwarg kw ''eth_provider_uri'' PyNone) = None \<and>
      choose_registry ce (kwarg kw ''registry'' PyNone) (kwarg kw ''registry_filepath'' PyNone) (kwarg kw ''domain'' (PyStr DEFAULT_DOMAIN)) = Inr r \<and>
      ce_signer ce (or_else (kwarg kw ''signer_uri'' PyNone) PyNone) (kwarg kw ''domain'' (PyStr DEFAULT_DOMAIN) \<noteq> PyStr ''mainnet'') = Inr s \<and>
      (if cl = BobConfiguration then Inr [] else payment_attrs ce kw) = Inr p \<and>
      m = [(''gas_strategy'', kwarg kw ''gas_strategy'' (PyStr DEFAULT_GAS_STRATEGY)), (''max_gas_price'', kwarg kw ''max_gas_price'' PyNone),
           (''registry'', r), (''testnet'', PyBool (kwarg kw ''domain'' (PyStr DEFAULT_DOMAIN) \<noteq> PyStr ''mainnet'')), (''signer'', PyObject s)] @ p)"
  unfolding decentralized_attrs_def Let_def by (auto split: option.splits sum.splits)

lemma payment_attrs_Inr:
  "payment_attrs ce kw = Inr p \<longleftrightarrow>
    (\<exists>r. choose_registry ce (kwarg kw ''policy_registry'' PyNone) (kwarg kw ''policy_registry_filepath'' PyNone)
        (or_else (kwarg kw ''payment_network'' PyNone) (PyStr DEFAULT_PAYMENT_NETWORK)) = Inr r \<and>
      p = [(''payment_method'', or_else (kwarg kw ''payment_method'' PyNone) (PyStr DEFAULT_PAYMENT_METHOD)),
           (''payment_network'', or_else (kwarg kw ''payment_network'' PyNone) (PyStr DEFAULT_PAYMENT_NETWORK)),
           (''payment_provider'', or_else (kwarg kw ''payment_provider'' PyNone) (or_else (kwarg kw ''eth_provider_uri'' PyNone) PyNone)),
           (''policy_registry'', r)])"
  by (auto simp: payment_attrs_def Let_def split: sum.splits)

lemma mode_attrs_fields:
  assumes "mode_attrs ce cl kw = Inr m"
  shows "wf_dict m" "k \<in> set file_fields \<Longrightarrow> dict_get m k = None"
  using assms
  by (auto simp: mode_attrs_def federated_attrs_def decentralized_attrs_Inr payment_attrs_Inr file_fields_def split: if_splits)

text \<open>The attributes of a configuration that is not for development, with the mode's attributes and the root they were built with.\<close>

definition built_from ::
  "config_env \<Rightarrow> config_class \<Rightarrow> py_dict \<Rightarrow> py_dict \<Rightarrow> py_value \<times> py_value \<Rightarrow> py_dict \<Rightarrow> path \<Rightarrow> py_dict \<Rightarrow> bool" where
  "built_from ce cl kw self ksd mode r c \<longleftrightarrow>
     (let s = dict_update (dict_update self (basic_attrs kw (fst ksd) (snd ksd))) mode
      in dict_get c ''node_storage'' = Some FORGETFUL_NODE_STORAGE \<and> dict_get c ''config_root'' = Some (PyPath r) \<and>
         dict_get c ''config_file_location'' =
           Some (or_else (kwarg kw ''filepath'' PyNone) (PyPath (path_join r (generate_filename ce cl PyNone)))) \<and>
         (cl = UrsulaConfiguration \<longrightarrow> dict_get c ''db_filepath'' =
           map_option (\<lambda>v. if v = UNINITIALIZED_CONFIGURATION then PyPath (path_join r DEFAULT_DB_NAME) else v) (dict_get s ''db_filepath'')) \<and>
         (\<forall>k. k \<notin> set file_fields \<longrightarrow> dict_get c k = dict_get s k))"

definition accepts ::
  "config_env \<Rightarrow> config_class \<Rightarrow> py_dict \<Rightarrow> text_file fs \<Rightarrow> py_value \<times> py_value \<Rightarrow> py_dict \<Rightarrow> path \<Rightarrow> bool" where
  "accepts ce cl kw fs ksd mode r \<longleftrightarrow>
     list_all (\<lambda>k. k \<in> set character_parameters) (dict_keys kw) \<and> init_keystore kw fs = Inr ksd \<and> registries_consistent ce kw \<and>
     mode_attrs ce cl kw = Inr mode \<and> or_else (kwarg kw ''config_root'' PyNone) (PyPath (ce_default_root ce)) = PyPath r"

lemma basic_file_attrs:
  "dict_get (basic_attrs kw ks kd) ''config_root'' = Some UNINITIALIZED_CONFIGURATION"
  "dict_get (basic_attrs kw ks kd) ''config_file_location'' = Some (or_else (kwarg kw ''filepath'' PyNone) UNINITIALIZED_CONFIGURATION)"
  "dict_get (basic_attrs kw ks kd) ''keystore_dir'' = Some kd"
  "dict_get (basic_attrs kw ks kd) ''db_filepath'' = None"
  by (simp_all add: basic_attrs_def)

lemma init_files_live:
  assumes "\<not> is_true (kwarg kw ''dev_mode'' (PyBool False))" "accepts ce cl kw fs0 ksd mode r" "cl = UrsulaConfiguration \<Longrightarrow> dict_get self ''db_filepath'' \<noteq> None"
  shows "\<exists>c1 fs1. init_files ce cl kw (dict_update (dict_update self (basic_attrs kw (fst ksd) (snd ksd))) mode) fs = (Inr c1, fs1) \<and>
    built_from ce cl kw self ksd mode r c1"
proof -
  define s where "s = dict_update (dict_update self (basic_attrs kw (fst ksd) (snd ksd))) mode"
  have m: "mode_attrs ce cl kw = Inr mode" and r: "or_else (kwarg kw ''config_root'' PyNone) (PyPath (ce_default_root ce)) = PyPath r"
    using assms(2) by (auto simp: accepts_def)
  note mode = mode_attrs_fields [OF m]
  have "dict_get s k = (case dict_get (basic_attrs kw (fst ksd) (snd ksd)) k of Some v \<Rightarrow> Some v | None \<Rightarrow> dict_get self k)"
    if "k \<in> set file_fields" for k
    using mode that by (simp add: s_def dict_get_update wf_basic_attrs)
  then have s: "dict_get s ''config_file_location'' = Some (or_else (kwarg kw ''filepath'' PyNone) UNINITIALIZED_CONFIGURATION)"
    "dict_get s ''keystore_dir'' = Some (snd ksd)" "dict_get s ''db_filepath'' = dict_get self ''db_filepath''"
    by (simp_all add: file_fields_def basic_file_attrs)
  obtain fps fs1 where g: "generate_runtime_filepaths ce cl r fs = (fps, fs1)" by fastforce
  then have fps: "fps = [(''config_root'', r), (''config_file_location'', path_join r (generate_filename ce cl PyNone)),
      (''keystore_dir'', path_join r ''keystore'')] @ (if cl = UrsulaConfiguration then [(''db_filepath'', path_join r DEFAULT_DB_NAME)] else [])"
    by (auto simp: generate_runtime_filepaths_def Let_def split: if_splits)
  let ?s1 = "dict_set s ''config_root'' (PyPath r)"
  have "wf_dict fps" by (simp add: fps)
  moreover have "\<forall>f \<in> set (dict_keys fps). dict_get ?s1 f \<noteq> None"
    using assms(3) by (simp add: fps dict_get_set s)
  ultimately obtain c where c: "cache_filepaths fps ?s1 = Inr c"
    "\<forall>k. dict_get c k = (case (dict_get fps k, dict_get ?s1 k) of
       (Some p, Some v) \<Rightarrow> Some (if v = UNINITIALIZED_CONFIGURATION then PyPath p else v) | _ \<Rightarrow> dict_get ?s1 k)"
    using cache_filepaths_get by blast
  have "init_files ce cl kw s fs = (Inr (dict_set c ''node_storage'' FORGETFUL_NODE_STORAGE), clear_known_nodes ce (PyPath r) fs1)"
    using assms(1) by (simp add: init_files_def r cache_runtime_filepaths_def get_attr_def dict_get_set g c(1))
  moreover
  have "dict_get c k = dict_get s k" if "k \<notin> set file_fields" for k
    using that by (simp add: c(2) fps dict_get_set file_fields_def split: option.splits)
  moreover have "dict_get c ''config_root'' = Some (PyPath r)"
    by (simp add: c(2) fps dict_get_set)
  moreover have "dict_get c ''config_file_location'' = Some (or_else (kwarg kw ''filepath'' PyNone) (PyPath (path_join r (generate_filename ce cl PyNone))))"
    by (auto simp: c(2) fps dict_get_set s or_else_def)
  moreover have "dict_get c ''db_filepath'' =
      map_option (\<lambda>v. if v = UNINITIALIZED_CONFIGURATION then PyPath (path_join r DEFAULT_DB_NAME) else v) (dict_get s ''db_filepath'')"
    if "cl = UrsulaConfiguration"
    using that by (simp add: c(2) fps dict_get_set split: option.splits)
  ultimately have "built_from ce cl kw self ksd mode r (dict_set c ''node_storage'' FORGETFUL_NODE_STORAGE)"
    unfolding built_from_def Let_def s_def [symmetric] by (simp add: dict_get_set file_fields_def)
  with \<open>init_files ce cl kw s fs = _\<close> show ?thesis unfolding s_def by blast
qed

lemma or_else_path [simp]: "is_true (or_else v (PyPath p))" "or_else (PyPath p) v = PyPath p"
  by (simp_all add: or_else_def)

lemma built_from_cong:
  "built_from ce cl kw self ksd mode r c \<Longrightarrow> \<forall>k. k \<notin> {''controller_port'', ''network_middleware'', ''filepath''} \<longrightarrow> dict_get c' k = dict_get c k \<Longrightarrow>
   built_from ce cl kw self ksd mode r c'"
  unfolding built_from_def Let_def by (auto simp: file_fields_def)

lemma character_init_built:
  assumes "\<not> is_true (kwarg kw ''dev_mode'' (PyBool False))" "accepts ce cl kw fs ksd mode r" "cl = UrsulaConfiguration \<Longrightarrow> dict_get self ''db_filepath'' \<noteq> None"
  shows "\<exists>c fs1. character_init ce cl kw self fs = (Inr c, fs1) \<and> built_from ce cl kw self ksd mode r c"
proof -
  from init_files_live [OF assms] obtain c1 fs1 where
    i: "init_files ce cl kw (dict_update (dict_update self (basic_attrs kw (fst ksd) (snd ksd))) mode) fs = (Inr c1, fs1)"
    and c1: "built_from ce cl kw self ksd mode r c1" by blast
  define port where "port = or_else (kwarg kw ''controller_port'' PyNone) (DEFAULT_CONTROLLER_PORT cl)"
  define mw where "mw = or_else (kwarg kw ''network_middleware'' PyNone) (PyObject ''RestMiddleware'')"
  define loc where "loc = or_else (kwarg kw ''filepath'' PyNone) (PyPath (path_join r (generate_filename ce cl PyNone)))"
  let ?c2 = "dict_update c1 [(''controller_port'', port), (''network_middleware'', mw)]"
  have roots: "dict_get c1 ''config_root'' = Some (PyPath r)" "dict_get c1 ''config_file_location'' = Some loc"
    using c1 by (simp_all add: built_from_def Let_def loc_def)
  have "is_true loc" by (simp add: loc_def)
  then have "base_init ce cl ?c2 = Inr (dict_set (dict_set ?c2 ''config_root'' (PyPath r)) ''filepath'' loc)"
    using roots by (simp add: base_init_def get_attr_def dict_get_set Let_def)
  moreover have "built_from ce cl kw self ksd mode r (dict_set (dict_set ?c2 ''config_root'' (PyPath r)) ''filepath'' loc)"
    by (rule built_from_cong [OF c1]) (simp add: dict_get_set roots(1))
  moreover have "character_init ce cl kw self fs = (base_init ce cl ?c2, fs1)"
    using assms(2) i unfolding accepts_def mode_attrs_def character_init_def port_def mw_def by (cases ksd) simp
  ultimately show ?thesis by metis
qed

lemma init_files_root:
  assumes "init_files ce cl kw self fs = (Inr c, fs1)" "\<not> is_true (kwarg kw ''dev_mode'' (PyBool False))"
  shows "\<exists>r. or_else (kwarg kw ''config_root'' PyNone) (PyPath (ce_default_root ce)) = PyPath r"
  using assms
  by (auto simp: init_files_def cache_runtime_filepaths_def get_attr_def dict_get_set Let_def split: prod.splits sum.splits py_value.splits)

lemma character_init_accepts:
  assumes "character_init ce cl kw self fs = (Inr c, fs1)" "\<not> is_true (kwarg kw ''dev_mode'' (PyBool False))"
  shows "\<exists>ksd mode r. accepts ce cl kw fs ksd mode r"
proof -
  from assms(1) obtain ks kd mode c1 fs2 where
    "list_all (\<lambda>k. k \<in> set character_parameters) (dict_keys kw)" "init_keystore kw fs = Inr (ks, kd)" "registries_consistent ce kw"
    "mode_attrs ce cl kw = Inr mode" "init_files ce cl kw (dict_update (dict_update self (basic_attrs kw ks kd)) mode) fs = (Inr c1, fs2)"
    unfolding character_init_def mode_attrs_def by (auto split: if_splits sum.splits prod.splits)
  moreover from init_files_root [OF this(5) assms(2)] obtain r where
    "or_else (kwarg kw ''config_root'' PyNone) (PyPath (ce_default_root ce)) = PyPath r" by blast
  ultimately show ?thesis by (auto simp: accepts_def)
qed

lemma kwarg_passed_on: "k \<in> set character_parameters \<Longrightarrow> kwarg (passed_on cl kw) k v = kwarg kw k v"
  unfolding kwarg_def passed_on_def by (induction kw) auto

text \<open>The attributes that the payload reads, in terms of the keyword arguments.\<close>

definition plain_fields :: "(string \<times> py_value) list" where
  "plain_fields =
     [(''federated_only'', PyBool False), (''checksum_address'', PyNone), (''domain'', PyStr DEFAULT_DOMAIN), (''learn_on_same_thread'', PyBool False),
      (''abort_on_learning_error'', PyBool False), (''start_learning_now'', PyBool True), (''save_metadata'', PyBool True), (''lonely'', PyBool False)]"

definition chain_facts :: "py_dict \<Rightarrow> py_dict \<Rightarrow> bool" where
  "chain_facts kw c \<longleftrightarrow>
     dict_get c ''eth_provider_uri'' = Some (or_else (kwarg kw ''eth_provider_uri'' PyNone) NO_BLOCKCHAIN_CONNECTION) \<and>
     dict_get c ''poa'' = Some (kwarg kw ''poa'' PyNone) \<and> dict_get c ''is_light'' = Some (kwarg kw ''light'' (PyBool False)) \<and>
     dict_get c ''signer_uri'' = Some (or_else (kwarg kw ''signer_uri'' PyNone) PyNone) \<and>
     dict_get c ''registry_filepath'' = Some (or_else (kwarg kw ''registry_filepath'' PyNone) UNINITIALIZED_CONFIGURATION) \<and>
     dict_get c ''gas_strategy'' = Some (kwarg kw ''gas_strategy'' (PyStr DEFAULT_GAS_STRATEGY)) \<and>
     dict_get c ''max_gas_price'' = Some (kwarg kw ''max_gas_price'' PyNone)"

definition payment_facts :: "bool \<Rightarrow> py_dict \<Rightarrow> py_dict \<Rightarrow> bool" where
  "payment_facts federated kw c \<longleftrightarrow>
     (let m = kwarg kw ''payment_method'' PyNone; n = kwarg kw ''payment_network'' PyNone; p = kwarg kw ''payment_provider'' PyNone
      in dict_get c ''payment_method'' = Some (or_else m (PyStr (if federated then DEFAULT_FEDERATED_PAYMENT_METHOD else DEFAULT_PAYMENT_METHOD))) \<and>
         dict_get c ''payment_network'' = Some (if federated then n else or_else n (PyStr DEFAULT_PAYMENT_NETWORK)) \<and>
         dict_get c ''payment_provider'' = Some (if federated then p else or_else p (or_else (kwarg kw ''eth_provider_uri'' PyNone) PyNone)))"

definition config_facts :: "config_class \<Rightarrow> py_dict \<Rightarrow> py_value \<Rightarrow> py_dict \<Rightarrow> bool" where
  "config_facts cl kw ks c \<longleftrightarrow>
     (let federated = is_true (kwarg kw ''federated_only'' (PyBool False))
      in (\<forall>(k, d) \<in> set plain_fields. dict_get c k = Some (kwarg kw k d)) \<and> dict_get c ''_CharacterConfiguration__keystore'' = Some ks \<and>
         dict_get c ''node_storage'' = Some FORGETFUL_NODE_STORAGE \<and> (\<not> federated \<longrightarrow> chain_facts kw c) \<and>
         (cl \<noteq> BobConfiguration \<longrightarrow> payment_facts federated kw c))"

lemma basic_lookups:
  "dict_get (basic_attrs kw ks kd) ''federated_only'' = Some (kwarg kw ''federated_only'' (PyBool False))"
  "dict_get (basic_attrs kw ks kd) ''checksum_address'' = Some (kwarg kw ''checksum_address'' PyNone)"
  "dict_get (basic_attrs kw ks kd) ''domain'' = Some (kwarg kw ''domain'' (PyStr DEFAULT_DOMAIN))"
  "dict_get (basic_attrs kw ks kd) ''learn_on_same_thread'' = Some (kwarg kw ''learn_on_same_thread'' (PyBool False))"
  "dict_get (basic_attrs kw ks kd) ''abort_on_learning_error'' = Some (kwarg kw ''abort_on_learning_error'' (PyBool False))"
  "dict_get (basic_attrs kw ks kd) ''start_learning_now'' = Some (kwarg kw ''start_learning_now'' (PyBool True))"
  "dict_get (basic_attrs kw ks kd) ''save_metadata'' = Some (kwarg kw ''save_metadata'' (PyBool True))"
  "dict_get (basic_attrs kw ks kd) ''lonely'' = Some (kwarg kw ''lonely'' (PyBool False))"
  "dict_get (basic_attrs kw ks kd) ''_CharacterConfiguration__keystore'' = Some (ks)"
  "dict_get (basic_attrs kw ks kd) ''eth_provider_uri'' = Some (or_else (kwarg kw ''eth_provider_uri'' PyNone) NO_BLOCKCHAIN_CONNECTION)"
  "dict_get (basic_attrs kw ks kd) ''poa'' = Some (kwarg kw ''poa'' PyNone)"
  "dict_get (basic_attrs kw ks kd) ''is_light'' = Some (kwarg kw ''light'' (PyBool False))"
  "dict_get (basic_attrs kw ks kd) ''signer_uri'' = Some (or_else (kwarg kw ''signer_uri'' PyNone) PyNone)"
  "dict_get (basic_attrs kw ks kd) ''registry_filepath'' = Some (or_else (kwarg kw ''registry_filepath'' PyNone) UNINITIALIZED_CONFIGURATION)"
  by (simp_all add: basic_attrs_def)

lemma built_from_facts:
  assumes "built_from ce cl kw self (ks, kd) mode r c" "accepts ce cl kw fs (ks, kd) mode r"
  shows "config_facts cl kw ks c"
proof -
  have m: "mode_attrs ce cl kw = Inr mode" using assms(2) by (simp add: accepts_def)
  have get: "dict_get c k = (case dict_get mode k of Some v \<Rightarrow> Some v | None \<Rightarrow>
      (case dict_get (basic_attrs kw ks kd) k of Some v \<Rightarrow> Some v | None \<Rightarrow> dict_get self k))" if "k \<notin> set file_fields" for k
    using assms(1) that mode_attrs_fields(1) [OF m] by (simp add: built_from_def Let_def dict_get_update wf_basic_attrs split: option.splits)
  have ns: "dict_get c ''node_storage'' = Some FORGETFUL_NODE_STORAGE" using assms(1) by (simp add: built_from_def Let_def)
  show ?thesis
  proof (cases "is_true (kwarg kw ''federated_only'' (PyBool False))")
    case True
    then have "mode = federated_attrs kw" using m by (simp add: mode_attrs_def)
    with True show ?thesis
      unfolding config_facts_def Let_def payment_facts_def plain_fields_def
      by (simp add: get ns file_fields_def federated_attrs_def basic_lookups)
  next
    case False
    then obtain rg s p where mode: "mode = [(''gas_strategy'', kwarg kw ''gas_strategy'' (PyStr DEFAULT_GAS_STRATEGY)),
        (''max_gas_price'', kwarg kw ''max_gas_price'' PyNone), (''registry'', rg), (''testnet'', PyBool (kwarg kw ''domain'' (PyStr DEFAULT_DOMAIN) \<noteq> PyStr ''mainnet'')),
        (''signer'', PyObject s)] @ p" and p: "(if cl = BobConfiguration then Inr [] else payment_attrs ce kw) = Inr p"
      using m by (auto simp: mode_attrs_def decentralized_attrs_Inr)
    show ?thesis
    proof (cases "cl = BobConfiguration")
      case True
      with p have "p = []" by simp
      with True False mode show ?thesis
        unfolding config_facts_def Let_def chain_facts_def plain_fields_def
        by (simp add: get ns file_fields_def basic_lookups)
    next
      case notBob: False
      with p obtain pr where "p = [(''payment_method'', or_else (kwarg kw ''payment_method'' PyNone) (PyStr DEFAULT_PAYMENT_METHOD)),
           (''payment_network'', or_else (kwarg kw ''payment_network'' PyNone) (PyStr DEFAULT_PAYMENT_NETWORK)),
           (''payment_provider'', or_else (kwarg kw ''payment_provider'' PyNone) (or_else (kwarg kw ''eth_provider_uri'' PyNone) PyNone)),
           (''policy_registry'', pr)]"
        by (auto simp: payment_attrs_Inr)
      with False notBob mode show ?thesis
        unfolding config_facts_def Let_def chain_facts_def plain_fields_def payment_facts_def
        by (simp add: get ns file_fields_def basic_lookups)
    qed
  qed
qed

fun own_facts :: "config_class \<Rightarrow> py_dict \<Rightarrow> path \<Rightarrow> py_dict \<Rightarrow> bool" where
  "own_facts UrsulaConfiguration kw r c \<longleftrightarrow>
     dict_get c ''operator_address'' = Some (kwarg kw ''operator_address'' PyNone) \<and>
     dict_get c ''rest_host'' = Some (kwarg kw ''rest_host'' PyNone) \<and>
     dict_get c ''rest_port'' = Some (or_else (kwarg kw ''rest_port'' PyNone) (PyInt 9151)) \<and>
     dict_get c ''db_filepath'' = Some (or_else (kwarg kw ''db_filepath'' PyNone) (PyPath (path_join r DEFAULT_DB_NAME))) \<and>
     dict_get c ''availability_check'' =
       Some (if kwarg kw ''availability_check'' PyNone = PyNone then PyBool False else kwarg kw ''availability_check'' PyNone)"
| "own_facts AliceConfiguration kw r c \<longleftrightarrow>
     dict_get c ''threshold'' = Some (or_else (kwarg kw ''threshold'' PyNone) (PyInt 2)) \<and>
     dict_get c ''shares'' = Some (or_else (kwarg kw ''shares'' PyNone) (PyInt 3)) \<and>
     dict_get c ''store_policies'' = Some (kwarg kw ''store_policies'' (PyBool True)) \<and>
     dict_get c ''store_cards'' = Some (kwarg kw ''store_cards'' (PyBool True)) \<and>
     dict_get c ''rate'' = Some (kwarg kw ''rate'' PyNone) \<and> dict_get c ''duration'' = Some (kwarg kw ''duration'' PyNone)"
| "own_facts BobConfiguration kw r c \<longleftrightarrow>
     dict_get c ''store_policies'' = Some (kwarg kw ''store_policies'' (PyBool True)) \<and>
     dict_get c ''store_cards'' = Some (kwarg kw ''store_cards'' (PyBool True))"

definition place_facts :: "config_env \<Rightarrow> config_class \<Rightarrow> py_dict \<Rightarrow> path \<Rightarrow> py_dict \<Rightarrow> bool" where
  "place_facts ce cl kw r c \<longleftrightarrow> dict_get c ''config_root'' = Some (PyPath r) \<and>
     dict_get c ''config_file_location'' = Some (or_else (kwarg kw ''filepath'' PyNone) (PyPath (path_join r (generate_filename ce cl PyNone))))"

lemma config_facts_passed_on: "config_facts cl (passed_on cl kw) ks c \<longleftrightarrow> config_facts cl kw ks c"
  unfolding config_facts_def chain_facts_def payment_facts_def plain_fields_def
  by (simp add: kwarg_passed_on character_parameters_def)

lemma config_facts_extend:
  assumes "config_facts cl kw ks c" "\<forall>k. k \<notin> {''store_policies'', ''store_cards'', ''rate'', ''duration'', ''threshold'', ''shares''} \<longrightarrow> dict_get c' k = dict_get c k"
  shows "config_facts cl kw ks c'"
  using assms unfolding config_facts_def chain_facts_def payment_facts_def plain_fields_def by simp

definition acceptable :: "config_env \<Rightarrow> config_class \<Rightarrow> py_dict \<Rightarrow> text_file fs \<Rightarrow> py_value \<Rightarrow> path \<Rightarrow> bool" where
  "acceptable ce cl kw fs ks r \<longleftrightarrow>
     \<not> is_true (kwarg kw ''dev_mode'' (PyBool False)) \<and> (cl = UrsulaConfiguration \<longrightarrow> is_true (kwarg kw ''rest_host'' PyNone)) \<and>
     (\<exists>kd mode. accepts ce cl (passed_on cl kw) fs (ks, kd) mode r)"

definition ursula_fields :: "string list" where
  "ursula_fields = [''operator_address'', ''rest_host'', ''rest_port'', ''db_filepath'', ''availability_check'']"

lemma mode_not_ursula: "mode_attrs ce cl kw = Inr m \<Longrightarrow> k \<in> set ursula_fields \<Longrightarrow> dict_get m k = None"
  by (auto simp: mode_attrs_def federated_attrs_def decentralized_attrs_Inr payment_attrs_Inr ursula_fields_def split: if_splits)

lemma basic_not_ursula: "k \<in> set ursula_fields \<Longrightarrow> dict_get (basic_attrs kw ks kd) k = None"
proof -
  have "list_all (\<lambda>k. dict_get (basic_attrs kw ks kd) k = None) ursula_fields" by (simp add: basic_attrs_def ursula_fields_def)
  then show "k \<in> set ursula_fields \<Longrightarrow> ?thesis" by (simp add: list_all_iff)
qed

lemma ursula_init:
  assumes "acceptable ce UrsulaConfiguration kw fs ks r"
  shows "\<exists>c fs1. new_config ce UrsulaConfiguration kw fs = (Inr c, fs1) \<and> config_facts UrsulaConfiguration kw ks c \<and>
    own_facts UrsulaConfiguration kw r c \<and> place_facts ce UrsulaConfiguration kw r c"
proof -
  let ?cl = UrsulaConfiguration and ?kw = "passed_on UrsulaConfiguration kw"
  from assms obtain kd mode where acc: "accepts ce ?cl ?kw fs (ks, kd) mode r" and live: "\<not> is_true (kwarg kw ''dev_mode'' (PyBool False))"
    and host: "is_true (kwarg kw ''rest_host'' PyNone)" by (auto simp: acceptable_def)
  have "\<not> is_true (kwarg ?kw ''dev_mode'' (PyBool False))" using live by (simp add: kwarg_passed_on character_parameters_def)
  from character_init_built [OF this acc, of "ursula_attrs kw"] obtain c fs1 where
    c: "character_init ce ?cl ?kw (ursula_attrs kw) fs = (Inr c, fs1)" "built_from ce ?cl ?kw (ursula_attrs kw) (ks, kd) mode r c"
    by (auto simp: ursula_attrs_def Let_def)
  have m: "mode_attrs ce ?cl ?kw = Inr mode" using acc by (simp add: accepts_def)
  have s: "dict_get (dict_update (dict_update (ursula_attrs kw) (basic_attrs ?kw ks kd)) mode) k = dict_get (ursula_attrs kw) k"
    if "k \<in> set ursula_fields" for k
    using mode_not_ursula [OF m that] basic_not_ursula [OF that, of ?kw ks kd] mode_attrs_fields(1) [OF m]
    by (simp add: dict_get_update wf_basic_attrs)
  have "dict_get c k = dict_get (ursula_attrs kw) k" if "k \<in> set ursula_fields" "k \<noteq> ''db_filepath''" for k
  proof -
    have "k \<notin> set file_fields" using that by (auto simp: ursula_fields_def file_fields_def)
    with c(2) s [OF that(1)] show ?thesis by (simp add: built_from_def Let_def)
  qed
  moreover have "dict_get c ''db_filepath'' = Some (or_else (kwarg kw ''db_filepath'' PyNone) (PyPath (path_join r DEFAULT_DB_NAME)))"
    using c(2) s [of "''db_filepath''"] by (auto simp: built_from_def Let_def ursula_fields_def ursula_attrs_def or_else_def)
  ultimately have "own_facts ?cl kw r c" using live by (simp add: ursula_fields_def ursula_attrs_def Let_def)
  moreover have "config_facts ?cl kw ks c" using built_from_facts [OF c(2) acc] by (simp add: config_facts_passed_on)
  moreover have "place_facts ce ?cl kw r c"
    using c(2) by (simp add: place_facts_def built_from_def Let_def kwarg_passed_on character_parameters_def)
  ultimately show ?thesis using c(1) host by (auto simp: new_config_def)
qed

lemma other_init:
  assumes "acceptable ce cl kw fs ks r" "cl \<noteq> UrsulaConfiguration"
  shows "\<exists>c fs1. new_config ce cl kw fs = (Inr c, fs1) \<and> config_facts cl kw ks c \<and> own_facts cl kw r c \<and> place_facts ce cl kw r c"
proof -
  let ?kw = "passed_on cl kw"
  from assms obtain kd mode where acc: "accepts ce cl ?kw fs (ks, kd) mode r" and live: "\<not> is_true (kwarg kw ''dev_mode'' (PyBool False))"
    by (auto simp: acceptable_def)
  have "\<not> is_true (kwarg ?kw ''dev_mode'' (PyBool False))" using live by (simp add: kwarg_passed_on character_parameters_def)
  from character_init_built [OF this acc, of "[]"] assms(2) obtain c fs1 where
    c: "character_init ce cl ?kw [] fs = (Inr c, fs1)" "built_from ce cl ?kw [] (ks, kd) mode r c" by auto
  define own where "own = (if cl = AliceConfiguration then alice_attrs kw else bob_attrs kw)"
  have wf: "wf_dict own" by (simp add: own_def alice_attrs_def bob_attrs_def)
  have "\<forall>k. k \<notin> {''store_policies'', ''store_cards'', ''rate'', ''duration'', ''threshold'', ''shares''} \<longrightarrow> dict_get (dict_update c own) k = dict_get c k"
    by (simp add: dict_get_update [OF wf]) (simp add: own_def alice_attrs_def bob_attrs_def)
  from config_facts_extend [OF built_from_facts [OF c(2) acc] this]
  have "config_facts cl kw ks (dict_update c own)" by (simp add: config_facts_passed_on)
  moreover have "own_facts cl kw r (dict_update c own)"
    using assms(2) by (cases cl) (simp_all add: own_def alice_attrs_def bob_attrs_def dict_get_set)
  moreover have "place_facts ce cl kw r (dict_update c own)"
    using c(2) unfolding place_facts_def dict_get_update [OF wf]
    by (simp add: own_def alice_attrs_def bob_attrs_def built_from_def Let_def kwarg_passed_on character_parameters_def)
  moreover have "new_config ce cl kw fs = (Inr (dict_update c own), fs1)"
    using c(1) assms(2) unfolding new_config_def own_def by (cases cl) simp_all
  ultimately show ?thesis by blast
qed

lemma new_config_facts:
  assumes "acceptable ce cl kw fs ks r"
  shows "\<exists>c fs1. new_config ce cl kw fs = (Inr c, fs1) \<and> config_facts cl kw ks c \<and> own_facts cl kw r c \<and> place_facts ce cl kw r c"
  using assms ursula_init other_init by (cases "cl = UrsulaConfiguration") blast+

lemma map_result_Inr: "map_prod (map_sum id f) id x = (Inr c, y) \<longleftrightarrow> (\<exists>c1. x = (Inr c1, y) \<and> c = f c1)"
  by (cases x) (auto simp: map_sum_Inr)

lemma new_config_acceptable:
  assumes "new_config ce cl kw fs = (Inr c, fs1)" "\<not> is_true (kwarg kw ''dev_mode'' (PyBool False))"
  shows "\<exists>ks r. acceptable ce cl kw fs ks r"
proof -
  have live: "\<not> is_true (kwarg (passed_on cl kw) ''dev_mode'' (PyBool False))"
    using assms(2) by (simp add: kwarg_passed_on character_parameters_def)
  from assms obtain self c1 where "character_init ce cl (passed_on cl kw) self fs = (Inr c1, fs1)"
    by (cases cl) (auto simp: new_config_def map_result_Inr split: if_splits)
  from character_init_accepts [OF this live] obtain ksd mode r where "accepts ce cl (passed_on cl kw) fs ksd mode r" by blast
  moreover have "cl = UrsulaConfiguration \<longrightarrow> is_true (kwarg kw ''rest_host'' PyNone)"
    using assms by (auto simp: new_config_def split: if_splits)
  ultimately show ?thesis using assms(2) by (cases ksd) (auto simp: acceptable_def)
qed

subsection \<open>The payload of a new configuration\<close>

definition keystore_text :: "py_value \<Rightarrow> py_value" where
  "keystore_text ks = (case ks of PyKeystore k \<Rightarrow> PyStr (show_path (kst_path k)) | _ \<Rightarrow> PyNone)"

definition chain_entries :: "config_env \<Rightarrow> py_dict \<Rightarrow> py_dict" where
  "chain_entries ce kw =
     (let eth = kwarg kw ''eth_provider_uri'' PyNone; rf = kwarg kw ''registry_filepath'' PyNone; mp = kwarg kw ''max_gas_price'' PyNone
      in (if is_true eth then [(''eth_provider_uri'', eth), (''poa'', kwarg kw ''poa'' PyNone), (''light'', kwarg kw ''light'' (PyBool False)),
            (''signer_uri'', or_else (kwarg kw ''signer_uri'' PyNone) eth)] else []) @
         (if is_true rf then [(''registry_filepath'', rf)] else []) @
         [(''gas_strategy'', kwarg kw ''gas_strategy'' (PyStr DEFAULT_GAS_STRATEGY)),
          (''max_gas_price'', if is_true mp then PyStr (str_of ce mp) else PyNone)])"

definition identity_entries :: "py_dict \<Rightarrow> py_value \<Rightarrow> py_dict" where
  "identity_entries kw ks =
     [(''federated_only'', kwarg kw ''federated_only'' (PyBool False)), (''checksum_address'', kwarg kw ''checksum_address'' PyNone),
      (''keystore_path'', keystore_text ks), (''domain'', kwarg kw ''domain'' (PyStr DEFAULT_DOMAIN)),
      (''learn_on_same_thread'', kwarg kw ''learn_on_same_thread'' (PyBool False)),
      (''abort_on_learning_error'', kwarg kw ''abort_on_learning_error'' (PyBool False)),
      (''start_learning_now'', kwarg kw ''start_learning_now'' (PyBool True)), (''save_metadata'', kwarg kw ''save_metadata'' (PyBool True)),
      (''node_storage'', PyJson memory_storage_payload), (''lonely'', kwarg kw ''lonely'' (PyBool False))]"

definition base_entries :: "config_env \<Rightarrow> py_dict \<Rightarrow> py_value \<Rightarrow> py_dict" where
  "base_entries ce kw ks = identity_entries kw ks @
     (if is_true (kwarg kw ''federated_only'' (PyBool False)) then [] else chain_entries ce kw)"

definition payment_method_of :: "py_dict \<Rightarrow> py_value" where
  "payment_method_of kw = or_else (kwarg kw ''payment_method'' PyNone)
     (PyStr (if is_true (kwarg kw ''federated_only'' (PyBool False)) then DEFAULT_FEDERATED_PAYMENT_METHOD else DEFAULT_PAYMENT_METHOD))"

definition payment_network_of :: "py_dict \<Rightarrow> py_value" where
  "payment_network_of kw = (let n = kwarg kw ''payment_network'' PyNone
     in if is_true (kwarg kw ''federated_only'' (PyBool False)) then n else or_else n (PyStr DEFAULT_PAYMENT_NETWORK))"

definition payment_provider_of :: "py_dict \<Rightarrow> py_value" where
  "payment_provider_of kw = (let p = kwarg kw ''payment_provider'' PyNone
     in if is_true (kwarg kw ''federated_only'' (PyBool False)) then p else or_else p (or_else (kwarg kw ''eth_provider_uri'' PyNone) PyNone))"

fun own_entries :: "config_class \<Rightarrow> py_dict \<Rightarrow> path \<Rightarrow> py_dict" where
  "own_entries UrsulaConfiguration kw r =
     [(''operator_address'', kwarg kw ''operator_address'' PyNone), (''rest_host'', kwarg kw ''rest_host'' PyNone),
      (''rest_port'', or_else (kwarg kw ''rest_port'' PyNone) (PyInt 9151)),
      (''db_filepath'', or_else (kwarg kw ''db_filepath'' PyNone) (PyPath (path_join r DEFAULT_DB_NAME))),
      (''availability_check'', if kwarg kw ''availability_check'' PyNone = PyNone then PyBool False else kwarg kw ''availability_check'' PyNone),
      (''payment_method'', payment_method_of kw), (''payment_provider'', payment_provider_of kw), (''payment_network'', payment_network_of kw)]"
| "own_entries AliceConfiguration kw r =
     [(''threshold'', or_else (kwarg kw ''threshold'' PyNone) (PyInt 2)), (''shares'', or_else (kwarg kw ''shares'' PyNone) (PyInt 3)),
      (''store_policies'', kwarg kw ''store_policies'' (PyBool True)), (''store_cards'', kwarg kw ''store_cards'' (PyBool True)),
      (''payment_network'', payment_network_of kw), (''payment_provider'', payment_provider_of kw), (''payment_method'', payment_method_of kw)] @
     (if is_true (kwarg kw ''federated_only'' (PyBool False)) then []
      else filter (\<lambda>(_, v). is_true v) [(''rate'', kwarg kw ''rate'' PyNone), (''duration'', kwarg kw ''duration'' PyNone)])"
| "own_entries BobConfiguration kw r =
     [(''store_policies'', kwarg kw ''store_policies'' (PyBool True)), (''store_cards'', kwarg kw ''store_cards'' (PyBool True))]"

definition keystore_value :: "py_value \<Rightarrow> bool" where
  "keystore_value ks \<longleftrightarrow> ks = NO_KEYSTORE_ATTACHED \<or> (\<exists>k. ks = PyKeystore k)"

lemma identity_payload_new:
  assumes "config_facts cl kw ks c" "keystore_value ks"
  shows "identity_payload c = Inr (identity_entries kw ks)"
  using assms
  by (auto simp: identity_payload_def keystore_path_value_def config_facts_def Let_def plain_fields_def get_attr_def same_names_def
      storage_payload_def identity_entries_def keystore_value_def keystore_text_def)

lemma chain_payload_new:
  assumes "chain_facts kw c"
  shows "chain_payload ce c = Inr (chain_entries ce kw)"
proof (cases "is_true (kwarg kw ''eth_provider_uri'' PyNone)")
  case True
  with assms have "provider_payload c = Inr [(''eth_provider_uri'', kwarg kw ''eth_provider_uri'' PyNone), (''poa'', kwarg kw ''poa'' PyNone),
      (''light'', kwarg kw ''light'' (PyBool False)), (''signer_uri'', or_else (kwarg kw ''signer_uri'' PyNone) (kwarg kw ''eth_provider_uri'' PyNone))]"
    by (simp add: provider_payload_def chain_facts_def get_attr_def with_signer_def or_else_def dict_get_set)
  with True assms show ?thesis by (simp add: chain_payload_def chain_facts_def get_attr_def chain_entries_def Let_def or_else_def)
next
  case False
  with assms have "provider_payload c = Inr []" by (simp add: provider_payload_def chain_facts_def get_attr_def or_else_def)
  with False assms show ?thesis by (simp add: chain_payload_def chain_facts_def get_attr_def chain_entries_def Let_def or_else_def)
qed

lemma own_payload_new:
  assumes "config_facts cl kw ks c" "own_facts cl kw r c"
  shows "own_payload cl c = Inr (own_entries cl kw r)"
  using assms
  by (cases cl) (simp_all add: own_payload_def config_facts_def Let_def payment_facts_def plain_fields_def get_attr_def same_names_def
      alice_policy_values_def payment_method_of_def payment_network_of_def payment_provider_of_def)

lemma static_payload_new:
  assumes "config_facts cl kw ks c" "own_facts cl kw r c" "keystore_value ks"
  shows "static_payload ce cl c = Inr (dict_update (base_entries ce kw ks) (own_entries cl kw r))"
proof -
  have f: "get_attr c ''federated_only'' = Inr (kwarg kw ''federated_only'' (PyBool False))"
    using assms(1) by (simp add: config_facts_def Let_def plain_fields_def get_attr_def)
  show ?thesis
  proof (cases "is_true (kwarg kw ''federated_only'' (PyBool False))")
    case True
    then show ?thesis
      by (simp add: static_payload_def own_payload_new [OF assms(1,2)] character_static_payload_def identity_payload_new [OF assms(1,3)] f base_entries_def)
  next
    case False
    then have "chain_facts kw c" using assms(1) by (simp add: config_facts_def Let_def)
    with False show ?thesis
      by (simp add: static_payload_def own_payload_new [OF assms(1,2)] character_static_payload_def identity_payload_new [OF assms(1,3)] f
          base_entries_def chain_payload_new)
  qed
qed

subsection \<open>Reading what was written\<close>

lemma text_of_simps [simp]: "text_of (PyPath p) = PyStr (show_path p)" "text_of (PyJson j) = PyJson j"
  by (simp_all add: text_of_def)

lemma cast_path_simps [simp]:
  "s \<noteq> [] \<Longrightarrow> cast_path cwd (PyStr s) = PyPath (read_path cwd s)" "cast_path cwd PyNone = PyNone"
  by (simp_all add: cast_path_def)

definition reread :: "config_env \<Rightarrow> config_class \<Rightarrow> py_dict \<Rightarrow> string \<Rightarrow> py_value option" where
  "reread ce cl P k =
     (if k = ''version'' then None
      else map_option (\<lambda>v. if k \<in> set (path_parameters cl) then cast_path (ce_cwd ce) (text_of v) else text_of v) (dict_get P k))"

lemma json_values_map: "json_values e = Some d \<Longrightarrow> e = map (\<lambda>(k, j). (k, PyJson j)) d"
  by (induction e arbitrary: d rule: json_values.induct) auto

lemma map_dict_del: "map (\<lambda>(k, j). (k, f j)) (dict_del d x) = dict_del (map (\<lambda>(k, j). (k, f j)) d) x"
  by (induction d) auto

lemma dict_get_map_values: "dict_get (map (\<lambda>(k, v). (k, f v)) d) x = map_option f (dict_get d x)"
  by (induction d) auto

lemma dict_get_stringify: "dict_get (stringify_paths d) k = map_option text_of (dict_get d k)"
  unfolding stringify_paths_def by (rule dict_get_map_values)

lemma distinct_path_parameters: "distinct (path_parameters cl)"
  by (simp add: path_parameters_def)

definition rereadable :: "config_class \<Rightarrow> py_dict \<Rightarrow> bool" where
  "rereadable cl P \<longleftrightarrow> (\<forall>k \<in> set (path_parameters cl). \<forall>v. dict_get P k = Some v \<longrightarrow> castable (text_of v)) \<and>
     (cl = UrsulaConfiguration \<longrightarrow> (\<exists>p. dict_get P ''db_filepath'' = Some (PyPath p)))"

lemma cast_db_noop:
  assumes "cl = UrsulaConfiguration \<Longrightarrow> \<exists>p. dict_get d ''db_filepath'' = Some (PyPath p)"
  shows "\<exists>d'. cast_db ce cl d = Inr d' \<and> (\<forall>k. dict_get d' k = dict_get d k)"
  using assms by (auto simp: cast_db_def item_def to_path_def dict_get_set)

lemma deserialize_serialized:
  assumes "serialize ce cl c = Inr t" "static_payload ce cl c = Inr P" "rereadable cl P"
  shows "\<exists>E. deserialize ce cl t = Inr E \<and> (\<forall>k. dict_get E k = reread ce cl P k)"
proof -
  let ?e = "dict_set (stringify_paths P) ''version'' (PyInt CONFIG_VERSION)"
  from assms(1,2) obtain d where d: "json_values ?e = Some d" "t = Json (JObj d)"
    by (auto simp: serialize_def split: option.splits)
  note e = json_values_map [OF d(1)]
  have "dict_get ?e ''version'' = Some (PyInt CONFIG_VERSION)" by (simp add: dict_get_set)
  then have v: "dict_get d ''version'' = Some (JInt CONFIG_VERSION)" unfolding e by (auto simp: dict_get_map_values)
  let ?p = "map (\<lambda>(k, j). (k, PyJson j)) (dict_del d ''version'')"
  have p: "dict_get ?p k = (if k = ''version'' then None else map_option text_of (dict_get P k))" for k
    unfolding map_dict_del e [symmetric] by (simp add: dict_get_del dict_get_set dict_get_stringify)
  have "\<forall>k \<in> set (path_parameters cl). \<forall>v. dict_get ?p k = Some v \<longrightarrow> castable v"
    using assms(3) unfolding p by (auto simp: rereadable_def)
  from cast_paths_get [OF distinct_path_parameters this, of "ce_cwd ce"] obtain E1 where
    E1: "cast_paths (ce_cwd ce) (path_parameters cl) ?p = Inr E1"
    "\<forall>k. dict_get E1 k = (if k \<in> set (path_parameters cl) then map_option (cast_path (ce_cwd ce)) (dict_get ?p k) else dict_get ?p k)" by blast
  have E1k: "dict_get E1 k = reread ce cl P k" for k
    using E1(2) unfolding p reread_def by (auto simp: option.map_comp comp_def)
  have "\<exists>p. dict_get E1 ''db_filepath'' = Some (PyPath p)" if "cl = UrsulaConfiguration"
    using assms(3) that unfolding E1k by (auto simp: rereadable_def reread_def path_parameters_def)
  from cast_db_noop [OF this] obtain E where "cast_db ce cl E1 = Inr E" "\<forall>k. dict_get E k = dict_get E1 k" by blast
  with v E1(1) E1k d(2) show ?thesis by (auto simp: deserialize_def is_version_def)
qed

text \<open>The parameters that are assembled from such a file.\<close>

definition assembled :: "config_env \<Rightarrow> config_class \<Rightarrow> py_dict \<Rightarrow> string \<Rightarrow> py_value option" where
  "assembled ce cl P k =
     (if k = ''node_storage'' then Some FORGETFUL_NODE_STORAGE
      else if k = ''max_gas_price''
      then Some (case dict_get P k of Some (PyJson (JStr t)) \<Rightarrow> if t = [] then PyStr [] else PyDecimal t True | _ \<Rightarrow> PyNone)
      else reread ce cl P k)"

lemma assemble_serialized:
  assumes "read_file fs p = Inr t" "serialize ce cl c = Inr t" "static_payload ce cl c = Inr P" "rereadable cl P"
    and "dict_get P ''node_storage'' = Some (PyJson memory_storage_payload)" "dict_get P ''federated_only'' \<noteq> None"
    and "dict_get P ''max_gas_price'' = None \<or> dict_get P ''max_gas_price'' = Some PyNone \<or>
      (\<exists>t. dict_get P ''max_gas_price'' = Some (PyStr t) \<and> ce_decimal ce (JStr t) = Inr (t, True) \<and> t \<noteq> [])"
  shows "\<exists>D. assemble ce cl p [] fs = Inr D \<and> (\<forall>k. dict_get D k = assembled ce cl P k)"
proof -
  from deserialize_serialized [OF assms(2-4)] obtain E where
    E: "deserialize ce cl t = Inr E" "\<forall>k. dict_get E k = reread ce cl P k" by blast
  have fields: "dict_get E ''node_storage'' = Some (PyJson memory_storage_payload)" "\<exists>v. dict_get E ''federated_only'' = Some v"
    "dict_get E ''max_gas_price'' = map_option text_of (dict_get P ''max_gas_price'')"
    using assms(5,6) unfolding E(2) [rule_format] by (auto simp: reread_def path_parameters_def)
  have storage: "load_node_storage (PyJson memory_storage_payload) = Inr FORGETFUL_NODE_STORAGE"
    by (simp add: load_node_storage_def memory_storage_payload_def)
  obtain mp where mp: "max_gas_price_of ce E = Inr mp" "assembled ce cl P ''max_gas_price'' = Some mp"
    using assms(7) fields(3) by (auto simp: max_gas_price_of_def kwarg_def assembled_def)
  let ?d = "dict_update E [(''node_storage'', FORGETFUL_NODE_STORAGE), (''max_gas_price'', mp)]"
  have d: "dict_get ?d k = assembled ce cl P k" for k
    using mp(2) by (auto simp: dict_get_set E(2) assembled_def)
  have path_key: "k \<noteq> ''node_storage'' \<and> k \<noteq> ''max_gas_price'' \<and> k \<noteq> ''version''" if "k \<in> set (path_parameters cl)" for k
    using that by (auto simp: path_parameters_def split: if_splits)
  have again: "castable (cast_path cwd v) \<and> cast_path cwd (cast_path cwd v) = cast_path cwd v" if "castable v" for cwd v
    using that by (auto simp: castable_def cast_path_def split: py_value.splits json.splits)
  have "\<forall>k \<in> set (path_parameters cl). \<forall>v. dict_get ?d k = Some v \<longrightarrow> castable v"
    unfolding d using assms(4) path_key again by (auto simp: rereadable_def assembled_def reread_def)
  from cast_paths_get [OF distinct_path_parameters this, of "ce_cwd ce"] obtain D1 where
    D1: "cast_paths (ce_cwd ce) (path_parameters cl) ?d = Inr D1"
    "\<forall>k. dict_get D1 k = (if k \<in> set (path_parameters cl) then map_option (cast_path (ce_cwd ce)) (dict_get ?d k) else dict_get ?d k)" by blast
  have D1k: "dict_get D1 k = assembled ce cl P k" for k
  proof (cases "k \<in> set (path_parameters cl)")
    case True
    with path_key [OF True] again assms(4) show ?thesis
      unfolding D1(2) [rule_format] d by (cases "dict_get P k") (auto simp: assembled_def reread_def rereadable_def)
  qed (simp only: D1(2) [rule_format] d if_False)
  have "\<exists>p. dict_get D1 ''db_filepath'' = Some (PyPath p)" if "cl = UrsulaConfiguration"
    using assms(4) that unfolding D1k by (auto simp: rereadable_def assembled_def reread_def path_parameters_def)
  from cast_db_noop [OF this] obtain D where "cast_db ce cl D1 = Inr D" "\<forall>k. dict_get D k = dict_get D1 k" by blast
  with D1(1) D1k mp(1) fields(1,2) storage show ?thesis
    by (intro exI [of _ D]) (auto simp: assemble_def read_configuration_file_def assms(1) E(1) item_def simp del: dict_update.simps(2))
qed

subsection \<open>A configuration is read as it was written\<close>

definition saveable_values :: "py_dict \<Rightarrow> bool" where
  "saveable_values P \<longleftrightarrow>
     list_all (\<lambda>(k, v). if k \<in> {''registry_filepath'', ''db_filepath''} then (case v of PyPath p \<Rightarrow> clean_path p | _ \<Rightarrow> False)
                      else (case v of PyJson _ \<Rightarrow> True | _ \<Rightarrow> False)) P"

definition price_ok :: "config_env \<Rightarrow> py_dict \<Rightarrow> bool" where
  "price_ok ce P \<longleftrightarrow>
     (case dict_get P ''max_gas_price'' of Some (PyJson (JStr t)) \<Rightarrow> t \<noteq> [] \<and> ce_decimal ce (JStr t) = Inr (t, True) | _ \<Rightarrow> True)"

definition same_kwargs :: "config_env \<Rightarrow> config_class \<Rightarrow> py_dict \<Rightarrow> py_dict \<Rightarrow> bool" where
  "same_kwargs ce cl P kw \<longleftrightarrow> (\<forall>k. k \<noteq> ''filepath'' \<longrightarrow> dict_get kw k = assembled ce cl P k)"

lemma kwarg_lists:
  "kwarg [] k d = d" "kwarg ((k', v) # xs) k d = (if k = k' then v else kwarg xs k d)"
  by (simp_all add: kwarg_def)

lemma kwarg_dict_update: "wf_dict e \<Longrightarrow> kwarg (dict_update b e) k d = (case dict_get e k of Some v \<Rightarrow> v | None \<Rightarrow> kwarg b k d)"
  by (simp add: kwarg_def dict_get_update split: option.splits)

lemma wf_own_entries: "wf_dict (own_entries cl kw r)"
  by (cases cl) auto

definition unchanged_keys :: "string \<Rightarrow> bool" where
  "unchanged_keys k \<longleftrightarrow> k \<notin> {''node_storage'', ''max_gas_price'', ''keystore_path'', ''version'', ''config_root'', ''filepath'', ''policy_registry_filepath''}"

lemma same_kwargs_get:
  assumes "same_kwargs ce cl P kw" "saveable_values P" "unchanged_keys k" "cl = UrsulaConfiguration \<or> k \<noteq> ''db_filepath''"
  shows "dict_get kw k = dict_get P k"
proof (cases "dict_get P k")
  case None
  with assms(1,3) show ?thesis by (simp add: same_kwargs_def unchanged_keys_def assembled_def reread_def)
next
  case (Some v)
  then have "(k, v) \<in> set P" by (rule dict_get_in_set)
  with assms(2) have v: "if k \<in> {''registry_filepath'', ''db_filepath''} then (case v of PyPath p \<Rightarrow> clean_path p | _ \<Rightarrow> False)
      else (case v of PyJson _ \<Rightarrow> True | _ \<Rightarrow> False)"
    by (auto simp: saveable_values_def list_all_iff)
  have r: "dict_get kw k = reread ce cl P k" using assms(1,3) by (simp add: same_kwargs_def unchanged_keys_def assembled_def)
  show ?thesis
  proof (cases "k \<in> {''registry_filepath'', ''db_filepath''}")
    case True
    with v obtain p where "v = PyPath p" "clean_path p" by (cases v) auto
    with True Some r assms(4) show ?thesis by (auto simp: reread_def path_parameters_def read_show_path)
  next
    case False
    with v obtain j where "v = PyJson j" by (cases v) auto
    with False Some r assms(3) show ?thesis by (auto simp: reread_def path_parameters_def unchanged_keys_def)
  qed
qed

lemma same_kwargs_kwarg:
  "same_kwargs ce cl P kw \<Longrightarrow> saveable_values P \<Longrightarrow> unchanged_keys k \<Longrightarrow> k \<noteq> ''db_filepath'' \<Longrightarrow> kwarg kw k d = kwarg P k d"
  by (simp add: kwarg_def same_kwargs_get)

lemma identity_again:
  assumes "same_kwargs ce cl P kw'" "saveable_values P" "P = dict_update (base_entries ce kw ks) (own_entries cl kw r)" "keystore_text ks' = keystore_text ks"
  shows "identity_entries kw' ks' = identity_entries kw ks"
proof -
  have "list_all (\<lambda>k. dict_get (own_entries cl kw r) k = None) (map fst plain_fields)"
    by (cases cl) (simp_all add: plain_fields_def)
  then have "dict_get (own_entries cl kw r) k = None" if "k \<in> fst ` set plain_fields" for k
    using that by (auto simp: list_all_iff)
  then have "kwarg P k d = kwarg (base_entries ce kw ks) k d" if "k \<in> fst ` set plain_fields" for k d
    using that by (simp add: assms(3) kwarg_dict_update wf_own_entries)
  then have "kwarg kw' k d = kwarg (base_entries ce kw ks) k d" if "k \<in> fst ` set plain_fields" for k d
    using that same_kwargs_kwarg [OF assms(1,2), of k d] by (auto simp: plain_fields_def unchanged_keys_def)
  then show ?thesis
    unfolding identity_entries_def base_entries_def using assms(4)
    by (simp add: plain_fields_def kwarg_lists)
qed

lemma kwarg_append: "kwarg (xs @ ys) k d = (case dict_get xs k of Some v \<Rightarrow> v | None \<Rightarrow> kwarg ys k d)"
  by (simp add: kwarg_def map_add_def split: option.splits)

definition chain_keys :: "string list" where
  "chain_keys = [''eth_provider_uri'', ''poa'', ''light'', ''signer_uri'', ''registry_filepath'', ''gas_strategy'', ''max_gas_price'']"

lemma payload_chain_get:
  assumes "\<not> is_true (kwarg kw ''federated_only'' (PyBool False))" "k \<in> set chain_keys"
  shows "dict_get (dict_update (base_entries ce kw ks) (own_entries cl kw r)) k = dict_get (chain_entries ce kw) k"
proof -
  have "list_all (\<lambda>k. dict_get (own_entries cl kw r) k = None) chain_keys" by (cases cl) (simp_all add: chain_keys_def)
  moreover have "list_all (\<lambda>k. dict_get (identity_entries kw ks) k = None) chain_keys" by (simp add: chain_keys_def identity_entries_def)
  ultimately show ?thesis using assms
    by (auto simp: list_all_iff dict_get_update wf_own_entries base_entries_def map_add_def split: option.splits)
qed

lemma chain_again:
  assumes "same_kwargs ce cl P kw'" "saveable_values P" "P = dict_update (base_entries ce kw ks) (own_entries cl kw r)" "price_ok ce P"
    and fed: "\<not> is_true (kwarg kw ''federated_only'' (PyBool False))"
  shows "chain_entries ce kw' = chain_entries ce kw"
proof -
  let ?eth = "kwarg kw ''eth_provider_uri'' PyNone" and ?rf = "kwarg kw ''registry_filepath'' PyNone" and ?mp = "kwarg kw ''max_gas_price'' PyNone"
  have P: "dict_get P k = dict_get (chain_entries ce kw) k" if "k \<in> set chain_keys" for k
    using payload_chain_get [OF fed that] by (simp add: assms(3))
  have kw': "kwarg kw' k d = kwarg (chain_entries ce kw) k d" if "k \<in> set chain_keys" "k \<noteq> ''max_gas_price''" for k d
    using same_kwargs_kwarg [OF assms(1,2), of k d] P [OF that(1)] that by (auto simp: chain_keys_def unchanged_keys_def kwarg_def)
  have "dict_get P ''max_gas_price'' = Some (if is_true ?mp then PyStr (str_of ce ?mp) else PyNone)"
    by (simp add: P chain_keys_def chain_entries_def Let_def)
  then have mp: "kwarg kw' ''max_gas_price'' PyNone = (if is_true ?mp then PyDecimal (str_of ce ?mp) True else PyNone)"
    using assms(1,4) by (auto simp: same_kwargs_def kwarg_def assembled_def price_ok_def split: if_splits)
  have eth: "kwarg kw' ''eth_provider_uri'' PyNone = (if is_true ?eth then ?eth else PyNone)"
    and rf: "kwarg kw' ''registry_filepath'' PyNone = (if is_true ?rf then ?rf else PyNone)"
    and gs: "kwarg kw' ''gas_strategy'' (PyStr DEFAULT_GAS_STRATEGY) = kwarg kw ''gas_strategy'' (PyStr DEFAULT_GAS_STRATEGY)"
    by (simp_all add: kw' chain_keys_def chain_entries_def Let_def kwarg_lists)
  have "kwarg kw' ''poa'' PyNone = kwarg kw ''poa'' PyNone" "kwarg kw' ''light'' (PyBool False) = kwarg kw ''light'' (PyBool False)"
    "kwarg kw' ''signer_uri'' PyNone = or_else (kwarg kw ''signer_uri'' PyNone) ?eth" if "is_true ?eth"
    using that by (simp_all add: kw' chain_keys_def chain_entries_def Let_def kwarg_lists)
  then show ?thesis
    unfolding chain_entries_def Let_def eth rf gs mp by (auto simp: or_else_def str_of_def)
qed

fun own_keys :: "config_class \<Rightarrow> string list" where
  "own_keys UrsulaConfiguration = [''operator_address'', ''rest_host'', ''rest_port'', ''availability_check'', ''payment_method'', ''payment_provider'', ''payment_network'']"
| "own_keys AliceConfiguration =
     [''threshold'', ''shares'', ''store_policies'', ''store_cards'', ''rate'', ''duration'', ''payment_method'', ''payment_provider'', ''payment_network'']"
| "own_keys BobConfiguration = [''store_policies'', ''store_cards'']"

lemma or_else_again [simp]: "or_else (or_else a b) b = or_else a b"
  by (simp add: or_else_def)

definition base_keys :: "string list" where
  "base_keys =
     [''federated_only'', ''checksum_address'', ''keystore_path'', ''domain'', ''learn_on_same_thread'', ''abort_on_learning_error'',
      ''start_learning_now'', ''save_metadata'', ''node_storage'', ''lonely''] @ chain_keys"

lemma set_base_entries: "set (dict_keys (base_entries ce kw ks)) \<subseteq> set base_keys"
proof -
  have "set (dict_keys (chain_entries ce kw)) \<subseteq> set chain_keys" by (auto simp: chain_entries_def Let_def chain_keys_def split: if_splits)
  moreover have "set (dict_keys (identity_entries kw ks)) \<subseteq> set base_keys" by (simp add: identity_entries_def base_keys_def)
  ultimately show ?thesis by (auto simp: base_entries_def base_keys_def split: if_splits)
qed

lemma base_not_own:
  assumes "k \<in> set (own_keys cl)"
  shows "dict_get (base_entries ce kw ks) k = None"
proof -
  have "list_all (\<lambda>k. k \<notin> set base_keys) (own_keys cl)" by (cases cl) (simp_all add: base_keys_def chain_keys_def)
  with assms have "k \<notin> set base_keys" by (simp add: list_all_iff)
  with set_base_entries show ?thesis unfolding dict_get_None_iff by blast
qed

lemma own_keys_unchanged: "k \<in> set (own_keys cl) \<Longrightarrow> unchanged_keys k \<and> k \<noteq> ''db_filepath''"
proof -
  have "list_all (\<lambda>k. unchanged_keys k \<and> k \<noteq> ''db_filepath'') (own_keys cl)" by (cases cl) (simp_all add: unchanged_keys_def)
  then show "k \<in> set (own_keys cl) \<Longrightarrow> ?thesis" by (simp add: list_all_iff)
qed

lemma own_again:
  assumes "same_kwargs ce cl P kw'" "saveable_values P" "P = dict_update (base_entries ce kw ks) (own_entries cl kw r)" "price_ok ce P"
    and fed: "kwarg kw' ''federated_only'' (PyBool False) = kwarg kw ''federated_only'' (PyBool False)"
  shows "own_entries cl kw' r' = own_entries cl kw r"
proof -
  have kw': "kwarg kw' k d = kwarg (own_entries cl kw r) k d" if "k \<in> set (own_keys cl)" for k d
    using same_kwargs_kwarg [OF assms(1,2), of k d] own_keys_unchanged [OF that] base_not_own [OF that, of ce kw ks]
    by (simp add: assms(3) kwarg_dict_update wf_own_entries) (simp add: kwarg_def split: option.splits)
  have eth: "kwarg kw' ''eth_provider_uri'' PyNone = (if is_true (kwarg kw ''eth_provider_uri'' PyNone) then kwarg kw ''eth_provider_uri'' PyNone else PyNone)"
    if "\<not> is_true (kwarg kw ''federated_only'' (PyBool False))"
  proof -
    have "dict_get P ''eth_provider_uri'' = dict_get (chain_entries ce kw) ''eth_provider_uri''"
      using payload_chain_get [OF that] by (simp add: assms(3) chain_keys_def)
    then show ?thesis
      using same_kwargs_kwarg [OF assms(1,2), of "''eth_provider_uri''" PyNone]
      by (simp add: unchanged_keys_def kwarg_def chain_entries_def Let_def split: if_splits)
  qed
  have db: "\<exists>p. kwarg kw' ''db_filepath'' PyNone = PyPath p \<and> kwarg (own_entries cl kw r) ''db_filepath'' PyNone = PyPath p" if "cl = UrsulaConfiguration"
  proof -
    let ?v = "or_else (kwarg kw ''db_filepath'' PyNone) (PyPath (path_join r DEFAULT_DB_NAME))"
    have P: "dict_get P ''db_filepath'' = Some ?v" unfolding assms(3) dict_get_update [OF wf_own_entries] using that by simp
    from dict_get_in_set [OF this] assms(2) obtain p where "?v = PyPath p"
      by (cases ?v) (auto simp: saveable_values_def list_all_iff)
    with P that same_kwargs_get [OF assms(1,2), of "''db_filepath''"] show ?thesis by (simp add: kwarg_def unchanged_keys_def)
  qed
  have look: "kwarg kw' ''payment_method'' PyNone = payment_method_of kw" "kwarg kw' ''payment_network'' PyNone = payment_network_of kw"
    "kwarg kw' ''payment_provider'' PyNone = payment_provider_of kw" if "cl \<noteq> BobConfiguration"
    using that by (cases cl; simp add: kw' kwarg_lists)+
  have "payment_method_of kw' = payment_method_of kw" if "cl \<noteq> BobConfiguration"
    using look(1) [OF that] by (simp add: payment_method_of_def [of kw'] fed) (simp add: payment_method_of_def)
  moreover have "payment_network_of kw' = payment_network_of kw" if "cl \<noteq> BobConfiguration"
    using look(2) [OF that] by (simp add: payment_network_of_def [of kw'] fed Let_def) (simp add: payment_network_of_def Let_def)
  moreover have "payment_provider_of kw' = payment_provider_of kw" if "cl \<noteq> BobConfiguration"
    using look(3) [OF that] eth by (simp add: payment_provider_of_def [of kw'] fed Let_def) (simp add: payment_provider_of_def or_else_def Let_def)
  ultimately have pay: "payment_method_of kw' = payment_method_of kw" "payment_network_of kw' = payment_network_of kw"
    "payment_provider_of kw' = payment_provider_of kw" if "cl \<noteq> BobConfiguration"
    using that by simp_all
  show ?thesis
  proof (cases cl)
    case UrsulaConfiguration
    with db pay show ?thesis by (auto simp: kw' kwarg_lists)
  next
    case AliceConfiguration
    with pay show ?thesis by (simp add: kw' kwarg_lists fed)
  next
    case BobConfiguration
    then show ?thesis by (simp add: kw' kwarg_lists)
  qed
qed

subsection \<open>The round trip\<close>

definition services_answer :: "config_env \<Rightarrow> bool" where
  "services_answer ce \<longleftrightarrow> (\<forall>v. ce_initialize ce v = None) \<and> (\<forall>v. \<exists>n. ce_publication ce v = Inr n) \<and> (\<forall>v b. \<exists>s. ce_signer ce v b = Inr s)"

definition keystore_loads :: "py_dict \<Rightarrow> text_file fs \<Rightarrow> bool" where
  "keystore_loads c fs \<longleftrightarrow>
     (case dict_get c ''_CharacterConfiguration__keystore'' of
        Some (PyKeystore k) \<Rightarrow> clean_path (kst_path k) \<and> \<not> isl (new_keystore fs (kst_path k)) | _ \<Rightarrow> True)"

lemma services_registry: "services_answer ce \<Longrightarrow> \<exists>r. choose_registry ce v p n = Inr r"
  unfolding services_answer_def choose_registry_def by (metis map_sum.simps(2))

lemma mode_attrs_total:
  assumes "services_answer ce"
  shows "\<exists>m. mode_attrs ce cl kw = Inr m"
proof -
  obtain p where "(if cl = BobConfiguration then Inr [] else payment_attrs ce kw) = Inr p"
    using services_registry [OF assms] by (cases "cl = BobConfiguration") (simp_all add: payment_attrs_Inr, blast)
  moreover obtain r where
    "choose_registry ce (kwarg kw ''registry'' PyNone) (kwarg kw ''registry_filepath'' PyNone) (kwarg kw ''domain'' (PyStr DEFAULT_DOMAIN)) = Inr r"
    using services_registry [OF assms] by blast
  moreover obtain s where
    "ce_signer ce (or_else (kwarg kw ''signer_uri'' PyNone) PyNone) (kwarg kw ''domain'' (PyStr DEFAULT_DOMAIN) \<noteq> PyStr ''mainnet'') = Inr s"
    using assms unfolding services_answer_def by blast
  moreover have "connect ce (kwarg kw ''eth_provider_uri'' PyNone) = None" using assms by (simp add: connect_def services_answer_def)
  ultimately have "\<exists>m. decentralized_attrs ce cl kw = Inr m" unfolding decentralized_attrs_Inr by blast
  then show ?thesis by (simp add: mode_attrs_def)
qed

definition payload_key :: "config_class \<Rightarrow> string \<Rightarrow> bool" where
  "payload_key cl k \<longleftrightarrow> (k \<in> set character_parameters \<or> k \<in> set (own_parameters cl)) \<and>
     k \<notin> {''keystore'', ''registry'', ''config_root'', ''dev_mode'', ''filepath'', ''policy_registry_filepath''}"

lemma entries_keys:
  assumes "k \<in> set (dict_keys (dict_update (base_entries ce kw ks) (own_entries cl kw r)))"
  shows "payload_key cl k"
proof -
  have "list_all (payload_key cl) base_keys"
    by (simp add: payload_key_def base_keys_def chain_keys_def character_parameters_def)
  moreover have "list_all (payload_key cl) (''db_filepath'' # own_keys cl)" if "cl = UrsulaConfiguration"
    using that by (simp add: payload_key_def character_parameters_def)
  moreover have "list_all (payload_key cl) (own_keys cl)" if "cl \<noteq> UrsulaConfiguration"
    using that by (cases cl) (simp_all add: payload_key_def character_parameters_def)
  moreover have "set (dict_keys (own_entries cl kw r)) \<subseteq> set (if cl = UrsulaConfiguration then ''db_filepath'' # own_keys cl else own_keys cl)"
    by (cases cl) simp_all
  ultimately show ?thesis
    using assms set_base_entries [of ce kw ks] unfolding set_keys_update list_all_iff by (cases "cl = UrsulaConfiguration") auto
qed

lemma init_keystore_value:
  assumes "init_keystore kw fs = Inr (ks, kd)"
  shows "keystore_value ks"
proof -
  from assms obtain v where "keystore_and_dir v = Inr (ks, kd)" by (auto simp: init_keystore_def Let_def and_then_Inr)
  then show ?thesis by (cases v) (auto simp: keystore_and_dir_def keystore_value_def split: if_splits)
qed

lemma facts_filepath:
  "config_facts cl kw ks (dict_set c ''filepath'' v) = config_facts cl kw ks c" "own_facts cl kw r (dict_set c ''filepath'' v) = own_facts cl kw r c"
  by (simp add: config_facts_def chain_facts_def payment_facts_def plain_fields_def dict_get_set)
    (cases cl; simp add: dict_get_set)

lemma saved_configuration:
  assumes "to_configuration_file ce cl filepath modifier override c fs = (Inr p, c1, fs1)"
  shows "\<exists>t. serialize ce cl (dict_set c ''filepath'' (PyPath p)) = Inr t \<and> read_file fs1 p = Inr t"
proof -
  from assms obtain q fs2 where "write_configuration_file ce cl (PyPath q) override (dict_set c ''filepath'' (PyPath q)) fs2 = (Inr p, c1, fs1)"
    by (auto simp: to_configuration_file_def Let_def split: sum.splits)
  from write_configuration_file_writes(3) [OF this refl] show ?thesis by auto
qed

lemma reread_acceptable:
  assumes kw': "kw' = (''filepath'', PyPath p) # D" "\<forall>k. dict_get D k = assembled ce cl P k"
    and P: "P = dict_update (base_entries ce kw ks) (own_entries cl kw r)" and ks: "keystore_value ks"
    and loads: "\<And>k. ks = PyKeystore k \<Longrightarrow> clean_path (kst_path k) \<and> \<not> isl (new_keystore fs (kst_path k))"
    and host: "cl = UrsulaConfiguration \<Longrightarrow> is_true (kwarg kw' ''rest_host'' PyNone)" and services: "services_answer ce"
  shows "\<exists>ks'. acceptable ce cl kw' fs ks' (ce_default_root ce) \<and> keystore_value ks' \<and> keystore_text ks' = keystore_text ks"
proof -
  have keys: "payload_key cl k" if "dict_get P k = Some v" for k v
    using entries_keys [of k ce kw ks cl r] that dict_get_None_iff [of P k] unfolding P by force
  have absent: "kwarg kw' k d = d" if "\<not> payload_key cl k" "k \<noteq> ''filepath''" "k \<noteq> ''node_storage''" "k \<noteq> ''max_gas_price''" for k d
    using that keys [of k] by (cases "dict_get P k") (auto simp: kw' kwarg_def assembled_def reread_def)
  have gone: "kwarg kw' ''keystore'' PyNone = PyNone" "kwarg kw' ''registry'' PyNone = PyNone" "kwarg kw' ''config_root'' PyNone = PyNone"
    "kwarg kw' ''dev_mode'' (PyBool False) = PyBool False"
    by (simp_all add: absent payload_key_def)
  have "dict_get P ''keystore_path'' = Some (keystore_text ks)"
  proof -
    have "dict_get (own_entries cl kw r) ''keystore_path'' = None" by (cases cl) simp_all
    then show ?thesis by (simp add: P dict_get_update wf_own_entries base_entries_def identity_entries_def)
  qed
  then have kp: "kwarg kw' ''keystore_path'' PyNone = cast_path (ce_cwd ce) (text_of (keystore_text ks))"
    by (simp add: kw' kwarg_def assembled_def reread_def path_parameters_def)
  obtain ks' kd where ks': "init_keystore kw' fs = Inr (ks', kd)" "keystore_text ks' = keystore_text ks"
  proof (cases "\<exists>k. ks = PyKeystore k")
    case True
    then obtain k where k: "ks = PyKeystore k" by blast
    with loads obtain k' where k': "new_keystore fs (kst_path k) = Inr k'" by (cases "new_keystore fs (kst_path k)") auto
    then have path: "kst_path k' = kst_path k" by (auto simp: new_keystore_def split: sum.splits prod.splits)
    have "kwarg kw' ''keystore_path'' PyNone = PyPath (kst_path k)" using loads k by (simp add: kp keystore_text_def read_show_path)
    with k' gone(1) have "init_keystore kw' fs = Inr (PyKeystore k', PyPath (butlast (kst_path k')))"
      by (simp add: init_keystore_def keystore_and_dir_def)
    with path k that show ?thesis by (simp add: keystore_text_def)
  next
    case False
    with ks have "ks = NO_KEYSTORE_ATTACHED" by (auto simp: keystore_value_def)
    with kp gone(1) have "init_keystore kw' fs = Inr (NO_KEYSTORE_ATTACHED, UNINITIALIZED_CONFIGURATION)"
      by (simp add: init_keystore_def keystore_and_dir_def keystore_text_def)
    with \<open>ks = NO_KEYSTORE_ATTACHED\<close> that show ?thesis by blast
  qed
  have "k \<in> set character_parameters" if "k \<in> set (dict_keys (passed_on cl kw'))" for k
  proof -
    from that have "k \<in> set (dict_keys kw')" and pass: "k \<notin> set (own_parameters cl) \<or> k \<in> set character_parameters"
      by (auto simp: passed_on_def)
    then have "k = ''filepath'' \<or> k = ''node_storage'' \<or> k = ''max_gas_price'' \<or> dict_get P k \<noteq> None"
      using dict_get_None_iff [of D k] kw'(2) by (auto simp: kw'(1) assembled_def reread_def split: if_splits)
    moreover have "''filepath'' \<in> set character_parameters" "''node_storage'' \<in> set character_parameters"
      "''max_gas_price'' \<in> set character_parameters"
      by (simp_all add: character_parameters_def)
    ultimately show ?thesis using pass keys unfolding payload_key_def by blast
  qed
  moreover have "init_keystore (passed_on cl kw') fs = init_keystore kw' fs"
    by (simp add: init_keystore_def kwarg_passed_on character_parameters_def)
  moreover obtain m where "mode_attrs ce cl (passed_on cl kw') = Inr m" using mode_attrs_total [OF services] by blast
  moreover have "registries_consistent ce (passed_on cl kw')"
    by (simp add: registries_consistent_def kwarg_passed_on character_parameters_def gone)
  ultimately have "accepts ce cl (passed_on cl kw') fs (ks', kd) m (ce_default_root ce)"
    using ks'(1) unfolding accepts_def list_all_iff by (simp add: kwarg_passed_on character_parameters_def gone or_else_def)
  then have "acceptable ce cl kw' fs ks' (ce_default_root ce)" using host gone(4) by (auto simp: acceptable_def)
  then show ?thesis using init_keystore_value [OF ks'(1)] ks'(2) by blast
qed

lemma payload_fields:
  assumes "P = dict_update (base_entries ce kw ks) (own_entries cl kw r)"
  shows "dict_get P ''node_storage'' = Some (PyJson memory_storage_payload)" "dict_get P ''federated_only'' = Some (kwarg kw ''federated_only'' (PyBool False))"
    "dict_get P ''keystore_path'' = Some (keystore_text ks)"
    "cl = UrsulaConfiguration \<Longrightarrow> dict_get P ''rest_host'' = Some (kwarg kw ''rest_host'' PyNone)"
    "cl = UrsulaConfiguration \<Longrightarrow> dict_get P ''db_filepath'' = Some (or_else (kwarg kw ''db_filepath'' PyNone) (PyPath (path_join r DEFAULT_DB_NAME)))"
proof -
  have "list_all (\<lambda>k. dict_get (own_entries cl kw r) k = None) [''node_storage'', ''federated_only'', ''keystore_path'']" by (cases cl) simp_all
  then show "dict_get P ''node_storage'' = Some (PyJson memory_storage_payload)" "dict_get P ''federated_only'' = Some (kwarg kw ''federated_only'' (PyBool False))"
    "dict_get P ''keystore_path'' = Some (keystore_text ks)"
    by (simp_all add: assms dict_get_update wf_own_entries base_entries_def identity_entries_def)
  show "dict_get P ''rest_host'' = Some (kwarg kw ''rest_host'' PyNone)"
    "dict_get P ''db_filepath'' = Some (or_else (kwarg kw ''db_filepath'' PyNone) (PyPath (path_join r DEFAULT_DB_NAME)))" if "cl = UrsulaConfiguration"
    unfolding assms dict_get_update [OF wf_own_entries] using that by simp_all
qed

lemma saveable_rereadable:
  assumes "saveable_values P" "P = dict_update (base_entries ce kw ks) (own_entries cl kw r)" "keystore_value ks"
  shows "rereadable cl P"
proof -
  have path: "\<exists>p. v = PyPath p" if "dict_get P k = Some v" "k \<in> {''registry_filepath'', ''db_filepath''}" for k v
    using assms(1) dict_get_in_set [OF that(1)] that(2) by (cases v) (auto simp: saveable_values_def list_all_iff)
  have none: "dict_get P k = None" if "\<not> payload_key cl k" for k
    using entries_keys [of k ce kw ks cl r] that dict_get_None_iff [of P k] unfolding assms(2) by blast
  have "dict_get P ''config_root'' = None" "dict_get P ''filepath'' = None" "dict_get P ''policy_registry_filepath'' = None"
    by (simp_all add: none payload_key_def)
  moreover have "castable (text_of (keystore_text ks))"
    using assms(3) by (auto simp: keystore_value_def keystore_text_def castable_def)
  moreover have "castable (text_of (PyPath p))" for p by (simp add: castable_def)
  ultimately show ?thesis
    using path [of "''registry_filepath''"] path [of "''db_filepath''"] payload_fields(3,5) [OF assms(2)]
    unfolding rereadable_def path_parameters_def by auto
qed

lemma payload_price:
  assumes P: "P = dict_update (base_entries ce kw ks) (own_entries cl kw r)" and "price_ok ce P"
  shows "dict_get P ''max_gas_price'' = None \<or> dict_get P ''max_gas_price'' = Some PyNone \<or>
    (\<exists>t. dict_get P ''max_gas_price'' = Some (PyStr t) \<and> ce_decimal ce (JStr t) = Inr (t, True) \<and> t \<noteq> [])"
proof (cases "is_true (kwarg kw ''federated_only'' (PyBool False))")
  case True
  have "dict_get (own_entries cl kw r) ''max_gas_price'' = None" by (cases cl) simp_all
  with True show ?thesis by (simp add: P dict_get_update wf_own_entries base_entries_def identity_entries_def)
next
  case False
  from payload_chain_get [OF this, of "''max_gas_price''" ce ks cl r] assms(2) show ?thesis
    by (auto simp: P [symmetric] chain_keys_def chain_entries_def Let_def price_ok_def split: if_splits)
qed

lemma no_filepath_entry:
  assumes P: "P = dict_update (base_entries ce kw ks) (own_entries cl kw r)" and "\<forall>k. dict_get D k = assembled ce cl P k"
  shows "''filepath'' \<notin> set (dict_keys D)"
proof -
  have "assembled ce cl P ''filepath'' = None"
    using entries_keys [of "''filepath''" ce kw ks cl r] dict_get_None_iff [of P "''filepath''"]
    unfolding assembled_def reread_def P payload_key_def by auto
  then show ?thesis using assms(2) dict_get_None_iff [of D "''filepath''"] by metis
qed

text \<open>
  C38. A configuration that was made with the constructor and written to its file is read from that file: the new object has the same payload, and
  remembers the file. Its root directory, however, is the default one. This holds when the values are ones that JSON and paths can carry, the
  keystore is still there, the text of the maximum gas price is a decimal's, and the services that the constructor asks answer.
\<close>

theorem config_file_roundtrip:
  assumes "new_config ce cl kw fs0 = (Inr c, fs1)" "\<not> is_true (kwarg kw ''dev_mode'' (PyBool False))"
    and "to_configuration_file ce cl filepath modifier override c fs2 = (Inr p, c1, fs3)"
    and "static_payload ce cl c = Inr P" "saveable_values P" "price_ok ce P" "keystore_loads c fs3" "services_answer ce"
  shows "\<exists>c' fs4. from_configuration_file ce cl (Some p) [] fs3 = (Inr c', fs4) \<and> static_payload ce cl c' = Inr P \<and>
    dict_get c' ''config_file_location'' = Some (PyPath p) \<and> dict_get c' ''config_root'' = Some (PyPath (ce_default_root ce))"
proof -
  from new_config_acceptable [OF assms(1,2)] obtain ks r where acc: "acceptable ce cl kw fs0 ks r" by blast
  from new_config_facts [OF acc] assms(1) have facts: "config_facts cl kw ks c" "own_facts cl kw r c" by auto
  have ks: "keystore_value ks" using acc init_keystore_value by (auto simp: acceptable_def accepts_def)
  have P: "P = dict_update (base_entries ce kw ks) (own_entries cl kw r)"
    using static_payload_new [OF facts ks, of ce] assms(4) by simp
  let ?c = "dict_set c ''filepath'' (PyPath p)"
  obtain t where t: "serialize ce cl ?c = Inr t" "read_file fs3 p = Inr t" using saved_configuration [OF assms(3)] by blast
  have "static_payload ce cl ?c = Inr P" using static_payload_new [of cl kw ks ?c r ce] facts ks P by (simp add: facts_filepath)
  note fields = payload_fields [OF P]
  from assemble_serialized [OF t(2,1) \<open>static_payload ce cl ?c = Inr P\<close> saveable_rereadable [OF assms(5) P ks] fields(1) _ payload_price [OF P assms(6)]] fields(2)
  obtain D where D: "assemble ce cl p [] fs3 = Inr D" "\<forall>k. dict_get D k = assembled ce cl P k" by auto
  define kw' where "kw' = (''filepath'', PyPath p) # D"
  have same: "same_kwargs ce cl P kw'" using D(2) by (simp add: same_kwargs_def kw'_def)
  have "is_true (kwarg kw' ''rest_host'' PyNone)" if "cl = UrsulaConfiguration"
    using acc that fields(4) [OF that] same_kwargs_get [OF same assms(5), of "''rest_host''"]
    by (simp add: acceptable_def kwarg_def unchanged_keys_def)
  moreover have "clean_path (kst_path k) \<and> \<not> isl (new_keystore fs3 (kst_path k))" if "ks = PyKeystore k" for k
    using assms(7) facts(1) that by (simp add: keystore_loads_def config_facts_def Let_def)
  ultimately obtain ks' where ks': "acceptable ce cl kw' fs3 ks' (ce_default_root ce)" "keystore_value ks'" "keystore_text ks' = keystore_text ks"
    using reread_acceptable [OF kw'_def D(2) P ks _ _ assms(8)] by blast
  from new_config_facts [OF ks'(1)] obtain c' fs4 where c': "new_config ce cl kw' fs3 = (Inr c', fs4)" "config_facts cl kw' ks' c'" "own_facts cl kw' (ce_default_root ce) c'"
    "place_facts ce cl kw' (ce_default_root ce) c'" by blast
  have "identity_entries kw' ks' = identity_entries kw ks" by (rule identity_again [OF same assms(5) P ks'(3)])
  moreover from this have fed: "kwarg kw' ''federated_only'' (PyBool False) = kwarg kw ''federated_only'' (PyBool False)"
    by (simp add: identity_entries_def)
  ultimately have "base_entries ce kw' ks' = base_entries ce kw ks"
    using chain_again [OF same assms(5) P assms(6)] by (simp add: base_entries_def)
  with own_again [OF same assms(5) P assms(6) fed] static_payload_new [OF c'(2,3) ks'(2), of ce] P
  have "static_payload ce cl c' = Inr P" by simp
  moreover have "from_configuration_file ce cl (Some p) [] fs3 = (Inr c', fs4)"
    using D(1) c'(1) no_filepath_entry [OF P D(2)] by (simp add: from_configuration_file_def kw'_def)
  moreover have "dict_get c' ''config_file_location'' = Some (PyPath p)" "dict_get c' ''config_root'' = Some (PyPath (ce_default_root ce))"
    using c'(4) by (simp_all add: place_facts_def kw'_def kwarg_lists)
  ultimately show ?thesis by blast
qed

definition demo_payload :: py_dict where
  "demo_payload = (case static_payload config_demo_env AliceConfiguration config_demo_alice of Inr P \<Rightarrow> P | Inl _ \<Rightarrow> [])"

lemma demo_payload_eq [code]:
  "demo_payload =
     [(''federated_only'', PyBool False), (''checksum_address'', PyNone),
     (''keystore_path'', PyNone), (''domain'', PyStr ''mainnet''),
     (''learn_on_same_thread'', PyBool False),
     (''abort_on_learning_error'', PyBool False),
     (''start_learning_now'', PyBool True),
     (''save_metadata'', PyBool True),
     (''node_storage'',
     PyJson (JObj [(''storage_type'', JStr '':memory:'')])),
     (''lonely'', PyBool False),
     (''eth_provider_uri'', PyStr ''http://x''), (''poa'', PyNone),
     (''light'', PyBool False), (''signer_uri'', PyStr ''http://x''),
     (''registry_filepath'', PyPath [''data'', ''reg.json'']),
     (''gas_strategy'', PyStr ''fast''), (''max_gas_price'', PyStr ''7''),
     (''threshold'', PyInt 2), (''shares'', PyInt 5),
     (''store_policies'', PyBool True), (''store_cards'', PyBool True),
     (''payment_network'', PyStr ''bsc_testnet''),
     (''payment_provider'', PyStr ''http://x''),
     (''payment_method'', PyStr ''SubscriptionManager'')]"
  by code_simp

theorem config_file_roundtrip_witness:
  "\<exists>c' fs4. from_configuration_file config_demo_env AliceConfiguration (Some [''data'', ''alice.json'']) [] demo_saved = (Inr c', fs4) \<and>
     static_payload config_demo_env AliceConfiguration c' = Inr demo_payload \<and> dict_get demo_payload ''max_gas_price'' = Some (PyStr ''7'') \<and>
     dict_get c' ''config_file_location'' = Some (PyPath [''data'', ''alice.json'']) \<and> dict_get c' ''config_root'' = Some (PyPath [''root''])"
proof -
  obtain fs1 c1 where n: "new_config config_demo_env AliceConfiguration demo_kwargs config_demo_fs = (Inr config_demo_alice, fs1)"
    and s: "to_configuration_file config_demo_env AliceConfiguration None PyNone False config_demo_alice config_demo_fs = (Inr [''data'', ''alice.json''], c1, demo_saved)"
    using demo_new demo_save by blast
  have "\<not> isl (static_payload config_demo_env AliceConfiguration config_demo_alice)" by code_simp
  then have P: "static_payload config_demo_env AliceConfiguration config_demo_alice = Inr demo_payload"
    by (auto simp: demo_payload_def split: sum.splits)
  have live: "\<not> is_true (kwarg demo_kwargs ''dev_mode'' (PyBool False))" by code_simp
  have ok: "saveable_values demo_payload" by code_simp
  have price: "price_ok config_demo_env demo_payload" by code_simp
  have loads: "keystore_loads config_demo_alice demo_saved" by code_simp
  have services: "services_answer config_demo_env" by (simp add: services_answer_def config_demo_env_def)
  have "dict_get demo_payload ''max_gas_price'' = Some (PyStr ''7'')" by code_simp
  with config_file_roundtrip [OF n live s P ok price loads services] show ?thesis by (auto simp: config_demo_env_def)
qed

end
