(* ===== verification/Spec2Isabelle.thy ===== *)
theory Spec2Isabelle
  imports Nulink_Prelude Worker_Pool Weighted_Sampler Reservoir Retrieval Fleet Node_Verification Learner Payment Policy
    Cards Token Work_Tracker Availability Middleware Rest_Server Datastore
    Py_Text Files Signers Powers Keystore Porter Chain_Access Node_Storage
    Contract_Registry Eth_Client Transactions Configuration Config_Roundtrip
begin

text \<open>
  \<^bold>\<open>Verification of the NuLink core.\<close>

  NuLink is a network for proxy re-encryption. Alice grants Bob access to a label: she chooses
  nodes (Ursulas), gives each a fragment of a re-encryption key and pays. Bob collects the
  fragments that the nodes re-encrypt. Every participant learns about the nodes of the network from
  the nodes it knows; nodes with a stake confirm their operator on the chain and watch their own availability. The
  package is \<^verbatim>\<open>src/nulink\<close>; the rest of the repository (vendored packages, contracts, tests,
  deployment) is not modelled.

  \<^bold>\<open>The theories and the code.\<close>

  \<^item> \<open>Nulink_Prelude\<close>: Python's dictionaries as association lists in insertion order, slices,
    reachable states of a step relation, and the locales \<open>step_invariant\<close> and
    \<open>terminating_steps\<close> that the components interpret.
  \<^item> \<open>Worker_Pool\<close>: \<^verbatim>\<open>utilities/concurrency.py\<close>. The pool's threads (producer, processor, timeout
    watch, workers) are program counters of a record, and \<open>pool_step\<close> has all their interleavings. \<open>run_pool\<close> plays
    one given schedule, which is how the clients of the pool use it. Shown: successes are exact, giving up is
    justified, the outcome is settled once, and every run ends.
  \<^item> \<open>Weighted_Sampler\<close>, \<open>Reservoir\<close>: the sampling and the paged query of \<^verbatim>\<open>blockchain/eth/agents.py\<close>
    and \<^verbatim>\<open>policy/reservoir.py\<close>. The random numbers are a parameter in a stated range. The locale
    \<open>value_source\<close> is the contract between a reservoir and whoever draws from it.
  \<^item> \<open>Retrieval\<close>: \<^verbatim>\<open>network/retrieval.py\<close> and \<^verbatim>\<open>policy/kits.py\<close>, over the worker pool. Shown: what is
    returned was verified, enough successes make a kit decryptable, and when a partial retrieval raises.
  \<^item> \<open>Fleet\<close>: \<^verbatim>\<open>acumen/perception.py\<close>, with a refinement to an abstract map of metadata.
  \<^item> \<open>Node_Verification\<close>, \<open>Learner\<close>: \<^verbatim>\<open>network/nodes.py\<close>. The verification of a stranger, the loop that learns,
    seeds and cycles teachers, and the waits for nodes.
  \<^item> \<open>Payment\<close>: \<^verbatim>\<open>policy/payment.py\<close>; the locale \<open>payment_method\<close> is the interface a policy relies on.
  \<^item> \<open>Policy\<close>: \<^verbatim>\<open>policy/policies.py\<close>, \<^verbatim>\<open>policy/revocation.py\<close> and Alice's part of
    \<^verbatim>\<open>characters/lawful.py\<close>: sampling over the pool and the reservoirs, enacting, granting, revoking.
  \<^item> \<open>Cards\<close>: \<^verbatim>\<open>policy/identity.py\<close>, the serialization and the storage of character cards.
  \<^item> \<open>Token\<close>, \<open>Work_Tracker\<close>: \<^verbatim>\<open>blockchain/eth/token.py\<close>, amounts of tokens and the operator's
    commitment cycle, and the wait of \<^verbatim>\<open>Operator.block_until_ready\<close> in \<^verbatim>\<open>blockchain/eth/actors.py\<close>.
  \<^item> \<open>Availability\<close>: \<^verbatim>\<open>network/trackers.py\<close>, the availability score.
  \<^item> \<open>Middleware\<close>: \<^verbatim>\<open>network/middleware.py\<close> and \<^verbatim>\<open>utilities/version.py\<close>, the HTTP client: certificates, retries,
    status codes as exceptions, and the version that is appended to metadata. Shown: every request returns, and the
    version comes off again exactly when the separator is not in the payload.
  \<^item> \<open>Rest_Server\<close>: \<^verbatim>\<open>network/server.py\<close>, the endpoints of a node, and what the learner, the retrieval
    client and the availability tracker make of their answers. Shown: re-encryption from Bob's request to his
    fragments.
  \<^item> \<open>Datastore\<close>: \<^verbatim>\<open>datastore/\<close>, records over an ordered store of bytes; the locale \<open>key_value_store\<close> is what they
    rely on of LMDB. Shown: transactions are atomic, what is written is read, queries are exact.
  \<^item> \<open>Py_Text\<close>, \<open>Files\<close>: what the components use of Python's texts (numbers, hexadecimal, \<^verbatim>\<open>rstrip\<close>)
    and of a file system with modes and a umask. They model the language's library, not code of the package.
  \<^item> \<open>Signers\<close>: the decorator \<^verbatim>\<open>validate_checksum_address\<close> of \<^verbatim>\<open>blockchain/eth/decorators.py\<close>, the signers of
    \<^verbatim>\<open>blockchain/eth/signers/\<close> and the transacting power of \<^verbatim>\<open>crypto/powers.py\<close>. The locales \<open>signer\<close> and
    \<open>locking_signer\<close> are what the power relies on. Shown: the decorator's memory changes no decision, signatures are made with
    decrypted keys only, and a power whose account is locked signs no more.
  \<^item> \<open>Powers\<close>: \<^verbatim>\<open>crypto/keypairs.py\<close>, \<^verbatim>\<open>crypto/signing.py\<close> and the rest of \<^verbatim>\<open>crypto/powers.py\<close>. Shown: a
    character's powers are of the class they are stored under, with their public keys.
  \<^item> \<open>Keystore\<close>: \<^verbatim>\<open>crypto/keystore.py\<close> and \<^verbatim>\<open>crypto/passwords.py\<close>, over \<open>Files\<close> and \<open>Powers\<close>. Shown: what is
    restored can be unlocked, what is saved is private to its owner, and the discipline of locking.
  \<^item> \<open>Porter\<close>: \<^verbatim>\<open>utilities/porter/porter.py\<close>, over the worker pool and the reservoirs. Shown: what the answer to a
    request for nodes holds. The locale \<open>drawn_values\<close> says what a pool does with the values it draws.
  \<^item> \<open>Chain_Access\<close>: \<^verbatim>\<open>blockchain/middleware/retry.py\<close>, \<^verbatim>\<open>utilities/datafeeds.py\<close> and
    \<^verbatim>\<open>utilities/gas_strategies.py\<close>. Shown: the number of requests and the time slept, and the bounds of the gas price.
  \<^item> \<open>Node_Storage\<close>: \<^verbatim>\<open>config/storages.py\<close>; the locale \<open>node_storage\<close> is the contract that the storage in
    memory and the storage in files both meet.
  \<^item> \<open>Contract_Registry\<close>: \<^verbatim>\<open>blockchain/eth/registry.py\<close> and the lookups of contracts of
    \<^verbatim>\<open>blockchain/eth/interfaces.py\<close>. The locale \<open>contract_registry\<close> is met by the registry in a file and the one in memory. Shown: what is enrolled
    is found, and what a contract found through a proxy is.
  \<^item> \<open>Eth_Client\<close>: \<^verbatim>\<open>blockchain/eth/clients.py\<close>, \<^verbatim>\<open>networks.py\<close> and \<^verbatim>\<open>events.py\<close>. Shown: the wait for a receipt ends, with the
    confirmations it was asked for, and events in batches are all the events.
  \<^item> \<open>Transactions\<close>: the building, signing and sending of transactions in \<^verbatim>\<open>blockchain/eth/interfaces.py\<close>, over \<open>Signers\<close>,
    \<open>Chain_Access\<close> and \<open>Eth_Client\<close>. Shown: the outcomes of sending, the bounds of the gas limit, and that only unlocked accounts send.
  \<^item> \<open>Configuration\<close>, \<open>Config_Roundtrip\<close>: \<^verbatim>\<open>config/base.py\<close>, \<^verbatim>\<open>config/characters.py\<close> and \<^verbatim>\<open>config/util.py\<close>, over \<open>Keystore\<close>
    and \<open>Node_Storage\<close>. A configuration object is the dictionary of its attributes. Shown: what an update does to the object and its file, that saving keeps
    the files that exist, and that a saved configuration is read with the same payload.
  \<^item> This theory: properties of several components. An exchange of metadata through client and server
    spreads the fleet (\<open>Learner\<close>, \<open>Middleware\<close>, \<open>Rest_Server\<close>); an unreachable node is not scored
    (\<open>Availability\<close>, \<open>Middleware\<close>, \<open>Rest_Server\<close>).

  \<^bold>\<open>How it is modelled.\<close> An object is a record, a method a function from the record to the record
  with a result, an exception a value \<open>Inl\<close> of an error type. Dictionaries keep Python's insertion order, since the
  code iterates over them. What other code answers is an argument: contracts, the network, the clock, random numbers, the order of a
  set, and the libraries of cryptography and serialization. What the code relies on of these is a
  named predicate (\<open>rng_in_range\<close>, \<open>verifies\<close>, \<open>serves\<close>, \<open>splits_ok\<close>, \<open>currency_ok\<close>,
  \<open>float_ok\<close>, \<open>carries_request\<close>, \<open>carries_response\<close>, \<open>reencryption_ok\<close>, \<dots>) that states their documented behaviour; each witness has an instance.
  Floating-point scores are rationals with the rounding operations as parameters.

  \<^bold>\<open>Loops and fuel.\<close> There is no fuel. Loops over data are structural recursion. Loops that may run
  for ever (the paged query, the waits, the retries for a certificate) are \<open>partial_function (option)\<close>, where not returning is
  \<open>None\<close>, and that they return is a theorem. Threads are step relations; that the pool always finishes is a theorem over
  all its runs.

  \<^bold>\<open>Not modelled.\<close> The command line and web interfaces (\<^verbatim>\<open>cli\<close>, \<^verbatim>\<open>control\<close>,
  \<^verbatim>\<open>characters/control\<close>), the deployment of contracts and nodes, the connection to a
  provider and the contract agents, and the wiring of the characters. The cryptographic library, Scrypt, the secret box, the mnemonic words, the accounts of Ethereum and the
  devices are parameters. Of the signers, the URIs and the signers that forward to another process are left out. Of the
  REST server, the status page and the signature of the node's address are left out. Logging is left out throughout.
\<close>







text \<open>
  A node that cannot be reached at all keeps its availability score. A responder that is asked to check it, and has no certificate of it, fetches one; when all attempts
  time out or the address is wrong, the check ends with status 500 instead of a report, and the node that
  asked leaves its state as it is. Only when the certificate is served and the request after it fails does the
  responder report the node as unreachable, which lowers the score.
\<close>

theorem unreachable_node_not_scored:
  assumes "parse data = Inr (host, port)" "host \<noteq> ''''" "port \<noteq> 0" "dict_get store (host, port) = None"
    and "fetch_information io nw decode current store host port = Some (information host port)"
  shows "((\<forall>i \<le> RETRY_ATTEMPTS. nw_fetch nw i = CertTimeout) \<or> nw_fetch nw 0 = CertAddressError
      \<longrightarrow> measure_sample fl now [(addr, answer_check txt page parse information host data)] a = (Inr (), a))
    \<and> (\<forall>c s. nw_fetch nw 0 = CertFetched c \<and> store_node_certificate io c port store = (Inr (), s) \<and> nw_send nw c = SendDown
      \<longrightarrow> measure_sample fl now [(addr, answer_check txt page parse information host data)] a
          = (Inr (), record_result fl now (Some False) ''response.json'' (a\<lparr>av_responders := insert addr (av_responders a)\<rparr>)))"
proof -
  note request = fetch_information_def request_information_def exempt_request_def perform_request_def parse_node_or_host_and_port_def
    execute_method_def Let_def node_information_def send_error_def
  note answer = answer_check_def check_availability_def flask_def raise_for_status_def check_reply_of_def measure_def Let_def
  have "information host port = Inl MwUnreachable" if "(\<forall>i \<le> RETRY_ATTEMPTS. nw_fetch nw i = CertTimeout) \<or> nw_fetch nw 0 = CertAddressError"
  proof -
    from that have "get_certificate io (nw_fetch nw) port RETRY_ATTEMPTS 0 store \<in> {Some (Inl CertRefused, store), Some (Inl CertGaiError, store)}"
    proof
      assume "nw_fetch nw 0 = CertAddressError"
      then show ?thesis by (subst get_certificate.simps) simp
    qed (simp add: get_certificate_timeouts)
    with assms(2-5) show ?thesis by (auto simp: request)
  qed
  moreover have "information host port = Inl MwDown"
    if "nw_fetch nw 0 = CertFetched c" "store_node_certificate io c port store = (Inr (), s)" "nw_send nw c = SendDown" for c s
  proof -
    from that(1,2) have "get_certificate io (nw_fetch nw) port RETRY_ATTEMPTS 0 store = Some (Inr c, s)" by (subst get_certificate.simps) simp
    with that(3) assms(2-5) show ?thesis by (simp add: request)
  qed
  ultimately show ?thesis using assms(1) by (auto simp: answer)
qed

definition down_network :: "bool network" where
  "down_network = \<lparr>nw_fetch = (\<lambda>_. CertTimeout), nw_send = (\<lambda>_. SendDown)\<rparr>"

theorem unreachable_node_not_scored_witness:
  "measure_sample demo_float 0 [(''a'', answer_check (\<lambda>_. '''') '''' (\<lambda>_. Inr (''1.1.1.1'', 9151))
      (\<lambda>h p. Inl MwUnreachable) ''1.1.1.1'' ''m'')] (new_availability True) = (Inr (), new_availability True)"
proof -
  have "fetch_information demo_io down_network Some ''0.2.0'' [] ''1.1.1.1'' 9151 = Some (Inl MwUnreachable)" by code_simp
  from unreachable_node_not_scored [where information = "\<lambda>h p. Inl MwUnreachable" and parse = "\<lambda>_. Inr (''1.1.1.1'', 9151)"
      and data = "''m''", OF refl _ _ _ this]
  show ?thesis by (simp add: down_network_def)
qed

end
